(* ===== verification/Prelude.thy ===== *)
theory Prelude
  imports Complex_Main "HOL-Library.Multiset"
begin

text \<open>
  What every component of the development shares: results of operations that throw, the checks
  the TypeScript sources repeat (non-empty text, safe integers), property access on plain
  JavaScript objects with the names they inherit, and the stable sort with its comparator laws.

  Numbers: where the source checks \<open>Number.isSafeInteger\<close> before it uses a number, the number is an
  \<open>int\<close> here and the check is on its range; a fraction or \<open>NaN\<close> fails that same check in the
  source. Strings are \<open>string\<close>, one character per code unit.
\<close>

section \<open>Hints\<close>

named_theorems result_simps \<open>inversion of a sequence of fallible steps\<close>
named_theorems js_simps \<open>plain JavaScript values: checks, property access\<close>

section \<open>Results of operations that may throw\<close>

type_synonym ('e, 'a) result = "'e + 'a"

primrec and_then :: "('e, 'a) result \<Rightarrow> ('a \<Rightarrow> ('e, 'b) result) \<Rightarrow> ('e, 'b) result" where
  "and_then (Inl e) f = Inl e"
| "and_then (Inr x) f = f x"

definition ensure :: "bool \<Rightarrow> 'e \<Rightarrow> ('e, unit) result" where
  "ensure ok e = (if ok then Inr () else Inl e)"

primrec for_each :: "('a \<Rightarrow> ('e, unit) result) \<Rightarrow> 'a list \<Rightarrow> ('e, unit) result" where
  "for_each f [] = Inr ()"
| "for_each f (x # xs) = and_then (f x) (\<lambda>_. for_each f xs)"

primrec traverse :: "('a \<Rightarrow> ('e, 'b) result) \<Rightarrow> 'a list \<Rightarrow> ('e, 'b list) result" where
  "traverse f [] = Inr []"
| "traverse f (x # xs) = and_then (f x) (\<lambda>y. and_then (traverse f xs) (\<lambda>ys. Inr (y # ys)))"

lemma and_then_Inr [result_simps]:
  "and_then r f = Inr y \<longleftrightarrow> (\<exists>x. r = Inr x \<and> f x = Inr y)"
  by (cases r) auto

lemma and_then_cong [fundef_cong]:
  "r = r' \<Longrightarrow> (\<And>x. r' = Inr x \<Longrightarrow> f x = g x) \<Longrightarrow> and_then r f = and_then r' g"
  by (cases r') auto

lemma ensure_Inr [result_simps]: "ensure ok e = Inr u \<longleftrightarrow> ok"
  by (simp add: ensure_def)

lemma ensure_simps [simp]: "ensure True e = Inr ()" "ensure False e = Inl e"
  by (simp_all add: ensure_def)

lemma for_each_Inr [result_simps]: "for_each f xs = Inr u \<longleftrightarrow> (\<forall>x \<in> set xs. f x = Inr ())"
  by (induction xs) (auto simp: and_then_Inr)

lemma for_each_cong [fundef_cong]:
  "xs = ys \<Longrightarrow> (\<And>x. x \<in> set ys \<Longrightarrow> f x = g x) \<Longrightarrow> for_each f xs = for_each g ys"
  by (induction ys arbitrary: xs) (auto intro: and_then_cong)

lemma traverse_Inr:
  "traverse f xs = Inr ys \<longleftrightarrow> list_all2 (\<lambda>x y. f x = Inr y) xs ys"
  by (induction xs arbitrary: ys) (auto simp: and_then_Inr list_all2_Cons1)

lemma traverse_Inr_map: "traverse f xs = Inr ys \<Longrightarrow> (\<And>x y. f x = Inr y \<Longrightarrow> g y = h x) \<Longrightarrow> map g ys = map h xs"
  by (induction xs arbitrary: ys) (auto simp: and_then_Inr)

section \<open>Text and numbers\<close>

text \<open>The code units \<open>String.prototype.trim\<close> removes, among those a \<open>char\<close> can hold.\<close>

definition js_space :: "char \<Rightarrow> bool" where
  "js_space c \<longleftrightarrow> (of_char c :: nat) \<in> {9, 10, 11, 12, 13, 32, 160}"

definition blank :: "string \<Rightarrow> bool" where
  "blank s \<longleftrightarrow> list_all js_space s"

text \<open>\<open>String.prototype.startsWith\<close>.\<close>

definition starts_with :: "string \<Rightarrow> string \<Rightarrow> bool" where
  "starts_with s p \<longleftrightarrow> take (length p) s = p"

definition max_safe_integer :: int where
  "max_safe_integer = 9007199254740991"

definition safe_integer :: "int \<Rightarrow> bool" where
  "safe_integer n \<longleftrightarrow> - max_safe_integer \<le> n \<and> n \<le> max_safe_integer"

lemma blank_Nil [simp]: "blank []"
  by (simp add: blank_def)

lemma blank_Cons [js_simps]: "blank (c # s) \<longleftrightarrow> js_space c \<and> blank s"
  by (simp add: blank_def)

declare js_space_def [js_simps] safe_integer_def [js_simps] max_safe_integer_def [js_simps]

fun nat_text :: "nat \<Rightarrow> string" where
  "nat_text n = (if n < 10 then [char_of (48 + n)] else nat_text (n div 10) @ [char_of (48 + n mod 10)])"

declare nat_text.simps [simp del]

section \<open>Plain objects\<close>

text \<open>
  The source keeps several tables in plain objects (\<open>Record<string, V>\<close>). Reading a property finds
  an own property first and then one inherited from \<open>Object.prototype\<close>; the names below are the
  inherited ones.
\<close>

definition object_prototype_keys :: "string list" where
  "object_prototype_keys =
     [''constructor'', ''__defineGetter__'', ''__defineSetter__'', ''hasOwnProperty'',
      ''__lookupGetter__'', ''__lookupSetter__'', ''isPrototypeOf'', ''propertyIsEnumerable'',
      ''toString'', ''valueOf'', ''__proto__'', ''toLocaleString'']"

datatype 'a js_property = Own 'a | Inherited | Absent

definition js_get :: "(string \<rightharpoonup> 'a) \<Rightarrow> string \<Rightarrow> 'a js_property" where
  "js_get m k = (case m k of Some v \<Rightarrow> Own v
     | None \<Rightarrow> if k \<in> set object_prototype_keys then Inherited else Absent)"

text \<open>\<open>object[key] = value\<close>: a primitive assigned to \<open>__proto__\<close> is dropped.\<close>

definition js_assign :: "(string \<rightharpoonup> 'a) \<Rightarrow> string \<Rightarrow> 'a \<Rightarrow> (string \<rightharpoonup> 'a)" where
  "js_assign m k v = (if k = ''__proto__'' then m else m(k \<mapsto> v))"

lemma js_get_Own [js_simps]: "js_get m k = Own v \<longleftrightarrow> m k = Some v"
  by (simp add: js_get_def split: option.splits)

section \<open>Comparators and the stable sort\<close>

text \<open>\<open>Array.prototype.sort\<close> is stable; with a consistent comparator its result is determined.\<close>

primrec js_insert :: "('a \<Rightarrow> 'a \<Rightarrow> int) \<Rightarrow> 'a \<Rightarrow> 'a list \<Rightarrow> 'a list" where
  "js_insert cmp x [] = [x]"
| "js_insert cmp x (y # ys) = (if cmp x y \<le> 0 then x # y # ys else y # js_insert cmp x ys)"

primrec js_sort :: "('a \<Rightarrow> 'a \<Rightarrow> int) \<Rightarrow> 'a list \<Rightarrow> 'a list" where
  "js_sort cmp [] = []"
| "js_sort cmp (x # xs) = js_insert cmp x (js_sort cmp xs)"

lemma mset_js_insert [simp]: "mset (js_insert cmp x xs) = add_mset x (mset xs)"
  by (induction xs) auto

lemma mset_js_sort [simp]: "mset (js_sort cmp xs) = mset xs"
  by (induction xs) auto

lemma set_js_sort [simp]: "set (js_sort cmp xs) = set xs"
  by (metis mset_js_sort set_mset_mset)

lemma length_js_sort [simp]: "length (js_sort cmp xs) = length xs"
  by (metis mset_js_sort size_mset)

locale comparator =
  fixes cmp :: "'a \<Rightarrow> 'a \<Rightarrow> int"
  assumes sign: "0 < cmp x y \<longleftrightarrow> cmp y x < 0"
    and trans: "cmp x y \<le> 0 \<Longrightarrow> cmp y z \<le> 0 \<Longrightarrow> cmp x z \<le> 0"
begin

lemma total: "cmp x y \<le> 0 \<or> cmp y x \<le> 0"
  using sign [of x y] by linarith

lemma insert_sorted:
  "sorted_wrt (\<lambda>a b. cmp a b \<le> 0) xs \<Longrightarrow> sorted_wrt (\<lambda>a b. cmp a b \<le> 0) (js_insert cmp x xs)"
proof (induction xs)
  case (Cons y ys)
  have mem: "set (js_insert cmp x ys) = insert x (set ys)"
    by (metis mset_js_insert set_mset_add_mset_insert set_mset_mset)
  show ?case
    using Cons total [of x y] trans [of x y] by (auto simp: mem)
qed simp

lemma sort_sorted: "sorted_wrt (\<lambda>a b. cmp a b \<le> 0) (js_sort cmp xs)"
  by (induction xs) (auto intro: insert_sorted)

lemma sort_least: "x \<in> set xs \<Longrightarrow> js_sort cmp xs = y # ys \<Longrightarrow> cmp y x \<le> 0"
proof -
  assume x: "x \<in> set xs" and eq: "js_sort cmp xs = y # ys"
  have "cmp y y \<le> 0" using total [of y y] by simp
  moreover have "x = y \<or> x \<in> set ys" using x eq set_js_sort [of cmp xs] by auto
  ultimately show ?thesis using sort_sorted [of xs] eq by auto
qed

end

lemma lexicographic:
  assumes "comparator c1" and "comparator c2"
  shows "comparator (\<lambda>a b. if c1 a b \<noteq> 0 then c1 a b else c2 a b)"
proof -
  note one_sign = comparator.sign [OF assms(1)] and one_trans = comparator.trans [OF assms(1)]
  note two_sign = comparator.sign [OF assms(2)] and two_trans = comparator.trans [OF assms(2)]
  have zero: "c1 a b = 0 \<longleftrightarrow> c1 b a = 0" for a b using one_sign [of a b] one_sign [of b a] by linarith
  show ?thesis
  proof
    show "0 < (if c1 x y \<noteq> 0 then c1 x y else c2 x y) \<longleftrightarrow> (if c1 y x \<noteq> 0 then c1 y x else c2 y x) < 0" for x y
      using one_sign two_sign zero by auto
  next
    fix x y z
    assume xy: "(if c1 x y \<noteq> 0 then c1 x y else c2 x y) \<le> 0" and yz: "(if c1 y z \<noteq> 0 then c1 y z else c2 y z) \<le> 0"
    have le: "c1 x y \<le> 0" "c1 y z \<le> 0" using xy yz by (auto split: if_splits)
    have xz: "c1 x z \<le> 0" using one_trans [OF le] .
    show "(if c1 x z \<noteq> 0 then c1 x z else c2 x z) \<le> 0"
    proof (cases "c1 x z = 0")
      case True
      then have zx: "c1 z x \<le> 0" using zero [of x z] by simp
      have "c1 z y \<le> 0" "c1 y x \<le> 0" using one_trans [OF zx le(1)] one_trans [OF le(2) zx] by auto
      then have "c1 y z = 0" "c1 x y = 0" using le one_sign by (metis order_le_less not_less)+
      then show ?thesis using True xy yz two_trans [of x y z] by simp
    qed (use xz in simp)
  qed
qed

text \<open>The order of \<open>Array.prototype.sort\<close> with no comparator on strings, and of SQLite's text.\<close>

fun code_unit_compare :: "string \<Rightarrow> string \<Rightarrow> int" where
  "code_unit_compare [] [] = 0"
| "code_unit_compare [] (b # bs) = -1"
| "code_unit_compare (a # as) [] = 1"
| "code_unit_compare (a # as) (b # bs) =
     (if (of_char a :: nat) < of_char b then -1
      else if (of_char b :: nat) < of_char a then 1
      else code_unit_compare as bs)"

lemma code_unit_compare_sign: "code_unit_compare x y = - code_unit_compare y x"
  by (induction x y rule: code_unit_compare.induct) auto

lemma code_unit_compare_eq [simp]: "code_unit_compare x y = 0 \<longleftrightarrow> x = y"
  by (induction x y rule: code_unit_compare.induct) (auto simp: not_less order_antisym)

lemma code_unit_compare_trans:
  "code_unit_compare x y \<le> 0 \<Longrightarrow> code_unit_compare y z \<le> 0 \<Longrightarrow> code_unit_compare x z \<le> 0"
proof (induction x z arbitrary: y rule: code_unit_compare.induct)
  case (3 a as)
  then show ?case by (cases y) auto
next
  case (4 a as b bs)
  then show ?case
    by (cases y) (auto split: if_splits)
qed auto

interpretation code_units: comparator code_unit_compare
proof unfold_locales
  show "0 < code_unit_compare x y \<longleftrightarrow> code_unit_compare y x < 0" for x y
    using code_unit_compare_sign [of x y] by linarith
qed (rule code_unit_compare_trans)

end
