(* ===== verification/TaskGraph.thy ===== *)
theory TaskGraph
  imports Prelude
begin

text \<open>
  The task graph of a mission (\<open>src/mission/runtime.ts\<close>): task inputs and their normalisation, the
  validation with its depth-first cycle search, and the scheduler's choice of runnable tasks.
  The lemmas show that the search accepts exactly the acyclic graphs, that the runnable tasks are
  exactly the pending ones whose dependencies are verified, in scheduling order, and that an
  acyclic graph never leaves the scheduler without a runnable task while work is pending.
\<close>

section \<open>Data\<close>

datatype task_status = PENDING | RUNNING | VERIFIED | FAILED_TASK | CANCELLED_TASK

record mission_task_input =
  input_id :: string
  input_title :: string
  input_dependsOn :: "string list option"
  input_definitionOfDone :: "string list"
  input_priority :: "int option"

record mission_task =
  task_id :: string
  task_title :: string
  dependsOn :: "string list"
  definitionOfDone :: "string list"
  priority :: int

datatype task_error =
    EmptyTaskId
  | EmptyTaskTitle string
  | EmptyDefinitionOfDone string
  | DuplicateDependencies string
  | PriorityNotSafe string
  | DuplicateTaskId string
  | SelfDependency string
  | MissingDependency string string
  | GraphCycle
  | UnknownGraphTask string

section \<open>Validation\<close>

definition normalize_task :: "mission_task_input \<Rightarrow> (task_error, mission_task) result" where
  "normalize_task i =
     (if blank (input_id i) then Inl EmptyTaskId
      else if blank (input_title i) then Inl (EmptyTaskTitle (input_id i))
      else if input_definitionOfDone i = [] \<or> list_ex blank (input_definitionOfDone i)
        then Inl (EmptyDefinitionOfDone (input_id i))
      else
        (let dependencies = (case input_dependsOn i of None \<Rightarrow> [] | Some ds \<Rightarrow> ds);
             prio = (case input_priority i of None \<Rightarrow> 0 | Some p \<Rightarrow> p)
         in if \<not> distinct dependencies then Inl (DuplicateDependencies (input_id i))
            else if \<not> safe_integer prio then Inl (PriorityNotSafe (input_id i))
            else Inr \<lparr>task_id = input_id i, task_title = input_title i, dependsOn = dependencies,
                      definitionOfDone = input_definitionOfDone i, priority = prio\<rparr>))"

text \<open>\<open>byId\<close> is filled task by task; a second task of the same id stops the validation.\<close>

fun index_tasks :: "mission_task list \<Rightarrow> string list \<Rightarrow> (task_error, unit) result" where
  "index_tasks [] seen = Inr ()"
| "index_tasks (t # ts) seen =
     (if task_id t \<in> set seen then Inl (DuplicateTaskId (task_id t))
      else index_tasks ts (task_id t # seen))"

definition find_task :: "mission_task list \<Rightarrow> string \<Rightarrow> mission_task option" where
  "find_task ts i = find (\<lambda>t. task_id t = i) ts"

definition check_dependency :: "mission_task list \<Rightarrow> mission_task \<Rightarrow> string \<Rightarrow> (task_error, unit) result" where
  "check_dependency ts t d =
     (if d = task_id t then Inl (SelfDependency (task_id t))
      else if find_task ts d = None then Inl (MissingDependency (task_id t) d)
      else Inr ())"

definition check_dependencies :: "mission_task list \<Rightarrow> (task_error, unit) result" where
  "check_dependencies ts = for_each (\<lambda>t. for_each (check_dependency ts t) (dependsOn t)) ts"

text \<open>
  \<open>visit\<close>: the sets \<open>visiting\<close> and \<open>visited\<close> are lists, newest first; \<open>visiting\<close> is restored when
  a visit returns, so it is an argument and \<open>visited\<close> is the result. A nested visit has one more
  task on \<open>visiting\<close>, which is what makes the search stop.
\<close>

definition unvisiting :: "mission_task list \<Rightarrow> string list \<Rightarrow> nat" where
  "unvisiting ts visiting = length (filter (\<lambda>t. task_id t \<notin> set visiting) ts)"

lemma unvisiting_less:
  assumes "find_task ts i = Some t" and "i \<notin> set visiting"
  shows "unvisiting ts (i # visiting) < unvisiting ts visiting"
proof -
  have t: "t \<in> set ts" "task_id t = i"
    using assms(1) by (auto simp: find_task_def find_Some_iff)
  define us where "us = filter (\<lambda>u. task_id u \<notin> set visiting) ts"
  have "t \<in> set us" and "\<not> task_id t \<noteq> i"
    using t assms(2) by (auto simp: us_def)
  then have "length (filter (\<lambda>u. task_id u \<noteq> i) us) < length us"
    by (rule length_filter_less)
  moreover have "filter (\<lambda>u. task_id u \<noteq> i) us = filter (\<lambda>u. task_id u \<notin> set (i # visiting)) ts"
    unfolding us_def filter_filter by (rule filter_cong) auto
  ultimately show ?thesis
    by (simp add: unvisiting_def us_def)
qed

function (sequential) visit :: "mission_task list \<Rightarrow> string list \<Rightarrow> string list \<Rightarrow> string
    \<Rightarrow> (task_error, string list) result"
  and visit_all :: "mission_task list \<Rightarrow> string list \<Rightarrow> string list \<Rightarrow> string list
    \<Rightarrow> (task_error, string list) result" where
  "visit ts visiting visited i =
     (if i \<in> set visiting then Inl GraphCycle
      else if i \<in> set visited then Inr visited
      else (case find_task ts i of
              None \<Rightarrow> Inl (UnknownGraphTask i)
            | Some t \<Rightarrow> and_then (visit_all ts (i # visiting) visited (dependsOn t))
                          (\<lambda>visited'. Inr (i # visited'))))"
| "visit_all ts visiting visited [] = Inr visited"
| "visit_all ts visiting visited (d # ds) =
     and_then (visit ts visiting visited d) (\<lambda>visited'. visit_all ts visiting visited' ds)"
  by pat_completeness auto
termination
  by (relation "measures [\<lambda>x. case x of Inl (ts, visiting, _, _) \<Rightarrow> unvisiting ts visiting
                                      | Inr (ts, visiting, _, _) \<Rightarrow> unvisiting ts visiting,
                          \<lambda>x. case x of Inl _ \<Rightarrow> 0 | Inr (_, _, _, ds) \<Rightarrow> Suc (length ds)]")
     (auto simp: unvisiting_less)

declare visit.simps [simp del]

definition validate_task_graph :: "mission_task_input list \<Rightarrow> (task_error, mission_task list) result" where
  "validate_task_graph inputs =
     and_then (traverse normalize_task inputs) (\<lambda>ts.
     and_then (index_tasks ts []) (\<lambda>_.
     and_then (check_dependencies ts) (\<lambda>_.
     and_then (visit_all ts [] [] (map task_id ts)) (\<lambda>_. Inr ts))))"

section \<open>Scheduling\<close>

text \<open>\<open>right.priority - left.priority || left.id.localeCompare(right.id)\<close>; \<open>lc\<close> is \<open>localeCompare\<close>.\<close>

definition runnable_compare :: "(string \<Rightarrow> string \<Rightarrow> int) \<Rightarrow> mission_task \<Rightarrow> mission_task \<Rightarrow> int" where
  "runnable_compare lc l r =
     (if priority r - priority l \<noteq> 0 then priority r - priority l else lc (task_id l) (task_id r))"

definition is_runnable :: "(string \<rightharpoonup> task_status) \<Rightarrow> mission_task \<Rightarrow> bool" where
  "is_runnable statuses t \<longleftrightarrow>
     js_get statuses (task_id t) = Own PENDING \<and>
     list_all (\<lambda>d. js_get statuses d = Own VERIFIED) (dependsOn t)"

definition runnable_of :: "(string \<Rightarrow> string \<Rightarrow> int) \<Rightarrow> mission_task list \<Rightarrow> (string \<rightharpoonup> task_status)
    \<Rightarrow> mission_task list" where
  "runnable_of lc ts statuses = js_sort (runnable_compare lc) (filter (is_runnable statuses) ts)"

section \<open>What validation accepts\<close>

definition dep_edges :: "mission_task list \<Rightarrow> (string \<times> string) set" where
  "dep_edges ts = set (concat (map (\<lambda>t. map (Pair (task_id t)) (dependsOn t)) ts))"

definition known_dependencies :: "mission_task list \<Rightarrow> bool" where
  "known_dependencies ts \<longleftrightarrow> list_all (\<lambda>t. set (dependsOn t) \<subseteq> task_id ` set ts) ts"

lemma dep_edges_iff:
  "(a, b) \<in> dep_edges ts \<longleftrightarrow> (\<exists>t \<in> set ts. a = task_id t \<and> b \<in> set (dependsOn t))"
  by (auto simp: dep_edges_def)

lemma index_tasks_Inr [result_simps]:
  "index_tasks ts seen = Inr u \<longleftrightarrow> distinct (map task_id ts) \<and> task_id ` set ts \<inter> set seen = {}"
  by (induction ts seen rule: index_tasks.induct) auto

lemma find_task_None: "find_task ts i = None \<longleftrightarrow> i \<notin> task_id ` set ts"
  by (auto simp: find_task_def find_None_iff)

lemma find_task_SomeD: "find_task ts i = Some t \<Longrightarrow> t \<in> set ts \<and> task_id t = i"
  by (auto simp: find_task_def find_Some_iff)

lemma find_task_member:
  assumes "distinct (map task_id ts)" and "t \<in> set ts"
  shows "find_task ts (task_id t) = Some t"
proof -
  obtain u where u: "find_task ts (task_id t) = Some u"
    using assms(2) find_task_None by fastforce
  then have "u \<in> set ts" "task_id u = task_id t" by (simp_all add: find_task_SomeD)
  then have "u = t" using assms by (auto simp: distinct_map dest: inj_onD)
  with u show ?thesis by simp
qed

lemma check_dependencies_Inr [result_simps]:
  "check_dependencies ts = Inr u \<longleftrightarrow>
     known_dependencies ts \<and> (\<forall>t \<in> set ts. task_id t \<notin> set (dependsOn t))"
  by (auto simp: check_dependencies_def check_dependency_def known_dependencies_def list_all_iff
      for_each_Inr find_task_None)

text \<open>
  The finished tasks, newest first, are in dependency order: every task stands before the tasks
  it depends on.
\<close>

fun finished_order :: "mission_task list \<Rightarrow> string list \<Rightarrow> bool" where
  "finished_order ts [] \<longleftrightarrow> True"
| "finished_order ts (i # is) \<longleftrightarrow> finished_order ts is \<and> i \<notin> set is \<and>
     (case find_task ts i of None \<Rightarrow> False | Some t \<Rightarrow> set (dependsOn t) \<subseteq> set is)"

lemma visit_finished:
  "visit ts visiting visited i = Inr r \<Longrightarrow> finished_order ts visited \<Longrightarrow>
     set visited \<inter> set visiting = {} \<Longrightarrow>
     finished_order ts r \<and> i \<in> set r \<and> set visited \<subseteq> set r \<and> set r \<inter> set visiting = {}"
  "visit_all ts visiting visited ds = Inr r \<Longrightarrow> finished_order ts visited \<Longrightarrow>
     set visited \<inter> set visiting = {} \<Longrightarrow>
     finished_order ts r \<and> set ds \<subseteq> set r \<and> set visited \<subseteq> set r \<and> set r \<inter> set visiting = {}"
proof (induction ts visiting visited i and ts visiting visited ds
    arbitrary: r and r rule: visit_visit_all.induct)
  case (1 ts visiting visited i)
  show ?case
  proof (cases "i \<in> set visited")
    case True
    with 1 show ?thesis by (auto simp: visit.simps [of ts visiting visited i] split: if_splits)
  next
    case False
    with "1.prems"(1) obtain t r' where i: "i \<notin> set visiting" and t: "find_task ts i = Some t"
      and r': "visit_all ts (i # visiting) visited (dependsOn t) = Inr r'" and r: "r = i # r'"
      by (auto simp: visit.simps [of ts visiting visited i] and_then_Inr split: if_splits option.splits)
    have "finished_order ts r' \<and> set (dependsOn t) \<subseteq> set r' \<and> set visited \<subseteq> set r'
        \<and> set r' \<inter> set (i # visiting) = {}"
      using "1.IH" [OF i False t r'] "1.prems" False by auto
    with t i r show ?thesis by auto
  qed
next
  case (3 ts visiting visited d ds)
  from "3.prems"(1) obtain r' where r': "visit ts visiting visited d = Inr r'"
    and r: "visit_all ts visiting r' ds = Inr r" by (auto simp: and_then_Inr)
  note first = "3.IH"(1) [OF r' "3.prems"(2,3)]
  with "3.IH"(2) [OF r' r] show ?case by auto
qed auto

lemma finished_order_deps:
  assumes "finished_order ts is" and "i \<in> set is" and "find_task ts i = Some t"
    and "d \<in> set (dependsOn t)"
  shows "d \<in> set is \<and> length (dropWhile ((\<noteq>) d) is) < length (dropWhile ((\<noteq>) i) is)"
  using assms
proof (induction "is")
  case (Cons x xs)
  show ?case
  proof (cases "i = x")
    case True
    with Cons.prems have "d \<in> set xs" "d \<noteq> x" by auto
    moreover have "length (dropWhile ((\<noteq>) d) xs) \<le> length xs" by (rule length_dropWhile_le)
    ultimately show ?thesis using True by simp
  next
    case False
    with Cons have d: "d \<in> set xs \<and> length (dropWhile ((\<noteq>) d) xs) < length (dropWhile ((\<noteq>) i) xs)"
      by auto
    moreover have "d \<noteq> x" using d Cons.prems(1) by auto
    ultimately show ?thesis using False by simp
  qed
qed simp

lemma visit_accepts:
  "acyclic (dep_edges ts) \<Longrightarrow> distinct (map task_id ts) \<Longrightarrow> known_dependencies ts \<Longrightarrow>
     i \<in> task_id ` set ts \<Longrightarrow> (\<forall>v \<in> set visiting. (v, i) \<in> (dep_edges ts)\<^sup>+) \<Longrightarrow>
     \<exists>r. visit ts visiting visited i = Inr r"
  "acyclic (dep_edges ts) \<Longrightarrow> distinct (map task_id ts) \<Longrightarrow> known_dependencies ts \<Longrightarrow>
     set ds \<subseteq> task_id ` set ts \<Longrightarrow> (\<forall>v \<in> set visiting. \<forall>d \<in> set ds. (v, d) \<in> (dep_edges ts)\<^sup>+) \<Longrightarrow>
     \<exists>r. visit_all ts visiting visited ds = Inr r"
proof (induction ts visiting visited i and ts visiting visited ds rule: visit_visit_all.induct)
  case (1 ts visiting visited i)
  obtain t where t: "find_task ts i = Some t"
    using "1.prems"(4) find_task_None by fastforce
  then have mem: "t \<in> set ts" "task_id t = i" by (simp_all add: find_task_SomeD)
  have i: "i \<notin> set visiting"
    using "1.prems"(1,5) by (auto simp: acyclic_def)
  have deps: "set (dependsOn t) \<subseteq> task_id ` set ts"
    using "1.prems"(3) mem by (auto simp: known_dependencies_def list_all_iff)
  have "(i, d) \<in> dep_edges ts" if "d \<in> set (dependsOn t)" for d
    using that mem by (auto simp: dep_edges_iff)
  then have "\<forall>v \<in> set (i # visiting). \<forall>d \<in> set (dependsOn t). (v, d) \<in> (dep_edges ts)\<^sup>+"
    using "1.prems"(5) by (auto intro: trancl_into_trancl)
  then have "i \<notin> set visited \<Longrightarrow>
      \<exists>r. visit_all ts (i # visiting) visited (dependsOn t) = Inr r"
    using "1.IH" [OF i _ t] "1.prems"(1,2,3) deps by simp
  then show ?case using i t by (auto simp: visit.simps [of ts visiting visited i])
next
  case (3 ts visiting visited d ds)
  then obtain r' where r': "visit ts visiting visited d = Inr r'" by fastforce
  with 3 show ?case by simp
qed auto

lemma validate_task_graph_iff:
  "validate_task_graph inputs = Inr ts \<longleftrightarrow>
     traverse normalize_task inputs = Inr ts \<and> distinct (map task_id ts) \<and>
     known_dependencies ts \<and> acyclic (dep_edges ts)"
  (is "?accepted \<longleftrightarrow> ?wf")
proof
  assume ?accepted
  then obtain r where base: "traverse normalize_task inputs = Inr ts" "distinct (map task_id ts)"
      "known_dependencies ts"
    and r: "visit_all ts [] [] (map task_id ts) = Inr r"
    by (auto simp: validate_task_graph_def result_simps)
  have r_order: "finished_order ts r" and all: "task_id ` set ts \<subseteq> set r"
    using visit_finished(2) [OF r] by auto
  have "length (dropWhile ((\<noteq>) b) r) < length (dropWhile ((\<noteq>) a) r)"
    if "(a, b) \<in> dep_edges ts" for a b
  proof -
    obtain t where t: "t \<in> set ts" "a = task_id t" "b \<in> set (dependsOn t)"
      using \<open>(a, b) \<in> dep_edges ts\<close> by (auto simp: dep_edges_iff)
    then have "find_task ts a = Some t" "a \<in> set r"
      using base(2) all by (auto simp: find_task_member)
    from finished_order_deps [OF r_order this(2,1) t(3)] show ?thesis by simp
  qed
  then have "acyclic (dep_edges ts)"
    by (rule acyclicI_order [where f = "\<lambda>i. length (dropWhile ((\<noteq>) i) r)"])
  with base show ?wf by simp
next
  assume wf: ?wf
  then obtain r where "visit_all ts [] [] (map task_id ts) = Inr r"
    using visit_accepts(2) [of ts "map task_id ts" "[]" "[]"] by auto
  moreover have "task_id t \<notin> set (dependsOn t)" if "t \<in> set ts" for t
  proof
    assume "task_id t \<in> set (dependsOn t)"
    with that have "(task_id t, task_id t) \<in> (dep_edges ts)\<^sup>+"
      by (intro r_into_trancl) (auto simp: dep_edges_iff)
    then show False using wf by (auto simp: acyclic_def)
  qed
  ultimately show ?accepted
    using wf by (auto simp: validate_task_graph_def result_simps)
qed

section \<open>What the scheduler offers\<close>

text \<open>
  \<open>localeCompare\<close> is the runtime's collation; the scheduler needs of it only that it is a
  consistent comparator, which the code-unit order is.
\<close>

lemma runnable_comparator:
  assumes "comparator lc"
  shows "comparator (runnable_compare lc)"
proof
  show "0 < runnable_compare lc x y \<longleftrightarrow> runnable_compare lc y x < 0" for x y
    using comparator.sign [OF assms] by (auto simp: runnable_compare_def)
  show "runnable_compare lc x z \<le> 0"
    if "runnable_compare lc x y \<le> 0" and "runnable_compare lc y z \<le> 0" for x y z
    using that comparator.trans [OF assms, of "task_id x" "task_id y" "task_id z"]
    by (auto simp: runnable_compare_def split: if_splits)
qed

interpretation by_priority: comparator "runnable_compare code_unit_compare"
  by (rule runnable_comparator) (rule code_units.comparator_axioms)

lemma set_runnable_of [simp]:
  "set (runnable_of lc ts statuses) = {t \<in> set ts. is_runnable statuses t}"
  by (simp add: runnable_of_def)

lemma runnable_of_sorted:
  assumes "comparator lc"
  shows "sorted_wrt (\<lambda>l r. priority l > priority r \<or>
           (priority l = priority r \<and> lc (task_id l) (task_id r) \<le> 0)) (runnable_of lc ts statuses)"
  unfolding runnable_of_def
  using comparator.sort_sorted [OF runnable_comparator [OF assms], of "filter (is_runnable statuses) ts"]
  by (rule sorted_wrt_mono_rel [rotated]) (auto simp: runnable_compare_def split: if_splits)

lemma finite_dep_edges: "finite (dep_edges ts)"
  by (simp add: dep_edges_def)

text \<open>
  While every task is pending or verified and one is pending, one is runnable: take a pending task
  none of whose dependencies is pending.
\<close>

lemma runnable_exists:
  assumes "acyclic (dep_edges ts)" and "known_dependencies ts"
    and "t \<in> set ts" and "statuses (task_id t) = Some PENDING"
    and settled: "\<forall>u \<in> set ts. statuses (task_id u) = Some PENDING \<or> statuses (task_id u) = Some VERIFIED"
  shows "\<exists>u. u \<in> set ts \<and> is_runnable statuses u"
proof -
  let ?pending = "{i. statuses i = Some PENDING} \<inter> task_id ` set ts"
  have "wf ((dep_edges ts)\<inverse>)"
    using assms(1) finite_dep_edges by (simp add: finite_acyclic_wf acyclic_converse)
  moreover have "task_id t \<in> ?pending" using assms(3,4) by auto
  ultimately obtain i where i: "i \<in> ?pending"
    and least: "\<And>d. (d, i) \<in> (dep_edges ts)\<inverse> \<Longrightarrow> d \<notin> ?pending"
    by (metis wfE_min)
  then obtain u where u: "u \<in> set ts" "task_id u = i" by auto
  have "statuses d = Some VERIFIED" if "d \<in> set (dependsOn u)" for d
  proof -
    have "d \<in> task_id ` set ts"
      using assms(2) u that by (auto simp: known_dependencies_def list_all_iff)
    moreover have "d \<notin> ?pending" using least u that by (auto simp: dep_edges_iff)
    ultimately show ?thesis using settled by auto
  qed
  with u i have "is_runnable statuses u"
    by (auto simp: is_runnable_def list_all_iff js_get_Own)
  with u show ?thesis by blast
qed

end
