(* ===== verification/EventStore.thy ===== *)
theory EventStore
  imports Prelude
begin

text \<open>
  The append-only event store (\<open>src/events/store.ts\<close>): the \<open>EventStore\<close> interface as a locale, and
  \<open>InMemoryEventStore\<close> with its streams, its idempotency records and its optimistic version check.
  \<open>date_parse\<close> stands for \<open>Date.parse\<close> (\<open>None\<close> is \<open>NaN\<close>) and \<open>fingerprint\<close> for the
  canonical JSON text of a batch (\<open>stableFingerprint\<close>).
\<close>

section \<open>Data\<close>

record 'd append_item =
  item_occurredAt :: string
  item_data :: 'd

record 'd stored_event =
  missionId :: string
  sequence :: int
  aggregateVersion :: int
  idempotencyKey :: string
  occurredAt :: string
  event_data :: 'd

record ('d, 'f) idempotency_record =
  rec_fingerprint :: 'f
  rec_events :: "'d stored_event list"

record ('d, 'f) memory_store =
  streams :: "string \<rightharpoonup> 'd stored_event list"
  idempotency :: "string \<rightharpoonup> ('d, 'f) idempotency_record"

datatype store_error =
    EmptyIdentifier string
  | VersionNotSafe
  | EmptyBatch
  | UnparseableTimestamp
  | KeyReusedForOtherBatch
  | VersionConflict int int

section \<open>Operations\<close>

definition assert_identifier :: "string \<Rightarrow> string \<Rightarrow> (store_error, unit) result" where
  "assert_identifier value name = ensure (\<not> blank value) (EmptyIdentifier name)"

definition check_item :: "(string \<Rightarrow> int option) \<Rightarrow> 'd append_item \<Rightarrow> (store_error, unit) result" where
  "check_item date_parse item =
     ensure (\<not> (blank (item_occurredAt item) \<or> date_parse (item_occurredAt item) = None))
       UnparseableTimestamp"

text \<open>The events of a batch, numbered from \<open>version + 1\<close>.\<close>

primrec number_events :: "string \<Rightarrow> string \<Rightarrow> int \<Rightarrow> 'd append_item list \<Rightarrow> 'd stored_event list" where
  "number_events m key version [] = []"
| "number_events m key version (item # items) =
     \<lparr>missionId = m, sequence = version + 1, aggregateVersion = version + 1, idempotencyKey = key,
      occurredAt = item_occurredAt item, event_data = item_data item\<rparr>
     # number_events m key (version + 1) items"

definition idempotency_scope :: "string \<Rightarrow> string \<Rightarrow> string" where
  "idempotency_scope m key = m @ CHR 0x00 # key"

definition current_stream :: "('d, 'f) memory_store \<Rightarrow> string \<Rightarrow> 'd stored_event list" where
  "current_stream s m = (case streams s m of None \<Rightarrow> [] | Some evs \<Rightarrow> evs)"

definition append_events :: "(string \<Rightarrow> int option) \<Rightarrow> ('d append_item list \<Rightarrow> 'f)
    \<Rightarrow> ('d, 'f) memory_store \<Rightarrow> string \<Rightarrow> int \<Rightarrow> string \<Rightarrow> 'd append_item list
    \<Rightarrow> (store_error, 'd stored_event list \<times> ('d, 'f) memory_store) result" where
  "append_events date_parse fingerprint s m expectedVersion key items =
     and_then (assert_identifier m ''missionId'') (\<lambda>_.
     and_then (assert_identifier key ''idempotencyKey'') (\<lambda>_.
     if \<not> safe_integer expectedVersion \<or> expectedVersion < 0 then Inl VersionNotSafe
     else if items = [] then Inl EmptyBatch
     else and_then (for_each (check_item date_parse) items) (\<lambda>_.
       (case idempotency s (idempotency_scope m key) of
          Some replay \<Rightarrow>
            if rec_fingerprint replay \<noteq> fingerprint items then Inl KeyReusedForOtherBatch
            else Inr (rec_events replay, s)
        | None \<Rightarrow>
            let current = current_stream s m
            in if int (length current) \<noteq> expectedVersion
               then Inl (VersionConflict expectedVersion (int (length current)))
               else let appended = number_events m key expectedVersion items
                    in Inr (appended,
                            s\<lparr>streams := (streams s)(m \<mapsto> current @ appended),
                              idempotency := (idempotency s)(idempotency_scope m key \<mapsto>
                                \<lparr>rec_fingerprint = fingerprint items, rec_events = appended\<rparr>)\<rparr>)))))"

definition load_events :: "('d, 'f) memory_store \<Rightarrow> string \<Rightarrow> (store_error, 'd stored_event list) result" where
  "load_events s m = and_then (assert_identifier m ''missionId'') (\<lambda>_. Inr (current_stream s m))"

definition empty_store :: "('d, 'f) memory_store" where
  "empty_store = \<lparr>streams = Map.empty, idempotency = Map.empty\<rparr>"

section \<open>Streams\<close>

text \<open>A stream of mission \<open>m\<close> from version \<open>n\<close> on: identities agree, versions count up by one.\<close>

primrec contiguous_from :: "string \<Rightarrow> int \<Rightarrow> 'd stored_event list \<Rightarrow> bool" where
  "contiguous_from m n [] \<longleftrightarrow> True"
| "contiguous_from m n (e # es) \<longleftrightarrow> missionId e = m \<and> sequence e = n + 1 \<and> aggregateVersion e = n + 1
     \<and> contiguous_from m (n + 1) es"

lemma contiguous_append [simp]:
  "contiguous_from m n (xs @ ys) \<longleftrightarrow> contiguous_from m n xs \<and> contiguous_from m (n + int (length xs)) ys"
  by (induction xs arbitrary: n) (auto simp: add.assoc add.commute)

lemma number_events_contiguous [simp]: "contiguous_from m n (number_events m key n items)"
  by (induction items arbitrary: n) auto

lemma length_number_events [simp]: "length (number_events m key n items) = length items"
  by (induction items arbitrary: n) auto

lemma number_events_data [simp]: "map event_data (number_events m key n items) = map item_data items"
  by (induction items arbitrary: n) auto

section \<open>The interface and its laws\<close>

text \<open>
  \<open>EventStore\<close>: an append either leaves the stream as it was (a replayed batch) or extends it at
  exactly the expected version, leaves the other streams alone, and can be repeated.
\<close>

locale event_store =
  fixes append :: "'s \<Rightarrow> string \<Rightarrow> int \<Rightarrow> string \<Rightarrow> 'd append_item list
      \<Rightarrow> ('e, 'd stored_event list \<times> 's) result"
    and load :: "'s \<Rightarrow> string \<Rightarrow> ('e, 'd stored_event list) result"
    and inv :: "'s \<Rightarrow> bool"
  assumes append_inv: "inv s \<Longrightarrow> append s m v key items = Inr (evs, s') \<Longrightarrow> inv s'"
    and append_stream: "inv s \<Longrightarrow> append s m v key items = Inr (evs, s') \<Longrightarrow>
      load s' m = load s m \<or>
      (\<exists>old. load s m = Inr old \<and> int (length old) = v \<and>
             load s' m = Inr (old @ number_events m key v items))"
    and append_frame: "inv s \<Longrightarrow> append s m v key items = Inr (evs, s') \<Longrightarrow> m' \<noteq> m \<Longrightarrow>
      load s' m' = load s m'"
    and append_again: "inv s \<Longrightarrow> append s m v key items = Inr (evs, s') \<Longrightarrow>
      append s' m v key items = Inr (evs, s')"
    and load_contiguous: "inv s \<Longrightarrow> load s m = Inr evs \<Longrightarrow> contiguous_from m 0 evs"
begin

lemma append_prefix:
  assumes "inv s" and "append s m v key items = Inr (evs, s')" and "load s m' = Inr old"
  shows "\<exists>new. load s' m' = Inr (old @ new)"
proof (cases "m' = m")
  case True
  with append_stream [OF assms(1,2)] assms(3) show ?thesis by auto
next
  case False
  with append_frame [OF assms(1,2)] assms(3) show ?thesis by simp
qed

end

section \<open>The in-memory store meets it\<close>

definition recorded :: "('d, 'f) memory_store \<Rightarrow> string \<Rightarrow> 'd stored_event list \<Rightarrow> bool" where
  "recorded s sc evs \<longleftrightarrow> (\<exists>m key pre post. sc = idempotency_scope m key \<and>
     current_stream s m = pre @ evs @ post)"

definition memory_inv :: "('d, 'f) memory_store \<Rightarrow> bool" where
  "memory_inv s \<longleftrightarrow> (\<forall>m. contiguous_from m 0 (current_stream s m)) \<and>
     (\<forall>sc r. idempotency s sc = Some r \<longrightarrow> recorded s sc (rec_events r))"

lemma memory_inv_empty: "memory_inv empty_store"
  by (simp add: memory_inv_def empty_store_def current_stream_def)

lemma load_events_Inr [result_simps]:
  "load_events s m = Inr evs \<longleftrightarrow> \<not> blank m \<and> evs = current_stream s m"
  by (auto simp: load_events_def assert_identifier_def result_simps)

lemma append_events_Inr:
  assumes "append_events dp fp s m v key items = Inr (evs, s')"
  shows "\<not> blank m" "\<not> blank key" "items \<noteq> []" "0 \<le> v"
    and "(\<exists>r. idempotency s (idempotency_scope m key) = Some r \<and> rec_fingerprint r = fp items \<and>
            evs = rec_events r \<and> s' = s) \<or>
         (idempotency s (idempotency_scope m key) = None \<and> int (length (current_stream s m)) = v \<and>
          evs = number_events m key v items \<and>
          s' = s\<lparr>streams := (streams s)(m \<mapsto> current_stream s m @ evs),
                 idempotency := (idempotency s)(idempotency_scope m key \<mapsto>
                   \<lparr>rec_fingerprint = fp items, rec_events = evs\<rparr>)\<rparr>)"
  using assms
  by (auto simp: append_events_def assert_identifier_def result_simps Let_def
      split: if_splits option.splits)

lemma current_stream_update [simp]:
  "current_stream (s\<lparr>streams := (streams s)(m \<mapsto> evs), idempotency := i\<rparr>) m' =
     (if m' = m then evs else current_stream s m')"
  by (simp add: current_stream_def)

lemma append_events_inv:
  assumes inv: "memory_inv s" and app: "append_events dp fp s m v key items = Inr (evs, s')"
  shows "memory_inv s'"
  using append_events_Inr(5) [OF app]
proof (elim disjE exE conjE)
  assume v: "int (length (current_stream s m)) = v" and evs: "evs = number_events m key v items"
    and s': "s' = s\<lparr>streams := (streams s)(m \<mapsto> current_stream s m @ evs),
                 idempotency := (idempotency s)(idempotency_scope m key \<mapsto>
                   \<lparr>rec_fingerprint = fp items, rec_events = evs\<rparr>)\<rparr>"
  have cs: "current_stream s' m' = (if m' = m then current_stream s m @ evs else current_stream s m')" for m'
    by (simp add: s')
  have grows: "recorded s' sc r" if "recorded s sc r" for sc r
  proof -
    from that obtain m' key' pre post where "sc = idempotency_scope m' key'"
      and "current_stream s m' = pre @ r @ post" by (auto simp: recorded_def)
    then have "sc = idempotency_scope m' key' \<and>
        current_stream s' m' = pre @ r @ (post @ (if m' = m then evs else []))" by (auto simp: cs)
    then show ?thesis unfolding recorded_def by blast
  qed
  have own: "recorded s' (idempotency_scope m key) evs"
    unfolding recorded_def
    by (rule exI [of _ m], rule exI [of _ key], rule exI [of _ "current_stream s m"], rule exI [of _ "[]"])
       (simp add: cs)
  have "contiguous_from m' 0 (current_stream s' m')" for m'
    using inv v evs by (auto simp: cs memory_inv_def)
  moreover have "recorded s' sc (rec_events r)" if "idempotency s' sc = Some r" for sc r
    using that inv grows own by (auto simp: s' memory_inv_def split: if_splits)
  ultimately show ?thesis by (simp add: memory_inv_def)
qed (use inv in simp)

lemma append_events_again:
  assumes "append_events dp fp s m v key items = Inr (evs, s')"
  shows "append_events dp fp s' m v key items = Inr (evs, s')"
  using assms append_events_Inr(5) [OF assms]
  by (auto simp: append_events_def assert_identifier_def ensure_def Let_def
      split: if_splits option.splits)

interpretation memory: event_store "append_events dp fp" load_events memory_inv
proof unfold_locales
  fix s s' :: "('a, 'b) memory_store" and m v key items evs
  assume inv: "memory_inv s" and app: "append_events dp fp s m v key items = Inr (evs, s')"
  show "memory_inv s'" using inv app by (rule append_events_inv)
  show "append_events dp fp s' m v key items = Inr (evs, s')"
    using app by (rule append_events_again)
  show "load_events s' m = load_events s m \<or>
      (\<exists>old. load_events s m = Inr old \<and> int (length old) = v \<and>
             load_events s' m = Inr (old @ number_events m key v items))"
    using append_events_Inr(1,5) [OF app] by (auto simp: load_events_Inr)
  show "load_events s' m' = load_events s m'" if "m' \<noteq> m" for m'
    using append_events_Inr(5) [OF app] that
    by (auto simp: load_events_def)
next
  fix s :: "('a, 'b) memory_store" and m evs
  assume "memory_inv s" and "load_events s m = Inr evs"
  then show "contiguous_from m 0 evs" by (auto simp: memory_inv_def load_events_Inr)
qed

text \<open>Scopes of identifiers without a \<open>NUL\<close> are told apart.\<close>

lemma split_at_mark:
  "m @ z # k = m' @ z # k' \<Longrightarrow> z \<notin> set m \<Longrightarrow> z \<notin> set k \<Longrightarrow> m' = m \<and> k' = k"
proof (induction m arbitrary: m')
  case Nil
  then show ?case by (cases m') auto
next
  case (Cons c cs)
  then show ?case by (cases m') auto
qed

lemma scope_unique:
  "idempotency_scope m key = idempotency_scope m' key' \<Longrightarrow> CHR 0x00 \<notin> set m \<Longrightarrow>
   CHR 0x00 \<notin> set key \<Longrightarrow> m' = m \<and> key' = key"
  unfolding idempotency_scope_def by (rule split_at_mark)

text \<open>A replayed batch is a block of its mission's stream.\<close>

lemma replay_in_stream:
  assumes "memory_inv s" and "append_events dp fp s m v key items = Inr (evs, s')"
    and "CHR 0x00 \<notin> set m" and "CHR 0x00 \<notin> set key"
  shows "\<exists>pre post. current_stream s' m = pre @ evs @ post"
proof -
  have "memory_inv s'" using assms(1,2) by (rule append_events_inv)
  moreover have "\<exists>r. idempotency s' (idempotency_scope m key) = Some r \<and> rec_events r = evs"
    using append_events_Inr(5) [OF assms(2)] by auto
  ultimately have "recorded s' (idempotency_scope m key) evs" by (auto simp: memory_inv_def)
  then show ?thesis using assms(3,4) by (auto simp: recorded_def dest: scope_unique)
qed

end
