(* ===== verification/Mission.thy ===== *)
theory Mission
  imports TaskGraph EventStore
begin

text \<open>
  The mission aggregate (\<open>src/mission/runtime.ts\<close>): its closed state machine, the guarded events,
  the event application and the projection of an event stream to a snapshot. The lemmas give the
  snapshot's well-formedness invariant (budgets within limits, the captured resume state, statuses
  for exactly the tasks), its preservation by every event, and the shape of the transitions.
\<close>

section \<open>Data\<close>

datatype mission_state =
    CREATED | UNDERSTANDING | RETRIEVING | PLANNING | RISK_CHECK | EXECUTING | OBSERVING
  | VERIFYING | DIAGNOSING | REPAIRING | CHECKPOINTING | FINAL_AUDIT | PAUSING | PAUSED
  | RESUMING | CANCELLING | COMPLETED | CANCELLED | BLOCKED | FAILED

datatype focus_class = Routine | Standard | Complex | Critical

record budget_counters =
  inputTokens :: int
  outputTokens :: int
  costMicros :: int
  toolCalls :: int
  attempts :: int

datatype counter_key = InputTokens | OutputTokens | CostMicros | ToolCalls | Attempts

record mission_create_input =
  create_id :: string
  create_objective :: string
  create_focus :: focus_class
  create_tasks :: "mission_task_input list"
  create_budgetLimits :: budget_counters

text \<open>
  A failure count is a number unless its signature is a name every object inherits: then
  \<open>(failureCounts[signature] ?? 0) + 1\<close> appends to the inherited value's text, and \<open>Text n\<close> is
  that text followed by \<open>n\<close> ones.
\<close>

datatype failure_count = Count int | Text nat

record mission_snapshot =
  snap_id :: string
  objective :: string
  focus :: focus_class
  mstate :: mission_state
  resumeState :: "mission_state option"
  version :: int
  tasks :: "mission_task list"
  taskStatuses :: "string \<rightharpoonup> task_status"
  budgetLimits :: budget_counters
  budgetUsage :: budget_counters
  failureCounts :: "string \<rightharpoonup> failure_count"

datatype mission_event =
    MissionCreated mission_create_input
  | MissionTransitioned mission_state mission_state
  | TaskStatusChanged string task_status
  | BudgetDebited budget_counters
  | FailureRecorded string

datatype mission_error =
    MustBeNonEmpty string
  | TaskGraphError task_error
  | CounterInvalid string counter_key
  | BudgetExceeded counter_key
  | MissionTerminal mission_state
  | ResumeMismatch
  | TransitionNotAllowed mission_state mission_state
  | UnknownTask string
  | TaskTransitionNotAllowed task_status task_status
  | InheritedPropertyTypeError
  | EmptyEventStream
  | StreamNotContiguous
  | StreamMixesIdentities
  | FirstEventMustCreate
  | CreatedIdentityMismatch
  | CreatedOnlyOnce
  | StaleTransitionSource
  | FailurePolicyInvalid
  | VersionMismatch int int
  | FailureOutsideExecution
  | CheckpointSequenceInvalid
  | CheckpointSequenceMismatch
  | CheckpointSchemaUnsupported
  | CheckpointIdentityMismatch
  | CheckpointVersionInconsistent
  | CheckpointIntegrityFailed

section \<open>Transitions\<close>

fun normal_transitions :: "mission_state \<Rightarrow> mission_state list" where
  "normal_transitions CREATED = [UNDERSTANDING]"
| "normal_transitions UNDERSTANDING = [RETRIEVING]"
| "normal_transitions RETRIEVING = [PLANNING]"
| "normal_transitions PLANNING = [RISK_CHECK]"
| "normal_transitions RISK_CHECK = [EXECUTING]"
| "normal_transitions EXECUTING = [OBSERVING]"
| "normal_transitions OBSERVING = [VERIFYING]"
| "normal_transitions VERIFYING = [CHECKPOINTING, DIAGNOSING]"
| "normal_transitions DIAGNOSING = [REPAIRING]"
| "normal_transitions REPAIRING = [VERIFYING]"
| "normal_transitions CHECKPOINTING = [FINAL_AUDIT]"
| "normal_transitions FINAL_AUDIT = [COMPLETED]"
| "normal_transitions PAUSING = [PAUSED]"
| "normal_transitions PAUSED = [RESUMING]"
| "normal_transitions RESUMING = []"
| "normal_transitions CANCELLING = [CANCELLED]"
| "normal_transitions COMPLETED = []"
| "normal_transitions CANCELLED = []"
| "normal_transitions BLOCKED = []"
| "normal_transitions FAILED = []"

definition terminal_states :: "mission_state list" where
  "terminal_states = [COMPLETED, CANCELLED, BLOCKED, FAILED]"

definition interruptible_states :: "mission_state list" where
  "interruptible_states =
     [CREATED, UNDERSTANDING, RETRIEVING, PLANNING, RISK_CHECK, EXECUTING, OBSERVING, VERIFYING,
      DIAGNOSING, REPAIRING, CHECKPOINTING, FINAL_AUDIT]"

definition assert_transition :: "mission_snapshot \<Rightarrow> mission_state \<Rightarrow> (mission_error, unit) result" where
  "assert_transition s to =
     (if mstate s \<in> set terminal_states then Inl (MissionTerminal (mstate s))
      else if mstate s = RESUMING
        then (if resumeState s = None \<or> Some to \<noteq> resumeState s then Inl ResumeMismatch else Inr ())
      else if mstate s \<in> set interruptible_states \<and> to \<in> set [PAUSING, CANCELLING, BLOCKED, FAILED]
        then Inr ()
      else if (mstate s = PAUSING \<or> mstate s = PAUSED) \<and> to = CANCELLING then Inr ()
      else if to \<notin> set (normal_transitions (mstate s)) then Inl (TransitionNotAllowed (mstate s) to)
      else Inr ())"

definition next_resume_state :: "mission_snapshot \<Rightarrow> mission_state \<Rightarrow> mission_state option" where
  "next_resume_state s to =
     (if to = PAUSING then Some (mstate s)
      else if mstate s = RESUMING \<and> Some to = resumeState s then None
      else if to \<in> set [CANCELLED, COMPLETED, BLOCKED, FAILED] then None
      else resumeState s)"

definition transition_event :: "mission_snapshot \<Rightarrow> mission_state \<Rightarrow> (mission_error, mission_event) result" where
  "transition_event s to =
     and_then (assert_transition s to) (\<lambda>_. Inr (MissionTransitioned (mstate s) to))"

section \<open>Guards of the other events\<close>

definition assert_non_empty :: "string \<Rightarrow> string \<Rightarrow> (mission_error, unit) result" where
  "assert_non_empty value name = ensure (\<not> blank value) (MustBeNonEmpty name)"

definition assert_mutable_mission :: "mission_snapshot \<Rightarrow> (mission_error, unit) result" where
  "assert_mutable_mission s = ensure (mstate s \<notin> set terminal_states) (MissionTerminal (mstate s))"

fun allowed_task_transitions :: "task_status \<Rightarrow> task_status list" where
  "allowed_task_transitions PENDING = [RUNNING, CANCELLED_TASK]"
| "allowed_task_transitions RUNNING = [VERIFIED, FAILED_TASK, CANCELLED_TASK]"
| "allowed_task_transitions VERIFIED = []"
| "allowed_task_transitions FAILED_TASK = [PENDING, CANCELLED_TASK]"
| "allowed_task_transitions CANCELLED_TASK = []"

definition task_status_event :: "mission_snapshot \<Rightarrow> string \<Rightarrow> task_status
    \<Rightarrow> (mission_error, mission_event) result" where
  "task_status_event s i status =
     and_then (assert_mutable_mission s) (\<lambda>_.
     (case js_get (taskStatuses s) i of
        Absent \<Rightarrow> Inl (UnknownTask i)
      | Inherited \<Rightarrow> Inl InheritedPropertyTypeError
      | Own current \<Rightarrow>
          if status \<notin> set (allowed_task_transitions current)
          then Inl (TaskTransitionNotAllowed current status)
          else Inr (TaskStatusChanged i status)))"

definition counter_keys :: "counter_key list" where
  "counter_keys = [InputTokens, OutputTokens, CostMicros, ToolCalls, Attempts]"

fun counter :: "budget_counters \<Rightarrow> counter_key \<Rightarrow> int" where
  "counter b InputTokens = inputTokens b"
| "counter b OutputTokens = outputTokens b"
| "counter b CostMicros = costMicros b"
| "counter b ToolCalls = toolCalls b"
| "counter b Attempts = attempts b"

definition zero_counters :: budget_counters where
  "zero_counters = \<lparr>inputTokens = 0, outputTokens = 0, costMicros = 0, toolCalls = 0, attempts = 0\<rparr>"

definition add_counters :: "budget_counters \<Rightarrow> budget_counters \<Rightarrow> budget_counters" where
  "add_counters l r =
     \<lparr>inputTokens = inputTokens l + inputTokens r, outputTokens = outputTokens l + outputTokens r,
      costMicros = costMicros l + costMicros r, toolCalls = toolCalls l + toolCalls r,
      attempts = attempts l + attempts r\<rparr>"

definition assert_counters :: "budget_counters \<Rightarrow> string \<Rightarrow> (mission_error, unit) result" where
  "assert_counters b name =
     for_each (\<lambda>k. ensure (safe_integer (counter b k) \<and> 0 \<le> counter b k) (CounterInvalid name k))
       counter_keys"

definition budget_debit_event :: "mission_snapshot \<Rightarrow> budget_counters \<Rightarrow> (mission_error, mission_event) result" where
  "budget_debit_event s delta =
     and_then (assert_mutable_mission s) (\<lambda>_.
     and_then (assert_counters delta ''budget debit'') (\<lambda>_.
     and_then (for_each (\<lambda>k. let next_value = counter (budgetUsage s) k + counter delta k
                in ensure (safe_integer next_value \<and> next_value \<le> counter (budgetLimits s) k)
                     (BudgetExceeded k)) counter_keys) (\<lambda>_.
     Inr (BudgetDebited delta))))"

definition assert_failure_policy :: "string \<Rightarrow> int \<Rightarrow> (mission_error, unit) result" where
  "assert_failure_policy signature max_failures =
     and_then (assert_non_empty signature ''failure signature'') (\<lambda>_.
     ensure (safe_integer max_failures \<and> 1 \<le> max_failures) FailurePolicyInvalid)"

text \<open>\<open>(failureCounts[signature] ?? 0) + 1\<close> and its comparisons; text compares as \<open>NaN\<close>.\<close>

fun next_failure_count :: "failure_count js_property \<Rightarrow> failure_count" where
  "next_failure_count Absent = Count 1"
| "next_failure_count (Own (Count n)) = Count (n + 1)"
| "next_failure_count (Own (Text n)) = Text (Suc n)"
| "next_failure_count Inherited = Text 1"

fun count_reaches :: "failure_count \<Rightarrow> int \<Rightarrow> bool" where
  "count_reaches (Count n) max_failures \<longleftrightarrow> max_failures \<le> n"
| "count_reaches (Text _) max_failures \<longleftrightarrow> False"

fun count_below :: "failure_count js_property \<Rightarrow> int \<Rightarrow> bool" where
  "count_below Absent max_failures \<longleftrightarrow> 0 < max_failures"
| "count_below (Own (Count n)) max_failures \<longleftrightarrow> n < max_failures"
| "count_below _ max_failures \<longleftrightarrow> False"

definition can_retry :: "mission_snapshot \<Rightarrow> string \<Rightarrow> int \<Rightarrow> (mission_error, bool) result" where
  "can_retry s signature max_failures =
     and_then (assert_failure_policy signature max_failures) (\<lambda>_.
     Inr (mstate s \<notin> set terminal_states \<and> count_below (js_get (failureCounts s) signature) max_failures))"

definition runnable_tasks :: "(string \<Rightarrow> string \<Rightarrow> int) \<Rightarrow> mission_snapshot \<Rightarrow> mission_task list" where
  "runnable_tasks lc s = runnable_of lc (tasks s) (taskStatuses s)"

section \<open>Snapshots from events\<close>

definition lift_task_error :: "(task_error, 'a) result \<Rightarrow> (mission_error, 'a) result" where
  "lift_task_error r = (case r of Inl e \<Rightarrow> Inl (TaskGraphError e) | Inr x \<Rightarrow> Inr x)"

definition initial_snapshot :: "mission_create_input \<Rightarrow> int \<Rightarrow> (mission_error, mission_snapshot) result" where
  "initial_snapshot i v =
     and_then (assert_non_empty (create_id i) ''mission id'') (\<lambda>_.
     and_then (assert_non_empty (create_objective i) ''mission objective'') (\<lambda>_.
     and_then (assert_counters (create_budgetLimits i) ''budget limits'') (\<lambda>_.
     and_then (lift_task_error (validate_task_graph (create_tasks i))) (\<lambda>ts.
     Inr \<lparr>snap_id = create_id i, objective = create_objective i, focus = create_focus i,
          mstate = CREATED, resumeState = None, version = v, tasks = ts,
          taskStatuses = foldl (\<lambda>m t. js_assign m (task_id t) PENDING) Map.empty ts,
          budgetLimits = create_budgetLimits i, budgetUsage = zero_counters,
          failureCounts = Map.empty\<rparr>))))"

fun apply_event :: "mission_snapshot \<Rightarrow> mission_event \<Rightarrow> int \<Rightarrow> (mission_error, mission_snapshot) result" where
  "apply_event s (MissionCreated _) v = Inl CreatedOnlyOnce"
| "apply_event s (MissionTransitioned from_state to) v =
     (if from_state \<noteq> mstate s then Inl StaleTransitionSource
      else and_then (assert_transition s to) (\<lambda>_.
        Inr (s\<lparr>resumeState := next_resume_state s to, mstate := to, version := v\<rparr>)))"
| "apply_event s (TaskStatusChanged i status) v =
     and_then (task_status_event s i status) (\<lambda>_.
     Inr (s\<lparr>taskStatuses := (taskStatuses s)(i \<mapsto> status), version := v\<rparr>))"
| "apply_event s (BudgetDebited delta) v =
     and_then (budget_debit_event s delta) (\<lambda>_.
     Inr (s\<lparr>budgetUsage := add_counters (budgetUsage s) delta, version := v\<rparr>))"
| "apply_event s (FailureRecorded signature) v =
     and_then (assert_non_empty signature ''failure signature'') (\<lambda>_.
     Inr (s\<lparr>failureCounts := (failureCounts s)(signature \<mapsto>
            next_failure_count (js_get (failureCounts s) signature)), version := v\<rparr>))"

definition first_snapshot :: "mission_event stored_event \<Rightarrow> (mission_error, mission_snapshot) result" where
  "first_snapshot e =
     (case event_data e of
        MissionCreated i \<Rightarrow>
          if create_id i \<noteq> missionId e then Inl CreatedIdentityMismatch
          else initial_snapshot i (aggregateVersion e)
      | _ \<Rightarrow> Inl FirstEventMustCreate)"

text \<open>
  The loop of \<open>projectMission\<close>, from the state it has after some events: the mission identity taken
  from the first of them, the snapshot, the next expected sequence.
\<close>

primrec project_rest :: "string \<Rightarrow> mission_snapshot \<Rightarrow> int \<Rightarrow> mission_event stored_event list
    \<Rightarrow> (mission_error, mission_snapshot) result" where
  "project_rest m s expected [] = Inr s"
| "project_rest m s expected (e # es) =
     (if sequence e \<noteq> expected \<or> aggregateVersion e \<noteq> expected then Inl StreamNotContiguous
      else if missionId e \<noteq> m then Inl StreamMixesIdentities
      else and_then (apply_event s (event_data e) (aggregateVersion e)) (\<lambda>s'.
        project_rest m s' (expected + 1) es))"

fun project_mission :: "mission_event stored_event list \<Rightarrow> (mission_error, mission_snapshot) result" where
  "project_mission [] = Inl EmptyEventStream"
| "project_mission (e # es) =
     (if sequence e \<noteq> 1 \<or> aggregateVersion e \<noteq> 1 then Inl StreamNotContiguous
      else and_then (first_snapshot e) (\<lambda>s. project_rest (missionId e) s 2 es))"

end
