(* ===== verification/MissionInvariants.thy ===== *)
theory MissionInvariants
  imports Mission "HOL-Library.Sublist"
begin

text \<open>
  What every projected snapshot satisfies: the snapshot invariant, preserved by each event, and the
  milestones a mission passes on its way to \<open>COMPLETED\<close>. All of it is by induction over the
  projected stream, one event at a time.
\<close>

section \<open>Guards, inverted\<close>

lemmas mission_guard_defs =
  assert_non_empty_def assert_mutable_mission_def assert_counters_def counter_keys_def
  assert_failure_policy_def

lemma all_counters:
  "(\<forall>k \<in> set counter_keys. P k) \<longleftrightarrow> (\<forall>k. P k)"
proof -
  have "k \<in> set counter_keys" for k by (cases k) (simp_all add: counter_keys_def)
  then show ?thesis by blast
qed

lemma assert_counters_Inr [result_simps]:
  "assert_counters b name = Inr u \<longleftrightarrow> (\<forall>k. safe_integer (counter b k) \<and> 0 \<le> counter b k)"
  by (simp add: assert_counters_def for_each_Inr ensure_Inr all_counters)

lemma counter_add [simp]: "counter (add_counters l r) k = counter l k + counter r k"
  by (cases k) (simp_all add: add_counters_def)

lemma counter_zero [simp]: "counter zero_counters k = 0"
  by (cases k) (simp_all add: zero_counters_def)

lemma budget_debit_event_Inr [result_simps]:
  "budget_debit_event s delta = Inr e \<longleftrightarrow>
     e = BudgetDebited delta \<and> mstate s \<notin> set terminal_states \<and>
     (\<forall>k. safe_integer (counter delta k) \<and> 0 \<le> counter delta k \<and>
          safe_integer (counter (budgetUsage s) k + counter delta k) \<and>
          counter (budgetUsage s) k + counter delta k \<le> counter (budgetLimits s) k)"
  by (auto simp: budget_debit_event_def assert_mutable_mission_def result_simps all_counters Let_def)

lemma task_status_event_Inr [result_simps]:
  "task_status_event s i status = Inr e \<longleftrightarrow>
     e = TaskStatusChanged i status \<and> mstate s \<notin> set terminal_states \<and>
     (\<exists>current. taskStatuses s i = Some current \<and> status \<in> set (allowed_task_transitions current))"
  by (auto simp: task_status_event_def assert_mutable_mission_def result_simps js_get_def
      split: option.splits js_property.splits if_splits)

lemma transition_event_Inr [result_simps]:
  "transition_event s to = Inr e \<longleftrightarrow>
     e = MissionTransitioned (mstate s) to \<and> assert_transition s to = Inr ()"
  by (auto simp: transition_event_def result_simps)

text \<open>The allowed transitions, as a relation between the state and its captured resume state.\<close>

definition may_transition :: "mission_state \<Rightarrow> mission_state option \<Rightarrow> mission_state \<Rightarrow> bool" where
  "may_transition from_state captured to \<longleftrightarrow>
     (from_state = RESUMING \<and> captured = Some to) \<or>
     (from_state \<in> set interruptible_states \<and> to \<in> {PAUSING, CANCELLING, BLOCKED, FAILED}) \<or>
     (from_state \<in> {PAUSING, PAUSED} \<and> to = CANCELLING) \<or>
     to \<in> set (normal_transitions from_state)"

lemma normal_from_terminal: "from_state \<in> set terminal_states \<Longrightarrow> normal_transitions from_state = []"
  by (auto simp: terminal_states_def)

lemma assert_transition_Inr [result_simps]:
  "assert_transition s to = Inr u \<longleftrightarrow> may_transition (mstate s) (resumeState s) to"
  by (cases "mstate s")
     (auto simp: assert_transition_def may_transition_def terminal_states_def interruptible_states_def)

section \<open>Projection, one event at a time\<close>

lemma project_rest_append:
  "project_rest m s n (xs @ ys) =
     and_then (project_rest m s n xs) (\<lambda>s'. project_rest m s' (n + int (length xs)) ys)"
proof (induction xs arbitrary: s n)
  case (Cons x xs)
  then show ?case
    by (cases "apply_event s (event_data x) (aggregateVersion x)") (auto simp: algebra_simps)
qed simp

lemma project_mission_append:
  assumes "evs \<noteq> []"
  shows "project_mission (evs @ later) =
     and_then (project_mission evs) (\<lambda>s. project_rest (missionId (hd evs)) s (int (length evs) + 1) later)"
proof -
  obtain e es where evs: "evs = e # es" using assms by (cases evs) auto
  show ?thesis
    by (cases "first_snapshot e") (auto simp: evs project_rest_append algebra_simps)
qed

lemma project_mission_snoc:
  assumes "evs \<noteq> []"
  shows "project_mission (evs @ [e]) = Inr s' \<longleftrightarrow>
     (\<exists>s. project_mission evs = Inr s \<and> sequence e = int (length evs) + 1 \<and>
          aggregateVersion e = int (length evs) + 1 \<and> missionId e = missionId (hd evs) \<and>
          apply_event s (event_data e) (aggregateVersion e) = Inr s')"
  by (auto simp: project_mission_append [OF assms] result_simps)

lemma project_mission_induct [consumes 1, case_names created event]:
  assumes "project_mission evs = Inr s"
    and "\<And>e i s. event_data e = MissionCreated i \<Longrightarrow> create_id i = missionId e \<Longrightarrow>
           initial_snapshot i 1 = Inr s \<Longrightarrow> P [e] s"
    and "\<And>evs s e s'. project_mission evs = Inr s \<Longrightarrow> evs \<noteq> [] \<Longrightarrow> P evs s \<Longrightarrow>
           aggregateVersion e = int (length evs) + 1 \<Longrightarrow>
           apply_event s (event_data e) (aggregateVersion e) = Inr s' \<Longrightarrow> P (evs @ [e]) s'"
  shows "P evs s"
  using assms(1)
proof (induction evs arbitrary: s rule: rev_induct)
  case (snoc e evs)
  show ?case
  proof (cases "evs = []")
    case True
    with snoc.prems assms(2) show ?thesis
      by (auto simp: first_snapshot_def result_simps split: if_splits mission_event.splits)
  next
    case False
    with snoc show ?thesis
      by (auto simp: project_mission_snoc intro: assms(3))
  qed
qed simp

section \<open>The snapshot invariant\<close>

definition budget_wf :: "mission_snapshot \<Rightarrow> bool" where
  "budget_wf s \<longleftrightarrow> (\<forall>k. 0 \<le> counter (budgetUsage s) k \<and>
     counter (budgetUsage s) k \<le> counter (budgetLimits s) k \<and> safe_integer (counter (budgetLimits s) k))"

definition graph_wf :: "mission_snapshot \<Rightarrow> bool" where
  "graph_wf s \<longleftrightarrow> distinct (map task_id (tasks s)) \<and> known_dependencies (tasks s) \<and>
     acyclic (dep_edges (tasks s)) \<and>
     dom (taskStatuses s) = task_id ` set (tasks s) - {''__proto__''}"

definition resume_wf :: "mission_snapshot \<Rightarrow> bool" where
  "resume_wf s \<longleftrightarrow>
     (case resumeState s of
        None \<Rightarrow> mstate s \<notin> {PAUSING, PAUSED, RESUMING}
      | Some r \<Rightarrow> r \<in> set interruptible_states \<and> mstate s \<in> {PAUSING, PAUSED, RESUMING, CANCELLING})"

definition failures_wf :: "mission_snapshot \<Rightarrow> bool" where
  "failures_wf s \<longleftrightarrow> (\<forall>g. (\<forall>n. failureCounts s g = Some (Count n) \<longrightarrow> 1 \<le> n) \<and>
     (g \<notin> set object_prototype_keys \<longrightarrow> (\<forall>n. failureCounts s g \<noteq> Some (Text n))))"

definition snapshot_wf :: "mission_snapshot \<Rightarrow> bool" where
  "snapshot_wf s \<longleftrightarrow> budget_wf s \<and> graph_wf s \<and> resume_wf s \<and> failures_wf s"

lemmas wf_defs = budget_wf_def graph_wf_def resume_wf_def failures_wf_def

lemma initial_statuses:
  "foldl (\<lambda>m t. js_assign m (task_id t) PENDING) m0 ts i =
     (if i \<in> task_id ` set ts \<and> i \<noteq> ''__proto__'' then Some PENDING else m0 i)"
  by (induction ts arbitrary: m0) (auto simp: js_assign_def)

lemma initial_snapshot_Inr:
  assumes "initial_snapshot i v = Inr s"
  shows "validate_task_graph (create_tasks i) = Inr (tasks s)"
    and "\<And>k. safe_integer (counter (create_budgetLimits i) k) \<and> 0 \<le> counter (create_budgetLimits i) k"
    and "snap_id s = create_id i" "mstate s = CREATED" "resumeState s = None" "version s = v"
    and "budgetLimits s = create_budgetLimits i" "budgetUsage s = zero_counters"
    and "failureCounts s = Map.empty"
    and "taskStatuses s = foldl (\<lambda>m t. js_assign m (task_id t) PENDING) Map.empty (tasks s)"
  using assms
  by (auto simp: initial_snapshot_def lift_task_error_def result_simps split: sum.splits)

lemma initial_snapshot_wf: "initial_snapshot i v = Inr s \<Longrightarrow> snapshot_wf s"
  using initial_snapshot_Inr [of i v s]
  by (auto simp: snapshot_wf_def wf_defs validate_task_graph_iff initial_statuses dom_def split: if_splits)

lemma apply_transition_wf:
  assumes "resume_wf s" and "may_transition (mstate s) (resumeState s) to"
  shows "resume_wf (s\<lparr>resumeState := next_resume_state s to, mstate := to, version := v\<rparr>)"
  using assms
  by (cases "mstate s"; cases "resumeState s")
     (auto simp: resume_wf_def may_transition_def next_resume_state_def interruptible_states_def)

lemma next_failure_count_Count:
  "next_failure_count p = Count n \<longleftrightarrow> (p = Absent \<and> n = 1) \<or> (\<exists>m. p = Own (Count m) \<and> n = m + 1)"
  by (cases p rule: next_failure_count.cases) auto

lemma next_failure_count_Text:
  "next_failure_count p = Text n \<longleftrightarrow> (p = Inherited \<and> n = 1) \<or> (\<exists>m. p = Own (Text m) \<and> n = Suc m)"
  by (cases p rule: next_failure_count.cases) auto

lemma failure_recorded_wf:
  assumes "failures_wf s"
  shows "failures_wf (s\<lparr>failureCounts := (failureCounts s)(g \<mapsto>
           next_failure_count (js_get (failureCounts s) g)), version := v\<rparr>)"
proof -
  have "1 \<le> n" if "next_failure_count (js_get (failureCounts s) g) = Count n" for n
    using that assms by (fastforce simp: failures_wf_def next_failure_count_Count js_get_Own)
  moreover have "g \<in> set object_prototype_keys"
    if "next_failure_count (js_get (failureCounts s) g) = Text n" for n
    using that assms
    by (auto simp: failures_wf_def next_failure_count_Text js_get_def split: option.splits if_splits)
  ultimately show ?thesis using assms by (auto simp: failures_wf_def)
qed

text \<open>Each event writes one part of the snapshot; the other parts of the invariant do not see it.\<close>

lemma wf_frames [simp]:
  "budget_wf (s\<lparr>resumeState := r, mstate := st, version := v\<rparr>) = budget_wf s"
  "graph_wf (s\<lparr>resumeState := r, mstate := st, version := v\<rparr>) = graph_wf s"
  "failures_wf (s\<lparr>resumeState := r, mstate := st, version := v\<rparr>) = failures_wf s"
  "budget_wf (s\<lparr>taskStatuses := ts, version := v\<rparr>) = budget_wf s"
  "resume_wf (s\<lparr>taskStatuses := ts, version := v\<rparr>) = resume_wf s"
  "failures_wf (s\<lparr>taskStatuses := ts, version := v\<rparr>) = failures_wf s"
  "graph_wf (s\<lparr>budgetUsage := b, version := v\<rparr>) = graph_wf s"
  "resume_wf (s\<lparr>budgetUsage := b, version := v\<rparr>) = resume_wf s"
  "failures_wf (s\<lparr>budgetUsage := b, version := v\<rparr>) = failures_wf s"
  "budget_wf (s\<lparr>failureCounts := f, version := v\<rparr>) = budget_wf s"
  "graph_wf (s\<lparr>failureCounts := f, version := v\<rparr>) = graph_wf s"
  "resume_wf (s\<lparr>failureCounts := f, version := v\<rparr>) = resume_wf s"
  by (simp_all add: wf_defs split: option.split)

lemma task_status_wf:
  assumes "graph_wf s" and "taskStatuses s i = Some current"
  shows "graph_wf (s\<lparr>taskStatuses := (taskStatuses s)(i \<mapsto> status), version := v\<rparr>)"
proof -
  have "insert i (dom (taskStatuses s)) = dom (taskStatuses s)" using assms(2) by blast
  with assms(1) show ?thesis by (simp add: graph_wf_def)
qed

lemma budget_debit_wf:
  assumes "budget_wf s" and "budget_debit_event s delta = Inr e"
  shows "budget_wf (s\<lparr>budgetUsage := add_counters (budgetUsage s) delta, version := v\<rparr>)"
  using assms by (simp add: budget_wf_def budget_debit_event_Inr)

lemma apply_event_wf:
  assumes "apply_event s d v = Inr s'" and "snapshot_wf s"
  shows "snapshot_wf s'"
  using assms
  by (cases d)
     (auto simp: snapshot_wf_def and_then_Inr assert_transition_Inr task_status_event_Inr
       intro: apply_transition_wf task_status_wf budget_debit_wf failure_recorded_wf split: if_splits)

lemma apply_event_frame:
  assumes "apply_event s d v = Inr s'"
  shows "version s' = v" "snap_id s' = snap_id s" "tasks s' = tasks s" "budgetLimits s' = budgetLimits s"
  using assms by (cases d; auto simp: result_simps split: if_splits)+

lemma projected_wf: "project_mission evs = Inr s \<Longrightarrow> snapshot_wf s"
  by (induction rule: project_mission_induct) (auto intro: initial_snapshot_wf apply_event_wf)

lemma projected_version: "project_mission evs = Inr s \<Longrightarrow> version s = int (length evs)"
  by (induction rule: project_mission_induct)
     (auto dest: apply_event_frame initial_snapshot_Inr)

section \<open>The way to completion\<close>

text \<open>The transitions from \<open>CREATED\<close> to \<open>COMPLETED\<close>, and how many of them a state has behind it.\<close>

definition completion_path :: "mission_event list" where
  "completion_path =
     [MissionTransitioned CREATED UNDERSTANDING, MissionTransitioned UNDERSTANDING RETRIEVING,
      MissionTransitioned RETRIEVING PLANNING, MissionTransitioned PLANNING RISK_CHECK,
      MissionTransitioned RISK_CHECK EXECUTING, MissionTransitioned EXECUTING OBSERVING,
      MissionTransitioned OBSERVING VERIFYING, MissionTransitioned VERIFYING CHECKPOINTING,
      MissionTransitioned CHECKPOINTING FINAL_AUDIT, MissionTransitioned FINAL_AUDIT COMPLETED]"

fun stage_index :: "mission_state \<Rightarrow> nat" where
  "stage_index UNDERSTANDING = 1"
| "stage_index RETRIEVING = 2"
| "stage_index PLANNING = 3"
| "stage_index RISK_CHECK = 4"
| "stage_index EXECUTING = 5"
| "stage_index OBSERVING = 6"
| "stage_index VERIFYING = 7"
| "stage_index DIAGNOSING = 7"
| "stage_index REPAIRING = 7"
| "stage_index CHECKPOINTING = 8"
| "stage_index FINAL_AUDIT = 9"
| "stage_index COMPLETED = 10"
| "stage_index _ = 0"

text \<open>A pausing, paused or resuming mission counts as where it was captured.\<close>

definition effective_state :: "mission_snapshot \<Rightarrow> mission_state" where
  "effective_state s =
     (case resumeState s of None \<Rightarrow> mstate s
      | Some r \<Rightarrow> if mstate s \<in> {PAUSING, PAUSED, RESUMING} then r else mstate s)"

lemma effective_frames [simp]:
  "effective_state (s\<lparr>taskStatuses := ts, version := v\<rparr>) = effective_state s"
  "effective_state (s\<lparr>budgetUsage := b, version := v\<rparr>) = effective_state s"
  "effective_state (s\<lparr>failureCounts := f, version := v\<rparr>) = effective_state s"
  by (simp_all add: effective_state_def split: option.split)

lemma transition_stage:
  assumes "may_transition (mstate s) (resumeState s) to" and "resume_wf s"
    and "s' = s\<lparr>resumeState := next_resume_state s to, mstate := to, version := v\<rparr>"
  shows "stage_index (effective_state s') \<le> stage_index (effective_state s) \<or>
     (stage_index (effective_state s') = Suc (stage_index (effective_state s)) \<and>
      stage_index (effective_state s) < length completion_path \<and>
      completion_path ! stage_index (effective_state s) = MissionTransitioned (mstate s) to)"
  using assms
  by (cases "mstate s"; cases "resumeState s")
     (auto simp: may_transition_def resume_wf_def effective_state_def next_resume_state_def
       interruptible_states_def completion_path_def)

lemma subseq_take_snoc:
  assumes "subseq (take k path) xs" and "k' \<le> k \<or> (k' = Suc k \<and> k < length path \<and> path ! k = x)"
  shows "subseq (take k' path) (xs @ [x])"
  using assms(2)
proof
  assume "k' \<le> k"
  then have "take k' path = take k' (take k path)" by (simp add: min_absorb1)
  then have "subseq (take k' path) (take k path)"
    using prefix_imp_subseq [OF take_is_prefix] by metis
  moreover have "subseq xs (xs @ [x])" by (rule prefix_imp_subseq) simp
  ultimately show ?thesis
    using assms(1) by (blast intro: subseq_order.order_trans)
next
  assume "k' = Suc k \<and> k < length path \<and> path ! k = x"
  with assms(1) show ?thesis
    by (simp add: take_Suc_conv_app_nth)
qed

lemma projected_milestones:
  "project_mission evs = Inr s \<Longrightarrow>
     subseq (take (stage_index (effective_state s)) completion_path) (map event_data evs)"
proof (induction rule: project_mission_induct)
  case (created e i s)
  then show ?case using initial_snapshot_Inr [of i 1 s] by (simp add: effective_state_def)
next
  case (event evs s e s')
  have wf: "resume_wf s" using event.hyps(1) projected_wf by (auto simp: snapshot_wf_def)
  have "stage_index (effective_state s') \<le> stage_index (effective_state s) \<or>
     (stage_index (effective_state s') = Suc (stage_index (effective_state s)) \<and>
      stage_index (effective_state s) < length completion_path \<and>
      completion_path ! stage_index (effective_state s) = event_data e)"
  proof (cases "event_data e")
    case (MissionTransitioned from_state to)
    with event.hyps(4) wf show ?thesis
      using transition_stage [of s to s' "aggregateVersion e"]
      by (auto simp: and_then_Inr assert_transition_Inr split: if_splits)
  qed (use event.hyps(4) in \<open>auto simp: and_then_Inr\<close>)
  with event.IH show ?case by (simp add: subseq_take_snoc)
qed

section \<open>Terminal states\<close>

lemma apply_event_terminal:
  assumes "apply_event s d v = Inr s'" and "mstate s \<in> set terminal_states"
  shows "mstate s' = mstate s \<and> taskStatuses s' = taskStatuses s \<and> budgetUsage s' = budgetUsage s
    \<and> resumeState s' = resumeState s"
proof (cases d)
  case (MissionTransitioned from_state to)
  with assms show ?thesis by (auto simp: and_then_Inr assert_transition_def split: if_splits)
qed (use assms in \<open>auto simp: and_then_Inr task_status_event_Inr budget_debit_event_Inr\<close>)

lemma project_rest_terminal:
  "project_rest m s n evs = Inr s' \<Longrightarrow> mstate s \<in> set terminal_states \<Longrightarrow>
     mstate s' = mstate s \<and> taskStatuses s' = taskStatuses s \<and> budgetUsage s' = budgetUsage s
     \<and> resumeState s' = resumeState s"
proof (induction evs arbitrary: s n)
  case (Cons e evs)
  from Cons.prems obtain s1 where "apply_event s (event_data e) (aggregateVersion e) = Inr s1"
    and "project_rest m s1 (n + 1) evs = Inr s'"
    by (auto simp: and_then_Inr split: if_splits)
  with Cons.IH [of s1 "n + 1"] Cons.prems(2) show ?case
    using apply_event_terminal by metis
qed simp

end
