(* ===== verification/MissionRuntime.thy ===== *)
theory MissionRuntime
  imports MissionInvariants
begin

text \<open>
  \<open>MissionRuntime\<close> (\<open>src/mission/runtime.ts\<close>) over any event store. Each method loads and projects
  the stream, checks the expected version and the guard (the \<open>prepare\<close> functions), then appends the
  batch and reloads (\<open>commit_batch\<close>). The methods are asynchronous: another call can run between
  the store_load and the store_append. \<open>runtime_step\<close> is that interleaving, with the prepared but not yet
  appended batches in flight; its invariant is that every stream projects.
\<close>

datatype 'e runtime_error = DomainError mission_error | StoreError 'e

definition lift_domain :: "(mission_error, 'a) result \<Rightarrow> ('e runtime_error, 'a) result" where
  "lift_domain r = (case r of Inl e \<Rightarrow> Inl (DomainError e) | Inr x \<Rightarrow> Inr x)"

definition lift_store :: "('e, 'a) result \<Rightarrow> ('e runtime_error, 'a) result" where
  "lift_store r = (case r of Inl e \<Rightarrow> Inl (StoreError e) | Inr x \<Rightarrow> Inr x)"

lemma lift_Inr [result_simps]:
  "lift_domain r = Inr x \<longleftrightarrow> r = Inr x" "lift_store r' = Inr y \<longleftrightarrow> r' = Inr y"
  by (auto simp: lift_domain_def lift_store_def split: sum.splits)

section \<open>The methods\<close>

type_synonym ('e, 's) loader = "'s \<Rightarrow> string \<Rightarrow> ('e, mission_event stored_event list) result"
type_synonym ('e, 's) appender = "'s \<Rightarrow> string \<Rightarrow> int \<Rightarrow> string \<Rightarrow> mission_event append_item list
  \<Rightarrow> ('e, mission_event stored_event list \<times> 's) result"

definition runtime_load :: "('e, 's) loader \<Rightarrow> 's \<Rightarrow> string \<Rightarrow> ('e runtime_error, mission_snapshot) result" where
  "runtime_load store_load s m =
     and_then (lift_store (store_load s m)) (\<lambda>evs. lift_domain (project_mission evs))"

definition assert_expected_version :: "mission_snapshot \<Rightarrow> int \<Rightarrow> (mission_error, unit) result" where
  "assert_expected_version s v = ensure (version s = v) (VersionMismatch v (version s))"

definition item_at :: "string \<Rightarrow> mission_event \<Rightarrow> mission_event append_item" where
  "item_at now d = \<lparr>item_occurredAt = now, item_data = d\<rparr>"

lemma item_at_simps [simp]: "item_occurredAt (item_at now d) = now" "item_data (item_at now d) = d"
  by (simp_all add: item_at_def)

text \<open>\<open>now\<close> and \<open>now'\<close> are the clock's readings, in the order the method takes them.\<close>

definition prepare_create :: "mission_create_input \<Rightarrow> string
    \<Rightarrow> (mission_error, mission_event append_item list) result" where
  "prepare_create i now = and_then (initial_snapshot i 0) (\<lambda>_. Inr [item_at now (MissionCreated i)])"

definition prepare_transition :: "mission_state \<Rightarrow> string \<Rightarrow> mission_snapshot \<Rightarrow> int
    \<Rightarrow> (mission_error, mission_event append_item list) result" where
  "prepare_transition to now s v =
     and_then (assert_expected_version s v) (\<lambda>_.
     and_then (transition_event s to) (\<lambda>d. Inr [item_at now d]))"

definition prepare_set_status :: "string \<Rightarrow> task_status \<Rightarrow> string \<Rightarrow> mission_snapshot \<Rightarrow> int
    \<Rightarrow> (mission_error, mission_event append_item list) result" where
  "prepare_set_status i status now s v =
     and_then (assert_expected_version s v) (\<lambda>_.
     and_then (task_status_event s i status) (\<lambda>d. Inr [item_at now d]))"

definition prepare_debit :: "budget_counters \<Rightarrow> string \<Rightarrow> mission_snapshot \<Rightarrow> int
    \<Rightarrow> (mission_error, mission_event append_item list) result" where
  "prepare_debit delta now s v =
     and_then (assert_expected_version s v) (\<lambda>_.
     and_then (budget_debit_event s delta) (\<lambda>d. Inr [item_at now d]))"

definition prepare_record_failure :: "string \<Rightarrow> int \<Rightarrow> string \<Rightarrow> string \<Rightarrow> mission_snapshot \<Rightarrow> int
    \<Rightarrow> (mission_error, mission_event append_item list) result" where
  "prepare_record_failure signature max_failures now now' s v =
     and_then (assert_expected_version s v) (\<lambda>_.
     and_then (assert_failure_policy signature max_failures) (\<lambda>_.
     if mstate s \<notin> set interruptible_states then Inl FailureOutsideExecution
     else if count_reaches (next_failure_count (js_get (failureCounts s) signature)) max_failures
       then and_then (transition_event s FAILED) (\<lambda>d.
              Inr [item_at now (FailureRecorded signature), item_at now' d])
     else Inr [item_at now (FailureRecorded signature)]))"

text \<open>The append and the reload of a method; the store changes even where the reload throws.\<close>

definition commit_batch :: "('e, 's) loader \<Rightarrow> ('e, 's) appender \<Rightarrow> 's \<Rightarrow> string \<Rightarrow> int \<Rightarrow> string
    \<Rightarrow> mission_event append_item list \<Rightarrow> ('e runtime_error, mission_snapshot) result \<times> 's" where
  "commit_batch store_load store_append s m v key items =
     (case store_append s m v key items of
        Inl e \<Rightarrow> (Inl (StoreError e), s)
      | Inr (_, s') \<Rightarrow> (runtime_load store_load s' m, s'))"

datatype mission_command =
    Transition mission_state
  | SetTaskStatus string task_status
  | DebitBudget budget_counters
  | RecordFailure string int

fun prepare_command :: "mission_command \<Rightarrow> string \<Rightarrow> string \<Rightarrow> mission_snapshot \<Rightarrow> int
    \<Rightarrow> (mission_error, mission_event append_item list) result" where
  "prepare_command (Transition to) now now' s v = prepare_transition to now s v"
| "prepare_command (SetTaskStatus i status) now now' s v = prepare_set_status i status now s v"
| "prepare_command (DebitBudget delta) now now' s v = prepare_debit delta now s v"
| "prepare_command (RecordFailure signature max_failures) now now' s v =
     prepare_record_failure signature max_failures now now' s v"

definition runtime_create :: "('e, 's) loader \<Rightarrow> ('e, 's) appender \<Rightarrow> string \<Rightarrow> 's
    \<Rightarrow> mission_create_input \<Rightarrow> string \<Rightarrow> ('e runtime_error, mission_snapshot) result \<times> 's" where
  "runtime_create store_load store_append now s i key =
     (case prepare_create i now of
        Inl e \<Rightarrow> (Inl (DomainError e), s)
      | Inr items \<Rightarrow> commit_batch store_load store_append s (create_id i) 0 key items)"

definition runtime_command :: "('e, 's) loader \<Rightarrow> ('e, 's) appender \<Rightarrow> string \<Rightarrow> string \<Rightarrow> 's
    \<Rightarrow> string \<Rightarrow> int \<Rightarrow> mission_command \<Rightarrow> string
    \<Rightarrow> ('e runtime_error, mission_snapshot) result \<times> 's" where
  "runtime_command store_load store_append now now' s m v c key =
     (case and_then (runtime_load store_load s m) (\<lambda>snap. lift_domain (prepare_command c now now' snap v)) of
        Inl e \<Rightarrow> (Inl e, s)
      | Inr items \<Rightarrow> commit_batch store_load store_append s m v key items)"

section \<open>Interleaving\<close>

record flight =
  flight_mission :: string
  flight_version :: int
  flight_key :: string
  flight_items :: "mission_event append_item list"

text \<open>
  A call that has run up to its append is in flight. \<open>begin_create\<close> and \<open>begin_command\<close> are the
  first halves of the methods, \<open>finish\<close> and \<open>fail\<close> the store_append of a call in flight.
\<close>

inductive runtime_step :: "('e, 's) loader \<Rightarrow> ('e, 's) appender \<Rightarrow> 's \<times> flight list
    \<Rightarrow> 's \<times> flight list \<Rightarrow> bool" for store_load store_append where
  begin_create: "prepare_create i now = Inr items \<Longrightarrow>
     runtime_step store_load store_append (s, fs)
       (s, \<lparr>flight_mission = create_id i, flight_version = 0, flight_key = key, flight_items = items\<rparr> # fs)"
| begin_command: "runtime_load store_load s m = Inr snap \<Longrightarrow> prepare_command c now now' snap v = Inr items \<Longrightarrow>
     runtime_step store_load store_append (s, fs)
       (s, \<lparr>flight_mission = m, flight_version = v, flight_key = key, flight_items = items\<rparr> # fs)"
| finish: "f \<in> set fs \<Longrightarrow>
     store_append s (flight_mission f) (flight_version f) (flight_key f) (flight_items f) = Inr (evs, s') \<Longrightarrow>
     runtime_step store_load store_append (s, fs) (s', remove1 f fs)"
| fail: "f \<in> set fs \<Longrightarrow>
     store_append s (flight_mission f) (flight_version f) (flight_key f) (flight_items f) = Inl e \<Longrightarrow>
     runtime_step store_load store_append (s, fs) (s, remove1 f fs)"

inductive runtime_reachable :: "('e, 's) loader \<Rightarrow> ('e, 's) appender \<Rightarrow> 's \<Rightarrow> 's \<times> flight list \<Rightarrow> bool"
  for store_load store_append s0 where
  start: "runtime_reachable store_load store_append s0 (s0, [])"
| step: "runtime_reachable store_load store_append s0 c \<Longrightarrow> runtime_step store_load store_append c c' \<Longrightarrow>
     runtime_reachable store_load store_append s0 c'"

definition projects :: "mission_event stored_event list \<Rightarrow> bool" where
  "projects evs \<longleftrightarrow> evs = [] \<or> (\<exists>s. project_mission evs = Inr s)"

definition flight_ok :: "mission_event stored_event list \<Rightarrow> flight \<Rightarrow> bool" where
  "flight_ok evs f \<longleftrightarrow> (\<exists>old later. evs = old @ later \<and> int (length old) = flight_version f \<and>
     projects (old @ number_events (flight_mission f) (flight_key f) (flight_version f) (flight_items f)))"

definition system_ok :: "('e, 's) loader \<Rightarrow> 's \<times> flight list \<Rightarrow> bool" where
  "system_ok store_load c \<longleftrightarrow>
     (\<forall>m evs. store_load (fst c) m = Inr evs \<longrightarrow> projects evs) \<and>
     (\<forall>f \<in> set (snd c). \<forall>evs. store_load (fst c) (flight_mission f) = Inr evs \<longrightarrow> flight_ok evs f)"

lemma contiguous_hd: "contiguous_from m n evs \<Longrightarrow> evs \<noteq> [] \<Longrightarrow> missionId (hd evs) = m"
  by (cases evs) auto

lemma flight_ok_append: "flight_ok evs f \<Longrightarrow> flight_ok (evs @ later) f"
  unfolding flight_ok_def by (metis append_assoc)

text \<open>A batch that a method prepared for a snapshot extends the stream that snapshot came from.\<close>

lemma number_events_snoc:
  "project_rest m s (n + 1) (number_events m key n [item_at now d]) = apply_event s d (n + 1)"
  by (cases "apply_event s d (n + 1)") (simp_all add: item_at_def)

lemma prepared_applies:
  assumes "prepare_command c now now' s v = Inr items" and "snapshot_wf s"
  shows "version s = v \<and> (\<exists>s'. project_rest m s (v + 1) (number_events m key v items) = Inr s')"
proof (cases c)
  case (RecordFailure g n)
  with assms(1) show ?thesis
    by (auto simp: prepare_record_failure_def assert_expected_version_def assert_failure_policy_def
        result_simps item_at_def ensure_def split: if_splits)
qed (use assms(1) in \<open>auto simp: prepare_transition_def prepare_set_status_def prepare_debit_def
       assert_expected_version_def result_simps number_events_snoc\<close>)

lemma prepared_create_projects:
  assumes "prepare_create i now = Inr items"
  shows "projects (number_events (create_id i) key 0 items)"
proof -
  from assms obtain s where s: "initial_snapshot i 0 = Inr s" and items: "items = [item_at now (MissionCreated i)]"
    by (auto simp: prepare_create_def result_simps)
  have "\<exists>s'. initial_snapshot i 1 = Inr s'"
    using s by (auto simp: initial_snapshot_def result_simps)
  then show ?thesis
    by (auto simp: items projects_def item_at_def first_snapshot_def)
qed

section \<open>The store the runtime is given\<close>

text \<open>An event store of mission events, as \<open>MissionRuntime\<close>'s constructor takes it.\<close>

locale mission_event_store = event_store append load inv
  for append :: "('e, 's) appender" and load :: "('e, 's) loader" and inv :: "'s \<Rightarrow> bool"
begin

lemma prepared_flight_ok:
  assumes "inv s" and "load s m = Inr evs" and "project_mission evs = Inr snap"
    and "prepare_command c now now' snap v = Inr items"
  shows "flight_ok evs \<lparr>flight_mission = m, flight_version = v, flight_key = key, flight_items = items\<rparr>"
proof -
  have ne: "evs \<noteq> []" using assms(3) by auto
  have v: "int (length evs) = v"
    using prepared_applies [OF assms(4)] projected_wf [OF assms(3)] projected_version [OF assms(3)] by simp
  have hd: "missionId (hd evs) = m"
    using load_contiguous [OF assms(1,2)] ne by (rule contiguous_hd)
  obtain s' where "project_rest m snap (v + 1) (number_events m key v items) = Inr s'"
    using prepared_applies [OF assms(4) projected_wf [OF assms(3)], of m key] by blast
  then have "project_mission (evs @ number_events m key v items) = Inr s'"
    using assms(3) v hd by (simp add: project_mission_append [OF ne])
  then show ?thesis
    unfolding flight_ok_def projects_def using v by (intro exI [of _ evs] exI [of _ "[]"]) auto
qed

text \<open>One append of a batch in flight keeps every stream projectable and every other batch valid.\<close>

lemma append_projects:
  assumes "inv s"
    and app: "append s (flight_mission f) (flight_version f) (flight_key f) (flight_items f) = Inr (evs, s')"
    and ok: "\<And>m evs. load s m = Inr evs \<Longrightarrow> projects evs"
    and batch: "\<And>evs. load s (flight_mission f) = Inr evs \<Longrightarrow> flight_ok evs f"
    and loaded: "load s' m' = Inr evs'"
  shows "projects evs'"
proof (cases "load s' m' = load s m'")
  case True
  with ok loaded show ?thesis by simp
next
  case False
  then have "m' = flight_mission f" using append_frame [OF assms(1) app] by metis
  with False loaded append_stream [OF assms(1) app] obtain old where old: "load s m' = Inr old"
    "int (length old) = flight_version f"
    "evs' = old @ number_events m' (flight_key f) (flight_version f) (flight_items f)" by auto
  from batch old(1) \<open>m' = flight_mission f\<close> obtain old' later where "old = old' @ later"
    "int (length old') = flight_version f"
    "projects (old' @ number_events m' (flight_key f) (flight_version f) (flight_items f))"
    by (auto simp: flight_ok_def)
  with old show ?thesis by auto
qed

lemma append_keeps_flight:
  assumes "inv s" and "append s m v key items = Inr (evs, s')"
    and "\<And>evs. load s (flight_mission f) = Inr evs \<Longrightarrow> flight_ok evs f"
    and "load s' (flight_mission f) = Inr evs'"
  shows "flight_ok evs' f"
proof -
  have "\<exists>old. load s (flight_mission f) = Inr old"
    using append_frame [OF assms(1,2)] append_stream [OF assms(1,2)] assms(4) by metis
  then obtain old where old: "load s (flight_mission f) = Inr old" ..
  with append_prefix [OF assms(1,2) old] assms(4) obtain later where "evs' = old @ later" by auto
  with assms(3) [OF old] show ?thesis by (simp add: flight_ok_append)
qed

lemma step_system_ok:
  assumes "runtime_step load append c c'" and "inv (fst c)" and "system_ok load c"
  shows "inv (fst c') \<and> system_ok load c'"
  using assms
proof (induction rule: runtime_step.induct)
  case (begin_create i now items s fs key)
  then have "flight_ok evs \<lparr>flight_mission = create_id i, flight_version = 0, flight_key = key,
      flight_items = items\<rparr>" for evs
    using prepared_create_projects unfolding flight_ok_def by (intro exI [of _ "[]"] exI [of _ evs]) auto
  with begin_create show ?case by (auto simp: system_ok_def)
next
  case (begin_command s m snap c now now' v items fs key)
  then show ?case
    by (auto simp: system_ok_def runtime_load_def result_simps intro: prepared_flight_ok)
next
  case (finish f fs s evs s')
  have sys: "\<And>m evs. load s m = Inr evs \<Longrightarrow> projects evs"
    "\<And>g evs. g \<in> set fs \<Longrightarrow> load s (flight_mission g) = Inr evs \<Longrightarrow> flight_ok evs g"
    using finish.prems by (auto simp: system_ok_def)
  have inv: "inv s" using finish.prems by simp
  have "projects evs'" if "load s' m' = Inr evs'" for m' evs'
    by (rule append_projects [OF inv finish.hyps(2) _ _ that]) (use sys finish.hyps(1) in auto)
  moreover have "flight_ok evs' g" if "g \<in> set fs" "load s' (flight_mission g) = Inr evs'" for g evs'
    using append_keeps_flight [OF inv finish.hyps(2) sys(2) [OF that(1)] that(2)] by simp
  moreover have "inv s'" using inv finish.hyps(2) by (rule append_inv)
  ultimately show ?case
    by (auto simp: system_ok_def dest!: subsetD [OF set_remove1_subset])
next
  case (fail f fs s e)
  then show ?case
    by (auto simp: system_ok_def dest!: subsetD [OF set_remove1_subset])
qed

lemma reachable_system_ok:
  assumes "runtime_reachable load append s0 c" and "inv s0"
    and "\<And>m evs. load s0 m = Inr evs \<Longrightarrow> evs = []"
  shows "inv (fst c) \<and> system_ok load c"
  using assms
proof (induction rule: runtime_reachable.induct)
  case start
  then show ?case by (auto simp: system_ok_def projects_def)
next
  case (step c c')
  then show ?case using step_system_ok by blast
qed

text \<open>Of two batches prepared at the same version at most one extends the stream.\<close>

lemma second_append_no_effect:
  assumes "inv s" and "load s m = Inr old" and "v < int (length old)"
    and "append s m v key items = Inr (evs, s')"
  shows "load s' m = load s m"
  using append_stream [OF assms(1,4)] assms(2,3) by auto

end

interpretation memory_missions: mission_event_store "append_events dp fp" load_events memory_inv
  by unfold_locales

end
