(* ===== verification/MissionFacts.thy ===== *)
theory MissionFacts
  imports MissionRuntime Checkpoint
begin

text \<open>
  Facts about whole mission histories, from the projection's induction: what was spent, which task
  statuses are final, how failures count, what a pause keeps; and the history of the event
  store's idempotency records.
\<close>

section \<open>Budgets\<close>

primrec spent :: "counter_key \<Rightarrow> mission_event list \<Rightarrow> int" where
  "spent k [] = 0"
| "spent k (d # ds) = (case d of BudgetDebited delta \<Rightarrow> counter delta k | _ \<Rightarrow> 0) + spent k ds"

lemma spent_append [simp]: "spent k (ds @ ds') = spent k ds + spent k ds'"
  by (induction ds) simp_all

lemma apply_event_usage:
  "apply_event s d v = Inr s' \<Longrightarrow> counter (budgetUsage s') k = counter (budgetUsage s) k + spent k [d]"
  by (cases d) (auto simp: result_simps split: if_splits)

lemma projected_usage: "project_mission evs = Inr s \<Longrightarrow> counter (budgetUsage s) k = spent k (map event_data evs)"
proof (induction rule: project_mission_induct)
  case (created e i s)
  then show ?case by (auto simp: initial_snapshot_def result_simps)
next
  case (event evs s e s')
  then show ?case using apply_event_usage [of s _ _ s'] by auto
qed

section \<open>Tasks\<close>

lemma apply_event_final_task:
  "apply_event s d v = Inr s' \<Longrightarrow> taskStatuses s i = Some st \<Longrightarrow> allowed_task_transitions st = [] \<Longrightarrow>
     taskStatuses s' i = Some st"
  by (cases d) (auto simp: result_simps split: if_splits)

lemma project_rest_final_task:
  "project_rest m s n evs = Inr s' \<Longrightarrow> taskStatuses s i = Some st \<Longrightarrow> allowed_task_transitions st = [] \<Longrightarrow>
     taskStatuses s' i = Some st"
  by (induction evs arbitrary: s n) (auto simp: and_then_Inr split: if_splits dest: apply_event_final_task)

section \<open>Failures\<close>

lemma apply_event_inherited:
  "apply_event s d v = Inr s' \<Longrightarrow> g \<in> set object_prototype_keys \<Longrightarrow> \<forall>n. failureCounts s g \<noteq> Some (Count n) \<Longrightarrow>
     \<forall>n. failureCounts s' g \<noteq> Some (Count n)"
  by (cases d) (auto simp: result_simps next_failure_count_Count js_get_def split: if_splits option.splits)

lemma projected_inherited:
  "project_mission evs = Inr s \<Longrightarrow> g \<in> set object_prototype_keys \<Longrightarrow> failureCounts s g \<noteq> Some (Count n)"
proof (induction arbitrary: n rule: project_mission_induct)
  case (created e i s)
  then show ?case by (auto simp: initial_snapshot_def result_simps)
next
  case (event evs s e s')
  then show ?case using apply_event_inherited [of s _ _ s' g] by blast
qed

lemma inherited_count_reaches:
  "g \<in> set object_prototype_keys \<Longrightarrow> \<forall>n. failureCounts s g \<noteq> Some (Count n) \<Longrightarrow>
     \<not> count_reaches (next_failure_count (js_get (failureCounts s) g)) m \<and> \<not> count_below (js_get (failureCounts s) g) m"
proof (cases "failureCounts s g")
  case (Some a)
  moreover assume "\<forall>n. failureCounts s g \<noteq> Some (Count n)"
  ultimately show ?thesis by (cases a) (simp_all add: js_get_def)
qed (simp add: js_get_def)

section \<open>Idempotency over a history\<close>

inductive append_step :: "(string \<Rightarrow> int option) \<Rightarrow> ('d append_item list \<Rightarrow> 'f)
    \<Rightarrow> ('d, 'f) memory_store \<Rightarrow> ('d, 'f) memory_store \<Rightarrow> bool" for dp fp where
  append_step: "append_events dp fp s m v key items = Inr (evs, s') \<Longrightarrow> append_step dp fp s s'"

lemma append_events_records:
  "append_events dp fp s m v key items = Inr (evs, s') \<Longrightarrow> idempotency s scope = Some r \<Longrightarrow> idempotency s' scope = Some r"
  by (auto simp: append_events_def Let_def result_simps split: if_splits option.splits)

lemma append_history_records:
  "(append_step dp fp)\<^sup>*\<^sup>* s s' \<Longrightarrow> idempotency s scope = Some r \<Longrightarrow> idempotency s' scope = Some r"
  by (induction rule: rtranclp_induct) (auto elim!: append_step.cases dest: append_events_records)

lemma append_events_recorded:
  "append_events dp fp s m v key items = Inr (evs, s') \<Longrightarrow>
     \<exists>r. idempotency s' (idempotency_scope m key) = Some r \<and> rec_fingerprint r = fp items \<and> rec_events r = evs"
  by (auto simp: append_events_def Let_def result_simps split: if_splits option.splits)

lemma append_events_checks:
  "append_events dp fp s m v key items = Inr (evs, s') \<Longrightarrow>
     assert_identifier m ''missionId'' = Inr () \<and> assert_identifier key ''idempotencyKey'' = Inr () \<and>
     safe_integer v \<and> 0 \<le> v \<and> items \<noteq> [] \<and> for_each (check_item dp) items = Inr ()"
  by (auto simp: append_events_def and_then_Inr split: if_splits)

end
