(* ===== verification/MissionProperties.thy ===== *)
theory MissionProperties
  imports MissionFacts
begin

text \<open>
  The properties of missions: the theorems a reader of \<open>src/mission/\<close> and \<open>src/events/\<close> would ask for,
  each with a concrete instance where it has hypotheses.
\<close>

section \<open>Concrete missions\<close>

definition sample_clock :: "string \<Rightarrow> int option" where
  "sample_clock t = (if t = ''2026-01-01T00:00:00.000Z'' then Some 1767225600000 else None)"

definition sample_now :: string where
  "sample_now = ''2026-01-01T00:00:00.000Z''"

definition sample_task :: "string \<Rightarrow> string list \<Rightarrow> int \<Rightarrow> mission_task_input" where
  "sample_task i ds p = \<lparr>input_id = i, input_title = ''title'', input_dependsOn = Some ds,
     input_definitionOfDone = [''done''], input_priority = Some p\<rparr>"

definition sample_limits :: budget_counters where
  "sample_limits = \<lparr>inputTokens = 10, outputTokens = 10, costMicros = 10, toolCalls = 10, attempts = 10\<rparr>"

definition sample_input :: mission_create_input where
  "sample_input = \<lparr>create_id = ''m'', create_objective = ''objective'', create_focus = Standard,
     create_tasks = [sample_task ''a'' [] 1, sample_task ''b'' [''a''] 2, sample_task ''c'' [] 5],
     create_budgetLimits = sample_limits\<rparr>"

definition sample_items :: "mission_event list \<Rightarrow> mission_event append_item list" where
  "sample_items ds = map (item_at sample_now) ds"

definition sample_stream :: "mission_event list \<Rightarrow> mission_event stored_event list" where
  "sample_stream ds = number_events ''m'' ''key'' 0 (sample_items (MissionCreated sample_input # ds))"

definition sample_debit :: budget_counters where
  "sample_debit = \<lparr>inputTokens = 4, outputTokens = 0, costMicros = 0, toolCalls = 3, attempts = 0\<rparr>"

lemmas sample_defs = sample_clock_def sample_now_def sample_task_def sample_limits_def sample_input_def
  sample_items_def sample_stream_def sample_debit_def

definition projected_to :: "mission_event stored_event list \<Rightarrow> (mission_snapshot \<Rightarrow> bool) \<Rightarrow> bool" where
  "projected_to evs P \<longleftrightarrow> (case project_mission evs of Inl _ \<Rightarrow> False | Inr s \<Rightarrow> P s)"

lemma projected_toE: "projected_to evs P \<Longrightarrow> \<exists>s. project_mission evs = Inr s \<and> P s"
  by (auto simp: projected_to_def split: sum.splits)

lemma sample_completed: "projected_to (sample_stream completion_path) (\<lambda>s. mstate s = COMPLETED)"
  by code_simp

lemma sample_spent: "projected_to (sample_stream [BudgetDebited sample_debit, BudgetDebited sample_debit])
    (\<lambda>s. counter (budgetUsage s) ToolCalls = 6)"
  by code_simp

section \<open>Histories\<close>

text \<open>C1. Interleaved calls keep every mission readable: start from an empty event store and let any
  number of \<open>create\<close>, \<open>transition\<close>, \<open>setTaskStatus\<close>, \<open>debitBudget\<close> and \<open>recordFailure\<close> calls run in any
  interleaving of their loads and appends; every stream that has events still projects, and its
  version is the number of its events.\<close>

theorem streams_stay_projectable:
  assumes "runtime_reachable load_events (append_events dp fp) empty_store c"
    and "load_events (fst c) m = Inr evs" and "evs \<noteq> []"
  shows "\<exists>s. project_mission evs = Inr s \<and> version s = int (length evs)"
proof -
  have "system_ok load_events c"
    using memory_missions.reachable_system_ok [OF assms(1) memory_inv_empty]
    by (auto simp: load_events_def empty_store_def current_stream_def result_simps)
  then have "projects evs" unfolding system_ok_def using assms(2) by blast
  then obtain s where "project_mission evs = Inr s" using assms(3) unfolding projects_def by blast
  with projected_version show ?thesis by blast
qed

definition sample_flight :: flight where
  "sample_flight = \<lparr>flight_mission = ''m'', flight_version = 0, flight_key = ''key'',
     flight_items = sample_items [MissionCreated sample_input]\<rparr>"

definition sample_store :: "(mission_event, unit) memory_store" where
  "sample_store = (case append_events sample_clock (\<lambda>_. ()) empty_store ''m'' 0 ''key'' (sample_items [MissionCreated sample_input]) of
     Inl _ \<Rightarrow> empty_store | Inr (_, s) \<Rightarrow> s)"

lemma sample_prepared: "prepare_create sample_input sample_now = Inr (sample_items [MissionCreated sample_input])"
proof -
  have "initial_snapshot sample_input 0 \<noteq> Inl e" for e
  proof -
    have "(case initial_snapshot sample_input 0 of Inl _ \<Rightarrow> False | Inr _ \<Rightarrow> True)" by code_simp
    then show ?thesis by (auto split: sum.splits)
  qed
  then obtain s where "initial_snapshot sample_input 0 = Inr s" by (cases "initial_snapshot sample_input 0") auto
  then show ?thesis by (simp add: prepare_create_def sample_items_def)
qed

lemma sample_appended:
  "append_events sample_clock (\<lambda>_. ()) empty_store ''m'' 0 ''key'' (sample_items [MissionCreated sample_input])
     = Inr (sample_stream [], sample_store)"
  by (simp add: sample_store_def append_events_def Let_def empty_store_def current_stream_def assert_identifier_def
      check_item_def sample_defs js_simps item_at_def)

lemma sample_loaded: "load_events sample_store ''m'' = Inr (sample_stream [])"
  by (simp add: sample_store_def append_events_def Let_def empty_store_def current_stream_def assert_identifier_def
      check_item_def sample_defs js_simps item_at_def load_events_def)

lemma sample_reachable:
  "runtime_reachable load_events (append_events sample_clock (\<lambda>_. ())) empty_store (sample_store, [])"
proof -
  let ?R = "runtime_reachable load_events (append_events sample_clock (\<lambda>_. ())) empty_store"
  have "?R (empty_store, [sample_flight])"
    using runtime_reachable.step [OF runtime_reachable.start
        runtime_step.begin_create [OF sample_prepared, of load_events "append_events sample_clock (\<lambda>_. ())" empty_store "[]" "''key''"]]
    by (simp add: sample_flight_def sample_input_def)
  from runtime_reachable.step [OF this runtime_step.finish [of sample_flight]] sample_appended
  show ?thesis by (force simp: sample_flight_def)
qed

lemma streams_stay_projectable_witness:
  "\<exists>s. project_mission (sample_stream []) = Inr s \<and> version s = 1"
  using streams_stay_projectable [OF sample_reachable, of "''m''" "sample_stream []"] sample_loaded
  by (simp add: sample_stream_def sample_items_def)

text \<open>C2. Budgets: in every history the usage of each counter is exactly what was debited, never
  negative and never above the limit the mission was created with.\<close>

theorem budget_never_exceeded:
  assumes "project_mission evs = Inr s"
  shows "counter (budgetUsage s) k = spent k (map event_data evs) \<and>
    0 \<le> spent k (map event_data evs) \<and> spent k (map event_data evs) \<le> counter (budgetLimits s) k"
proof -
  have "0 \<le> counter (budgetUsage s) k \<and> counter (budgetUsage s) k \<le> counter (budgetLimits s) k"
    using projected_wf [OF assms] unfolding snapshot_wf_def budget_wf_def by blast
  then show ?thesis unfolding projected_usage [OF assms, of k] by simp
qed

lemma budget_never_exceeded_witness:
  "spent ToolCalls (map event_data (sample_stream [BudgetDebited sample_debit, BudgetDebited sample_debit])) = 6 \<and>
   (\<exists>s. project_mission (sample_stream [BudgetDebited sample_debit, BudgetDebited sample_debit]) = Inr s \<and>
      spent ToolCalls (map event_data (sample_stream [BudgetDebited sample_debit, BudgetDebited sample_debit]))
        \<le> counter (budgetLimits s) ToolCalls)"
proof -
  obtain s where s: "project_mission (sample_stream [BudgetDebited sample_debit, BudgetDebited sample_debit]) = Inr s"
    "counter (budgetUsage s) ToolCalls = 6"
    using projected_toE [OF sample_spent] by blast
  from budget_never_exceeded [OF s(1), of ToolCalls] s show ?thesis by auto
qed

text \<open>C3. Completion: a mission that is \<open>COMPLETED\<close> went through every stage in order, from
  \<open>CREATED\<close> over verification, checkpoint and final audit, whatever pauses, repairs and other events
  came between.\<close>

theorem completion_in_order:
  assumes "project_mission evs = Inr s" and "mstate s = COMPLETED"
  shows "subseq
    [MissionTransitioned CREATED UNDERSTANDING, MissionTransitioned UNDERSTANDING RETRIEVING,
     MissionTransitioned RETRIEVING PLANNING, MissionTransitioned PLANNING RISK_CHECK,
     MissionTransitioned RISK_CHECK EXECUTING, MissionTransitioned EXECUTING OBSERVING,
     MissionTransitioned OBSERVING VERIFYING, MissionTransitioned VERIFYING CHECKPOINTING,
     MissionTransitioned CHECKPOINTING FINAL_AUDIT, MissionTransitioned FINAL_AUDIT COMPLETED] (map event_data evs)"
proof -
  have "resumeState s = None"
    using projected_wf [OF assms(1)] assms(2) by (auto simp: snapshot_wf_def resume_wf_def split: option.splits)
  then have "stage_index (effective_state s) = 10" using assms(2) by (simp add: effective_state_def)
  with projected_milestones [OF assms(1)] show ?thesis by (simp add: completion_path_def)
qed

lemma completion_in_order_witness:
  "subseq (completion_path) (map event_data (sample_stream completion_path)) \<and>
   (\<exists>s. project_mission (sample_stream completion_path) = Inr s \<and> mstate s = COMPLETED)"
  using completion_in_order projected_toE [OF sample_completed] by (fastforce simp: completion_path_def)

text \<open>C4. End states: once a mission is completed, cancelled, blocked or failed, no later event changes
  its state, its task statuses or its budget usage.\<close>

theorem terminal_states_absorb:
  assumes "project_mission evs = Inr s" and "mstate s \<in> {COMPLETED, CANCELLED, BLOCKED, FAILED}"
    and "project_mission (evs @ later) = Inr s'"
  shows "mstate s' = mstate s \<and> taskStatuses s' = taskStatuses s \<and> budgetUsage s' = budgetUsage s"
proof -
  have ne: "evs \<noteq> []" using assms(1) by auto
  from assms(3) have "project_rest (missionId (hd evs)) s (int (length evs) + 1) later = Inr s'"
    by (simp add: project_mission_append [OF ne] assms(1))
  from project_rest_terminal [OF this] assms(2) show ?thesis by (auto simp: terminal_states_def)
qed

lemma sample_late_failure:
  "projected_to (sample_stream (completion_path @ [FailureRecorded ''late''])) (\<lambda>s. True)"
  by code_simp

lemma terminal_states_absorb_witness:
  "\<exists>s. project_mission (sample_stream (completion_path @ [FailureRecorded ''late''])) = Inr s \<and> mstate s = COMPLETED"
proof -
  have split: "sample_stream (completion_path @ [FailureRecorded ''late'']) = sample_stream completion_path @
      number_events ''m'' ''key'' 11 (sample_items [FailureRecorded ''late''])"
    by (simp add: sample_stream_def sample_items_def completion_path_def item_at_def)
  obtain s where s: "project_mission (sample_stream completion_path) = Inr s" "mstate s = COMPLETED"
    using projected_toE [OF sample_completed] by blast
  obtain s' where "project_mission (sample_stream (completion_path @ [FailureRecorded ''late''])) = Inr s'"
    using projected_toE [OF sample_late_failure] by blast
  with terminal_states_absorb [OF s(1), of _ s'] s(2) show ?thesis unfolding split by auto
qed

text \<open>C5. Pause and resume: pausing a mission in any working state and resuming it gives back the same
  snapshot, four versions later; resuming into any other state than the captured one is refused.\<close>

theorem pause_then_resume:
  assumes "mstate s \<in> set interruptible_states" and "resumeState s = None"
  shows "and_then (apply_event s (MissionTransitioned (mstate s) PAUSING) (version s + 1)) (\<lambda>s1.
         and_then (apply_event s1 (MissionTransitioned PAUSING PAUSED) (version s + 2)) (\<lambda>s2.
         and_then (apply_event s2 (MissionTransitioned PAUSED RESUMING) (version s + 3)) (\<lambda>s3.
         apply_event s3 (MissionTransitioned RESUMING to) (version s + 4)))) =
     (if to = mstate s then Inr (s\<lparr>version := version s + 4\<rparr>) else Inl ResumeMismatch)"
proof -
  have live: "mstate s \<notin> set terminal_states" "mstate s \<noteq> RESUMING"
    using assms(1) by (auto simp: interruptible_states_def terminal_states_def)
  then have 1: "assert_transition s PAUSING = Inr ()" using assms(1) by (simp add: assert_transition_def)
  define s1 where "s1 = s\<lparr>resumeState := Some (mstate s), mstate := PAUSING, version := version s + 1\<rparr>"
  define s2 where "s2 = s1\<lparr>mstate := PAUSED, version := version s + 2\<rparr>"
  define s3 where "s3 = s2\<lparr>mstate := RESUMING, version := version s + 3\<rparr>"
  have e1: "apply_event s (MissionTransitioned (mstate s) PAUSING) (version s + 1) = Inr s1"
    by (simp add: 1 s1_def next_resume_state_def)
  have e2: "apply_event s1 (MissionTransitioned PAUSING PAUSED) (version s + 2) = Inr s2"
    by (simp add: s1_def s2_def next_resume_state_def assert_transition_def terminal_states_def interruptible_states_def)
  have e3: "apply_event s2 (MissionTransitioned PAUSED RESUMING) (version s + 3) = Inr s3"
    by (simp add: s1_def s2_def s3_def next_resume_state_def assert_transition_def terminal_states_def interruptible_states_def)
  have st: "mstate s3 = RESUMING" "resumeState s3 = Some (mstate s)" by (simp_all add: s1_def s2_def s3_def)
  have "s3\<lparr>resumeState := None, mstate := mstate s, version := version s + 4\<rparr> = s\<lparr>version := version s + 4\<rparr>"
    using assms(2) by (cases s) (simp add: s1_def s2_def s3_def)
  moreover have "to \<noteq> PAUSING" if "to = mstate s" using assms(1) that by (auto simp: interruptible_states_def)
  ultimately have "apply_event s3 (MissionTransitioned RESUMING to) (version s + 4) =
     (if to = mstate s then Inr (s\<lparr>version := version s + 4\<rparr>) else Inl ResumeMismatch)"
    by (auto simp: st assert_transition_def terminal_states_def next_resume_state_def)
  with e1 e2 e3 show ?thesis by simp
qed

lemma pause_then_resume_witness:
  "\<exists>s. project_mission (sample_stream []) = Inr s \<and>
     and_then (apply_event s (MissionTransitioned (mstate s) PAUSING) (version s + 1)) (\<lambda>s1.
     and_then (apply_event s1 (MissionTransitioned PAUSING PAUSED) (version s + 2)) (\<lambda>s2.
     and_then (apply_event s2 (MissionTransitioned PAUSED RESUMING) (version s + 3)) (\<lambda>s3.
     apply_event s3 (MissionTransitioned RESUMING CREATED) (version s + 4)))) = Inr (s\<lparr>version := version s + 4\<rparr>)"
proof -
  have "projected_to (sample_stream []) (\<lambda>s. mstate s = CREATED \<and> resumeState s = None)" by code_simp
  then obtain s where s: "project_mission (sample_stream []) = Inr s" "mstate s = CREATED" "resumeState s = None"
    using projected_toE by blast
  from pause_then_resume [of s CREATED] s show ?thesis by (intro exI [of _ s]) (simp add: interruptible_states_def)
qed

section \<open>Tasks\<close>

text \<open>C6. \<open>validateTaskGraph\<close> accepts a list of task inputs exactly when each of them normalises, the
  identifiers are distinct, every dependency names a task of the list, and no task depends on itself
  through any chain of dependencies; the result is the normalised tasks.\<close>

theorem validation_accepts_acyclic_graphs:
  "validate_task_graph inputs = Inr ts \<longleftrightarrow>
     traverse normalize_task inputs = Inr ts \<and> distinct (map task_id ts) \<and>
     (\<Union>t \<in> set ts. set (dependsOn t)) \<subseteq> task_id ` set ts \<and>
     (\<nexists>i. (i, i) \<in> {(a, b). \<exists>t \<in> set ts. a = task_id t \<and> b \<in> set (dependsOn t)}\<^sup>+)"
proof -
  have "dep_edges ts = {(a, b). \<exists>t \<in> set ts. a = task_id t \<and> b \<in> set (dependsOn t)}"
    by (auto simp: dep_edges_iff)
  moreover have "known_dependencies ts \<longleftrightarrow> (\<Union>t \<in> set ts. set (dependsOn t)) \<subseteq> task_id ` set ts"
    by (auto simp: known_dependencies_def list_all_iff)
  ultimately show ?thesis unfolding validate_task_graph_iff acyclic_def by simp
qed

text \<open>The scheduler: the runnable tasks are exactly the pending tasks all of whose dependencies are
  verified, each once, by falling priority and then by identifier.\<close>

theorem runnable_tasks_exact:
  assumes "project_mission evs = Inr s" and "comparator lc"
  shows "set (runnable_tasks lc s) = {t \<in> set (tasks s). taskStatuses s (task_id t) = Some PENDING \<and>
           (set (dependsOn t) \<subseteq> {d. taskStatuses s d = Some VERIFIED})} \<and>
         distinct (map task_id (runnable_tasks lc s)) \<and>
         sorted_wrt (\<lambda>l r. TaskGraph.priority r < TaskGraph.priority l \<or>
           (TaskGraph.priority l = TaskGraph.priority r \<and> lc (task_id l) (task_id r) \<le> 0)) (runnable_tasks lc s)"
proof -
  have "distinct (map task_id (filter (is_runnable (taskStatuses s)) (tasks s)))"
    using projected_wf [OF assms(1)] by (simp add: snapshot_wf_def graph_wf_def distinct_map_filter)
  moreover have "mset (map task_id (runnable_tasks lc s)) = mset (map task_id (filter (is_runnable (taskStatuses s)) (tasks s)))"
    by (simp add: runnable_tasks_def runnable_of_def)
  ultimately have "distinct (map task_id (runnable_tasks lc s))" by (metis mset_eq_imp_distinct_iff)
  moreover have "set (runnable_tasks lc s) = {t \<in> set (tasks s). taskStatuses s (task_id t) = Some PENDING \<and>
           (set (dependsOn t) \<subseteq> {d. taskStatuses s d = Some VERIFIED})}"
    by (auto simp: runnable_tasks_def is_runnable_def js_get_Own list_all_iff)
  ultimately show ?thesis using runnable_of_sorted [OF assms(2)] by (simp add: runnable_tasks_def)
qed

lemma runnable_tasks_exact_witness:
  "\<exists>s. project_mission (sample_stream []) = Inr s \<and> map task_id (runnable_tasks code_unit_compare s) = [''c'', ''a''] \<and>
     distinct (map task_id (runnable_tasks code_unit_compare s))"
proof -
  have "projected_to (sample_stream []) (\<lambda>s. map task_id (runnable_tasks code_unit_compare s) = [''c'', ''a''])"
    by code_simp
  from projected_toE [OF this] obtain s where s: "project_mission (sample_stream []) = Inr s \<and>
    map task_id (runnable_tasks code_unit_compare s) = [''c'', ''a'']" ..
  from runnable_tasks_exact [OF conjunct1 [OF s] code_units.comparator_axioms]
  have "distinct (map task_id (runnable_tasks code_unit_compare s))" by (elim conjE)
  with s show ?thesis by (intro exI [of _ s]) (elim conjE, intro conjI)
qed

text \<open>No deadlock: while every task of a mission is pending or verified and at least one is pending,
  the scheduler offers a task.\<close>

theorem scheduler_offers_work:
  assumes "project_mission evs = Inr s" and "t \<in> set (tasks s)" and "taskStatuses s (task_id t) = Some PENDING"
    and "\<forall>u \<in> set (tasks s). taskStatuses s (task_id u) \<in> {Some PENDING, Some VERIFIED}"
  shows "runnable_tasks lc s \<noteq> []"
proof -
  have "acyclic (dep_edges (tasks s))" "known_dependencies (tasks s)"
    using projected_wf [OF assms(1)] by (simp_all add: snapshot_wf_def graph_wf_def)
  from runnable_exists [where statuses = "taskStatuses s", OF this assms(2,3)] assms(4) obtain u
    where "u \<in> set (tasks s)" "is_runnable (taskStatuses s) u" by auto
  then have "u \<in> set (runnable_tasks lc s)" by (simp add: runnable_tasks_def)
  then show ?thesis by auto
qed

lemma scheduler_offers_work_witness:
  "\<exists>s. project_mission (sample_stream []) = Inr s \<and> runnable_tasks (\<lambda>_ _. 0) s \<noteq> []"
proof -
  have "projected_to (sample_stream []) (\<lambda>s. list_all (\<lambda>u. taskStatuses s (task_id u) = Some PENDING) (tasks s) \<and> tasks s \<noteq> [])"
    by code_simp
  from projected_toE [OF this] obtain s where s: "project_mission (sample_stream []) = Inr s"
    "list_all (\<lambda>u. taskStatuses s (task_id u) = Some PENDING) (tasks s)" "tasks s \<noteq> []" by blast
  then have "hd (tasks s) \<in> set (tasks s)" "taskStatuses s (task_id (hd (tasks s))) = Some PENDING"
    by (auto simp: list_all_iff)
  from scheduler_offers_work [OF s(1) this] s(1,2) show ?thesis by (auto simp: list_all_iff)
qed

text \<open>Verified and cancelled tasks are final: no later event of the mission changes their status.\<close>

lemma final_task_statuses:
  assumes "project_mission evs = Inr s" and "taskStatuses s i = Some st" and "st \<in> {VERIFIED, CANCELLED_TASK}"
    and "project_mission (evs @ later) = Inr s'"
  shows "taskStatuses s' i = Some st"
proof -
  have ne: "evs \<noteq> []" using assms(1) by auto
  from assms(4) have "project_rest (missionId (hd evs)) s (int (length evs) + 1) later = Inr s'"
    by (simp add: project_mission_append [OF ne] assms(1))
  moreover have "allowed_task_transitions st = []" using assms(3) by auto
  ultimately show ?thesis using assms(2) by (blast intro: project_rest_final_task)
qed

lemma final_task_statuses_witness:
  "\<exists>s. project_mission (sample_stream [TaskStatusChanged ''a'' CANCELLED_TASK, TaskStatusChanged ''c'' RUNNING]) = Inr s \<and>
     taskStatuses s ''a'' = Some CANCELLED_TASK"
proof -
  have split: "sample_stream [TaskStatusChanged ''a'' CANCELLED_TASK, TaskStatusChanged ''c'' RUNNING] =
      sample_stream [TaskStatusChanged ''a'' CANCELLED_TASK] @ number_events ''m'' ''key'' 2 (sample_items [TaskStatusChanged ''c'' RUNNING])"
    by (simp add: sample_stream_def sample_items_def)
  have "projected_to (sample_stream [TaskStatusChanged ''a'' CANCELLED_TASK]) (\<lambda>s. taskStatuses s ''a'' = Some CANCELLED_TASK)"
    by code_simp
  from projected_toE [OF this] obtain s where s: "project_mission (sample_stream [TaskStatusChanged ''a'' CANCELLED_TASK]) = Inr s"
    "taskStatuses s ''a'' = Some CANCELLED_TASK" by blast
  have "projected_to (sample_stream [TaskStatusChanged ''a'' CANCELLED_TASK, TaskStatusChanged ''c'' RUNNING]) (\<lambda>s. True)"
    by code_simp
  from projected_toE [OF this] obtain s'
    where "project_mission (sample_stream [TaskStatusChanged ''a'' CANCELLED_TASK, TaskStatusChanged ''c'' RUNNING]) = Inr s'" by blast
  with final_task_statuses [OF s] show ?thesis unfolding split by auto
qed

section \<open>Failures\<close>

text \<open>The failure ceiling: for a signature that no plain object inherits, recording a failure fails the
  mission at once exactly when a further retry of that signature is no longer allowed afterwards.\<close>

theorem failure_ceiling:
  assumes "project_mission evs = Inr s" and "g \<notin> set object_prototype_keys"
    and "prepare_record_failure g n now now' s (version s) = Inr items"
    and "apply_event s (FailureRecorded g) (version s + 1) = Inr s1"
  shows "map item_data items =
    (if can_retry s1 g n = Inr True then [FailureRecorded g] else [FailureRecorded g, MissionTransitioned (mstate s) FAILED])"
proof -
  have own: "\<exists>m. next_failure_count (js_get (failureCounts s) g) = Count m"
  proof (cases "failureCounts s g")
    case (Some c)
    with projected_wf [OF assms(1)] assms(2) obtain m where "c = Count m"
      by (cases c) (auto simp: snapshot_wf_def failures_wf_def)
    with Some show ?thesis by (simp add: js_get_def)
  qed (use assms(2) in \<open>simp add: js_get_def\<close>)
  then obtain m where m: "next_failure_count (js_get (failureCounts s) g) = Count m" ..
  from assms(3) have live: "mstate s \<in> set interruptible_states" "assert_failure_policy g n = Inr ()"
    by (auto simp: prepare_record_failure_def result_simps split: if_splits)
  then have "mstate s \<notin> set terminal_states" by (auto simp: interruptible_states_def terminal_states_def)
  moreover have "mstate s1 = mstate s" "js_get (failureCounts s1) g = Own (Count m)"
    using assms(4) m by (auto simp: result_simps js_get_def)
  ultimately have "can_retry s1 g n = Inr (m < n)" using live by (simp add: can_retry_def)
  moreover have "map item_data items =
      (if n \<le> m then [FailureRecorded g, MissionTransitioned (mstate s) FAILED] else [FailureRecorded g])"
    using assms(3) m by (auto simp: prepare_record_failure_def result_simps split: if_splits)
  ultimately show ?thesis by auto
qed

lemma failure_ceiling_witness:
  "\<exists>s items. project_mission (sample_stream []) = Inr s \<and>
     prepare_record_failure ''flaky'' 1 sample_now sample_now s (version s) = Inr items \<and>
     map item_data items = [FailureRecorded ''flaky'', MissionTransitioned CREATED FAILED]"
proof -
  have "projected_to (sample_stream []) (\<lambda>s. mstate s = CREATED \<and> version s = 1 \<and> failureCounts s ''flaky'' = None)"
    by code_simp
  from projected_toE [OF this] obtain s where s: "project_mission (sample_stream []) = Inr s \<and>
    mstate s = CREATED \<and> version s = 1 \<and> failureCounts s ''flaky'' = None" ..
  have plain: "''flaky'' \<notin> set object_prototype_keys" by code_simp
  have policy: "assert_failure_policy ''flaky'' 1 = Inr ()" by code_simp
  obtain items where items: "prepare_record_failure ''flaky'' 1 sample_now sample_now s (version s) = Inr items"
    using s plain policy
    by (simp add: prepare_record_failure_def assert_expected_version_def js_get_def interruptible_states_def
        transition_event_def assert_transition_def terminal_states_def)
  obtain s1 where s1: "apply_event s (FailureRecorded ''flaky'') (version s + 1) = Inr s1"
    by (simp add: assert_non_empty_def blank_def js_space_def)
  have "can_retry s1 ''flaky'' 1 \<noteq> Inr True"
    using s1 s plain policy by (auto simp: can_retry_def js_get_def result_simps assert_non_empty_def)
  with failure_ceiling [OF conjunct1 [OF s] plain items s1] s items show ?thesis
    by (intro exI [of _ s] exI [of _ items]) simp
qed

text \<open>C39. A signature named like any member of \<open>Object.prototype\<close> escapes the ceiling: however often such a failure has been
  recorded, recording it again does not fail the mission, and \<open>canRetry\<close> answers no from the start.\<close>

theorem inherited_signature_never_fails:
  assumes "g \<in> set object_prototype_keys" and "project_mission evs = Inr s" and "prepare_record_failure g n now now' s v = Inr items"
  shows "map item_data items = [FailureRecorded g] \<and> can_retry s g n = Inr False"
proof -
  note never = inherited_count_reaches [OF assms(1), of s n] projected_inherited [OF assms(2,1)]
  from assms(3) have "assert_failure_policy g n = Inr ()"
    by (auto simp: prepare_record_failure_def result_simps split: if_splits)
  with never assms(3) show ?thesis
    by (auto simp: prepare_record_failure_def can_retry_def result_simps split: if_splits)
qed

lemma inherited_signature_never_fails_witness:
  "\<exists>s items. project_mission (sample_stream [FailureRecorded ''constructor'', FailureRecorded ''constructor'']) = Inr s \<and>
     prepare_record_failure ''constructor'' 1 sample_now sample_now s 3 = Inr items \<and>
     map item_data items = [FailureRecorded ''constructor'']"
proof -
  have "projected_to (sample_stream [FailureRecorded ''constructor'', FailureRecorded ''constructor''])
      (\<lambda>s. case prepare_record_failure ''constructor'' 1 sample_now sample_now s 3 of Inl _ \<Rightarrow> False | Inr _ \<Rightarrow> True)"
    by code_simp
  from projected_toE [OF this] obtain s where
    s: "project_mission (sample_stream [FailureRecorded ''constructor'', FailureRecorded ''constructor'']) = Inr s \<and>
      (case prepare_record_failure ''constructor'' 1 sample_now sample_now s 3 of Inl _ \<Rightarrow> False | Inr _ \<Rightarrow> True)" ..
  then obtain items where items: "prepare_record_failure ''constructor'' 1 sample_now sample_now s 3 = Inr items"
    by (cases "prepare_record_failure ''constructor'' 1 sample_now sample_now s 3") simp_all
  have "''constructor'' \<in> set object_prototype_keys" by (simp add: object_prototype_keys_def)
  from conjunct1 [OF inherited_signature_never_fails [OF this conjunct1 [OF s] items]] conjunct1 [OF s] items
  show ?thesis by (intro exI [of _ s] exI [of _ items] conjI)
qed

section \<open>Event store and checkpoints\<close>

text \<open>Idempotent appends: after a batch was accepted under a key, and after any later history of the
  store, the same call returns the same events and changes nothing, and the key with a batch of
  another fingerprint is refused.\<close>

theorem append_replays_forever:
  assumes "append_events dp fp s m v key items = Inr (evs, s1)" and "(append_step dp fp)\<^sup>*\<^sup>* s1 s2"
  shows "append_events dp fp s2 m v key items = Inr (evs, s2) \<and>
    (\<forall>items'. fp items' \<noteq> fp items \<longrightarrow> items' \<noteq> [] \<longrightarrow> for_each (check_item dp) items' = Inr () \<longrightarrow>
       append_events dp fp s2 m v key items' = Inl KeyReusedForOtherBatch)"
proof -
  from append_events_recorded [OF assms(1)] obtain r where
    r: "idempotency s1 (idempotency_scope m key) = Some r" "rec_fingerprint r = fp items" "rec_events r = evs" by auto
  with append_history_records [OF assms(2)] have "idempotency s2 (idempotency_scope m key) = Some r" by blast
  with r append_events_checks [OF assms(1)] show ?thesis by (auto simp: append_events_def)
qed

lemma append_replays_forever_witness:
  "append_events sample_clock (\<lambda>_. ()) sample_store ''m'' 0 ''key'' (sample_items [MissionCreated sample_input])
     = Inr (sample_stream [], sample_store)"
  using append_replays_forever [OF sample_appended rtranclp.rtrancl_refl] by blast

text \<open>Optimistic concurrency: once the stream of a mission is longer than the version a call expects,
  that call cannot extend it any more; it fails or replays what the stream already holds.\<close>

theorem stale_append_has_no_effect:
  fixes s :: "(mission_event, 'f) memory_store"
  assumes "memory_inv s" and "load_events s m = Inr old" and "v < int (length old)"
    and "append_events dp fp s m v key items = Inr (evs, s')"
  shows "load_events s' m = Inr old"
  using memory_missions.second_append_no_effect [OF assms] assms(2) by simp

lemma stale_append_has_no_effect_witness:
  "load_events sample_store ''m'' = Inr (sample_stream [])"
proof -
  have inv: "memory_inv sample_store"
    using memory.append_inv [OF memory_inv_empty sample_appended] .
  have "append_events sample_clock (\<lambda>_. ()) sample_store ''m'' 0 ''key'' (sample_items [MissionCreated sample_input])
     = Inr (sample_stream [], sample_store)"
    using append_events_again [OF sample_appended] .
  from stale_append_has_no_effect [OF inv sample_loaded _ this] show ?thesis
    by (simp add: sample_stream_def sample_items_def)
qed

text \<open>Checkpoints: the checkpoint of a projected mission restores to exactly its snapshot, and the same
  checkpoint with a snapshot of another hash, or for another mission, restores to nothing.\<close>

theorem checkpoint_roundtrip:
  assumes "project_mission evs = Inr s" and "int (length evs) \<le> max_safe_integer"
  shows "\<exists>c. create_mission_checkpoint digest s (version s) = Inr c \<and>
    restore_mission_checkpoint digest c (snap_id s) = Inr s \<and>
    (\<forall>s' m x. digest s' \<noteq> digest s \<longrightarrow> restore_mission_checkpoint digest (c\<lparr>cp_snapshot := s'\<rparr>) m \<noteq> Inr x) \<and>
    (\<forall>m x. m \<noteq> snap_id s \<longrightarrow> restore_mission_checkpoint digest c m \<noteq> Inr x)"
proof -
  have "1 \<le> version s" "safe_integer (version s)"
    using projected_version [OF assms(1)] assms(2) by (auto simp: safe_integer_def Suc_le_eq) (use assms(1) in \<open>cases evs; simp\<close>)
  then show ?thesis by (auto simp: create_checkpoint_Inr restore_checkpoint_Inr)
qed

lemma checkpoint_roundtrip_witness:
  "\<exists>s c. project_mission (sample_stream []) = Inr s \<and> create_mission_checkpoint snap_id s (version s) = Inr c \<and>
     restore_mission_checkpoint snap_id c (snap_id s) = Inr s"
proof -
  have "projected_to (sample_stream []) (\<lambda>_. True)" by code_simp
  from projected_toE [OF this] obtain s where s: "project_mission (sample_stream []) = Inr s" by blast
  have "int (length (sample_stream [])) \<le> max_safe_integer"
    by (simp add: sample_stream_def sample_items_def max_safe_integer_def)
  from checkpoint_roundtrip [OF s this, of snap_id] s show ?thesis by blast
qed

end
