(* ===== verification/Json.thy ===== *)
theory Json
  imports Prelude "HOL-Library.Countable"
begin

text \<open>
  JSON values as the runtime hashes and validates them, and \<open>canonicalize\<close> (\<open>src/tools/runtime.ts\<close>,
  the same function in \<open>src/events/store.ts\<close> and \<open>src/mission/checkpoint.ts\<close>). An object is its list
  of own properties in enumeration order. The lemmas: the canonical form does not depend on
  the order in which an object's properties were written, and canonicalizing twice changes nothing.
\<close>

datatype json = JNull | JBool bool | JNum rat | JStr string | JArr "json list" | JObj "(string \<times> json) list"

instance json :: countable
  by countable_datatype

definition js_keys :: "(string \<times> 'a) list \<Rightarrow> string list" where
  "js_keys props = map fst props"

definition own_property :: "(string \<times> 'a) list \<Rightarrow> string \<Rightarrow> 'a option" where
  "own_property props k = map_of props k"

text \<open>\<open>key in object\<close>.\<close>

definition js_in :: "string \<Rightarrow> (string \<times> 'a) list \<Rightarrow> bool" where
  "js_in k props \<longleftrightarrow> k \<in> fst ` set props \<or> k \<in> set object_prototype_keys"

text \<open>\<open>Number.isInteger\<close> and \<open>Number.isSafeInteger\<close>.\<close>

definition num_is_integer :: "rat \<Rightarrow> bool" where
  "num_is_integer q \<longleftrightarrow> snd (quotient_of q) = 1"

definition num_is_safe_integer :: "rat \<Rightarrow> bool" where
  "num_is_safe_integer q \<longleftrightarrow> num_is_integer q \<and> safe_integer (fst (quotient_of q))"

section \<open>Canonical form\<close>

text \<open>
  \<open>Object.fromEntries\<close> on the sorted keys: an object enumerates its array-index names first, by
  number, then the others in the order they were written.
\<close>

definition digit_char :: "char \<Rightarrow> bool" where
  "digit_char c \<longleftrightarrow> 48 \<le> (of_char c :: nat) \<and> (of_char c :: nat) \<le> 57"

definition lower_char :: "char \<Rightarrow> bool" where
  "lower_char c \<longleftrightarrow> 97 \<le> (of_char c :: nat) \<and> (of_char c :: nat) \<le> 122"

definition upper_char :: "char \<Rightarrow> bool" where
  "upper_char c \<longleftrightarrow> 65 \<le> (of_char c :: nat) \<and> (of_char c :: nat) \<le> 90"

definition hex_char :: "char \<Rightarrow> bool" where
  "hex_char c \<longleftrightarrow> digit_char c \<or> (97 \<le> (of_char c :: nat) \<and> (of_char c :: nat) \<le> 102)"

text \<open>\<open>/^[a-f0-9]{64}$/u\<close>.\<close>

definition sha256_pattern :: "string \<Rightarrow> bool" where
  "sha256_pattern s \<longleftrightarrow> length s = 64 \<and> list_all hex_char s"

definition digits_value :: "string \<Rightarrow> nat" where
  "digits_value s = foldl (\<lambda>n c. 10 * n + (of_char c - 48)) 0 s"

definition array_index_name :: "string \<Rightarrow> bool" where
  "array_index_name s \<longleftrightarrow> s \<noteq> [] \<and> list_all digit_char s \<and> (s = ''0'' \<or> hd s \<noteq> CHR ''0'')
     \<and> digits_value s < 4294967295"

definition from_entries :: "(string \<times> 'a) list \<Rightarrow> (string \<times> 'a) list" where
  "from_entries kvs =
     sort_key (\<lambda>kv. digits_value (fst kv)) (filter (\<lambda>kv. array_index_name (fst kv)) kvs)
     @ filter (\<lambda>kv. \<not> array_index_name (fst kv)) kvs"

definition key_compare :: "string \<times> 'a \<Rightarrow> string \<times> 'a \<Rightarrow> int" where
  "key_compare a b = code_unit_compare (fst a) (fst b)"

primrec canonicalize :: "json \<Rightarrow> json" where
  "canonicalize JNull = JNull"
| "canonicalize (JBool b) = JBool b"
| "canonicalize (JNum n) = JNum n"
| "canonicalize (JStr s) = JStr s"
| "canonicalize (JArr xs) = JArr (map canonicalize xs)"
| "canonicalize (JObj props) =
     JObj (from_entries (js_sort key_compare (map (map_prod id canonicalize) props)))"

text \<open>Every object has each property once.\<close>

primrec json_wf :: "json \<Rightarrow> bool" where
  "json_wf JNull = True"
| "json_wf (JBool b) = True"
| "json_wf (JNum n) = True"
| "json_wf (JStr s) = True"
| "json_wf (JArr xs) = list_all id (map json_wf xs)"
| "json_wf (JObj props) = (distinct (map fst props) \<and> list_all id (map snd (map (map_prod id json_wf) props)))"

interpretation by_key: comparator "key_compare :: string \<times> 'a \<Rightarrow> string \<times> 'a \<Rightarrow> int"
  by unfold_locales (auto simp: key_compare_def code_units.sign intro: code_units.trans)

text \<open>With distinct keys the sort has one result only.\<close>

lemma sorted_keys_unique:
  assumes "sorted_wrt (\<lambda>a b. key_compare a b \<le> 0) xs" and "sorted_wrt (\<lambda>a b. key_compare a b \<le> 0) ys"
    and "mset xs = mset ys" and "distinct (map fst xs)"
  shows "xs = ys"
  using assms
proof (induction xs arbitrary: ys)
  case (Cons x xs)
  then obtain y ys' where ys: "ys = y # ys'" by (cases ys) auto
  have "x = y"
  proof (rule ccontr)
    assume "x \<noteq> y"
    have mem: "x \<in> set ys'" "y \<in> set xs"
      using Cons.prems(3) \<open>x \<noteq> y\<close> ys
      by (metis list.set_intros(1) set_ConsD mset_eq_setD)+
    then have "key_compare x y \<le> 0" "key_compare y x \<le> 0"
      using Cons.prems(1,2) ys by auto
    then have "fst x = fst y"
      using code_unit_compare_sign [of "fst x" "fst y"] code_unit_compare_eq [of "fst x" "fst y"]
      by (auto simp: key_compare_def)
    with mem Cons.prems(4) show False by (auto simp: image_iff)
  qed
  with Cons ys show ?case by simp
qed simp

lemma canonicalize_reordered:
  assumes "mset props = mset props'" and "distinct (map fst props)"
  shows "canonicalize (JObj props) = canonicalize (JObj props')"
proof -
  let ?sort = "\<lambda>ps. js_sort key_compare (map (map_prod id canonicalize) ps)"
  have "mset (?sort props) = mset (?sort props')" using assms(1) by simp
  moreover have "distinct (map fst (?sort props))"
  proof -
    have "mset (map fst (?sort props)) = mset (map fst props)" by (simp add: multiset.map_comp comp_def)
    with assms(2) show ?thesis by (metis mset_eq_imp_distinct_iff)
  qed
  ultimately have "?sort props = ?sort props'"
    using sorted_keys_unique by_key.sort_sorted by blast
  then show ?thesis by simp
qed

lemma mset_from_entries [simp]: "mset (from_entries kvs) = mset kvs"
  by (simp add: from_entries_def)

lemma set_from_entries [simp]: "set (from_entries kvs) = set kvs"
  by (metis mset_from_entries set_mset_mset)

lemma distinct_keys_mset: "mset xs = mset ys \<Longrightarrow> distinct (map fst xs) = distinct (map fst ys)"
  by (metis mset_eq_imp_distinct_iff mset_map)

lemma canonicalize_canonical: "json_wf j \<Longrightarrow> canonicalize (canonicalize j) = canonicalize j"
proof (induction j)
  case (JArr xs)
  then show ?case by (auto simp: list_all_iff)
next
  case (JObj props)
  define sorted where "sorted = js_sort key_compare (map (map_prod id canonicalize) props)"
  have canonical: "map (map_prod id canonicalize) (from_entries sorted) = from_entries sorted"
  proof (rule map_idI)
    fix p assume "p \<in> set (from_entries sorted)"
    then obtain k v where kv: "(k, v) \<in> set props" "p = (k, canonicalize v)"
      by (auto simp: sorted_def)
    then have "json_wf v" using JObj.prems by (force simp: list_all_iff)
    with kv show "map_prod id canonicalize p = p" using JObj.IH by fastforce
  qed
  have "distinct (map fst sorted)"
    using JObj.prems distinct_keys_mset [of sorted "map (map_prod id canonicalize) props"]
    by (simp add: sorted_def comp_def)
  then have "js_sort key_compare (from_entries sorted) = sorted"
    using distinct_keys_mset [of "js_sort key_compare (from_entries sorted)" sorted]
    by (intro sorted_keys_unique) (simp_all add: by_key.sort_sorted sorted_def)
  with canonical show ?case by (simp add: sorted_def)
qed simp_all

end
