(* ===== verification/ToolSchema.thy ===== *)
theory ToolSchema
  imports Json
begin

text \<open>
  Strict tool input schemas (\<open>src/tools/schema.ts\<close>) and the failures of the tool runtime
  (\<open>src/tools/types.ts\<close>): the check of a schema when its tool is registered, and the validation of
  a tool's input against it. Property tests with \<open>in\<close> see inherited names, as in the source.
\<close>

section \<open>Failures\<close>

datatype tool_failure_category =
    cancelled | conflict | denied | handler_error | invalid_input | require_approval | retryable | timeout

text \<open>A \<open>ToolRuntimeError\<close> has a category, a message and its retryable flag.\<close>

datatype tool_exception =
    ToolRuntimeError tool_failure_category string bool
  | TypeError string

section \<open>Access to properties\<close>

text \<open>
  \<open>properties[key]\<close> as a schema. An inherited method is not an object, so it is no schema;
  \<open>Object.prototype\<close> itself, read as \<open>__proto__\<close>, is an object without schema keywords.
\<close>

definition property_schema :: "(string \<times> json) list \<Rightarrow> string \<Rightarrow> json option" where
  "property_schema props k =
     (case own_property props k of Some j \<Rightarrow> Some j
      | None \<Rightarrow> if k = ''__proto__'' then Some (JObj []) else None)"

definition invalid :: "string \<Rightarrow> (tool_exception, 'a) result" where
  "invalid message = Inl (ToolRuntimeError invalid_input message False)"

fun as_object :: "json option \<Rightarrow> string \<Rightarrow> (tool_exception, (string \<times> json) list) result" where
  "as_object (Some (JObj props)) message = Inr props"
| "as_object _ message = invalid message"

fun optional_number :: "json option \<Rightarrow> rat option" where
  "optional_number (Some (JNum n)) = Some n"
| "optional_number _ = None"

fun string_items :: "json option \<Rightarrow> string list option" where
  "string_items (Some (JArr xs)) =
     (if list_all (\<lambda>x. case x of JStr _ \<Rightarrow> True | _ \<Rightarrow> False) xs
      then Some (map (\<lambda>x. case x of JStr s \<Rightarrow> s | _ \<Rightarrow> []) xs) else None)"
| "string_items _ = None"

fun assert_non_negative_integer :: "json option \<Rightarrow> string \<Rightarrow> (tool_exception, unit) result" where
  "assert_non_negative_integer None name = Inr ()"
| "assert_non_negative_integer (Some (JNum n)) name =
     (if \<not> num_is_safe_integer n \<or> n < 0 then invalid (name @ '' must be a non-negative safe integer.'')
      else Inr ())"
| "assert_non_negative_integer (Some _) name = invalid (name @ '' must be a non-negative safe integer.'')"

fun assert_finite_number :: "json option \<Rightarrow> string \<Rightarrow> (tool_exception, unit) result" where
  "assert_finite_number None name = Inr ()"
| "assert_finite_number (Some (JNum n)) name = Inr ()"
| "assert_finite_number (Some _) name = invalid (name @ '' must be finite.'')"

text \<open>A pair of optional bounds in the wrong order.\<close>

fun exceeds :: "rat option \<Rightarrow> rat option \<Rightarrow> bool" where
  "exceeds (Some lo) (Some hi) \<longleftrightarrow> hi < lo"
| "exceeds _ _ \<longleftrightarrow> False"

section \<open>The check of a schema\<close>

definition schema_types :: "string list" where
  "schema_types = [''object'', ''string'', ''number'', ''integer'', ''boolean'', ''array'', ''null'']"

definition allowed_keywords :: "string \<Rightarrow> string list" where
  "allowed_keywords ty =
     [''description'', ''enum'', ''type'']
     @ (if ty = ''object'' then [''additionalProperties'', ''properties'', ''required''] else [])
     @ (if ty = ''string'' then [''maxLength'', ''minLength''] else [])
     @ (if ty = ''number'' \<or> ty = ''integer'' then [''maximum'', ''minimum''] else [])
     @ (if ty = ''array'' then [''items'', ''maxItems'', ''minItems''] else [])"

definition schema_type :: "(string \<times> json) list \<Rightarrow> string option" where
  "schema_type schema = (case own_property schema ''type'' of Some (JStr ty) \<Rightarrow> Some ty | _ \<Rightarrow> None)"

definition check_enum :: "(string \<times> json) list \<Rightarrow> string \<Rightarrow> (tool_exception, unit) result" where
  "check_enum schema path =
     (case own_property schema ''enum'' of
        None \<Rightarrow> Inr ()
      | Some (JArr (x # xs)) \<Rightarrow> Inr ()
      | Some _ \<Rightarrow> invalid (path @ '': enum must be a non-empty array.''))"

definition check_bounds :: "(json option \<Rightarrow> string \<Rightarrow> (tool_exception, unit) result)
    \<Rightarrow> (string \<times> json) list \<Rightarrow> string \<Rightarrow> string \<Rightarrow> string \<Rightarrow> (tool_exception, unit) result" where
  "check_bounds assert_bound schema path lo hi =
     and_then (assert_bound (own_property schema lo) (path @ '': '' @ lo)) (\<lambda>_.
     and_then (assert_bound (own_property schema hi) (path @ '': '' @ hi)) (\<lambda>_.
     if exceeds (optional_number (own_property schema lo)) (optional_number (own_property schema hi))
     then invalid (path @ '': '' @ lo @ '' must not exceed '' @ hi @ ''.'') else Inr ()))"

definition check_object_head :: "(string \<times> json) list \<Rightarrow> string \<Rightarrow> bool
    \<Rightarrow> (tool_exception, (string \<times> json) list) result" where
  "check_object_head schema path is_root =
     (if own_property schema ''additionalProperties'' \<noteq> Some (JBool False)
      then invalid (path @ '': object schemas must set additionalProperties=false.'')
      else and_then (as_object (own_property schema ''properties'') (path @ '': properties must be an object.'')) (\<lambda>properties.
        (case string_items (own_property schema ''required'') of
           None \<Rightarrow> invalid (path @ '': required must be a string array.'')
         | Some required \<Rightarrow>
             if \<not> distinct required then invalid (path @ '': required must not contain duplicates.'')
             else and_then (for_each (\<lambda>p. if js_in p properties then Inr ()
                    else invalid (path @ '': required property '' @ p @ '' is undefined.'')) required) (\<lambda>_.
               if is_root \<and> list_ex (\<lambda>p. p \<notin> set required) (js_keys properties)
               then invalid (path @ '': strict root schemas must require every property.'')
               else Inr properties))))"

lemma size_child: "kv \<in> set props \<Longrightarrow> size (snd kv) < size (JObj props)"
  by (induction props) (auto simp: prod.size_gen split: prod.split)

lemma size_item: "j \<in> set xs \<Longrightarrow> size j < size (JArr xs)"
  by (induction xs) auto

lemma size_own_property: "own_property props k = Some j \<Longrightarrow> size j < size (JObj props)"
  using size_child [of "(k, j)" props] by (auto simp: own_property_def dest: map_of_SomeD)

lemma as_object_Inr [result_simps]: "as_object oj message = Inr props \<longleftrightarrow> oj = Some (JObj props)"
  by (cases "(oj, message)" rule: as_object.cases) (auto simp: invalid_def)

lemma invalid_not_Inr [simp]: "invalid message \<noteq> Inr x"
  by (simp add: invalid_def)

lemma check_object_head_Inr:
  "check_object_head schema path is_root = Inr properties \<longleftrightarrow>
     own_property schema ''additionalProperties'' = Some (JBool False) \<and>
     own_property schema ''properties'' = Some (JObj properties) \<and>
     (\<exists>required. string_items (own_property schema ''required'') = Some required \<and> distinct required \<and>
        (\<forall>p \<in> set required. js_in p properties) \<and>
        (is_root \<longrightarrow> set (js_keys properties) \<subseteq> set required))"
  by (cases "string_items (own_property schema ''required'')")
     (auto simp: check_object_head_def result_simps list_ex_iff split: if_splits)

function validate_schema :: "(string \<times> json) list \<Rightarrow> string \<Rightarrow> bool \<Rightarrow> (tool_exception, unit) result" where
  "validate_schema schema path is_root =
     (case schema_type schema of
        None \<Rightarrow> invalid (path @ '': unsupported or missing schema type.'')
      | Some ty \<Rightarrow>
          if ty \<notin> set schema_types then invalid (path @ '': unsupported or missing schema type.'')
          else and_then (for_each (\<lambda>k. if k \<in> set (allowed_keywords ty) then Inr ()
                 else invalid (path @ '': unsupported schema keyword '' @ k @ ''.'')) (js_keys schema)) (\<lambda>_.
          and_then (check_enum schema path) (\<lambda>_.
          if ty = ''object'' then
            and_then (check_object_head schema path is_root) (\<lambda>properties.
            for_each (\<lambda>kv.
              and_then (as_object (Some (snd kv)) (path @ ''.'' @ fst kv @ '': property schema must be an object.'')) (\<lambda>child.
              validate_schema child (path @ ''.'' @ fst kv) False)) properties)
          else if ty = ''string'' then
            check_bounds assert_non_negative_integer schema path ''minLength'' ''maxLength''
          else if ty = ''number'' \<or> ty = ''integer'' then
            check_bounds assert_finite_number schema path ''minimum'' ''maximum''
          else if ty = ''array'' then
            and_then (check_bounds assert_non_negative_integer schema path ''minItems'' ''maxItems'') (\<lambda>_.
            and_then (as_object (own_property schema ''items'') (path @ '': array items schema is required.'')) (\<lambda>items.
            validate_schema items (path @ ''[]'') False))
          else Inr ())))"
  by pat_completeness auto
termination
proof (relation "measure (\<lambda>(schema, path, is_root). size (JObj schema))", goal_cases)
  case (2 schema path is_root ty u u' properties kv child)
  then have "own_property schema ''properties'' = Some (JObj properties)"
    by (auto simp: check_object_head_Inr)
  moreover have "kv \<in> set properties" and "snd kv = JObj child"
    using 2(7,8) by (simp_all add: as_object_Inr)
  ultimately show ?case using size_own_property size_child by fastforce
next
  case (3 schema path is_root ty u u' u'' items)
  then have "own_property schema ''items'' = Some (JObj items)" by (simp add: as_object_Inr)
  then show ?case using size_own_property by fastforce
qed auto

declare validate_schema.simps [simp del]

definition assert_strict_tool_schema :: "(string \<times> json) list \<Rightarrow> (tool_exception, unit) result" where
  "assert_strict_tool_schema schema =
     and_then (validate_schema schema ''$'' True) (\<lambda>_.
     if schema_type schema \<noteq> Some ''object''
        \<or> own_property schema ''additionalProperties'' \<noteq> Some (JBool False)
     then invalid ''Tool input schema root must be an object with additionalProperties=false.''
     else and_then (as_object (own_property schema ''properties'')
            ''Tool input schema properties must be an object.'') (\<lambda>properties.
       (case string_items (own_property schema ''required'') of
          None \<Rightarrow> invalid ''Tool input schema required must be a string array.''
        | Some required \<Rightarrow>
            if length required \<noteq> length (js_keys properties)
               \<or> list_ex (\<lambda>p. p \<notin> set required) (js_keys properties)
            then invalid ''Strict tool input schemas must mark every property as required.''
            else Inr ())))"

section \<open>The validation of an input\<close>

definition enum_contains :: "json \<Rightarrow> json \<Rightarrow> bool" where
  "enum_contains raw value = (case raw of JArr xs \<Rightarrow> value \<in> set xs | _ \<Rightarrow> False)"

definition enum_rejects :: "(string \<times> json) list \<Rightarrow> json \<Rightarrow> bool" where
  "enum_rejects schema value =
     (case own_property schema ''enum'' of None \<Rightarrow> False | Some raw \<Rightarrow> \<not> enum_contains raw value)"

definition below :: "rat \<Rightarrow> rat option \<Rightarrow> bool" where
  "below n lo = (case lo of None \<Rightarrow> False | Some b \<Rightarrow> n < b)"

definition beyond :: "rat \<Rightarrow> rat option \<Rightarrow> bool" where
  "beyond n hi = (case hi of None \<Rightarrow> False | Some b \<Rightarrow> b < n)"

definition check_length :: "(string \<times> json) list \<Rightarrow> string \<Rightarrow> string \<Rightarrow> string \<Rightarrow> string \<Rightarrow> nat
    \<Rightarrow> (tool_exception, unit) result" where
  "check_length schema path what lo hi n =
     (if below (of_nat n) (optional_number (own_property schema lo))
      then invalid (path @ '': '' @ what @ '' is too short.'')
      else if beyond (of_nat n) (optional_number (own_property schema hi))
      then invalid (path @ '': '' @ what @ '' is too long.'')
      else Inr ())"

definition check_scalar :: "(string \<times> json) list \<Rightarrow> string \<Rightarrow> string \<Rightarrow> json \<Rightarrow> (tool_exception, unit) result" where
  "check_scalar schema ty path value =
     (if ty = ''string'' then
        (case value of JStr s \<Rightarrow> check_length schema path ''string'' ''minLength'' ''maxLength'' (length s)
         | _ \<Rightarrow> invalid (path @ '': expected string.''))
      else if ty = ''number'' \<or> ty = ''integer'' then
        (case value of
           JNum n \<Rightarrow>
             if ty = ''integer'' \<and> \<not> num_is_integer n then invalid (path @ '': expected integer.'')
             else if below n (optional_number (own_property schema ''minimum''))
             then invalid (path @ '': number is below minimum.'')
             else if beyond n (optional_number (own_property schema ''maximum''))
             then invalid (path @ '': number exceeds maximum.'')
             else Inr ()
         | _ \<Rightarrow> invalid (path @ '': expected number.''))
      else if ty = ''boolean'' then
        (case value of JBool b \<Rightarrow> Inr () | _ \<Rightarrow> invalid (path @ '': expected boolean.''))
      else if value = JNull then Inr () else invalid (path @ '': expected null.''))"

text \<open>\<open>required\<close> of a registered schema is an array of strings; iterating anything else throws.\<close>

definition check_required :: "(string \<times> json) list \<Rightarrow> string \<Rightarrow> (string \<times> json) list
    \<Rightarrow> (tool_exception, unit) result" where
  "check_required schema path value =
     (case string_items (own_property schema ''required'') of
        None \<Rightarrow> Inl (TypeError ''required is not iterable'')
      | Some required \<Rightarrow> for_each (\<lambda>p. if js_in p value then Inr ()
          else invalid (path @ ''.'' @ p @ '': required property is missing.'')) required)"

function validate_value :: "(string \<times> json) list \<Rightarrow> json \<Rightarrow> string \<Rightarrow> (tool_exception, unit) result" where
  "validate_value schema value path =
     (if enum_rejects schema value then invalid (path @ '': value is not in the allowed enum.'')
      else (case schema_type schema of
        Some ty \<Rightarrow>
          if ty = ''object'' then
            (case value of
               JObj members \<Rightarrow>
                 and_then (as_object (own_property schema ''properties'') (path @ '': schema properties missing.'')) (\<lambda>properties.
                 and_then (check_required schema path members) (\<lambda>_.
                 for_each (\<lambda>kv.
                   if \<not> js_in (fst kv) properties then invalid (path @ ''.'' @ fst kv @ '': unknown property.'')
                   else and_then (as_object (property_schema properties (fst kv))
                          (path @ ''.'' @ fst kv @ '': invalid property schema.'')) (\<lambda>child.
                        validate_value child (snd kv) (path @ ''.'' @ fst kv))) members))
             | _ \<Rightarrow> invalid (path @ '': expected object.''))
          else if ty = ''array'' then
            (case value of
               JArr items \<Rightarrow>
                 and_then (check_length schema path ''array'' ''minItems'' ''maxItems'' (length items)) (\<lambda>_.
                 and_then (as_object (own_property schema ''items'') (path @ '': array item schema missing.'')) (\<lambda>item_schema.
                 for_each (\<lambda>iv. validate_value item_schema (snd iv) (path @ ''['' @ nat_text (fst iv) @ '']''))
                   (enumerate 0 items)))
             | _ \<Rightarrow> invalid (path @ '': expected array.''))
          else check_scalar schema ty path value
      | None \<Rightarrow> check_scalar schema ''null'' path value))"
  by pat_completeness auto
termination
proof (relation "measure (\<lambda>(schema, value, path). size value)", goal_cases)
  case (2 schema v path ty members properties u kv child)
  then have "v = JObj members" and "kv \<in> set members" by simp_all
  then show ?case using size_child by simp
next
  case (3 schema v path ty items u item_schema iv)
  then have "v = JArr items" and "iv \<in> set (enumerate 0 items)" by simp_all
  then have "snd iv \<in> set items" using set_zip_rightD [of "fst iv" "snd iv"]
    by (simp add: enumerate_eq_zip)
  then show ?case using \<open>v = JArr items\<close> size_item by simp
qed auto

declare validate_value.simps [simp del]

definition validate_tool_input :: "(string \<times> json) list \<Rightarrow> (string \<times> json) list \<Rightarrow> (tool_exception, unit) result" where
  "validate_tool_input schema input = validate_value schema (JObj input) ''$input''"

section \<open>What a registered schema guarantees\<close>

lemma if_invalid [result_simps]: "(if c then Inr x else invalid message) = Inr y \<longleftrightarrow> c \<and> x = y"
  "(if c then invalid message else r) = Inr y \<longleftrightarrow> \<not> c \<and> r = Inr y"
  by (auto simp: invalid_def)

lemma validated_object:
  assumes "validate_schema schema path is_root = Inr ()" and "schema_type schema = Some ''object''"
  shows "\<exists>properties required.
     own_property schema ''properties'' = Some (JObj properties) \<and>
     string_items (own_property schema ''required'') = Some required \<and>
     (is_root \<longrightarrow> set (js_keys properties) \<subseteq> set required) \<and>
     (\<forall>kv \<in> set properties. \<exists>child path'. snd kv = JObj child \<and> validate_schema child path' False = Inr ())"
  using assms
  by (subst (asm) validate_schema.simps) (fastforce simp: result_simps check_object_head_Inr schema_types_def)

lemma validated_array:
  assumes "validate_schema schema path is_root = Inr ()" and "schema_type schema = Some ''array''"
  shows "\<exists>items path'. own_property schema ''items'' = Some (JObj items) \<and> validate_schema items path' False = Inr ()"
  using assms
  by (subst (asm) validate_schema.simps) (auto simp: result_simps schema_types_def)

lemma strict_schema_Inr:
  assumes "assert_strict_tool_schema schema = Inr ()"
  shows "validate_schema schema ''$'' True = Inr ()" and "schema_type schema = Some ''object''"
  using assms by (auto simp: assert_strict_tool_schema_def result_simps)

text \<open>Errors an input can raise: none, or \<open>invalid_input\<close>.\<close>

definition clean_failure :: "(tool_exception, unit) result \<Rightarrow> bool" where
  "clean_failure r \<longleftrightarrow> (case r of Inr _ \<Rightarrow> True
     | Inl (ToolRuntimeError c m retry) \<Rightarrow> c = invalid_input \<and> \<not> retry
     | Inl (TypeError m) \<Rightarrow> False)"

lemma clean_failure_simps [simp]: "clean_failure (Inr u)" "clean_failure (invalid message)"
  by (simp_all add: clean_failure_def invalid_def)

lemma clean_and_then:
  "clean_failure r \<Longrightarrow> (\<And>u. r = Inr u \<Longrightarrow> clean_failure (f u)) \<Longrightarrow> clean_failure (and_then r f)"
  by (cases r) auto

lemma clean_for_each: "(\<And>x. x \<in> set xs \<Longrightarrow> clean_failure (f x)) \<Longrightarrow> clean_failure (for_each f xs)"
proof (induction xs)
  case (Cons x xs)
  have "clean_failure (f x)" and "clean_failure (for_each f xs)" using Cons by simp_all
  then show ?case by (cases "f x") simp_all
qed simp

lemma clean_check_length [simp]: "clean_failure (check_length schema path what lo hi n)"
  by (simp add: check_length_def)

lemma clean_check_scalar [simp]: "clean_failure (check_scalar schema ty path v)"
  by (auto simp: check_scalar_def split: json.split)

lemma as_object_cases:
  "(\<exists>props. oj = Some (JObj props) \<and> as_object oj message = Inr props) \<or> as_object oj message = invalid message"
  by (cases "(oj, message)" rule: as_object.cases) auto

lemma clean_as_object:
  "(\<And>props. oj = Some (JObj props) \<Longrightarrow> clean_failure (f props)) \<Longrightarrow> clean_failure (and_then (as_object oj message) f)"
  using as_object_cases [of oj message] by (auto simp: invalid_def clean_failure_def)

definition validate_member :: "(string \<times> json) list \<Rightarrow> string \<Rightarrow> string \<times> json \<Rightarrow> (tool_exception, unit) result" where
  "validate_member properties path kv =
     (if \<not> js_in (fst kv) properties then invalid (path @ ''.'' @ fst kv @ '': unknown property.'')
      else and_then (as_object (property_schema properties (fst kv))
             (path @ ''.'' @ fst kv @ '': invalid property schema.'')) (\<lambda>child.
           validate_value child (snd kv) (path @ ''.'' @ fst kv)))"

lemma validate_object:
  assumes "schema_type schema = Some ''object''" and "own_property schema ''properties'' = Some (JObj properties)"
    and "\<not> enum_rejects schema (JObj members)"
  shows "validate_value schema (JObj members) path =
     and_then (check_required schema path members) (\<lambda>_. for_each (validate_member properties path) members)"
  using assms by (simp add: validate_value.simps [of schema "JObj members"] validate_member_def [abs_def])

lemma validate_array:
  assumes "schema_type schema = Some ''array''" and "own_property schema ''items'' = Some (JObj item_schema)"
    and "\<not> enum_rejects schema (JArr items)"
  shows "validate_value schema (JArr items) path =
     and_then (check_length schema path ''array'' ''minItems'' ''maxItems'' (length items)) (\<lambda>_.
     for_each (\<lambda>iv. validate_value item_schema (snd iv) (path @ ''['' @ nat_text (fst iv) @ '']''))
       (enumerate 0 items))"
  using assms by (simp add: validate_value.simps [of schema "JArr items"])

text \<open>The empty schema is the one read as \<open>properties.__proto__\<close>.\<close>

lemma validate_value_clean:
  "schema = [] \<or> validate_schema schema p r = Inr () \<Longrightarrow> clean_failure (validate_value schema v path)"
proof (induction schema v path arbitrary: p r rule: validate_value.induct)
  case (1 schema v path)
  consider "enum_rejects schema v" | "schema_type schema = None"
    | (object) "schema_type schema = Some ''object''" "\<not> enum_rejects schema v"
    | (array) "schema_type schema = Some ''array''" "\<not> enum_rejects schema v"
    | ty where "schema_type schema = Some ty" "ty \<notin> {''object'', ''array''}" "\<not> enum_rejects schema v"
    by (cases "schema_type schema") auto
  then show ?case
  proof cases
    case object
    then have valid: "validate_schema schema p r = Inr ()"
      using "1.prems" by (auto simp: schema_type_def own_property_def)
    obtain properties required where props: "own_property schema ''properties'' = Some (JObj properties)"
      "string_items (own_property schema ''required'') = Some required"
      "\<And>kv. kv \<in> set properties \<Longrightarrow> \<exists>child path'. snd kv = JObj child \<and> validate_schema child path' False = Inr ()"
      using validated_object [OF valid object(1)] by blast
    have child: "child = [] \<or> (\<exists>path'. validate_schema child path' False = Inr ())"
      if "property_schema properties k = Some (JObj child)" for k child
      using that props(3) by (auto simp: property_schema_def own_property_def
          dest!: map_of_SomeD split: option.splits if_splits) force
    show ?thesis
    proof (cases v)
      case (JObj members)
      have required: "clean_failure (check_required schema path members)"
        using props(2) by (auto simp: check_required_def intro!: clean_for_each)
      have "clean_failure (validate_member properties path kv)"
        if "check_required schema path members = Inr u" "kv \<in> set members" for u kv
      proof (cases "js_in (fst kv) properties")
        case True
        have "clean_failure (validate_value c (snd kv) (path @ ''.'' @ fst kv))"
          if c: "property_schema properties (fst kv) = Some (JObj c)" for c
        proof -
          obtain p r where "c = [] \<or> validate_schema c p r = Inr ()" using child [OF c] by blast
          with "1.IH"(1) object JObj props(1) that True c \<open>check_required schema path members = Inr u\<close>
            \<open>kv \<in> set members\<close> show ?thesis by (auto simp: as_object_Inr)
        qed
        with True show ?thesis by (auto simp: validate_member_def intro: clean_as_object)
      qed (simp add: validate_member_def)
      then have "clean_failure (and_then (check_required schema path members)
          (\<lambda>_. for_each (validate_member properties path) members))"
        using required by (intro clean_and_then clean_for_each)
      with object JObj props(1) show ?thesis by (simp add: validate_object)
    qed (use object in \<open>subst validate_value.simps, simp\<close>)+
  next
    case array
    then have valid: "validate_schema schema p r = Inr ()"
      using "1.prems" by (auto simp: schema_type_def own_property_def)
    obtain items path' where items: "own_property schema ''items'' = Some (JObj items)"
      "validate_schema items path' False = Inr ()"
      using validated_array [OF valid array(1)] by blast
    show ?thesis
    proof (cases v)
      case (JArr xs)
      have "clean_failure (validate_value items (snd iv) (path @ ''['' @ nat_text (fst iv) @ '']''))"
        if "check_length schema path ''array'' ''minItems'' ''maxItems'' (length xs) = Inr u"
          "iv \<in> set (enumerate 0 xs)" for u iv
        by (rule "1.IH"(2) [OF array(2,1) _ _ JArr that(1) _ that(2)])
           (use items in \<open>auto simp: as_object_Inr\<close>)
      then show ?thesis
        using array JArr items(1) by (simp add: validate_array clean_and_then clean_for_each)
    qed (use array in \<open>subst validate_value.simps, simp\<close>)+
  qed (simp_all add: validate_value.simps [of schema v path])
qed

text \<open>An accepted input has the schema's properties and no others.\<close>

lemma accepted_keys:
  assumes strict: "assert_strict_tool_schema schema = Inr ()"
    and props: "own_property schema ''properties'' = Some (JObj properties)"
    and names: "set (js_keys properties) \<inter> set object_prototype_keys = {}"
    and acc: "validate_tool_input schema input = Inr ()"
  shows "set (js_keys input) - {''__proto__''} = set (js_keys properties)"
    and "\<And>v. (''__proto__'', v) \<in> set input \<Longrightarrow> v = JNull"
proof -
  note ty = strict_schema_Inr(2) [OF strict]
  have enum: "\<not> enum_rejects schema (JObj input)"
    using acc by (auto simp: validate_tool_input_def validate_value.simps [of schema "JObj input"])
  obtain required where req: "string_items (own_property schema ''required'') = Some required"
    "set (js_keys properties) \<subseteq> set required"
    using validated_object [OF strict_schema_Inr(1) [OF strict] ty] props by auto
  from acc have checked: "check_required schema ''$input'' input = Inr ()"
    and members: "\<And>kv. kv \<in> set input \<Longrightarrow> validate_member properties ''$input'' kv = Inr ()"
    by (auto simp: validate_tool_input_def validate_object [OF ty props enum] result_simps)
  have own: "k \<in> set (js_keys properties)" if "k \<in> set (js_keys input)" "k \<noteq> ''__proto__''" for k
  proof -
    obtain v where "(k, v) \<in> set input" using \<open>k \<in> set (js_keys input)\<close> by (auto simp: js_keys_def)
    from members [OF this] obtain child where "property_schema properties k = Some (JObj child)"
      by (auto simp: validate_member_def and_then_Inr as_object_Inr split: if_splits)
    with \<open>k \<noteq> ''__proto__''\<close> have "map_of properties k = Some (JObj child)"
      by (simp add: property_schema_def own_property_def split: option.splits)
    then show ?thesis by (force simp: js_keys_def dest: map_of_SomeD)
  qed
  have "k \<in> set (js_keys input)" if "k \<in> set (js_keys properties)" for k
  proof -
    have "js_in k input" using that checked req by (auto simp: check_required_def result_simps)
    moreover have "k \<notin> set object_prototype_keys" using that names by blast
    ultimately show ?thesis by (simp add: js_in_def js_keys_def)
  qed
  moreover have "''__proto__'' \<notin> set (js_keys properties)"
    using names by (auto simp: object_prototype_keys_def)
  ultimately show "set (js_keys input) - {''__proto__''} = set (js_keys properties)"
    using own by blast
  show "v = JNull" if "(''__proto__'', v) \<in> set input" for v
  proof -
    have "own_property properties ''__proto__'' = None"
      using \<open>''__proto__'' \<notin> set (js_keys properties)\<close>
      by (simp add: own_property_def js_keys_def map_of_eq_None_iff)
    with members [OF that] have "validate_value [] v (''$input'' @ ''.'' @ ''__proto__'') = Inr ()"
      by (auto simp: validate_member_def property_schema_def result_simps)
    then show ?thesis
      by (auto simp: check_scalar_def validate_value.simps [of "[]"] enum_rejects_def schema_type_def own_property_def
          split: if_splits)
  qed
qed

end
