(* ===== verification/ToolPolicy.thy ===== *)
theory ToolPolicy
  imports ToolSchema
begin

text \<open>
  Capability grants (\<open>src/tools/policy.ts\<close>, types from \<open>src/tools/types.ts\<close>): the
  \<open>CapabilityPolicy\<close> interface as a locale, and \<open>InMemoryCapabilityPolicy\<close> with its registration
  and its authorisation, which consumes one call of the grant it allows. \<open>dp\<close> is \<open>Date.parse\<close> and
  \<open>lc\<close> is \<open>localeCompare\<close>.
\<close>

section \<open>Data\<close>

datatype tool_risk_class = Low | Medium | High
datatype tool_operation = OpExecute | OpRead | OpSearch | OpWrite
datatype policy_decision = ALLOW | DENY | REQUIRE_APPROVAL

record approval_evidence =
  approvalId :: string
  approval_missionId :: string
  approval_taskId :: string
  approval_tool :: string
  approval_expiresAt :: string

record capability_grant =
  grantId :: string
  grant_missionId :: string
  grant_taskId :: string
  grant_tool :: string
  grant_operation :: tool_operation
  resourcePrefix :: string
  maxCalls :: int
  grant_expiresAt :: string

record policy_authorization =
  decision :: policy_decision
  auth_grantId :: "string option"
  reason :: string

record tool_policy_request =
  req_missionId :: string
  req_taskId :: string
  req_tool :: string
  req_operation :: tool_operation
  req_riskClass :: tool_risk_class
  req_resource :: string
  req_approval :: "approval_evidence option"
  req_now :: string

record policy_state =
  grants :: "capability_grant list"
  usedCalls :: "string \<rightharpoonup> int"

section \<open>Operations\<close>

definition ends_with_slash :: "string \<Rightarrow> bool" where
  "ends_with_slash s \<longleftrightarrow> s \<noteq> [] \<and> last s = CHR ''/''"

definition resource_matches :: "string \<Rightarrow> string \<Rightarrow> bool" where
  "resource_matches pre resource \<longleftrightarrow>
     (if pre = ''*'' then True
      else if pre = ''.'' then resource = ''.'' \<or> \<not> starts_with resource ''../''
      else if resource = pre then True
      else starts_with resource (if ends_with_slash pre then pre else pre @ ''/''))"

text \<open>\<open>Date.parse(a) > Date.parse(b)\<close>; a comparison with \<open>NaN\<close> is false.\<close>

definition later_than :: "(string \<Rightarrow> int option) \<Rightarrow> string \<Rightarrow> string \<Rightarrow> bool" where
  "later_than dp a b \<longleftrightarrow> (case dp a of None \<Rightarrow> False
     | Some x \<Rightarrow> (case dp b of None \<Rightarrow> False | Some y \<Rightarrow> y < x))"

definition validate_grant :: "(string \<Rightarrow> int option) \<Rightarrow> capability_grant \<Rightarrow> (tool_exception, unit) result" where
  "validate_grant dp g =
     and_then (for_each (\<lambda>nv. ensure (\<not> blank (snd nv)) (TypeError (fst nv @ '' must be non-empty.'')))
       [(''grantId'', grantId g), (''missionId'', grant_missionId g), (''taskId'', grant_taskId g),
        (''tool'', grant_tool g), (''resourcePrefix'', resourcePrefix g)]) (\<lambda>_.
     if \<not> safe_integer (maxCalls g) \<or> maxCalls g < 1
     then Inl (TypeError ''Capability maxCalls must be a positive safe integer.'')
     else if dp (grant_expiresAt g) = None
     then Inl (TypeError ''Capability expiresAt must be a parseable timestamp.'')
     else Inr ())"

definition register_grant :: "(string \<Rightarrow> int option) \<Rightarrow> policy_state \<Rightarrow> capability_grant
    \<Rightarrow> (tool_exception, policy_state) result" where
  "register_grant dp p g =
     and_then (validate_grant dp g) (\<lambda>_.
     if grantId g \<in> grantId ` set (grants p)
     then Inl (ToolRuntimeError conflict (''Capability grant '' @ grantId g @ '' already exists.'') False)
     else Inr \<lparr>grants = grants p @ [g], usedCalls = (usedCalls p)(grantId g \<mapsto> 0)\<rparr>)"

definition new_policy :: policy_state where
  "new_policy = \<lparr>grants = [], usedCalls = Map.empty\<rparr>"

primrec register_all :: "(string \<Rightarrow> int option) \<Rightarrow> policy_state \<Rightarrow> capability_grant list
    \<Rightarrow> (tool_exception, policy_state) result" where
  "register_all dp p [] = Inr p"
| "register_all dp p (g # gs) = and_then (register_grant dp p g) (\<lambda>p'. register_all dp p' gs)"

definition validate_policy_request :: "(string \<Rightarrow> int option) \<Rightarrow> tool_policy_request \<Rightarrow> (tool_exception, unit) result" where
  "validate_policy_request dp r =
     and_then (for_each (\<lambda>v. ensure (\<not> blank v) (TypeError ''Tool policy identifiers must be non-empty.''))
       [req_missionId r, req_taskId r, req_tool r, req_resource r]) (\<lambda>_.
     ensure (dp (req_now r) \<noteq> None) (TypeError ''Tool policy time must be a parseable timestamp.''))"

definition approval_matches :: "(string \<Rightarrow> int option) \<Rightarrow> tool_policy_request \<Rightarrow> bool" where
  "approval_matches dp r =
     (case req_approval r of
        None \<Rightarrow> False
      | Some a \<Rightarrow>
          if blank (approvalId a) \<or> dp (approval_expiresAt a) = None then False
          else approval_missionId a = req_missionId r \<and> approval_taskId a = req_taskId r \<and>
               approval_tool a = req_tool r \<and> later_than dp (approval_expiresAt a) (req_now r))"

definition in_scope :: "tool_policy_request \<Rightarrow> capability_grant \<Rightarrow> bool" where
  "in_scope r g \<longleftrightarrow> grant_missionId g = req_missionId r \<and> grant_taskId g = req_taskId r \<and>
     grant_tool g = req_tool r \<and> grant_operation g = req_operation r \<and>
     resource_matches (resourcePrefix g) (req_resource r)"

definition calls_used :: "policy_state \<Rightarrow> string \<Rightarrow> int" where
  "calls_used p i = (case usedCalls p i of None \<Rightarrow> 0 | Some n \<Rightarrow> n)"

definition by_grant_id :: "(string \<Rightarrow> string \<Rightarrow> int) \<Rightarrow> capability_grant \<Rightarrow> capability_grant \<Rightarrow> int" where
  "by_grant_id lc a b = lc (grantId a) (grantId b)"

definition usable_grant :: "(string \<Rightarrow> int option) \<Rightarrow> (string \<Rightarrow> string \<Rightarrow> int) \<Rightarrow> policy_state
    \<Rightarrow> tool_policy_request \<Rightarrow> capability_grant option" where
  "usable_grant dp lc p r =
     find (\<lambda>g. calls_used p (grantId g) < maxCalls g)
       (js_sort (by_grant_id lc)
         (filter (\<lambda>g. later_than dp (grant_expiresAt g) (req_now r)) (filter (in_scope r) (grants p))))"

definition authorize_and_consume :: "(string \<Rightarrow> int option) \<Rightarrow> (string \<Rightarrow> string \<Rightarrow> int) \<Rightarrow> policy_state
    \<Rightarrow> tool_policy_request \<Rightarrow> (tool_exception, policy_authorization \<times> policy_state) result" where
  "authorize_and_consume dp lc p r =
     and_then (validate_policy_request dp r) (\<lambda>_.
     if filter (in_scope r) (grants p) = [] then
       Inr (\<lparr>decision = DENY, auth_grantId = None,
             reason = ''No scoped capability grant matches the request.''\<rparr>, p)
     else (case usable_grant dp lc p r of
         None \<Rightarrow> Inr (\<lparr>decision = DENY, auth_grantId = None,
                        reason = ''Matching capability grants are expired or exhausted.''\<rparr>, p)
       | Some g \<Rightarrow>
           if req_riskClass r = High \<and> \<not> approval_matches dp r then
             Inr (\<lparr>decision = REQUIRE_APPROVAL, auth_grantId = Some (grantId g),
                   reason = ''High-impact tool execution requires matching approval evidence.''\<rparr>, p)
           else
             Inr (\<lparr>decision = ALLOW, auth_grantId = Some (grantId g),
                   reason = ''Scoped capability grant accepted.''\<rparr>,
                  p\<lparr>usedCalls := (usedCalls p)(grantId g \<mapsto> calls_used p (grantId g) + 1)\<rparr>)))"

section \<open>The interface and its laws\<close>

text \<open>
  What the tool runtime relies on: an authorisation that does not allow changes nothing; one that
  allows consumes one call of one grant that still had calls left.
\<close>

locale capability_policy =
  fixes authorize :: "'p \<Rightarrow> tool_policy_request \<Rightarrow> (tool_exception, policy_authorization \<times> 'p) result"
    and policy_inv :: "'p \<Rightarrow> bool"
    and used :: "'p \<Rightarrow> string \<Rightarrow> int"
    and limit :: "'p \<Rightarrow> string \<Rightarrow> int option"
  assumes refused: "policy_inv p \<Longrightarrow> authorize p r = Inr (a, p') \<Longrightarrow> decision a \<noteq> ALLOW \<Longrightarrow> p' = p"
    and allowed: "policy_inv p \<Longrightarrow> authorize p r = Inr (a, p') \<Longrightarrow> decision a = ALLOW \<Longrightarrow>
      \<exists>g n. auth_grantId a = Some g \<and> limit p g = Some n \<and> used p g < n \<and>
            (\<forall>i. used p' i = (if i = g then used p g + 1 else used p i)) \<and> limit p' = limit p"
    and kept: "policy_inv p \<Longrightarrow> authorize p r = Inr (a, p') \<Longrightarrow> policy_inv p'"
    and within: "policy_inv p \<Longrightarrow> limit p g = Some n \<Longrightarrow> 0 \<le> used p g \<and> used p g \<le> n"
begin

text \<open>A run of requests; \<open>grants_spent\<close> counts the ones a grant was charged for.\<close>

primrec run_requests :: "'p \<Rightarrow> tool_policy_request list \<Rightarrow> (tool_exception, policy_authorization list \<times> 'p) result" where
  "run_requests p [] = Inr ([], p)"
| "run_requests p (r # rs) =
     and_then (authorize p r) (\<lambda>(a, p'). and_then (run_requests p' rs) (\<lambda>(as, p''). Inr (a # as, p'')))"

definition charged :: "string \<Rightarrow> policy_authorization list \<Rightarrow> int" where
  "charged g as = int (length (filter (\<lambda>a. decision a = ALLOW \<and> auth_grantId a = Some g) as))"

lemma charged_Cons:
  "charged g (a # as) = (if decision a = ALLOW \<and> auth_grantId a = Some g then 1 else 0) + charged g as"
  by (simp add: charged_def)

lemma run_requests_used:
  "policy_inv p \<Longrightarrow> run_requests p rs = Inr (as, p') \<Longrightarrow>
     policy_inv p' \<and> limit p' = limit p \<and> used p' g = used p g + charged g as"
proof (induction rs arbitrary: p as)
  case (Cons r rs)
  from Cons.prems(2) obtain a q as' where a: "authorize p r = Inr (a, q)"
    and rest: "run_requests q rs = Inr (as', p')" and as: "as = a # as'"
    by (auto simp: and_then_Inr)
  have q: "policy_inv q" using Cons.prems(1) a by (rule kept)
  have "limit q = limit p \<and>
      used q g = used p g + (if decision a = ALLOW \<and> auth_grantId a = Some g then 1 else 0)"
    using refused [OF Cons.prems(1) a] allowed [OF Cons.prems(1) a] by (cases "decision a = ALLOW") auto
  with Cons.IH [OF q rest] show ?case by (simp add: as charged_Cons)
qed (simp add: charged_def)

lemma never_overspent:
  assumes "policy_inv p" and "run_requests p rs = Inr (as, p')" and "limit p g = Some n"
  shows "used p g + charged g as \<le> n"
  using run_requests_used [OF assms(1,2), of g] within [of p' g n] assms(3) by auto

end

section \<open>The in-memory policy meets it\<close>

definition grant_limit :: "policy_state \<Rightarrow> string \<Rightarrow> int option" where
  "grant_limit p i = map_option maxCalls (find (\<lambda>g. grantId g = i) (grants p))"

definition policy_ok :: "policy_state \<Rightarrow> bool" where
  "policy_ok p \<longleftrightarrow> distinct (map grantId (grants p)) \<and>
     (\<forall>g \<in> set (grants p). 0 \<le> calls_used p (grantId g) \<and> calls_used p (grantId g) \<le> maxCalls g)"

lemma find_grant:
  "distinct (map grantId gs) \<Longrightarrow> g \<in> set gs \<Longrightarrow> find (\<lambda>h. grantId h = grantId g) gs = Some g"
  by (induction gs) auto

lemma find_SomeD: "find P xs = Some x \<Longrightarrow> x \<in> set xs \<and> P x"
  by (metis find_Some_iff nth_mem)

lemma usable_grant_Some:
  "usable_grant dp lc p r = Some g \<Longrightarrow>
     g \<in> set (grants p) \<and> in_scope r g \<and> later_than dp (grant_expiresAt g) (req_now r) \<and>
     calls_used p (grantId g) < maxCalls g"
  unfolding usable_grant_def by (drule find_SomeD) simp

lemma authorize_cases:
  assumes "authorize_and_consume dp lc p r = Inr (a, p')"
  obtains (refuse) "decision a \<noteq> ALLOW" "p' = p"
  | (allow) g where "decision a = ALLOW" "auth_grantId a = Some (grantId g)"
      "usable_grant dp lc p r = Some g" "req_riskClass r = High \<Longrightarrow> approval_matches dp r"
      "p' = p\<lparr>usedCalls := (usedCalls p)(grantId g \<mapsto> calls_used p (grantId g) + 1)\<rparr>"
proof -
  from assms have ok: "validate_policy_request dp r = Inr ()"
    by (cases "validate_policy_request dp r") (simp_all add: authorize_and_consume_def)
  show ?thesis
  proof (cases "filter (in_scope r) (grants p) = []")
    case True
    then show ?thesis using assms ok refuse by (auto simp: authorize_and_consume_def)
  next
    case scoped: False
    show ?thesis
    proof (cases "usable_grant dp lc p r")
      case None
      then show ?thesis using assms ok scoped refuse by (auto simp: authorize_and_consume_def)
    next
      case (Some g)
      show ?thesis
      proof (cases "req_riskClass r = High \<and> \<not> approval_matches dp r")
        case True
        then show ?thesis using assms ok scoped Some refuse by (auto simp: authorize_and_consume_def)
      next
        case False
        then have permitted: "req_riskClass r = High \<Longrightarrow> approval_matches dp r" by blast
        from assms ok scoped Some False
        have "(\<lparr>decision = ALLOW, auth_grantId = Some (grantId g),
                 reason = ''Scoped capability grant accepted.''\<rparr>,
               p\<lparr>usedCalls := (usedCalls p)(grantId g \<mapsto> calls_used p (grantId g) + 1)\<rparr>) = (a, p')"
          by (simp only: authorize_and_consume_def and_then.simps if_False option.case sum.inject)
        then show ?thesis using allow [of g] Some permitted by auto
      qed
    qed
  qed
qed

lemma calls_used_update [simp]:
  "calls_used (p\<lparr>usedCalls := (usedCalls p)(i \<mapsto> n)\<rparr>) j = (if j = i then n else calls_used p j)"
  by (simp add: calls_used_def)

lemma grant_limit_used [simp]: "grant_limit (p\<lparr>usedCalls := u\<rparr>) = grant_limit p"
  by (simp add: grant_limit_def fun_eq_iff)

lemma policy_ok_consume:
  assumes "policy_ok p" and "g \<in> set (grants p)" and "calls_used p (grantId g) < maxCalls g"
  shows "policy_ok (p\<lparr>usedCalls := (usedCalls p)(grantId g \<mapsto> calls_used p (grantId g) + 1)\<rparr>)"
proof -
  have "h = g" if "h \<in> set (grants p)" "grantId h = grantId g" for h
    using that assms(1,2) by (auto simp: policy_ok_def distinct_map dest: inj_onD)
  with assms show ?thesis by (fastforce simp: policy_ok_def)
qed

interpretation memory_policy: capability_policy "authorize_and_consume dp lc" policy_ok calls_used grant_limit
proof unfold_locales
  fix p r a p'
  assume ok: "policy_ok p" and auth: "authorize_and_consume dp lc p r = Inr (a, p')"
  show "decision a \<noteq> ALLOW \<Longrightarrow> p' = p"
    using auth by (cases rule: authorize_cases) auto
  show "policy_ok p'"
    using auth ok by (cases rule: authorize_cases) (auto dest: usable_grant_Some intro: policy_ok_consume)
  show "\<exists>g n. auth_grantId a = Some g \<and> grant_limit p g = Some n \<and> calls_used p g < n \<and>
      (\<forall>i. calls_used p' i = (if i = g then calls_used p g + 1 else calls_used p i)) \<and>
      grant_limit p' = grant_limit p" if "decision a = ALLOW"
    using auth
  proof (cases rule: authorize_cases)
    case (allow g)
    note g = usable_grant_Some [OF allow(3)]
    then have "grant_limit p (grantId g) = Some (maxCalls g)"
      using ok by (simp add: grant_limit_def policy_ok_def find_grant)
    with g allow show ?thesis by auto
  qed (use that in simp)
next
  fix p g n
  assume "policy_ok p" and "grant_limit p g = Some n"
  then show "0 \<le> calls_used p g \<and> calls_used p g \<le> n"
    by (auto simp: policy_ok_def grant_limit_def find_Some_iff)
qed

lemma register_grant_ok:
  assumes "policy_ok p" and "register_grant dp p g = Inr p'"
  shows "policy_ok p'"
  using assms
  by (auto simp: policy_ok_def register_grant_def validate_grant_def calls_used_def result_simps
        image_iff split: if_splits) metis+

lemma register_all_ok: "policy_ok p \<Longrightarrow> register_all dp p gs = Inr p' \<Longrightarrow> policy_ok p'"
  by (induction gs arbitrary: p) (auto simp: and_then_Inr dest: register_grant_ok)

lemma new_policy_ok: "policy_ok new_policy"
  by (simp add: policy_ok_def new_policy_def)

end
