(* ===== verification/ToolRegistry.thy ===== *)
theory ToolRegistry
  imports ToolPolicy
begin

text \<open>
  The tool registry (\<open>src/tools/registry.ts\<close>): manifests, their checks, and the map from
  \<open>name@version\<close> to registrations, kept in insertion order as a JavaScript \<open>Map\<close> keeps it. The
  handler is opaque here; its calls are events of the runtime's environment. The resource resolver
  of a registration is a function the registrant supplies. \<open>dp\<close> is \<open>Date.parse\<close>, \<open>lc\<close> is
  \<open>localeCompare\<close>.
\<close>

section \<open>Data\<close>

datatype trust_class = Builtin | Project

record tool_provenance =
  reference :: string
  observedAt :: string

record tool_retry_policy =
  maxAttempts :: int
  timeoutMs :: int
  retryableCategories :: "tool_failure_category list"

record tool_manifest =
  manifest_name :: string
  manifest_version :: string
  manifest_summary :: string
  description :: string
  riskClass :: tool_risk_class
  operation :: tool_operation
  sideEffecting :: bool
  inputSchema :: "(string \<times> json) list"
  retryPolicy :: tool_retry_policy
  provenance :: tool_provenance
  trustClass :: trust_class

text \<open>A resolver returns a text, returns something else, or throws; \<open>TypeError\<close> stands for what is no
  \<open>ToolRuntimeError\<close>.\<close>

datatype resolver_outcome = Resource string | NotText | Throws tool_exception

record tool_registration =
  manifest :: tool_manifest
  resourceFromInput :: "(string \<times> json) list \<Rightarrow> resolver_outcome"

record tool_summary =
  sum_name :: string
  sum_operation :: tool_operation
  sum_riskClass :: tool_risk_class
  sum_summary :: string
  sum_trustClass :: trust_class
  sum_version :: string

type_synonym registry = "(string \<times> tool_registration) list"

section \<open>Checks\<close>

definition name_tail_char :: "char \<Rightarrow> bool" where
  "name_tail_char c \<longleftrightarrow> lower_char c \<or> digit_char c \<or> c = CHR ''_'' \<or> c = CHR ''.'' \<or> c = CHR ''-''"

definition version_tail_char :: "char \<Rightarrow> bool" where
  "version_tail_char c \<longleftrightarrow> upper_char c \<or> name_tail_char c"

text \<open>\<open>/^[a-z][a-z0-9_.-]{0,63}$/u\<close> and \<open>/^[A-Za-z0-9][A-Za-z0-9_.-]{0,31}$/u\<close>.\<close>

definition tool_name_pattern :: "string \<Rightarrow> bool" where
  "tool_name_pattern s \<longleftrightarrow> s \<noteq> [] \<and> lower_char (hd s) \<and> list_all name_tail_char (tl s) \<and> length (tl s) \<le> 63"

definition tool_version_pattern :: "string \<Rightarrow> bool" where
  "tool_version_pattern s \<longleftrightarrow> s \<noteq> [] \<and> (lower_char (hd s) \<or> upper_char (hd s) \<or> digit_char (hd s))
     \<and> list_all version_tail_char (tl s) \<and> length (tl s) \<le> 31"

definition assert_pattern :: "(string \<Rightarrow> bool) \<Rightarrow> string \<Rightarrow> string \<Rightarrow> (tool_exception, unit) result" where
  "assert_pattern pattern v name = (if \<not> pattern v then Inl (TypeError (name @ '' is invalid.'')) else Inr ())"

definition validate_manifest :: "(string \<Rightarrow> int option) \<Rightarrow> tool_manifest \<Rightarrow> (tool_exception, unit) result" where
  "validate_manifest dp m =
     and_then (assert_pattern tool_name_pattern (manifest_name m) ''tool name'') (\<lambda>_.
     and_then (assert_pattern tool_version_pattern (manifest_version m) ''tool version'') (\<lambda>_.
     if blank (manifest_summary m) \<or> blank (description m)
     then Inl (TypeError ''Tool summary and description must be non-empty.'')
     else if \<not> safe_integer (maxAttempts (retryPolicy m)) \<or> maxAttempts (retryPolicy m) < 1
     then Inl (TypeError ''Tool retry maxAttempts must be a positive safe integer.'')
     else if \<not> safe_integer (timeoutMs (retryPolicy m)) \<or> timeoutMs (retryPolicy m) < 1
     then Inl (TypeError ''Tool timeoutMs must be a positive safe integer.'')
     else if length (remdups (retryableCategories (retryPolicy m))) \<noteq> length (retryableCategories (retryPolicy m))
     then Inl (TypeError ''Tool retryableCategories must not contain duplicates.'')
     else if sideEffecting m \<and> maxAttempts (retryPolicy m) \<noteq> 1
     then Inl (TypeError ''Side-effecting tools are single-attempt in M3 until worker-level idempotency is available.'')
     else if blank (reference (provenance m)) \<or> dp (observedAt (provenance m)) = None
     then Inl (TypeError ''Tool provenance must contain a reference and parseable timestamp.'')
     else assert_strict_tool_schema (inputSchema m)))"

section \<open>Operations\<close>

definition tool_key :: "string \<Rightarrow> string \<Rightarrow> string" where
  "tool_key name version = name @ ''@'' @ version"

definition register_tool :: "(string \<Rightarrow> int option) \<Rightarrow> registry \<Rightarrow> tool_registration \<Rightarrow> (tool_exception, registry) result" where
  "register_tool dp reg r =
     and_then (validate_manifest dp (manifest r)) (\<lambda>_.
     let key = tool_key (manifest_name (manifest r)) (manifest_version (manifest r)) in
     if key \<in> fst ` set reg
     then Inl (ToolRuntimeError conflict (''Tool '' @ key @ '' is already registered.'') False)
     else Inr (reg @ [(key, r)]))"

primrec register_tools :: "(string \<Rightarrow> int option) \<Rightarrow> registry \<Rightarrow> tool_registration list \<Rightarrow> (tool_exception, registry) result" where
  "register_tools dp reg [] = Inr reg"
| "register_tools dp reg (r # rs) = and_then (register_tool dp reg r) (\<lambda>reg'. register_tools dp reg' rs)"

definition summarize :: "tool_registration \<Rightarrow> tool_summary" where
  "summarize r = (let m = manifest r in
     \<lparr>sum_name = manifest_name m, sum_operation = operation m, sum_riskClass = riskClass m,
      sum_summary = manifest_summary m, sum_trustClass = trustClass m, sum_version = manifest_version m\<rparr>)"

definition summary_compare :: "(string \<Rightarrow> string \<Rightarrow> int) \<Rightarrow> tool_summary \<Rightarrow> tool_summary \<Rightarrow> int" where
  "summary_compare lc a b = lc (tool_key (sum_name a) (sum_version a)) (tool_key (sum_name b) (sum_version b))"

definition list_summaries :: "(string \<Rightarrow> string \<Rightarrow> int) \<Rightarrow> registry \<Rightarrow> tool_summary list" where
  "list_summaries lc reg = js_sort (summary_compare lc) (map (\<lambda>kr. summarize (snd kr)) reg)"

definition resolve_registration :: "registry \<Rightarrow> string \<Rightarrow> string \<Rightarrow> (tool_exception, tool_registration) result" where
  "resolve_registration reg name version =
     (case map_of reg (tool_key name version) of
        None \<Rightarrow> Inl (ToolRuntimeError invalid_input (''Unknown tool '' @ name @ ''@'' @ version @ ''.'') False)
      | Some r \<Rightarrow> Inr r)"

definition resolve_manifest :: "registry \<Rightarrow> string \<Rightarrow> string \<Rightarrow> (tool_exception, tool_manifest) result" where
  "resolve_manifest reg name version =
     and_then (resolve_registration reg name version) (\<lambda>r. Inr (manifest r))"

section \<open>What registration guarantees\<close>

definition manifest_valid :: "(string \<Rightarrow> int option) \<Rightarrow> tool_manifest \<Rightarrow> bool" where
  "manifest_valid dp m \<longleftrightarrow>
     tool_name_pattern (manifest_name m) \<and> tool_version_pattern (manifest_version m) \<and>
     \<not> blank (manifest_summary m) \<and> \<not> blank (description m) \<and>
     safe_integer (maxAttempts (retryPolicy m)) \<and> 1 \<le> maxAttempts (retryPolicy m) \<and>
     safe_integer (timeoutMs (retryPolicy m)) \<and> 1 \<le> timeoutMs (retryPolicy m) \<and>
     distinct (retryableCategories (retryPolicy m)) \<and>
     (sideEffecting m \<longrightarrow> maxAttempts (retryPolicy m) = 1) \<and>
     \<not> blank (reference (provenance m)) \<and> dp (observedAt (provenance m)) \<noteq> None \<and>
     assert_strict_tool_schema (inputSchema m) = Inr ()"

lemma validate_manifest_Inr [result_simps]:
  "validate_manifest dp m = Inr u \<longleftrightarrow> manifest_valid dp m"
  by (auto simp: validate_manifest_def manifest_valid_def assert_pattern_def result_simps length_remdups_eq)

text \<open>No \<open>@\<close> in a valid name or version, so the key determines both.\<close>

lemma tail_chars:
  "name_tail_char c \<Longrightarrow> c \<noteq> CHR ''@''" "version_tail_char c \<Longrightarrow> c \<noteq> CHR ''@''"
  "lower_char c \<Longrightarrow> c \<noteq> CHR ''@''" "upper_char c \<Longrightarrow> c \<noteq> CHR ''@''" "digit_char c \<Longrightarrow> c \<noteq> CHR ''@''"
  by (auto simp: name_tail_char_def version_tail_char_def lower_char_def upper_char_def digit_char_def)

lemma tool_name_no_at: "tool_name_pattern s \<Longrightarrow> CHR ''@'' \<notin> set s"
  by (cases s) (auto simp: tool_name_pattern_def list_all_iff dest: tail_chars)

lemma split_at_unique:
  "x @ c # y = x' @ c # y' \<Longrightarrow> c \<notin> set x \<Longrightarrow> c \<notin> set x' \<Longrightarrow> x = x' \<and> y = y'"
proof (induction x arbitrary: x')
  case Nil then show ?case by (cases x') auto
next
  case (Cons a x) then show ?case by (cases x') auto
qed

lemma tool_version_no_at: "tool_version_pattern s \<Longrightarrow> CHR ''@'' \<notin> set s"
  by (cases s) (auto simp: tool_version_pattern_def list_all_iff dest: tail_chars)

lemma tool_key_inj:
  assumes "tool_key n v = tool_key n' v'" and "CHR ''@'' \<notin> set n'" and "CHR ''@'' \<notin> set v'"
  shows "n = n' \<and> v = v'"
proof (cases "CHR ''@'' \<in> set n")
  case False
  with assms show ?thesis by (auto simp: tool_key_def dest: split_at_unique)
next
  case True
  then obtain a b where n: "n = a @ CHR ''@'' # b" "CHR ''@'' \<notin> set a" by (auto dest: split_list_first)
  with assms(1) have "a @ CHR ''@'' # (b @ CHR ''@'' # v) = n' @ CHR ''@'' # v'" by (simp add: tool_key_def)
  then have "b @ CHR ''@'' # v = v'" using n(2) assms(2) split_at_unique by fastforce
  with assms(3) show ?thesis by auto
qed

definition registry_ok :: "(string \<Rightarrow> int option) \<Rightarrow> registry \<Rightarrow> bool" where
  "registry_ok dp reg \<longleftrightarrow> distinct (map fst reg) \<and>
     (\<forall>(k, r) \<in> set reg. manifest_valid dp (manifest r) \<and>
        k = tool_key (manifest_name (manifest r)) (manifest_version (manifest r)))"

lemma registry_ok_Nil [simp]: "registry_ok dp []"
  by (simp add: registry_ok_def)

lemma register_tool_ok: "registry_ok dp reg \<Longrightarrow> register_tool dp reg r = Inr reg' \<Longrightarrow> registry_ok dp reg'"
  by (auto simp: registry_ok_def register_tool_def Let_def result_simps split: if_splits)

lemma register_tools_ok: "registry_ok dp reg \<Longrightarrow> register_tools dp reg rs = Inr reg' \<Longrightarrow> registry_ok dp reg'"
  by (induction rs arbitrary: reg) (auto simp: and_then_Inr dest: register_tool_ok)

lemma resolve_registration_Inr:
  "resolve_registration reg n v = Inr r \<longleftrightarrow> map_of reg (tool_key n v) = Some r"
  by (simp add: resolve_registration_def split: option.split)

text \<open>A resolved registration has a valid manifest, registered under exactly that key.\<close>

lemma resolved_valid:
  assumes "registry_ok dp reg" and "resolve_registration reg n v = Inr r"
  shows "manifest_valid dp (manifest r)"
    and "tool_key (manifest_name (manifest r)) (manifest_version (manifest r)) = tool_key n v"
proof -
  from assms(2) have "(tool_key n v, r) \<in> set reg"
    by (auto simp: resolve_registration_Inr dest: map_of_SomeD)
  with assms(1) show "manifest_valid dp (manifest r)"
    and "tool_key (manifest_name (manifest r)) (manifest_version (manifest r)) = tool_key n v"
    by (auto simp: registry_ok_def)
qed

lemma resolved_exact:
  assumes "registry_ok dp reg" and "resolve_registration reg n v = Inr r"
  shows "manifest_name (manifest r) = n \<and> manifest_version (manifest r) = v"
  using tool_key_inj [OF resolved_valid(2) [OF assms, symmetric]] resolved_valid(1) [OF assms]
    tool_name_no_at tool_version_no_at
  by (auto simp: manifest_valid_def)

end
