(* ===== verification/ToolRuntime.thy ===== *)
theory ToolRuntime
  imports ToolRegistry
begin

text \<open>
  The tool runtime (\<open>src/tools/runtime.ts\<close>, \<open>src/tools/audit.ts\<close>): one \<open>execute\<close> call from the checks of
  the request to its result, with the retry loop, the race between handler, abort signal and
  timer, the audit records and the replay table. An exception can leave changes behind (a consumed
  grant, an audit record), so an operation returns its outcome together with the new world.

  What the environment decides is the argument \<open>env\<close>: for attempt \<open>n\<close>, \<open>env n\<close> holds the readings
  of the clock, the abort flag at the two places where the code reads it, and what happens
  before the timer fires. \<open>env 0\<close> holds the readings of the clock in a replay. The policy
  (\<open>authorize\<close>), the audit sink (\<open>sink\<close>) and the hash of a canonical value (\<open>digest\<close>, SHA-256 of its
  JSON text) are parameters. The lock of a replay scope makes the calls of that scope run one
  after the other; the model's calls are sequential.
\<close>

section \<open>Data\<close>

datatype audit_decision = Decided policy_decision | REPLAY

datatype audit_result_class =
    class_cancelled | class_conflict | class_denied | class_failure | class_replay | class_success | class_timeout

record tool_execution_request =
  ex_missionId :: string
  ex_taskId :: string
  ex_tool :: string
  ex_version :: string
  ex_input :: "(string \<times> json) list"
  ex_idempotencyKey :: "string option"
  ex_approval :: "approval_evidence option"

record tool_execution_result =
  res_attempts :: nat
  res_output :: json
  res_replayed :: bool

record tool_audit_record =
  aud_attempt :: nat
  aud_finishedAt :: string
  aud_inputHash :: string
  aud_missionId :: string
  aud_operation :: tool_operation
  aud_policyDecision :: audit_decision
  aud_resourceHash :: string
  aud_resultClass :: audit_result_class
  aud_sideEffecting :: bool
  aud_startedAt :: string
  aud_taskId :: string
  aud_tool :: string
  aud_version :: string
  aud_grantId :: "string option"
  aud_errorCategory :: "tool_failure_category option"

record replay_record =
  rep_inputHash :: string
  rep_output :: json
  rep_attempts :: nat

text \<open>A call of a registration's handler with its input and context.\<close>

record handler_call =
  call_missionId :: string
  call_taskId :: string
  call_tool :: string
  call_version :: string
  call_input :: "(string \<times> json) list"
  call_attempt :: nat

text \<open>What can happen while the handler runs; \<open>TypeError\<close> stands for every error of another class.\<close>

datatype handler_event = Resolves json | Rejects tool_exception | Aborts

record attempt_env =
  env_startedAt :: string
  env_finishedAt :: string
  env_aborted :: bool
  env_aborted_at_start :: bool
  env_events :: "handler_event list"

record ('p, 's) tool_world =
  policy :: 'p
  audit :: 's
  replays :: "string \<rightharpoonup> replay_record"
  handler_calls :: "handler_call list"

type_synonym 'p authorizer =
  "'p \<Rightarrow> tool_policy_request \<Rightarrow> (tool_exception, policy_authorization \<times> 'p) result"
type_synonym 's audit_sink = "'s \<Rightarrow> tool_audit_record \<Rightarrow> (tool_exception, 's) result"

section \<open>The handler against abort and timer\<close>

definition cancelled_error :: tool_exception where
  "cancelled_error = ToolRuntimeError cancelled ''Tool execution was cancelled.'' False"

definition timeout_error :: tool_exception where
  "timeout_error = ToolRuntimeError timeout ''Tool execution timed out.'' True"

text \<open>\<open>finish\<close>: only the first call settles the promise.\<close>

definition finish :: "(tool_exception, json) result option \<Rightarrow> (tool_exception, json) result
    \<Rightarrow> (tool_exception, json) result option" where
  "finish settled outcome = (case settled of Some _ \<Rightarrow> settled | None \<Rightarrow> Some outcome)"

primrec event_outcome :: "handler_event \<Rightarrow> (tool_exception, json) result" where
  "event_outcome (Resolves output) = Inr output"
| "event_outcome (Rejects e) = Inl e"
| "event_outcome Aborts = Inl cancelled_error"

text \<open>
  The settled outcome, and whether the handler was called. The timer is armed, so it fires after
  the events that come before the deadline.
\<close>

definition run_handler_with_timeout :: "attempt_env \<Rightarrow> (tool_exception, json) result \<times> bool" where
  "run_handler_with_timeout e =
     (if env_aborted_at_start e then (the (finish None (Inl cancelled_error)), False)
      else (the (finish (foldl finish None (map event_outcome (env_events e))) (Inl timeout_error)), True))"

definition normalize_handler_error :: "tool_exception \<Rightarrow> tool_exception" where
  "normalize_handler_error e = (case e of ToolRuntimeError c m r \<Rightarrow> e
     | TypeError m \<Rightarrow> ToolRuntimeError handler_error ''Tool handler failed.'' False)"

primrec exception_category :: "tool_exception \<Rightarrow> tool_failure_category" where
  "exception_category (ToolRuntimeError c m r) = c"
| "exception_category (TypeError m) = handler_error"

primrec failure_retryable :: "tool_exception \<Rightarrow> bool" where
  "failure_retryable (ToolRuntimeError c m r) = r"
| "failure_retryable (TypeError m) = False"

definition result_class_for :: "tool_failure_category \<Rightarrow> audit_result_class" where
  "result_class_for c =
     (if c = timeout then class_timeout
      else if c = cancelled then class_cancelled
      else if c = conflict then class_conflict
      else if c = denied \<or> c = require_approval then class_denied
      else class_failure)"

section \<open>Audit records\<close>

definition stable_hash :: "(json \<Rightarrow> string) \<Rightarrow> json \<Rightarrow> string" where
  "stable_hash digest v = digest (canonicalize v)"

definition audit_record :: "(json \<Rightarrow> string) \<Rightarrow> tool_manifest \<Rightarrow> tool_execution_request \<Rightarrow> string \<Rightarrow> attempt_env
    \<Rightarrow> nat \<Rightarrow> audit_decision \<Rightarrow> audit_result_class \<Rightarrow> tool_failure_category option \<Rightarrow> string option \<Rightarrow> tool_audit_record" where
  "audit_record digest m r resource e n d c err g =
     \<lparr>aud_attempt = n, aud_finishedAt = env_finishedAt e, aud_inputHash = stable_hash digest (JObj (ex_input r)),
      aud_missionId = ex_missionId r, aud_operation = operation m, aud_policyDecision = d,
      aud_resourceHash = stable_hash digest (JStr resource), aud_resultClass = c,
      aud_sideEffecting = sideEffecting m, aud_startedAt = env_startedAt e, aud_taskId = ex_taskId r,
      aud_tool = ex_tool r, aud_version = ex_version r, aud_grantId = g, aud_errorCategory = err\<rparr>"

definition append_audit :: "'s audit_sink \<Rightarrow> tool_audit_record \<Rightarrow> ('p, 's) tool_world
    \<Rightarrow> (tool_exception, unit) result \<times> ('p, 's) tool_world" where
  "append_audit sink a w = (case sink (audit w) a of Inl e \<Rightarrow> (Inl e, w) | Inr s \<Rightarrow> (Inr (), w\<lparr>audit := s\<rparr>))"

text \<open>\<open>InMemoryToolAuditSink.append\<close>.\<close>

definition memory_sink :: "tool_audit_record list audit_sink" where
  "memory_sink records a = Inr (records @ [a])"

section \<open>One attempt\<close>

datatype attempt_outcome = Returned tool_execution_result | Thrown tool_exception | Again

definition policy_request :: "tool_manifest \<Rightarrow> tool_execution_request \<Rightarrow> string \<Rightarrow> string \<Rightarrow> tool_policy_request" where
  "policy_request m r resource now =
     \<lparr>req_missionId = ex_missionId r, req_taskId = ex_taskId r, req_tool = ex_tool r,
      req_operation = operation m, req_riskClass = riskClass m, req_resource = resource,
      req_approval = ex_approval r, req_now = now\<rparr>"

text \<open>Append the record, then throw; an append that fails throws its own error.\<close>

definition audit_then_throw :: "'s audit_sink \<Rightarrow> tool_audit_record \<Rightarrow> tool_exception \<Rightarrow> ('p, 's) tool_world
    \<Rightarrow> attempt_outcome \<times> ('p, 's) tool_world" where
  "audit_then_throw sink a e w =
     (case append_audit sink a w of (Inl e', w') \<Rightarrow> (Thrown e', w') | (Inr _, w') \<Rightarrow> (Thrown e, w'))"

text \<open>The \<open>catch\<close> of an attempt: it also receives the error of an append that failed in the \<open>try\<close>.\<close>

definition attempt_failed :: "(json \<Rightarrow> string) \<Rightarrow> 's audit_sink \<Rightarrow> tool_manifest \<Rightarrow> tool_execution_request
    \<Rightarrow> string \<Rightarrow> attempt_env \<Rightarrow> nat \<Rightarrow> policy_authorization \<Rightarrow> tool_exception \<Rightarrow> ('p, 's) tool_world
    \<Rightarrow> attempt_outcome \<times> ('p, 's) tool_world" where
  "attempt_failed digest sink m r resource e n a err w =
     (let normalized = normalize_handler_error err;
          can_retry = int n < maxAttempts (retryPolicy m) \<and> failure_retryable normalized
            \<and> exception_category normalized \<in> set (retryableCategories (retryPolicy m)) in
      case append_audit sink (audit_record digest m r resource e n (Decided (decision a))
             (result_class_for (exception_category normalized)) (Some (exception_category normalized)) (auth_grantId a)) w of
        (Inl e', w') \<Rightarrow> (Thrown e', w')
      | (Inr _, w') \<Rightarrow> (if \<not> can_retry then (Thrown normalized, w') else (Again, w')))"

definition attempt_handler :: "(json \<Rightarrow> string) \<Rightarrow> 's audit_sink \<Rightarrow> tool_manifest \<Rightarrow> tool_execution_request
    \<Rightarrow> string \<Rightarrow> attempt_env \<Rightarrow> nat \<Rightarrow> policy_authorization \<Rightarrow> ('p, 's) tool_world
    \<Rightarrow> attempt_outcome \<times> ('p, 's) tool_world" where
  "attempt_handler digest sink m r resource e n a w =
     (let (outcome, called) = run_handler_with_timeout e;
          w1 = (if called then w\<lparr>handler_calls := handler_calls w @
                  [\<lparr>call_missionId = ex_missionId r, call_taskId = ex_taskId r, call_tool = ex_tool r,
                    call_version = ex_version r, call_input = ex_input r, call_attempt = n\<rparr>]\<rparr> else w) in
      case outcome of
        Inl err \<Rightarrow> attempt_failed digest sink m r resource e n a err w1
      | Inr output \<Rightarrow>
         (case append_audit sink (audit_record digest m r resource e n (Decided (decision a))
                 class_success None (auth_grantId a)) w1 of
            (Inl e', w2) \<Rightarrow> attempt_failed digest sink m r resource e n a e' w2
          | (Inr _, w2) \<Rightarrow> (Returned \<lparr>res_attempts = n, res_output = output, res_replayed = False\<rparr>, w2)))"

definition run_attempt :: "'p authorizer \<Rightarrow> (json \<Rightarrow> string) \<Rightarrow> 's audit_sink \<Rightarrow> tool_manifest
    \<Rightarrow> tool_execution_request \<Rightarrow> string \<Rightarrow> attempt_env \<Rightarrow> nat \<Rightarrow> ('p, 's) tool_world
    \<Rightarrow> attempt_outcome \<times> ('p, 's) tool_world" where
  "run_attempt authorize digest sink m r resource e n w =
     (if env_aborted e then
        audit_then_throw sink (audit_record digest m r resource e n (Decided DENY) class_cancelled
          (Some cancelled) None) cancelled_error w
      else (case authorize (policy w) (policy_request m r resource (env_startedAt e)) of
          Inl err \<Rightarrow> (Thrown err, w)
        | Inr (a, p) \<Rightarrow>
           (let w1 = w\<lparr>policy := p\<rparr> in
            if decision a \<noteq> ALLOW then
              (let category = (if decision a = REQUIRE_APPROVAL then require_approval else denied) in
               audit_then_throw sink (audit_record digest m r resource e n (Decided (decision a)) class_denied
                 (Some category) (auth_grantId a)) (ToolRuntimeError category (reason a) False) w1)
            else attempt_handler digest sink m r resource e n a w1)))"

section \<open>The retry loop\<close>

text \<open>\<open>k\<close> attempts are left, the next one is \<open>n\<close>.\<close>

primrec attempts_from :: "'p authorizer \<Rightarrow> (json \<Rightarrow> string) \<Rightarrow> 's audit_sink \<Rightarrow> tool_manifest
    \<Rightarrow> tool_execution_request \<Rightarrow> string \<Rightarrow> (nat \<Rightarrow> attempt_env) \<Rightarrow> nat \<Rightarrow> nat \<Rightarrow> ('p, 's) tool_world
    \<Rightarrow> (tool_exception, tool_execution_result) result \<times> ('p, 's) tool_world" where
  "attempts_from authorize digest sink m r resource env 0 n w =
     (Inl (ToolRuntimeError handler_error ''Tool retry loop ended unexpectedly.'' False), w)"
| "attempts_from authorize digest sink m r resource env (Suc k) n w =
     (case run_attempt authorize digest sink m r resource (env n) n w of
        (Returned result, w') \<Rightarrow> (Inr result, w')
      | (Thrown err, w') \<Rightarrow> (Inl err, w')
      | (Again, w') \<Rightarrow> attempts_from authorize digest sink m r resource env k (Suc n) w')"

definition execute_fresh :: "'p authorizer \<Rightarrow> (json \<Rightarrow> string) \<Rightarrow> 's audit_sink \<Rightarrow> tool_manifest
    \<Rightarrow> tool_execution_request \<Rightarrow> string \<Rightarrow> (nat \<Rightarrow> attempt_env) \<Rightarrow> ('p, 's) tool_world
    \<Rightarrow> (tool_exception, tool_execution_result) result \<times> ('p, 's) tool_world" where
  "execute_fresh authorize digest sink m r resource env w =
     attempts_from authorize digest sink m r resource env (nat (maxAttempts (retryPolicy m))) 1 w"

section \<open>execute\<close>

definition validate_execution_request :: "tool_execution_request \<Rightarrow> (tool_exception, unit) result" where
  "validate_execution_request r =
     for_each (\<lambda>nv. ensure (\<not> blank (snd nv)) (ToolRuntimeError invalid_input (fst nv @ '' is required.'') False))
       [(''missionId'', ex_missionId r), (''taskId'', ex_taskId r), (''tool'', ex_tool r), (''version'', ex_version r)]"

definition resolve_resource :: "tool_registration \<Rightarrow> (string \<times> json) list \<Rightarrow> (tool_exception, string) result" where
  "resolve_resource reg input =
     (case resourceFromInput reg input of
        Throws (ToolRuntimeError c m r) \<Rightarrow> Inl (ToolRuntimeError c m r)
      | Throws (TypeError m) \<Rightarrow> Inl (ToolRuntimeError invalid_input ''Tool resource could not be resolved.'' False)
      | NotText \<Rightarrow> Inl (ToolRuntimeError invalid_input ''Tool resource must be non-empty.'' False)
      | Resource s \<Rightarrow> if blank s then Inl (ToolRuntimeError invalid_input ''Tool resource must be non-empty.'' False)
                      else Inr s)"

definition scope_separator :: string where
  "scope_separator = [CHR 0x00]"

definition replay_scope :: "tool_execution_request \<Rightarrow> string \<Rightarrow> string" where
  "replay_scope r key = concat [ex_missionId r, scope_separator, ex_taskId r, scope_separator, ex_tool r,
     scope_separator, ex_version r, scope_separator, key]"

text \<open>The branch of a scope that already holds a result.\<close>

definition replay_result :: "(json \<Rightarrow> string) \<Rightarrow> 's audit_sink \<Rightarrow> tool_manifest \<Rightarrow> tool_execution_request \<Rightarrow> string
    \<Rightarrow> (nat \<Rightarrow> attempt_env) \<Rightarrow> replay_record \<Rightarrow> ('p, 's) tool_world
    \<Rightarrow> (tool_exception, tool_execution_result) result \<times> ('p, 's) tool_world" where
  "replay_result digest sink m r resource env rep w =
     (if rep_inputHash rep \<noteq> stable_hash digest (JObj (ex_input r)) then
        (case append_audit sink (audit_record digest m r resource (env 0) 0 REPLAY class_conflict (Some conflict) None) w of
           (Inl e, w') \<Rightarrow> (Inl e, w')
         | (Inr _, w') \<Rightarrow> (Inl (ToolRuntimeError conflict
              ''Idempotency key was reused with different tool input.'' False), w'))
      else
        (case append_audit sink (audit_record digest m r resource (env 0) 0 REPLAY class_replay None None) w of
           (Inl e, w') \<Rightarrow> (Inl e, w')
         | (Inr _, w') \<Rightarrow> (Inr \<lparr>res_attempts = rep_attempts rep, res_output = rep_output rep, res_replayed = True\<rparr>, w')))"

definition execute_keyed :: "'p authorizer \<Rightarrow> (json \<Rightarrow> string) \<Rightarrow> 's audit_sink \<Rightarrow> tool_manifest
    \<Rightarrow> tool_execution_request \<Rightarrow> string \<Rightarrow> (nat \<Rightarrow> attempt_env) \<Rightarrow> string \<Rightarrow> ('p, 's) tool_world
    \<Rightarrow> (tool_exception, tool_execution_result) result \<times> ('p, 's) tool_world" where
  "execute_keyed authorize digest sink m r resource env scope w =
     (case replays w scope of
        Some rep \<Rightarrow> replay_result digest sink m r resource env rep w
      | None \<Rightarrow>
         (case execute_fresh authorize digest sink m r resource env w of
            (Inl e, w') \<Rightarrow> (Inl e, w')
          | (Inr result, w') \<Rightarrow>
              (Inr result, w'\<lparr>replays := (replays w')(scope \<mapsto>
                 \<lparr>rep_inputHash = stable_hash digest (JObj (ex_input r)), rep_output = res_output result,
                  rep_attempts = res_attempts result\<rparr>)\<rparr>)))"

text \<open>The checks before the first effect: the manifest that runs and the resource it will touch.\<close>

definition prepare_execution :: "registry \<Rightarrow> tool_execution_request \<Rightarrow> (tool_exception, tool_manifest \<times> string) result" where
  "prepare_execution reg r =
     and_then (validate_execution_request r) (\<lambda>_.
     and_then (resolve_registration reg (ex_tool r) (ex_version r)) (\<lambda>registration.
     and_then (validate_tool_input (inputSchema (manifest registration)) (ex_input r)) (\<lambda>_.
     and_then (resolve_resource registration (ex_input r)) (\<lambda>resource.
     Inr (manifest registration, resource)))))"

definition usable_key :: "tool_execution_request \<Rightarrow> (tool_exception, string) result" where
  "usable_key r =
     (case ex_idempotencyKey r of
        None \<Rightarrow> Inl (ToolRuntimeError invalid_input ''Side-effecting tools require a non-empty idempotency key.'' False)
      | Some key \<Rightarrow>
          if blank key
          then Inl (ToolRuntimeError invalid_input ''Side-effecting tools require a non-empty idempotency key.'' False)
          else Inr key)"

definition execute :: "'p authorizer \<Rightarrow> (json \<Rightarrow> string) \<Rightarrow> 's audit_sink \<Rightarrow> registry \<Rightarrow> tool_execution_request
    \<Rightarrow> (nat \<Rightarrow> attempt_env) \<Rightarrow> ('p, 's) tool_world
    \<Rightarrow> (tool_exception, tool_execution_result) result \<times> ('p, 's) tool_world" where
  "execute authorize digest sink reg r env w =
     (case prepare_execution reg r of
        Inl e \<Rightarrow> (Inl e, w)
      | Inr (m, resource) \<Rightarrow>
          if \<not> sideEffecting m then execute_fresh authorize digest sink m r resource env w
          else (case usable_key r of
              Inl e \<Rightarrow> (Inl e, w)
            | Inr key \<Rightarrow> execute_keyed authorize digest sink m r resource env (replay_scope r key) w))"

text \<open>A sequence of calls, each with its environment.\<close>

primrec execute_all :: "'p authorizer \<Rightarrow> (json \<Rightarrow> string) \<Rightarrow> 's audit_sink \<Rightarrow> registry
    \<Rightarrow> (tool_execution_request \<times> (nat \<Rightarrow> attempt_env)) list \<Rightarrow> ('p, 's) tool_world \<Rightarrow> ('p, 's) tool_world" where
  "execute_all authorize digest sink reg [] w = w"
| "execute_all authorize digest sink reg (c # cs) w =
     execute_all authorize digest sink reg cs (snd (execute authorize digest sink reg (fst c) (snd c) w))"

end
