(* ===== verification/ToolExecution.thy ===== *)
theory ToolExecution
  imports ToolRuntime
begin

text \<open>
  What the tool runtime guarantees, proved against the interfaces it uses: the capability policy
  (locale \<open>capability_policy\<close>) and an audit log that keeps what is appended (locale \<open>audit_log\<close>).
  Every call of a handler is paid by a grant and has an audit record of that attempt; the
  attempts are numbered and bounded; a replay calls no handler.
\<close>

section \<open>The handler's race\<close>

lemma finish_settled [simp]: "foldl finish (Some x) ys = Some x"
  by (induction ys) (simp_all add: finish_def)

lemma first_event_wins:
  "run_handler_with_timeout e =
     (if env_aborted_at_start e then (Inl cancelled_error, False)
      else (case env_events e of [] \<Rightarrow> Inl timeout_error | ev # _ \<Rightarrow> event_outcome ev, True))"
  by (cases "env_events e") (simp_all add: run_handler_with_timeout_def finish_def [of None] finish_def [of "Some x" for x])

lemma result_class_not_success [simp]: "result_class_for c \<noteq> class_success" "result_class_for c \<noteq> class_replay"
  by (simp_all add: result_class_for_def)

section \<open>The audit log\<close>

locale audit_log =
  fixes sink :: "'s audit_sink" and records :: "'s \<Rightarrow> tool_audit_record list"
  assumes appended: "\<exists>s'. sink s a = Inr s' \<and> records s' = records s @ [a]"
begin

lemma append_audit_log:
  obtains s where "append_audit sink a w = (Inr (), w\<lparr>audit := s\<rparr>)" "records s = records (audit w) @ [a]"
  using appended [of "audit w" a] by (auto simp: append_audit_def)

end

interpretation memory_log: audit_log memory_sink id
  by unfold_locales (simp add: memory_sink_def)

definition allows :: "tool_audit_record \<Rightarrow> bool" where
  "allows a \<longleftrightarrow> aud_policyDecision a = Decided ALLOW"

lemma allows_eq: "allows = (\<lambda>a. aud_policyDecision a = Decided ALLOW)"
  by (simp add: fun_eq_iff allows_def)

definition charged_records :: "string \<Rightarrow> tool_audit_record list \<Rightarrow> int" where
  "charged_records g rs = int (length (filter (\<lambda>a. allows a \<and> aud_grantId a = Some g) rs))"

lemma charged_records_simps [simp]:
  "charged_records g [] = 0" "charged_records g (rs @ rs') = charged_records g rs + charged_records g rs'"
  "charged_records g [a] = (if allows a \<and> aud_grantId a = Some g then 1 else 0)"
  by (simp_all add: charged_records_def)

text \<open>The records and handler calls of attempt \<open>n\<close>.\<close>

definition attempt_trace :: "tool_manifest \<Rightarrow> nat \<Rightarrow> tool_audit_record list \<Rightarrow> handler_call list \<Rightarrow> attempt_outcome \<Rightarrow> bool" where
  "attempt_trace m n rs cs outcome \<longleftrightarrow>
     length rs \<le> 1 \<and> (\<forall>a \<in> set rs. aud_attempt a = n \<and> aud_resultClass a \<noteq> class_replay) \<and>
     length cs \<le> length (filter allows rs) \<and> (\<forall>c \<in> set cs. call_attempt c = n) \<and>
     (case outcome of
        Returned res \<Rightarrow> res_attempts res = n \<and> \<not> res_replayed res \<and> length rs = 1
          \<and> map aud_resultClass rs = [class_success]
      | Thrown err \<Rightarrow> class_success \<notin> aud_resultClass ` set rs
      | Again \<Rightarrow> int n < maxAttempts (retryPolicy m) \<and> length rs = 1 \<and> class_success \<notin> aud_resultClass ` set rs)"

text \<open>
  The loop: attempts are numbered from the first one on without gaps, at most one record each (an
  attempt that fails before its record ends the loop), and only the last record can be a success.
\<close>

definition loop_trace :: "nat \<Rightarrow> nat \<Rightarrow> tool_audit_record list \<Rightarrow> handler_call list
    \<Rightarrow> (tool_exception, tool_execution_result) result \<Rightarrow> bool" where
  "loop_trace k n rs cs out \<longleftrightarrow>
     map aud_attempt rs = [n..<n + length rs] \<and> length rs \<le> k \<and>
     length cs \<le> length (filter allows rs) \<and> sorted_wrt (<) (map call_attempt cs) \<and>
     (\<forall>c \<in> set cs. n \<le> call_attempt c) \<and> class_replay \<notin> aud_resultClass ` set rs \<and>
     (case out of
        Inl e \<Rightarrow> class_success \<notin> aud_resultClass ` set rs
      | Inr res \<Rightarrow> \<not> res_replayed res \<and> rs \<noteq> [] \<and> aud_resultClass (last rs) = class_success \<and>
          aud_attempt (last rs) = res_attempts res \<and> class_success \<notin> aud_resultClass ` set (butlast rs))"

text \<open>What one call leaves behind: its audit records, its handler calls, and the replay table.\<close>

definition call_trace :: "registry \<Rightarrow> tool_execution_request \<Rightarrow> tool_audit_record list \<Rightarrow> handler_call list
    \<Rightarrow> (tool_exception, tool_execution_result) result \<Rightarrow> bool" where
  "call_trace reg r rs cs out \<longleftrightarrow>
     (rs = [] \<and> cs = [] \<and> (\<exists>e. out = Inl e)) \<or>
     (\<exists>b. rs = [b] \<and> cs = [] \<and> aud_attempt b = 0 \<and> aud_policyDecision b = REPLAY \<and>
        (\<forall>res. out = Inr res \<longrightarrow> res_replayed res)) \<or>
     (\<exists>m resource. prepare_execution reg r = Inr (m, resource) \<and>
        loop_trace (nat (maxAttempts (retryPolicy m))) 1 rs cs out)"

lemma call_trace_fresh:
  "prepare_execution reg r = Inr (m, resource) \<Longrightarrow> loop_trace (nat (maxAttempts (retryPolicy m))) 1 rs cs out
    \<Longrightarrow> call_trace reg r rs cs out"
  by (auto simp: call_trace_def)

lemma call_trace_paid: "call_trace reg r rs cs out \<Longrightarrow> length cs \<le> length (filter allows rs)"
  by (auto simp: call_trace_def loop_trace_def)

locale tool_execution = capability_policy authorize policy_inv used limit + audit_log sink records
  for authorize :: "'p authorizer" and policy_inv used limit and sink :: "'s audit_sink" and records
begin

definition world_step :: "('p, 's) tool_world \<Rightarrow> tool_audit_record list \<Rightarrow> handler_call list \<Rightarrow> ('p, 's) tool_world \<Rightarrow> bool" where
  "world_step w rs cs w' \<longleftrightarrow>
     records (audit w') = records (audit w) @ rs \<and> handler_calls w' = handler_calls w @ cs \<and>
     (policy_inv (policy w) \<longrightarrow> policy_inv (policy w') \<and> limit (policy w') = limit (policy w) \<and>
        (\<forall>g. used (policy w') g = used (policy w) g + charged_records g rs))"

lemma world_step_refl [simp]: "world_step w [] [] w"
  by (simp add: world_step_def)

lemma world_step_trans:
  "world_step w rs cs w' \<Longrightarrow> world_step w' rs' cs' w'' \<Longrightarrow> world_step w (rs @ rs') (cs @ cs') w''"
  by (auto simp: world_step_def)

lemma audit_then_throw_step:
  assumes "audit_then_throw sink a e w = (out, w')"
  shows "out = Thrown e \<and> replays w' = replays w \<and> policy w' = policy w \<and>
    records (audit w') = records (audit w) @ [a] \<and> handler_calls w' = handler_calls w"
  using assms by (rule_tac append_audit_log [of a w]) (auto simp: audit_then_throw_def)

lemma attempt_failed_step:
  assumes "attempt_failed digest sink m r resource e n a err w = (out, w')"
  shows "\<exists>b. attempt_trace m n [b] [] out \<and> aud_policyDecision b = Decided (decision a) \<and> aud_grantId b = auth_grantId a
    \<and> replays w' = replays w \<and> policy w' = policy w
    \<and> records (audit w') = records (audit w) @ [b] \<and> handler_calls w' = handler_calls w"
proof -
  define b where "b = audit_record digest m r resource e n (Decided (decision a))
     (result_class_for (exception_category (normalize_handler_error err)))
     (Some (exception_category (normalize_handler_error err))) (auth_grantId a)"
  obtain s where s: "append_audit sink b w = (Inr (), w\<lparr>audit := s\<rparr>)" "records s = records (audit w) @ [b]"
    by (rule append_audit_log)
  have b: "aud_attempt b = n" "aud_resultClass b \<noteq> class_success" "aud_resultClass b \<noteq> class_replay"
      "aud_policyDecision b = Decided (decision a)" "aud_grantId b = auth_grantId a"
    by (simp_all add: b_def audit_record_def)
  from assms s b show ?thesis
    by (intro exI [of _ b])
       (auto simp: attempt_failed_def Let_def b_def [symmetric] attempt_trace_def split: if_splits)
qed

text \<open>A handler that was called has an \<open>ALLOW\<close> record of its attempt.\<close>

lemma attempt_handler_step:
  assumes "attempt_handler digest sink m r resource e n a w = (out, w')" and "decision a = ALLOW"
  shows "\<exists>b cs. attempt_trace m n [b] cs out \<and> allows b \<and> aud_grantId b = auth_grantId a
    \<and> replays w' = replays w \<and> policy w' = policy w
    \<and> records (audit w') = records (audit w) @ [b] \<and> handler_calls w' = handler_calls w @ cs"
proof -
  obtain outcome called where run: "run_handler_with_timeout e = (outcome, called)" by force
  define c where "c = \<lparr>call_missionId = ex_missionId r, call_taskId = ex_taskId r, call_tool = ex_tool r,
     call_version = ex_version r, call_input = ex_input r, call_attempt = n\<rparr>"
  define cs where "cs = (if called then [c] else [])"
  define w1 where "w1 = (if called then w\<lparr>handler_calls := handler_calls w @ [c]\<rparr> else w)"
  have cs: "handler_calls w1 = handler_calls w @ cs" "replays w1 = replays w" "policy w1 = policy w"
      "audit w1 = audit w" "length cs \<le> 1" "\<forall>c \<in> set cs. call_attempt c = n"
    by (simp_all add: cs_def w1_def c_def)
  show ?thesis
  proof (cases outcome)
    case (Inl err)
    with assms(1) run have "attempt_failed digest sink m r resource e n a err w1 = (out, w')"
      by (cases called) (simp_all add: attempt_handler_def w1_def c_def)
    from attempt_failed_step [OF this] cs assms(2) show ?thesis
      by (elim exE conjE, intro exI [of _ cs] exI) (auto simp: attempt_trace_def allows_def)
  next
    case (Inr val)
    define b where "b = audit_record digest m r resource e n (Decided (decision a)) class_success None (auth_grantId a)"
    obtain s where s: "append_audit sink b w1 = (Inr (), w1\<lparr>audit := s\<rparr>)" "records s = records (audit w1) @ [b]"
      by (rule append_audit_log)
    have out: "out = Returned \<lparr>res_attempts = n, res_output = val, res_replayed = False\<rparr>" "w' = w1\<lparr>audit := s\<rparr>"
      using assms(1) run Inr s(1)
      by (cases called; simp add: attempt_handler_def b_def [symmetric] c_def [symmetric] w1_def)+
    have "aud_attempt b = n" "aud_resultClass b = class_success" "allows b" "aud_grantId b = auth_grantId a"
      using assms(2) by (simp_all add: b_def audit_record_def allows_def)
    with out s(2) cs show ?thesis
      by (intro exI [of _ b] exI [of _ cs]) (simp add: attempt_trace_def)
  qed
qed

lemma refused_step:
  assumes "audit_then_throw sink b err w = (out, w')" and "aud_attempt b = n" "\<not> allows b"
    and "aud_resultClass b \<noteq> class_success" "aud_resultClass b \<noteq> class_replay"
  shows "attempt_trace m n [b] [] out \<and> world_step w [b] [] w' \<and> replays w' = replays w"
  using audit_then_throw_step [OF assms(1)] assms(2-) by (auto simp: attempt_trace_def world_step_def)

lemma run_attempt_step:
  assumes "run_attempt authorize digest sink m r resource e n w = (out, w')"
  shows "\<exists>rs cs. attempt_trace m n rs cs out \<and> world_step w rs cs w' \<and> replays w' = replays w"
proof (cases "env_aborted e")
  case True
  with assms have throw: "audit_then_throw sink (audit_record digest m r resource e n (Decided DENY) class_cancelled
      (Some cancelled) None) cancelled_error w = (out, w')" by (simp add: run_attempt_def)
  show ?thesis
    using refused_step [OF throw, of n m] by (auto simp: audit_record_def allows_def)
next
  case running: False
  define q where "q = policy_request m r resource (env_startedAt e)"
  show ?thesis
  proof (cases "authorize (policy w) q")
    case (Inl err)
    with assms running have "out = Thrown err" "w' = w" by (simp_all add: run_attempt_def q_def)
    then show ?thesis by (intro exI [of _ "[]"]) (simp add: attempt_trace_def)
  next
    case (Inr ap)
    obtain a p where ap: "ap = (a, p)" by force
    note auth = Inr [unfolded ap]
    show ?thesis
    proof (cases "decision a = ALLOW")
      case True
      with assms running auth
      have "attempt_handler digest sink m r resource e n a (w\<lparr>policy := p\<rparr>) = (out, w')"
        by (simp add: run_attempt_def q_def Let_def)
      from attempt_handler_step [OF this True] obtain b cs where
        b: "attempt_trace m n [b] cs out" "allows b" "aud_grantId b = auth_grantId a"
          "replays w' = replays w" "policy w' = p" "records (audit w') = records (audit w) @ [b]"
          "handler_calls w' = handler_calls w @ cs" by auto
      have "limit p = limit (policy w) \<and> policy_inv p \<and>
          (\<forall>g. used p g = used (policy w) g + charged_records g [b])" if "policy_inv (policy w)"
        using allowed [OF that auth True] kept [OF that auth] b(2,3) by auto
      with b show ?thesis by (intro exI [of _ "[b]"] exI [of _ cs]) (simp add: world_step_def)
    next
      case False
      define category where "category = (if decision a = REQUIRE_APPROVAL then require_approval else denied)"
      define b where "b = audit_record digest m r resource e n (Decided (decision a)) class_denied
         (Some category) (auth_grantId a)"
      from assms running auth False
      have throw: "audit_then_throw sink b (ToolRuntimeError category (reason a) False) (w\<lparr>policy := p\<rparr>) = (out, w')"
        by (simp add: run_attempt_def q_def Let_def b_def category_def)
      have "attempt_trace m n [b] [] out \<and> world_step (w\<lparr>policy := p\<rparr>) [b] [] w' \<and> replays w' = replays (w\<lparr>policy := p\<rparr>)"
        by (rule refused_step [OF throw]) (simp_all add: b_def audit_record_def allows_def False)
      with refused [OF _ auth False] show ?thesis
        by (intro exI [of _ "[b]"] exI [of _ "[]"]) (auto simp: world_step_def)
    qed
  qed
qed

lemma attempts_from_step:
  assumes "attempts_from authorize digest sink m r resource env k n w = (out, w')"
  shows "\<exists>rs cs. loop_trace k n rs cs out \<and> world_step w rs cs w' \<and> replays w' = replays w"
  using assms
proof (induction k arbitrary: n w)
  case 0
  then show ?case by (intro exI [of _ "[]"]) (auto simp: loop_trace_def)
next
  case (Suc k)
  obtain o1 w1 where run: "run_attempt authorize digest sink m r resource (env n) n w = (o1, w1)" by force
  from run_attempt_step [OF run] obtain rs cs where
    one: "attempt_trace m n rs cs o1" "world_step w rs cs w1" "replays w1 = replays w" by auto
  have short: "length rs \<le> 1" "map aud_attempt rs = [n..<n + length rs]"
    using one(1) by (cases rs; simp add: attempt_trace_def)+
  have calls: "length cs \<le> length (filter allows rs)" "\<forall>c \<in> set cs. call_attempt c = n" "length cs \<le> 1"
    using one(1) length_filter_le [of allows rs] unfolding attempt_trace_def by linarith+
  have sorted: "sorted_wrt (<) (map call_attempt cs)" using calls(3) by (cases cs) auto
  show ?case
  proof (cases o1)
    case (Returned res)
    with Suc.prems run have "out = Inr res" "w' = w1" by simp_all
    with one Returned short calls sorted show ?thesis
      by (intro exI [of _ rs] exI [of _ cs]) (cases rs; auto simp: loop_trace_def attempt_trace_def)
  next
    case (Thrown e)
    with Suc.prems run have "out = Inl e" "w' = w1" by simp_all
    with one Thrown short calls sorted show ?thesis
      by (intro exI [of _ rs] exI [of _ cs]) (auto simp: loop_trace_def attempt_trace_def)
  next
    case Again
    with Suc.prems run have rest: "attempts_from authorize digest sink m r resource env k (Suc n) w1 = (out, w')"
      by simp
    from Suc.IH [OF rest] obtain rs' cs' where
      more: "loop_trace k (Suc n) rs' cs' out" "world_step w1 rs' cs' w'" "replays w' = replays w1" by auto
    obtain b where b: "rs = [b]" "aud_attempt b = n" "aud_resultClass b \<noteq> class_success" "aud_resultClass b \<noteq> class_replay"
      using one(1) Again by (cases rs) (auto simp: attempt_trace_def)
    have "sorted_wrt (<) (map call_attempt (cs @ cs'))"
      using sorted more(1) calls(2) by (fastforce simp: loop_trace_def sorted_wrt_append)
    then have "loop_trace (Suc k) n (rs @ rs') (cs @ cs') out"
      using more(1) b calls by (auto simp: loop_trace_def upt_conv_Cons split: sum.splits)
    with world_step_trans [OF one(2) more(2)] one(3) more(3) show ?thesis by auto
  qed
qed

lemma execute_fresh_step:
  assumes "execute_fresh authorize digest sink m r resource env w = (out, w')"
  shows "\<exists>rs cs. loop_trace (nat (maxAttempts (retryPolicy m))) 1 rs cs out \<and> world_step w rs cs w' \<and> replays w' = replays w"
  using attempts_from_step assms unfolding execute_fresh_def by blast

lemma replay_result_step:
  assumes "replay_result digest sink m r resource env rep w = (out, w')"
  shows "\<exists>b. world_step w [b] [] w' \<and> replays w' = replays w \<and> policy w' = policy w \<and> handler_calls w' = handler_calls w \<and>
    records (audit w') = records (audit w) @ [b] \<and> aud_attempt b = 0 \<and> aud_policyDecision b = REPLAY \<and>
    (if rep_inputHash rep = stable_hash digest (JObj (ex_input r))
     then out = Inr \<lparr>res_attempts = rep_attempts rep, res_output = rep_output rep, res_replayed = True\<rparr>
     else out = Inl (ToolRuntimeError conflict ''Idempotency key was reused with different tool input.'' False))"
proof -
  define b where "b = (if rep_inputHash rep \<noteq> stable_hash digest (JObj (ex_input r))
     then audit_record digest m r resource (env 0) 0 REPLAY class_conflict (Some conflict) None
     else audit_record digest m r resource (env 0) 0 REPLAY class_replay None None)"
  obtain s where s: "append_audit sink b w = (Inr (), w\<lparr>audit := s\<rparr>)" "records s = records (audit w) @ [b]"
    by (rule append_audit_log)
  have b: "aud_attempt b = 0" "aud_policyDecision b = REPLAY" "\<not> allows b"
    by (simp_all add: b_def audit_record_def allows_def)
  have result: "w' = w\<lparr>audit := s\<rparr> \<and>
    (if rep_inputHash rep = stable_hash digest (JObj (ex_input r))
     then out = Inr \<lparr>res_attempts = rep_attempts rep, res_output = rep_output rep, res_replayed = True\<rparr>
     else out = Inl (ToolRuntimeError conflict ''Idempotency key was reused with different tool input.'' False))"
    using assms s(1) unfolding replay_result_def b_def
    by (cases "rep_inputHash rep = stable_hash digest (JObj (ex_input r))") simp_all
  then show ?thesis
    using s(2) b by (intro exI [of _ b]) (simp add: world_step_def)
qed

lemma execute_step:
  assumes "execute authorize digest sink reg r env w = (out, w')"
  shows "\<exists>rs cs. call_trace reg r rs cs out \<and> world_step w rs cs w' \<and>
    (\<forall>scope rep. replays w scope = Some rep \<longrightarrow> replays w' scope = Some rep)"
proof (cases "prepare_execution reg r")
  case (Inl e)
  with assms have "out = Inl e" "w' = w" by (simp_all add: execute_def)
  then show ?thesis by (intro exI [of _ "[]"]) (simp add: call_trace_def)
next
  case (Inr mr)
  obtain m resource where mr: "mr = (m, resource)" by force
  note prep = Inr [unfolded mr]
  show ?thesis
  proof (cases "sideEffecting m")
    case False
    with assms prep have "execute_fresh authorize digest sink m r resource env w = (out, w')" by (simp add: execute_def)
    from execute_fresh_step [OF this] show ?thesis using call_trace_fresh [OF prep] by fastforce
  next
    case True
    show ?thesis
    proof (cases "usable_key r")
      case (Inl e)
      with assms prep True have "out = Inl e" "w' = w" by (simp_all add: execute_def)
      then show ?thesis by (intro exI [of _ "[]"]) (simp add: call_trace_def)
    next
      case (Inr key)
      define scope where "scope = replay_scope r key"
      from assms prep True Inr have keyed: "execute_keyed authorize digest sink m r resource env scope w = (out, w')"
        by (simp add: execute_def scope_def)
      show ?thesis
      proof (cases "replays w scope")
        case (Some rep)
        with keyed have "replay_result digest sink m r resource env rep w = (out, w')" by (simp add: execute_keyed_def)
        from replay_result_step [OF this] show ?thesis
          by (elim exE conjE, intro exI [of _ "[b]" for b] exI [of _ "[]"]) (auto simp: call_trace_def split: if_splits)
      next
        case None
        obtain out1 w1 where fresh: "execute_fresh authorize digest sink m r resource env w = (out1, w1)" by force
        from execute_fresh_step [OF this] obtain rs cs where
          one: "loop_trace (nat (maxAttempts (retryPolicy m))) 1 rs cs out1" "world_step w rs cs w1" "replays w1 = replays w"
          by auto
        have "out = out1" using keyed None fresh by (cases out1) (simp_all add: execute_keyed_def)
        moreover have "world_step w rs cs w'" using keyed None fresh one(2)
          by (cases out1) (auto simp: execute_keyed_def world_step_def)
        moreover have "\<forall>scope rep. replays w scope = Some rep \<longrightarrow> replays w' scope = Some rep"
          using keyed None fresh one(3) by (cases out1) (auto simp: execute_keyed_def)
        ultimately show ?thesis using call_trace_fresh [OF prep one(1)] by blast
      qed
    qed
  qed
qed

lemma execute_all_step:
  "\<exists>rs cs'. world_step w rs cs' (execute_all authorize digest sink reg cs w) \<and> length cs' \<le> length (filter allows rs) \<and>
     (\<forall>scope rep. replays w scope = Some rep \<longrightarrow> replays (execute_all authorize digest sink reg cs w) scope = Some rep)"
proof (induction cs arbitrary: w)
  case Nil
  show ?case by (intro exI [of _ "[]"]) simp
next
  case (Cons c cs)
  obtain out w1 where one: "execute authorize digest sink reg (fst c) (snd c) w = (out, w1)" by force
  from execute_step [OF this] obtain rs cs1 where
    1: "call_trace reg (fst c) rs cs1 out" "world_step w rs cs1 w1"
      "\<forall>scope rep. replays w scope = Some rep \<longrightarrow> replays w1 scope = Some rep" by auto
  from Cons.IH [of w1] obtain rs' cs2 where
    2: "world_step w1 rs' cs2 (execute_all authorize digest sink reg cs w1)" "length cs2 \<le> length (filter allows rs')"
      "\<forall>scope rep. replays w1 scope = Some rep \<longrightarrow> replays (execute_all authorize digest sink reg cs w1) scope = Some rep"
    by auto
  from 1(3) 2(3) 2(2) call_trace_paid [OF 1(1)] world_step_trans [OF 1(2) 2(1)] one show ?case
    by (intro exI [of _ "rs @ rs'"] exI [of _ "cs1 @ cs2"]) simp
qed

text \<open>A keyed call that succeeded freshly leaves its result in the replay table.\<close>

lemma execute_remembers:
  assumes "execute authorize digest sink reg r env w = (Inr res, w')"
    and "prepare_execution reg r = Inr (m, resource)" "sideEffecting m" "usable_key r = Inr key"
  shows "\<exists>rep. replays w' (replay_scope r key) = Some rep \<and> rep_output rep = res_output res \<and>
    rep_attempts rep = res_attempts res \<and> rep_inputHash rep = stable_hash digest (JObj (ex_input r))"
proof -
  define scope where "scope = replay_scope r key"
  from assms have keyed: "execute_keyed authorize digest sink m r resource env scope w = (Inr res, w')"
    by (simp add: execute_def scope_def)
  show ?thesis
  proof (cases "replays w scope")
    case (Some rep)
    with keyed have "replay_result digest sink m r resource env rep w = (Inr res, w')" by (simp add: execute_keyed_def)
    from replay_result_step [OF this] show ?thesis using Some by (auto simp: scope_def split: if_splits)
  next
    case None
    obtain out1 w1 where fresh: "execute_fresh authorize digest sink m r resource env w = (out1, w1)" by force
    with keyed None show ?thesis by (cases out1) (auto simp: execute_keyed_def scope_def)
  qed
qed

lemma execute_replays:
  assumes "execute authorize digest sink reg r env w = (out, w')"
    and "prepare_execution reg r = Inr (m, resource)" "sideEffecting m" "usable_key r = Inr key"
    and "replays w (replay_scope r key) = Some rep"
  shows "handler_calls w' = handler_calls w \<and> policy w' = policy w \<and>
    out = (if rep_inputHash rep = stable_hash digest (JObj (ex_input r))
           then Inr \<lparr>res_attempts = rep_attempts rep, res_output = rep_output rep, res_replayed = True\<rparr>
           else Inl (ToolRuntimeError conflict ''Idempotency key was reused with different tool input.'' False))"
proof -
  from assms have "replay_result digest sink m r resource env rep w = (out, w')"
    by (simp add: execute_def execute_keyed_def)
  from replay_result_step [OF this] show ?thesis by (auto split: if_splits)
qed

text \<open>Once a key has a result, no later history makes its handler run again.\<close>

lemma replayed_forever:
  assumes "execute authorize digest sink reg r env w = (Inr res, w1)"
    and "prepare_execution reg r = Inr (m, resource)" "sideEffecting m" "usable_key r = Inr key"
    and "execute authorize digest sink reg r' env' (execute_all authorize digest sink reg cs w1) = (out, w')"
    and "prepare_execution reg r' = Inr (m', resource')" "sideEffecting m'" "usable_key r' = Inr key'"
    and "replay_scope r' key' = replay_scope r key"
  shows "handler_calls w' = handler_calls (execute_all authorize digest sink reg cs w1) \<and>
    out = (if stable_hash digest (JObj (ex_input r)) = stable_hash digest (JObj (ex_input r'))
           then Inr \<lparr>res_attempts = res_attempts res, res_output = res_output res, res_replayed = True\<rparr>
           else Inl (ToolRuntimeError conflict ''Idempotency key was reused with different tool input.'' False))"
proof -
  from execute_remembers [OF assms(1-4)] obtain rep where
    rep: "replays w1 (replay_scope r key) = Some rep" "rep_output rep = res_output res"
      "rep_attempts rep = res_attempts res" "rep_inputHash rep = stable_hash digest (JObj (ex_input r))" by auto
  with execute_all_step [of w1 digest reg cs] assms(9)
  have "replays (execute_all authorize digest sink reg cs w1) (replay_scope r' key') = Some rep" by auto
  from execute_replays [OF assms(5-8) this] rep(2-) show ?thesis by simp
qed

text \<open>Handler calls are paid: never more than the grants allow in total.\<close>

lemma grants_pay:
  assumes "policy_inv (policy w)" and "world_step w rs cs w'" and "limit (policy w) g = Some n"
  shows "used (policy w) g + charged_records g rs \<le> n"
  using assms within [of "policy w'" g n] by (auto simp: world_step_def)

end

interpretation memory_tools: tool_execution "authorize_and_consume dp lc" policy_ok calls_used grant_limit memory_sink id
  by unfold_locales

end
