(* ===== verification/ToolProperties.thy ===== *)
theory ToolProperties
  imports ToolExecution
begin

text \<open>
  The properties of the tool runtime: the theorems a reader of \<open>src/tools/\<close> would ask for, each with a
  concrete instance where it has hypotheses. The instance is a registry with one side-effecting
  tool, a policy with one grant of two calls, and an environment in which the handler answers.
\<close>

section \<open>A concrete runtime\<close>

definition day :: "string \<Rightarrow> int option" where
  "day t = (case t of [c] \<Rightarrow> Some (int (of_char c)) | _ \<Rightarrow> None)"

definition deploy_schema :: "(string \<times> json) list" where
  "deploy_schema = [(''type'', JStr ''object''), (''additionalProperties'', JBool False),
     (''properties'', JObj [(''env'', JObj [(''type'', JStr ''string'')])]), (''required'', JArr [JStr ''env''])]"

definition deploy_manifest :: tool_manifest where
  "deploy_manifest = \<lparr>manifest_name = ''deploy'', manifest_version = ''1'', manifest_summary = ''s'',
     description = ''d'', riskClass = Low, operation = OpWrite, sideEffecting = True, inputSchema = deploy_schema,
     retryPolicy = \<lparr>maxAttempts = 1, timeoutMs = 10, retryableCategories = []\<rparr>,
     provenance = \<lparr>reference = ''r'', observedAt = ''1''\<rparr>, trustClass = Builtin\<rparr>"

definition deploy_registration :: tool_registration where
  "deploy_registration = \<lparr>manifest = deploy_manifest, resourceFromInput = (\<lambda>_. Resource ''src/a'')\<rparr>"

definition deploy_registry :: registry where
  "deploy_registry = [(''deploy@1'', deploy_registration)]"

definition deploy_grant :: capability_grant where
  "deploy_grant = \<lparr>grantId = ''g'', grant_missionId = ''m'', grant_taskId = ''t'', grant_tool = ''deploy'',
     grant_operation = OpWrite, resourcePrefix = ''src'', maxCalls = 2, grant_expiresAt = ''9''\<rparr>"

definition deploy_policy :: policy_state where
  "deploy_policy = \<lparr>grants = [deploy_grant], usedCalls = [''g'' \<mapsto> 0]\<rparr>"

definition deploy_request :: tool_execution_request where
  "deploy_request = \<lparr>ex_missionId = ''m'', ex_taskId = ''t'', ex_tool = ''deploy'', ex_version = ''1'',
     ex_input = [(''env'', JStr ''prod'')], ex_idempotencyKey = Some ''k'', ex_approval = None\<rparr>"

definition deploy_env :: "nat \<Rightarrow> attempt_env" where
  "deploy_env n = \<lparr>env_startedAt = ''5'', env_finishedAt = ''6'', env_aborted = False, env_aborted_at_start = False,
     env_events = [Resolves (JBool True), Aborts]\<rparr>"

definition plain_digest :: "json \<Rightarrow> string" where
  "plain_digest j = (case j of JObj _ \<Rightarrow> ''object'' | _ \<Rightarrow> ''other'')"

definition deploy_world :: "(policy_state, tool_audit_record list) tool_world" where
  "deploy_world = \<lparr>policy = deploy_policy, audit = [], replays = Map.empty, handler_calls = []\<rparr>"

lemmas deploy_defs = day_def deploy_manifest_def deploy_registration_def deploy_registry_def
  deploy_grant_def deploy_policy_def deploy_request_def deploy_env_def deploy_world_def

abbreviation run_deploy :: "(policy_state, tool_audit_record list) tool_world
    \<Rightarrow> (tool_exception, tool_execution_result) result \<times> (policy_state, tool_audit_record list) tool_world" where
  "run_deploy \<equiv> execute (authorize_and_consume day code_unit_compare) plain_digest memory_sink deploy_registry deploy_request deploy_env"

lemma deploy_registry_ok: "register_tool day [] deploy_registration = Inr deploy_registry"
proof -
  have "(case register_tool day [] deploy_registration of Inl _ \<Rightarrow> False | Inr reg \<Rightarrow> map fst reg = [''deploy@1''] \<and> length reg = 1)"
    by code_simp
  then obtain reg where reg: "register_tool day [] deploy_registration = Inr reg" by (auto split: sum.splits)
  then show ?thesis
    by (auto simp: register_tool_def Let_def result_simps deploy_registry_def deploy_registration_def deploy_manifest_def
        tool_key_def split: if_splits)
qed

lemma deploy_succeeds: "(case run_deploy deploy_world of (Inl _, w) \<Rightarrow> False
    | (Inr res, w) \<Rightarrow> res_output res = JBool True \<and> res_attempts res = 1 \<and> \<not> res_replayed res \<and>
        length (handler_calls w) = 1 \<and> length (audit w) = 1)"
  by code_simp

section \<open>Execution\<close>

text \<open>C29. Audit: one \<open>execute\<close> call appends audit records and nothing else to the log. They are numbered from
  attempt 1 without gaps (or are the single record 0 of a replay), there are no more of them than the
  manifest allows attempts, every handler call has its own record of an authorised attempt, and a
  fresh success is the last record and reports its number of attempts.\<close>

theorem execution_is_audited:
  assumes "execute (authorize_and_consume dp lc) digest memory_sink reg r env w = (out, w')"
    and "prepare_execution reg r = Inr (m, resource)"
  shows "\<exists>rs cs. audit w' = audit w @ rs \<and> handler_calls w' = handler_calls w @ cs \<and>
    length cs \<le> length (filter (\<lambda>a. aud_policyDecision a = Decided ALLOW) rs) \<and>
    (map aud_attempt rs = [0] \<or> map aud_attempt rs = [1..<Suc (length rs)]) \<and>
    length rs \<le> max 1 (nat (maxAttempts (retryPolicy m))) \<and>
    (\<forall>res. out = Inr res \<and> \<not> res_replayed res \<longrightarrow>
       rs \<noteq> [] \<and> aud_resultClass (last rs) = class_success \<and> res_attempts res = length rs)"
proof -
  from memory_tools.execute_step [OF assms(1)] obtain rs cs where
    trace: "call_trace reg r rs cs out" and world: "audit w' = audit w @ rs" "handler_calls w' = handler_calls w @ cs"
    by (auto simp: memory_tools.world_step_def)
  have fresh: "map aud_attempt rs = [1..<Suc (length rs)] \<and> length rs \<le> nat (maxAttempts (retryPolicy m)) \<and>
      (\<forall>res. out = Inr res \<longrightarrow> rs \<noteq> [] \<and> aud_resultClass (last rs) = class_success \<and> res_attempts res = length rs)"
    if loop: "loop_trace (nat (maxAttempts (retryPolicy m))) 1 rs cs out"
  proof -
    have "res_attempts res = length rs" if "out = Inr res" for res
    proof -
      from loop that have ne: "rs \<noteq> []" and "res_attempts res = aud_attempt (last rs)" by (simp_all add: loop_trace_def)
      then have "res_attempts res = last (map aud_attempt rs)" by (simp add: last_map)
      moreover have "last [1..<1 + length rs] = length rs" using ne by (cases "length rs") simp_all
      ultimately show ?thesis using loop by (simp add: loop_trace_def del: upt_Suc)
    qed
    with loop show ?thesis by (auto simp: loop_trace_def)
  qed
  have paid: "length cs \<le> length (filter (\<lambda>a. aud_policyDecision a = Decided ALLOW) rs)"
    using call_trace_paid [OF trace] by (simp add: allows_eq)
  from trace assms(2) consider "rs = []" "\<exists>e. out = Inl e"
    | b where "rs = [b]" "aud_attempt b = 0" "\<forall>res. out = Inr res \<longrightarrow> res_replayed res"
    | "loop_trace (nat (maxAttempts (retryPolicy m))) 1 rs cs out" by (auto simp: call_trace_def)
  then show ?thesis
  proof cases
    case 3
    with fresh paid world show ?thesis by (intro exI [of _ rs] exI [of _ cs]) auto
  qed (use paid world in \<open>intro exI [of _ rs] exI [of _ cs]; auto\<close>)+
qed

definition deploy_done :: "(policy_state, tool_audit_record list) tool_world" where
  "deploy_done = snd (run_deploy deploy_world)"

definition deploy_result :: tool_execution_result where
  "deploy_result = \<lparr>res_attempts = 1, res_output = JBool True, res_replayed = False\<rparr>"

lemma deploy_runs: "run_deploy deploy_world = (Inr deploy_result, deploy_done)"
proof -
  have "(case run_deploy deploy_world of (Inl _, w) \<Rightarrow> False | (Inr res, w) \<Rightarrow> res = deploy_result)" by code_simp
  then show ?thesis by (cases "run_deploy deploy_world") (auto simp: deploy_done_def split: sum.splits)
qed

lemma deploy_prepared: "prepare_execution deploy_registry deploy_request = Inr (deploy_manifest, ''src/a'')"
  by code_simp

lemma execution_is_audited_witness:
  "\<exists>rs. audit deploy_done = rs \<and> length rs \<le> 1 \<and> length (handler_calls deploy_done) \<le> length rs"
proof -
  have start: "audit deploy_world = []" "handler_calls deploy_world = []"
    "max 1 (nat (maxAttempts (retryPolicy deploy_manifest))) = 1"
    by (simp_all add: deploy_world_def deploy_manifest_def)
  from execution_is_audited [OF deploy_runs deploy_prepared] show ?thesis
    unfolding start append_Nil
    by (elim exE conjE) (rule exI, intro conjI, assumption, assumption, metis length_filter_le order_trans)
qed

text \<open>C30. Exactly-once results: after a side-effecting call succeeded under an idempotency key, and after any
  later sequence of calls, the same key never runs a handler again: with the same input (by hash) it
  returns the stored result, with other input it is refused as a conflict.\<close>

theorem successful_call_never_reruns:
  assumes "execute (authorize_and_consume dp lc) digest memory_sink reg r env w = (Inr res, w1)"
    and "prepare_execution reg r = Inr (m, resource)" "sideEffecting m" "usable_key r = Inr key"
    and "execute (authorize_and_consume dp lc) digest memory_sink reg r' env'
           (execute_all (authorize_and_consume dp lc) digest memory_sink reg calls w1) = (out, w')"
    and "prepare_execution reg r' = Inr (m', resource')" "sideEffecting m'" "usable_key r' = Inr key'"
    and "replay_scope r' key' = replay_scope r key"
  shows "handler_calls w' = handler_calls (execute_all (authorize_and_consume dp lc) digest memory_sink reg calls w1) \<and>
    out = (if digest (canonicalize (JObj (ex_input r))) = digest (canonicalize (JObj (ex_input r')))
           then Inr \<lparr>res_attempts = res_attempts res, res_output = res_output res, res_replayed = True\<rparr>
           else Inl (ToolRuntimeError conflict ''Idempotency key was reused with different tool input.'' False))"
  using memory_tools.replayed_forever [OF assms] by (simp add: stable_hash_def)

lemma successful_call_never_reruns_witness:
  "fst (run_deploy deploy_done) = Inr \<lparr>res_attempts = 1, res_output = JBool True, res_replayed = True\<rparr> \<and>
   handler_calls (snd (run_deploy deploy_done)) = handler_calls deploy_done"
proof -
  have key: "usable_key deploy_request = Inr ''k''" by code_simp
  have side: "sideEffecting deploy_manifest" by (simp add: deploy_manifest_def)
  obtain out w' where again: "run_deploy deploy_done = (out, w')" by force
  then have "run_deploy (execute_all (authorize_and_consume day code_unit_compare) plain_digest memory_sink deploy_registry [] deploy_done)
      = (out, w')" by simp
  from successful_call_never_reruns [OF deploy_runs deploy_prepared side key this deploy_prepared side key refl] again
  show ?thesis by (simp add: deploy_result_def)
qed

text \<open>Grants: over any sequence of calls, the authorised attempts charged to a grant never exceed the
  calls it was registered with, and no more handlers run than attempts were authorised.\<close>

theorem handler_calls_are_granted:
  assumes "policy_ok (policy w)" and "audit w = []" and "handler_calls w = []" and "calls_used (policy w) g = 0"
    and "grant_limit (policy w) g = Some n" and "w' = execute_all (authorize_and_consume dp lc) digest memory_sink reg calls w"
  shows "int (length (filter (\<lambda>a. aud_policyDecision a = Decided ALLOW \<and> aud_grantId a = Some g) (audit w'))) \<le> n \<and>
    length (handler_calls w') \<le> length (filter (\<lambda>a. aud_policyDecision a = Decided ALLOW) (audit w'))"
proof -
  from memory_tools.execute_all_step [of w dp lc digest reg calls] obtain rs cs where
    step: "memory_tools.world_step w rs cs w'" "length cs \<le> length (filter allows rs)"
    unfolding assms(6) by blast
  then have "audit w' = rs" "handler_calls w' = cs" using assms(2,3) by (simp_all add: memory_tools.world_step_def)
  with step(2) memory_tools.grants_pay [OF assms(1) step(1) assms(5)] assms(4) show ?thesis
    by (simp add: charged_records_def allows_eq)
qed

lemma handler_calls_are_granted_witness:
  "int (length (filter (\<lambda>a. aud_policyDecision a = Decided ALLOW \<and> aud_grantId a = Some ''g'') (audit deploy_done))) \<le> 2"
proof -
  have start: "policy_ok (policy deploy_world)" "calls_used (policy deploy_world) ''g'' = 0"
    "grant_limit (policy deploy_world) ''g'' = Some 2"
    by (simp_all add: deploy_world_def deploy_policy_def deploy_grant_def policy_ok_def calls_used_def grant_limit_def)
  have "deploy_done = execute_all (authorize_and_consume day code_unit_compare) plain_digest memory_sink deploy_registry
      [(deploy_request, deploy_env)] deploy_world" by (simp add: deploy_done_def)
  from handler_calls_are_granted [OF start(1) _ _ start(2,3) this] show ?thesis by (simp add: deploy_world_def)
qed

text \<open>Registration: a tool resolved by name and version is the one registered under exactly that name
  and version, its manifest passed every check, and if it has side effects it is single-attempt.\<close>

theorem resolved_tool_is_registered:
  assumes "register_tools dp [] rs = Inr reg" and "resolve_registration reg n v = Inr r"
  shows "manifest_name (manifest r) = n \<and> manifest_version (manifest r) = v \<and>
    validate_manifest dp (manifest r) = Inr () \<and>
    (sideEffecting (manifest r) \<longrightarrow> maxAttempts (retryPolicy (manifest r)) = 1)"
proof -
  have ok: "registry_ok dp reg" using register_tools_ok [OF registry_ok_Nil assms(1)] .
  from resolved_exact [OF ok assms(2)] resolved_valid(1) [OF ok assms(2)] show ?thesis
    by (simp add: validate_manifest_Inr) (simp add: manifest_valid_def)
qed

lemma resolved_tool_is_registered_witness:
  "manifest_name (manifest deploy_registration) = ''deploy'' \<and> validate_manifest day (manifest deploy_registration) = Inr ()"
proof -
  have reg: "register_tools day [] [deploy_registration] = Inr deploy_registry" using deploy_registry_ok by simp
  have "resolve_registration deploy_registry ''deploy'' ''1'' = Inr deploy_registration"
    by (simp add: resolve_registration_def deploy_registry_def tool_key_def)
  from resolved_tool_is_registered [OF reg this] show ?thesis by blast
qed

text \<open>The handler's race: the first event settles the call. Later answers, aborts and the timer
  change nothing; without any event the call times out, and an already aborted call never starts the
  handler.\<close>

lemma first_event_settles:
  "run_handler_with_timeout e =
     (if env_aborted_at_start e then (Inl (ToolRuntimeError cancelled ''Tool execution was cancelled.'' False), False)
      else (case env_events e of
          [] \<Rightarrow> Inl (ToolRuntimeError timeout ''Tool execution timed out.'' True)
        | Resolves out # _ \<Rightarrow> Inr out
        | Rejects err # _ \<Rightarrow> Inl err
        | Aborts # _ \<Rightarrow> Inl (ToolRuntimeError cancelled ''Tool execution was cancelled.'' False), True))"
  by (simp add: first_event_wins cancelled_error_def timeout_error_def split: list.split handler_event.split)

section \<open>Capability grants\<close>

text \<open>An allowed request is covered: there is a registered grant for exactly this mission, task, tool and
  operation whose prefix covers the resource, which has not expired and has calls left, and one of
  its calls is consumed; a high-risk request also carries unexpired approval evidence for exactly this
  mission, task and tool. A request that is not allowed consumes nothing.\<close>

theorem allowed_request_is_covered:
  assumes "authorize_and_consume dp lc p r = Inr (a, p')"
  shows "(decision a \<noteq> ALLOW \<longrightarrow> p' = p) \<and>
    (decision a = ALLOW \<longrightarrow>
      (\<exists>g \<in> set (grants p). auth_grantId a = Some (grantId g) \<and> grant_missionId g = req_missionId r \<and>
         grant_taskId g = req_taskId r \<and> grant_tool g = req_tool r \<and> grant_operation g = req_operation r \<and>
         resource_matches (resourcePrefix g) (req_resource r) \<and> later_than dp (grant_expiresAt g) (req_now r) \<and>
         calls_used p (grantId g) < maxCalls g \<and> calls_used p' (grantId g) = calls_used p (grantId g) + 1) \<and>
      (req_riskClass r = High \<longrightarrow> (\<exists>e. req_approval r = Some e \<and> approval_missionId e = req_missionId r \<and>
         approval_taskId e = req_taskId r \<and> approval_tool e = req_tool r \<and>
         later_than dp (approval_expiresAt e) (req_now r))))"
  using assms
proof (cases rule: authorize_cases)
  case (allow g)
  have "\<exists>e. req_approval r = Some e \<and> approval_missionId e = req_missionId r \<and> approval_taskId e = req_taskId r \<and>
      approval_tool e = req_tool r \<and> later_than dp (approval_expiresAt e) (req_now r)" if "req_riskClass r = High"
    using allow(4) [OF that] by (auto simp: approval_matches_def split: option.splits if_splits)
  moreover have "g \<in> set (grants p) \<and> in_scope r g \<and> later_than dp (grant_expiresAt g) (req_now r) \<and>
      calls_used p (grantId g) < maxCalls g" by (rule usable_grant_Some [OF allow(3)])
  ultimately show ?thesis using allow(1,2,5) by (auto simp: in_scope_def)
qed simp

definition deploy_policy_request :: tool_policy_request where
  "deploy_policy_request = policy_request deploy_manifest deploy_request ''src/a'' ''5''"

lemma allowed_request_is_covered_witness:
  "\<exists>a p'. authorize_and_consume day code_unit_compare deploy_policy deploy_policy_request = Inr (a, p') \<and>
     decision a = ALLOW \<and> calls_used p' ''g'' = 1"
proof -
  have "(case authorize_and_consume day code_unit_compare deploy_policy deploy_policy_request of Inl _ \<Rightarrow> False
      | Inr (a, p') \<Rightarrow> decision a = ALLOW)" by code_simp
  then obtain a p' where auth: "authorize_and_consume day code_unit_compare deploy_policy deploy_policy_request = Inr (a, p')"
    and allow: "decision a = ALLOW" by (auto split: sum.splits)
  from allowed_request_is_covered [OF auth] allow have "calls_used p' ''g'' = calls_used deploy_policy ''g'' + 1"
    by (auto simp: deploy_policy_def deploy_grant_def)
  with auth allow show ?thesis by (simp add: deploy_policy_def calls_used_def)
qed

primrec authorize_all :: "(string \<Rightarrow> int option) \<Rightarrow> (string \<Rightarrow> string \<Rightarrow> int) \<Rightarrow> policy_state \<Rightarrow> tool_policy_request list
    \<Rightarrow> (tool_exception, policy_authorization list \<times> policy_state) result" where
  "authorize_all dp lc p [] = Inr ([], p)"
| "authorize_all dp lc p (r # rs) =
     and_then (authorize_and_consume dp lc p r) (\<lambda>(a, p'). and_then (authorize_all dp lc p' rs) (\<lambda>(as, p''). Inr (a # as, p'')))"

lemma authorize_all_run: "memory_policy.run_requests dp lc p rs = authorize_all dp lc p rs"
  by (induction rs arbitrary: p) (simp_all cong: and_then_cong)

text \<open>Overspending: in any sequence of requests to a policy built by registration, no grant is charged
  for more calls than it was registered with.\<close>

lemma grants_never_overspent:
  assumes "register_all dp new_policy gs = Inr p" and "authorize_all dp lc p rs = Inr (as, p')"
    and "grant_limit p g = Some n" and "calls_used p g = 0"
  shows "int (length (filter (\<lambda>a. decision a = ALLOW \<and> auth_grantId a = Some g) as)) \<le> n"
  using memory_policy.never_overspent [OF register_all_ok [OF new_policy_ok assms(1)] assms(2) [folded authorize_all_run] assms(3)] assms(4)
  by (simp add: memory_policy.charged_def)

lemma grants_never_overspent_witness:
  "\<exists>as p'. authorize_all day code_unit_compare deploy_policy (replicate 3 deploy_policy_request) = Inr (as, p') \<and>
     length as = 3 \<and> length (filter (\<lambda>a. decision a = ALLOW \<and> auth_grantId a = Some ''g'') as) \<le> 2"
proof -
  have "register_all day new_policy [deploy_grant] = Inr deploy_policy"
    by (simp add: new_policy_def register_grant_def validate_grant_def deploy_policy_def deploy_grant_def day_def js_simps ensure_def)
  moreover have "(case authorize_all day code_unit_compare deploy_policy (replicate 3 deploy_policy_request) of Inl _ \<Rightarrow> False
      | Inr (as, p') \<Rightarrow> length as = 3)" by code_simp
  from this obtain as p' where run: "authorize_all day code_unit_compare deploy_policy (replicate 3 deploy_policy_request) = Inr (as, p')"
    and three: "length as = 3" by (auto split: sum.splits)
  note run
  moreover have "grant_limit deploy_policy ''g'' = Some 2" "calls_used deploy_policy ''g'' = 0"
    by (simp_all add: grant_limit_def calls_used_def deploy_policy_def deploy_grant_def)
  ultimately have "int (length (filter (\<lambda>a. decision a = ALLOW \<and> auth_grantId a = Some ''g'') as)) \<le> 2"
    using grants_never_overspent by blast
  with run three show ?thesis by (intro exI [of _ as] exI [of _ p']) simp
qed

text \<open>Prefixes end at path segments: a grant for a plain prefix covers the prefix itself and what lies
  below it after a slash, nothing else.\<close>

lemma prefix_ends_at_segment:
  assumes "pre \<noteq> ''*''" and "pre \<noteq> ''.''"
  shows "resource_matches pre resource \<longleftrightarrow>
    resource = pre \<or> (\<exists>rest. resource = (if pre \<noteq> [] \<and> last pre = CHR ''/'' then pre else pre @ ''/'') @ rest)"
proof -
  have starts: "starts_with s q \<longleftrightarrow> (\<exists>rest. s = q @ rest)" for s q
    by (metis append_eq_conv_conj append_take_drop_id starts_with_def)
  show ?thesis using assms unfolding resource_matches_def starts ends_with_slash_def by simp
qed

lemma prefix_ends_at_segment_witness:
  "resource_matches ''src'' ''src/a'' \<and> \<not> resource_matches ''src'' ''srcs/a''"
  using prefix_ends_at_segment [of "''src''" "''src/a''"] prefix_ends_at_segment [of "''src''" "''srcs/a''"] by simp

section \<open>Inputs\<close>

text \<open>Validation errors: against a schema the registry accepted, validating any input succeeds or throws
  a non-retryable \<open>invalid_input\<close> error; it never fails in another way.\<close>

lemma validation_fails_cleanly:
  assumes "assert_strict_tool_schema schema = Inr ()"
  shows "validate_tool_input schema input = Inr () \<or>
    (\<exists>message. validate_tool_input schema input = Inl (ToolRuntimeError invalid_input message False))"
proof -
  have "clean_failure (validate_tool_input schema input)"
    unfolding validate_tool_input_def using validate_value_clean strict_schema_Inr(1) [OF assms] by blast
  then show ?thesis by (auto simp: clean_failure_def split: sum.splits tool_exception.splits)
qed

lemma deploy_schema_strict: "assert_strict_tool_schema deploy_schema = Inr ()"
  by code_simp

lemma validation_fails_cleanly_witness:
  "\<exists>message. validate_tool_input deploy_schema [(''env'', JNum 1)] = Inl (ToolRuntimeError invalid_input message False)"
proof -
  have "(case validate_tool_input deploy_schema [(''env'', JNum 1)] of Inl _ \<Rightarrow> True | Inr _ \<Rightarrow> False)" by code_simp
  with validation_fails_cleanly [OF deploy_schema_strict, of "[(''env'', JNum 1)]"] show ?thesis by auto
qed

text \<open>Accepted inputs: if no property of the schema has the name of an \<open>Object.prototype\<close> member, an
  accepted input has exactly the schema's properties, except for an additional \<open>__proto__\<close> that is null.\<close>

theorem accepted_input_has_the_properties:
  assumes "assert_strict_tool_schema schema = Inr ()"
    and "own_property schema ''properties'' = Some (JObj properties)"
    and "set (js_keys properties) \<inter> set object_prototype_keys = {}"
    and "validate_tool_input schema input = Inr ()"
  shows "set (js_keys input) - {''__proto__''} = set (js_keys properties)"
  using accepted_keys(1) [OF assms] .

lemma accepted_input_has_the_properties_witness:
  "validate_tool_input deploy_schema [(''env'', JStr ''prod'')] = Inr () \<and>
   set (js_keys [(''env'', JStr ''prod'')]) - {''__proto__''} = {''env''}"
proof -
  have accepted: "validate_tool_input deploy_schema [(''env'', JStr ''prod'')] = Inr ()" by code_simp
  have props: "own_property deploy_schema ''properties'' = Some (JObj [(''env'', JObj [(''type'', JStr ''string'')])])" by code_simp
  have names: "set (js_keys [(''env'', JObj [(''type'', JStr ''string'')])]) \<inter> set object_prototype_keys = {}" by code_simp
  from accepted_input_has_the_properties [OF deploy_schema_strict props names accepted] accepted
  show ?thesis by (simp add: js_keys_def)
qed

definition inherited_schema :: "(string \<times> json) list" where
  "inherited_schema = [(''type'', JStr ''object''), (''additionalProperties'', JBool False),
     (''properties'', JObj [(''toString'', JObj [(''type'', JStr ''string'')])]), (''required'', JArr [JStr ''toString''])]"

text \<open>Inherited names defeat \<open>required\<close>: an object schema that requires the property \<open>toString\<close> accepts an
  input without it, because the check asks \<open>in\<close>, which finds the inherited method.\<close>

theorem inherited_name_satisfies_required:
  "assert_strict_tool_schema inherited_schema = Inr () \<and> validate_tool_input inherited_schema [] = Inr ()"
  by code_simp

text \<open>Input hashes: two inputs with the same properties in another order have the same hash, so the
  idempotency check does not depend on the order of keys.\<close>

lemma hash_ignores_key_order:
  assumes "mset props = mset props'" and "distinct (map fst props)"
  shows "stable_hash digest (JObj props) = stable_hash digest (JObj props')"
  unfolding stable_hash_def using canonicalize_reordered [OF assms] by (simp only:)

lemma hash_ignores_key_order_witness:
  "stable_hash plain_digest (JObj [(''b'', JNull), (''a'', JBool True)]) = stable_hash plain_digest (JObj [(''a'', JBool True), (''b'', JNull)])"
  by (rule hash_ignores_key_order) (simp_all add: add_mset_commute)

end
