(* ===== verification/IsoTime.thy ===== *)
theory IsoTime
  imports Prelude
begin

text \<open>
  Canonical timestamps (\<open>assertCanonicalTimestamp\<close>, \<open>compareTimestamp\<close> of \<open>src/durable/internal.ts\<close> and
  \<open>addMilliseconds\<close> of \<open>src/durable/store.ts\<close>). A text is canonical when parsing it and writing the
  instant with \<open>Date.prototype.toISOString\<close> gives the text back, so a canonical timestamp is its
  instant, an \<open>int\<close> of milliseconds since 1970 in the range of \<open>Date\<close>. JavaScript compares
  instants; SQLite compares the texts. \<open>text_le_iff\<close> shows that the two agree for the years 0 to 9999.
\<close>

section \<open>The calendar\<close>

definition leap_year :: "nat \<Rightarrow> bool" where
  "leap_year y \<longleftrightarrow> 4 dvd y \<and> (\<not> 100 dvd y \<or> 400 dvd y)"

definition year_length :: "nat \<Rightarrow> nat" where
  "year_length y = (if leap_year y then 366 else 365)"

definition month_lengths :: "nat \<Rightarrow> nat list" where
  "month_lengths y = [31, if leap_year y then 29 else 28, 31, 30, 31, 30, 31, 31, 30, 31, 30, 31]"

lemma year_length_pos [simp]: "0 < year_length y"
  by (simp add: year_length_def)

text \<open>The year and the day in it, counted from the first day of year \<open>y\<close>.\<close>

function year_of :: "nat \<Rightarrow> nat \<Rightarrow> nat \<times> nat" where
  "year_of y d = (if d < year_length y then (y, d) else year_of (Suc y) (d - year_length y))"
  by pat_completeness auto
termination
proof (relation "measure snd")
  fix y d :: nat
  assume "\<not> d < year_length y"
  then show "((Suc y, d - year_length y), y, d) \<in> measure snd"
    using year_length_pos [of y] by (simp del: year_length_pos)
qed simp

declare year_of.simps [simp del]

primrec month_of :: "nat list \<Rightarrow> nat \<Rightarrow> nat \<Rightarrow> nat \<times> nat" where
  "month_of [] m d = (m, d)"
| "month_of (l # ls) m d = (if d < l then (m, d) else month_of ls (Suc m) (d - l))"

text \<open>Day 719528 of the proleptic Gregorian calendar, counted from 0000-01-01, is 1970-01-01.\<close>

definition civil_year :: "int \<Rightarrow> int \<times> nat" where
  "civil_year days = (let z = days + 719528; (y, d) = year_of 0 (nat (z mod 146097)) in
     (400 * (z div 146097) + int y, d))"

definition civil_month :: "int \<Rightarrow> nat \<Rightarrow> nat \<times> nat" where
  "civil_month y d = month_of (month_lengths (nat (y mod 400))) 1 d"

section \<open>toISOString\<close>

primrec padded :: "nat \<Rightarrow> nat \<Rightarrow> string" where
  "padded 0 n = []"
| "padded (Suc w) n = padded w (n div 10) @ [char_of (48 + n mod 10)]"

definition year_text :: "int \<Rightarrow> string" where
  "year_text y = (if 0 \<le> y \<and> y \<le> 9999 then padded 4 (nat y)
     else (if y < 0 then CHR ''-'' else CHR ''+'') # padded 6 (nat \<bar>y\<bar>))"

definition date_text :: "int \<Rightarrow> string" where
  "date_text days = (let (y, d) = civil_year days; (m, dm) = civil_month y d in
     year_text y @ ''-'' @ padded 2 m @ ''-'' @ padded 2 (Suc dm))"

definition time_text :: "nat \<Rightarrow> string" where
  "time_text t = padded 2 (t div 1000 div 60 div 60) @ '':'' @ padded 2 (t div 1000 div 60 mod 60) @ '':''
     @ padded 2 (t div 1000 mod 60) @ ''.'' @ padded 3 (t mod 1000)"

definition iso_text :: "int \<Rightarrow> string" where
  "iso_text ms = date_text (ms div 86400000) @ ''T'' @ time_text (nat (ms mod 86400000)) @ ''Z''"

text \<open>The instants a \<open>Date\<close> can hold.\<close>

definition date_range :: "int \<Rightarrow> bool" where
  "date_range ms \<longleftrightarrow> - 8640000000000000 \<le> ms \<and> ms \<le> 8640000000000000"

definition compare_timestamp :: "int \<Rightarrow> int \<Rightarrow> int" where
  "compare_timestamp left right = left - right"

text \<open>\<open>a <= b\<close> between two timestamp columns.\<close>

definition text_le :: "int \<Rightarrow> int \<Rightarrow> bool" where
  "text_le a b \<longleftrightarrow> code_unit_compare (iso_text a) (iso_text b) \<le> 0"

text \<open>The instants of the years 0000 to 9999.\<close>

definition four_digit_year :: "int \<Rightarrow> bool" where
  "four_digit_year ms \<longleftrightarrow> - 62167219200000 \<le> ms \<and> ms < 253402300800000"

section \<open>Order of fixed-width texts\<close>

definition text_less :: "string \<Rightarrow> string \<Rightarrow> bool" where
  "text_less a b \<longleftrightarrow> code_unit_compare a b < 0"

lemma text_less_append:
  "length a = length a' \<Longrightarrow> text_less (a @ b) (a' @ b') \<longleftrightarrow> text_less a a' \<or> (a = a' \<and> text_less b b')"
  unfolding text_less_def by (induction a a' rule: list_induct2) auto

lemma text_less_Cons: "text_less (c # b) (c # b') \<longleftrightarrow> text_less b b'"
  by (simp add: text_less_def)

lemma length_padded [simp]: "length (padded w n) = w"
  by (induction w arbitrary: n) auto

lemma div_mod_less:
  fixes a b k :: nat
  shows "a < b \<Longrightarrow> 0 < k \<Longrightarrow> a div k < b div k \<or> (a div k = b div k \<and> a mod k < b mod k)"
proof -
  assume "a < b" "0 < k"
  moreover have "a div k \<le> b div k" using \<open>a < b\<close> by (simp add: div_le_mono)
  moreover have "a = k * (a div k) + a mod k" "b = k * (b div k) + b mod k" by simp_all
  ultimately show ?thesis by (metis add_less_cancel_left le_neq_implies_less)
qed

lemma digit_less: "m < 10 \<Longrightarrow> n < 10 \<Longrightarrow> text_less [char_of (48 + m :: nat)] [char_of (48 + n :: nat)] \<longleftrightarrow> m < n"
  by (simp add: text_less_def)

lemma padded_less: "n < n' \<Longrightarrow> n' < 10 ^ w \<Longrightarrow> text_less (padded w n) (padded w n')"
proof (induction w arbitrary: n n')
  case (Suc w)
  have "n div 10 < n' div 10 \<or> n div 10 = n' div 10 \<and> n mod 10 < n' mod 10"
    by (rule div_mod_less [OF Suc.prems(1)]) simp
  then show ?case
  proof (elim disjE conjE)
    assume "n div 10 < n' div 10"
    moreover have "n' div 10 < 10 ^ w" using Suc.prems(2) by (simp add: less_mult_imp_div_less mult.commute)
    ultimately have "text_less (padded w (n div 10)) (padded w (n' div 10))" by (rule Suc.IH)
    then show ?case by (simp add: text_less_append)
  next
    assume "n div 10 = n' div 10" "n mod 10 < n' mod 10"
    then show ?case by (simp add: text_less_append digit_less)
  qed
qed simp

lemma field_less:
  "h < h' \<or> (h = h' \<and> text_less b b') \<Longrightarrow> h' < 10 ^ w \<Longrightarrow> text_less (padded w h @ c # b) (padded w h' @ c # b')"
  using padded_less [of h h' w] by (auto simp: text_less_append text_less_Cons)

section \<open>Later instants have later texts\<close>

lemma split_less:
  assumes "q < q' \<or> (q = q' \<and> text_less b b')" and "0 < k" "k \<le> 10 ^ w"
  shows "q div k < q' div k \<or> (q div k = q' div k \<and>
    text_less (padded w (q mod k) @ c # b) (padded w (q' mod k) @ c # b'))"
proof -
  have "q' mod k < 10 ^ w" using assms(2,3) mod_less_divisor [of k q'] by linarith
  note field = field_less [OF _ this]
  from assms(1) show ?thesis
  proof
    assume "q < q'"
    from div_mod_less [OF this assms(2)] show ?thesis using field by blast
  next
    assume "q = q' \<and> text_less b b'"
    then show ?thesis using field by simp
  qed
qed

lemma time_less:
  assumes "t < t'" and "t' < 86400000"
  shows "text_less (time_text t @ ''Z'') (time_text t' @ ''Z'')"
proof -
  have hours: "t' div 1000 div 60 div 60 < 10 ^ 2" using assms(2) by simp
  have "t < t' \<or> (t = t' \<and> text_less [] [])" using assms(1) by simp
  note ms = split_less [OF this, of 1000 3 "CHR ''Z''"]
  note secs = split_less [OF ms, of 60 2 "CHR ''.''"]
  note mins = split_less [OF secs, of 60 2 "CHR '':''"]
  show ?thesis
    using field_less [OF mins hours, of "CHR '':''"] by (simp add: time_text_def)
qed

lemma year_of_less:
  "d < d' \<Longrightarrow> fst (year_of y d) < fst (year_of y d') \<or>
     (fst (year_of y d) = fst (year_of y d') \<and> snd (year_of y d) < snd (year_of y d'))"
proof (induction y d arbitrary: d' rule: year_of.induct)
  case (1 y d)
  have ge: "y \<le> fst (year_of y e)" for y e
    by (induction y e rule: year_of.induct) (subst year_of.simps, auto)
  show ?case
  proof (cases "d < year_length y")
    case True
    then have d: "year_of y d = (y, d)" by (simp add: year_of.simps [of y d])
    show ?thesis
    proof (cases "d' < year_length y")
      case True
      with d 1 show ?thesis by (simp add: year_of.simps [of y d'])
    next
      case False
      with d ge [of "Suc y" "d' - year_length y"] show ?thesis by (simp add: year_of.simps [of y d'])
    qed
  next
    case False
    with 1(2) have "\<not> d' < year_length y" "d - year_length y < d' - year_length y" by auto
    with False 1(1) [OF False, of "d' - year_length y"] show ?thesis
      by (simp add: year_of.simps [of y d] year_of.simps [of y d'])
  qed
qed

lemma year_of_bound:
  "d < sum_list (map year_length [y..<y + k]) \<Longrightarrow> fst (year_of y d) < y + k \<and> snd (year_of y d) < year_length (fst (year_of y d))"
proof (induction k arbitrary: y d)
  case (Suc k)
  have split: "[y..<y + Suc k] = y # [Suc y..<Suc y + k]" by (simp add: upt_conv_Cons)
  show ?case
  proof (cases "d < year_length y")
    case False
    with Suc.prems have "d - year_length y < sum_list (map year_length [Suc y..<Suc y + k])"
      unfolding split list.map sum_list.Cons by linarith
    from Suc.IH [OF this] False show ?thesis by (simp add: year_of.simps [of y d])
  qed (simp add: year_of.simps [of y d])
qed simp

lemma month_of_less:
  "d < d' \<Longrightarrow> fst (month_of ls m d) < fst (month_of ls m d') \<or>
     (fst (month_of ls m d) = fst (month_of ls m d') \<and> snd (month_of ls m d) < snd (month_of ls m d'))"
proof (induction ls arbitrary: m d d')
  case (Cons l ls)
  have ge: "m \<le> fst (month_of ls m e)" for ls m e
    by (induction ls arbitrary: m e) (auto intro: Suc_leD)
  from Cons ge [of "Suc m" ls] show ?case by (auto simp: Suc_le_eq)
qed simp

lemma month_of_bound:
  "d < sum_list ls \<Longrightarrow> fst (month_of ls m d) < m + length ls \<and> snd (month_of ls m d) < Max (set ls)"
proof (induction ls arbitrary: m d)
  case (Cons l ls)
  show ?case
  proof (cases "d < l")
    case False
    with Cons.prems have "d - l < sum_list ls" by simp
    from Cons.IH [OF this, of "Suc m"] False this show ?thesis by (cases ls) auto
  qed (auto intro: order_less_le_trans [OF _ Max_ge])
qed simp

lemma ceiling_div:
  fixes n k :: nat
  assumes "0 < k"
  shows "(n + (k - 1)) div k = n div k + (if k dvd n then 0 else 1)"
proof (cases "k dvd n")
  case True
  then obtain q where "n = k * q" by (rule dvdE)
  moreover have "n + (k - 1) = (k - 1) + k * q" using calculation by simp
  ultimately show ?thesis using assms True by (simp del: diff_is_0_eq' add_diff_assoc add_diff_assoc2)
next
  case False
  then have r: "0 < n mod k" using assms by (simp add: mod_greater_zero_iff_not_dvd)
  have "n + (k - 1) = (n mod k - 1) + k * (n div k + 1)"
    using r assms mult_div_mod_eq [of k n] unfolding distrib_left by linarith
  then have "(n + (k - 1)) div k = n div k + 1 + (n mod k - 1) div k"
    using div_mult_self2 [of k "n mod k - 1" "n div k + 1"] assms by (simp only: neq0_conv)
  moreover have "n mod k - 1 < k" using assms mod_less_divisor [of k n] by linarith
  ultimately show ?thesis using False by simp
qed

lemma multiples_step:
  "(n + 4) div 4 = (n + 3) div 4 + (if 4 dvd n then 1 else 0)"
  "(n + 100) div 100 = (n + 99) div 100 + (if 100 dvd n then 1 else 0)"
  "(n + 400) div 400 = (n + 399) div 400 + (if 400 dvd n then 1 else (0 :: nat))"
  using ceiling_div [of 4 n] ceiling_div [of 100 n] ceiling_div [of 400 n] by simp_all

lemma days_before:
  "sum_list (map year_length [0..<n]) + (n + 99) div 100 = 365 * n + (n + 3) div 4 + (n + 399) div 400"
proof (induction n)
  case (Suc n)
  have "100 dvd (400 :: nat)" "4 dvd (100 :: nat)" by simp_all
  then have "400 dvd n \<Longrightarrow> 100 dvd n" "100 dvd n \<Longrightarrow> 4 dvd n" by (blast intro: dvd_trans)+
  moreover have "Suc n + 99 = n + 100" "Suc n + 3 = n + 4" "Suc n + 399 = n + 400" by simp_all
  moreover have "year_length n + (if 100 dvd n then 1 else 0) = 365 + (if 4 dvd n then 1 else 0) + (if 400 dvd n then 1 else 0)"
    using calculation(1,2) by (auto simp: year_length_def leap_year_def)
  ultimately show ?case using Suc.IH multiples_step [of n] by simp
qed simp

lemma cycle_days: "sum_list (map year_length [0..<400]) = 146097"
  using days_before [of 400] by simp

lemma int_div_range:
  fixes z k n :: int
  assumes "l * k \<le> z" and "z < n * k" and "0 < k"
  shows "l \<le> z div k" and "z div k < n"
proof -
  have z: "z = k * (z div k) + z mod k" "0 \<le> z mod k" "z mod k < k" using assms(3) by simp_all
  show "z div k < n"
  proof (rule ccontr)
    assume "\<not> z div k < n"
    then have "n * k \<le> z div k * k" using assms(3) by (intro mult_right_mono) simp_all
    with z assms(2) mult.commute [of "z div k" k] show False by linarith
  qed
  have "l * k div k \<le> z div k" using assms by (intro zdiv_mono1)
  with assms(3) show "l \<le> z div k" by simp
qed

lemma year_days: "sum_list (month_lengths y) = year_length y"
  by (simp add: month_lengths_def year_length_def)

lemma civil_year_bound:
  assumes "civil_year days = (y, d)"
  shows "d < year_length (nat (y mod 400))" and "y div 400 = (days + 719528) div 146097"
proof -
  let ?z = "days + 719528"
  have less: "nat (?z mod 146097) < 146097" by (simp add: nat_less_iff)
  obtain y0 d0 where yd: "year_of 0 (nat (?z mod 146097)) = (y0, d0)" by force
  with year_of_bound [of "nat (?z mod 146097)" 0 400] less have b: "y0 < 400" "d0 < year_length y0"
    by (simp_all only: cycle_days add_0 fst_conv snd_conv)
  from assms yd have y: "y = 400 * (?z div 146097) + int y0" "d = d0" by (auto simp: civil_year_def Let_def)
  from b(1) have "y mod 400 = int y0" "y div 400 = ?z div 146097" unfolding y(1) by simp_all
  with b y show "d < year_length (nat (y mod 400))" "y div 400 = ?z div 146097" by simp_all
qed

lemma civil_year_less:
  assumes "days < days'"
  shows "fst (civil_year days) < fst (civil_year days') \<or>
    (fst (civil_year days) = fst (civil_year days') \<and> snd (civil_year days) < snd (civil_year days'))"
proof -
  let ?z = "days + 719528" let ?z' = "days' + 719528"
  obtain y d y' d' where yd: "civil_year days = (y, d)" "civil_year days' = (y', d')" by force
  have "?z div 146097 \<le> ?z' div 146097" using assms by (intro zdiv_mono1) simp_all
  then consider "?z div 146097 < ?z' div 146097" | "?z div 146097 = ?z' div 146097" by linarith
  then show ?thesis
  proof cases
    case 1
    then have "y div 400 < y' div 400" using civil_year_bound(2) yd by metis
    then show ?thesis using yd by (metis fst_conv linorder_not_less zdiv_mono1 zero_less_numeral)
  next
    case 2
    have "?z mod 146097 < ?z' mod 146097"
      using 2 assms minus_mult_div_eq_mod [of ?z 146097] minus_mult_div_eq_mod [of ?z' 146097] by linarith
    then have "nat (?z mod 146097) < nat (?z' mod 146097)" by (simp add: nat_less_eq_zless)
    from year_of_less [OF this, of 0] 2 show ?thesis
      by (auto simp: civil_year_def Let_def split: prod.splits)
  qed
qed

lemma longest_month: "Max (set (month_lengths n)) = 31"
  by (simp add: month_lengths_def)

lemma months_in_year: "length (month_lengths n) = 12"
  by (simp add: month_lengths_def)

lemma civil_month_bound:
  "d < year_length (nat (y mod 400)) \<Longrightarrow> snd (civil_month y d) < 31 \<and> fst (civil_month y d) \<le> 12"
  using month_of_bound [of d "month_lengths (nat (y mod 400))" 1]
  unfolding civil_month_def year_days longest_month months_in_year by linarith

lemma four_digit_civil:
  assumes "civil_year days = (y, d)" and "- 719528 \<le> days" and "days < 2932897"
  shows "0 \<le> y \<and> y \<le> 9999"
proof -
  have "0 \<le> y div 400" "y div 400 < 25"
    using int_div_range [of 0 146097 "days + 719528" 25] assms(2,3)
    unfolding civil_year_bound(2) [OF assms(1)] by simp_all
  moreover have "y = 400 * (y div 400) + y mod 400" "0 \<le> y mod 400" "y mod 400 < 400" by simp_all
  ultimately show ?thesis by linarith
qed

lemma int_div_mod_less:
  fixes a b k :: int
  assumes "a < b" and "0 < k"
  shows "a div k < b div k \<or> (a div k = b div k \<and> a mod k < b mod k)"
  using assms zdiv_mono1 [of a b k] minus_mult_div_eq_mod [of a k] minus_mult_div_eq_mod [of b k]
  by (cases "a div k = b div k") auto

lemma nat_bounds: "0 \<le> x \<Longrightarrow> x < y \<Longrightarrow> y < numeral k \<Longrightarrow> nat x < nat y \<and> nat y < numeral k"
  by (simp add: nat_less_iff)

lemma date_less:
  assumes "days < days'" and "- 719528 \<le> days" and "days' < 2932897"
  shows "text_less (date_text days) (date_text days')"
proof -
  obtain y d y' d' where yd: "civil_year days = (y, d)" "civil_year days' = (y', d')" by force
  obtain m e m' e' where me: "civil_month y d = (m, e)" "civil_month y' d' = (m', e')" by force
  have years: "0 \<le> y" "0 \<le> y'" "y \<le> 9999" "y' \<le> 9999"
    using four_digit_civil [OF yd(1)] four_digit_civil [OF yd(2)] assms by simp_all
  have month: "snd (civil_month y d) < 31 \<and> fst (civil_month y d) \<le> 12" if "civil_year days = (y, d)" for days y d
    by (rule civil_month_bound [OF civil_year_bound(1) [OF that]])
  have written: "date_text days = padded 4 (nat y) @ CHR ''-'' # (padded 2 m @ CHR ''-'' # padded 2 (Suc e))"
      "date_text days' = padded 4 (nat y') @ CHR ''-'' # (padded 2 m' @ CHR ''-'' # padded 2 (Suc e'))"
    using yd me years by (simp_all add: date_text_def year_text_def)
  have small: "m' < 10 ^ 2" "Suc e' < 10 ^ 2" "nat y' < 10 ^ 4"
    using month [OF yd(2)] me years by simp_all
  have "m < m' \<or> (m = m' \<and> e < e')" if "y = y'" "d < d'"
    using month_of_less [OF that(2), of "month_lengths (nat (y mod 400))" 1] me that(1)
    by (simp add: civil_month_def)
  moreover have "text_less (padded 2 (Suc e)) (padded 2 (Suc e'))" if "e < e'"
    using that small(2) by (intro padded_less) simp_all
  ultimately have "m < m' \<or> (m = m' \<and> text_less (padded 2 (Suc e)) (padded 2 (Suc e')))" if "y = y'" "d < d'"
    using that by blast
  note rest = field_less [OF this small(1)]
  have "nat y < nat y' \<or> (nat y = nat y' \<and> y = y' \<and> d < d')"
    using civil_year_less [OF assms(1)] yd years by auto
  then show ?thesis unfolding written by (intro field_less [OF _ small(3)]) (auto dest: rest)
qed

lemma length_date_text:
  "- 719528 \<le> days \<Longrightarrow> days < 2932897 \<Longrightarrow> length (date_text days) = 10"
proof -
  assume "- 719528 \<le> days" "days < 2932897"
  moreover obtain y d where yd: "civil_year days = (y, d)" by force
  ultimately have "0 \<le> y" "y \<le> 9999" using four_digit_civil [OF yd] by simp_all
  with yd show ?thesis by (simp add: date_text_def year_text_def split: prod.split)
qed

lemma iso_text_less:
  assumes "a < b" and "four_digit_year a" and "four_digit_year b"
  shows "text_less (iso_text a) (iso_text b)"
proof -
  let ?da = "a div 86400000" let ?db = "b div 86400000"
  have range: "- 719528 \<le> ?da" "?da < 2932897" "- 719528 \<le> ?db" "?db < 2932897"
    using int_div_range [of "- 719528" 86400000 a 2932897] int_div_range [of "- 719528" 86400000 b 2932897] assms(2,3)
    unfolding four_digit_year_def by simp_all
  have len: "length (date_text ?da) = length (date_text ?db)"
    using range by (simp add: length_date_text)
  have "?da < ?db \<or> (?da = ?db \<and> a mod 86400000 < b mod 86400000)"
    by (rule int_div_mod_less [OF assms(1)]) simp
  then show ?thesis
  proof
    assume "?da < ?db"
    then have "text_less (date_text ?da) (date_text ?db)" using range by (intro date_less)
    then show ?thesis by (simp add: iso_text_def text_less_append [OF len])
  next
    assume day: "?da = ?db \<and> a mod 86400000 < b mod 86400000"
    have "0 \<le> a mod 86400000" "b mod 86400000 < 86400000" by simp_all
    from nat_bounds [OF this(1) conjunct2 [OF day] this(2)]
    have later: "text_less (time_text (nat (a mod 86400000)) @ ''Z'') (time_text (nat (b mod 86400000)) @ ''Z'')"
      by (intro time_less) (rule conjunct1, assumption, rule conjunct2, assumption)
    from day have "date_text ?da = date_text ?db" by (simp only:)
    with later show ?thesis
      unfolding iso_text_def by (simp only: text_less_append text_less_Cons append_Cons append_Nil simp_thms)
  qed
qed

lemma text_le_iff:
  assumes "four_digit_year a" and "four_digit_year b"
  shows "text_le a b \<longleftrightarrow> a \<le> b"
proof (cases a b rule: linorder_cases)
  case less
  then show ?thesis using iso_text_less [OF _ assms] by (simp add: text_le_def text_less_def)
next
  case greater
  then have "code_unit_compare (iso_text b) (iso_text a) < 0"
    using iso_text_less [OF _ assms(2,1)] by (simp add: text_less_def)
  then show ?thesis using greater code_unit_compare_sign [of "iso_text a" "iso_text b"] by (simp add: text_le_def)
next
  case equal
  show ?thesis unfolding text_le_def equal by (simp add: code_unit_compare_eq [THEN iffD2])
qed

end
