(* ===== verification/DurableInternal.thy ===== *)
theory DurableInternal
  imports IsoTime Json
begin

text \<open>
  What every durable operation shares (\<open>src/durable/internal.ts\<close>, \<open>src/durable/types.ts\<close>): the error
  classes, the bounds, and the checks of identifiers, reason codes, timestamps, integers and artifact
  references. A timestamp is its instant (theory \<open>IsoTime\<close>). \<open>hash_text\<close> is the SHA-256 of a text,
  \<open>digest\<close> the SHA-256 of the JSON text of a canonical value.
\<close>

datatype durable_error =
    InvalidArgument string
  | InvalidTime string
  | StoreError string
  | StoreConflict string
  | StoreCorruption string
  | LeaseRejected string
  | EventConflict string

type_synonym 'a durable = "(durable_error, 'a) result"

record durable_limits =
  maxEventBatch :: int
  maxMissionEvents :: int
  maxEventBytes :: int
  maxCheckpointBytes :: int
  maxJobs :: int
  maxJobEvents :: int
  maxJobEventPage :: int
  maxLeaseMs :: int
  maxRetryDelayMs :: int

definition default_limits :: durable_limits where
  "default_limits =
     \<lparr>maxEventBatch = 64, maxMissionEvents = 100000, maxEventBytes = 128000, maxCheckpointBytes = 512000,
      maxJobs = 10000, maxJobEvents = 100000, maxJobEventPage = 100, maxLeaseMs = 300000, maxRetryDelayMs = 3600000\<rparr>"

record artifact_reference =
  artifactId :: string
  sha256 :: string

section \<open>Failures\<close>

definition corrupt :: "string \<Rightarrow> 'a durable" where
  "corrupt message = Inl (StoreCorruption message)"

text \<open>A \<open>try\<close> around checks: any error they throw becomes a corruption with its message.\<close>

primrec error_message :: "durable_error \<Rightarrow> string" where
  "error_message (InvalidArgument m) = m"
| "error_message (InvalidTime m) = m"
| "error_message (StoreError m) = m"
| "error_message (StoreConflict m) = m"
| "error_message (StoreCorruption m) = m"
| "error_message (LeaseRejected m) = m"
| "error_message (EventConflict m) = m"

definition corrupt_if_failed :: "'a durable \<Rightarrow> 'a durable" where
  "corrupt_if_failed x = (case x of Inl e \<Rightarrow> corrupt (error_message e) | Inr y \<Rightarrow> Inr y)"

lemma corrupt_if_failed_Inr [result_simps]: "corrupt_if_failed x = Inr y \<longleftrightarrow> x = Inr y"
  by (cases x) (simp_all add: corrupt_if_failed_def corrupt_def)

section \<open>Checks\<close>

definition assert_durable_identifier :: "string \<Rightarrow> string \<Rightarrow> nat \<Rightarrow> unit durable" where
  "assert_durable_identifier v name maxLength =
     (if blank v \<or> maxLength < length v \<or> CHR 0x00 \<in> set v
      then Inl (InvalidArgument (name @ '' must be a bounded non-empty identifier.'')) else Inr ())"

definition reason_head :: "char \<Rightarrow> bool" where
  "reason_head c \<longleftrightarrow> 97 \<le> (of_char c :: nat) \<and> (of_char c :: nat) \<le> 122"

definition reason_tail :: "char \<Rightarrow> bool" where
  "reason_tail c \<longleftrightarrow> reason_head c \<or> digit_char c \<or> c = CHR ''_'' \<or> c = CHR ''.'' \<or> c = CHR ''-''"

text \<open>\<open>/^[a-z][a-z0-9_.-]{0,63}$/u\<close>.\<close>

definition reason_code_pattern :: "string \<Rightarrow> bool" where
  "reason_code_pattern s \<longleftrightarrow> s \<noteq> [] \<and> reason_head (hd s) \<and> list_all reason_tail (tl s) \<and> length (tl s) \<le> 63"

definition assert_reason_code :: "string \<Rightarrow> unit durable" where
  "assert_reason_code v =
     (if \<not> reason_code_pattern v then Inl (InvalidArgument ''reasonCode must be a stable lowercase identifier.'')
      else Inr ())"

definition assert_canonical_timestamp :: "int \<Rightarrow> string \<Rightarrow> unit durable" where
  "assert_canonical_timestamp ms name =
     (if \<not> date_range ms then Inl (InvalidArgument (name @ '' must be a canonical UTC ISO timestamp.'')) else Inr ())"

definition assert_safe_integer :: "int \<Rightarrow> string \<Rightarrow> int \<Rightarrow> int \<Rightarrow> unit durable" where
  "assert_safe_integer v name minimum maximum =
     (if \<not> safe_integer v \<or> v < minimum \<or> maximum < v
      then Inl (InvalidArgument (name @ '' must be a safe integer in its range.'')) else Inr ())"

definition assert_sha256 :: "string \<Rightarrow> string \<Rightarrow> unit durable" where
  "assert_sha256 v name =
     (if \<not> sha256_pattern v then Inl (InvalidArgument (name @ '' must be a lowercase SHA-256 hex digest.'')) else Inr ())"

definition assert_artifact_reference :: "artifact_reference \<Rightarrow> string \<Rightarrow> unit durable" where
  "assert_artifact_reference a name =
     and_then (assert_durable_identifier (artifactId a) (name @ ''.artifactId'') 500) (\<lambda>_.
     assert_sha256 (sha256 a) (name @ ''.sha256''))"

definition merge_limits :: "durable_limits \<Rightarrow> durable_limits durable" where
  "merge_limits l =
     and_then (for_each (\<lambda>nv. assert_safe_integer (snd nv) (''limits.'' @ fst nv) 1 max_safe_integer)
       [(''maxCheckpointBytes'', maxCheckpointBytes l), (''maxEventBatch'', maxEventBatch l),
        (''maxEventBytes'', maxEventBytes l), (''maxJobEventPage'', maxJobEventPage l),
        (''maxJobEvents'', maxJobEvents l), (''maxJobs'', maxJobs l), (''maxLeaseMs'', maxLeaseMs l),
        (''maxMissionEvents'', maxMissionEvents l), (''maxRetryDelayMs'', maxRetryDelayMs l)]) (\<lambda>_. Inr l)"

text \<open>\<open>addMilliseconds\<close>: the sum must be a safe integer, and \<open>toISOString\<close> throws outside the range of \<open>Date\<close>.\<close>

definition add_milliseconds :: "int \<Rightarrow> int \<Rightarrow> int durable" where
  "add_milliseconds timestamp milliseconds =
     (if \<not> safe_integer (timestamp + milliseconds)
      then Inl (InvalidArgument ''Timestamp arithmetic exceeded safe bounds.'')
      else if \<not> date_range (timestamp + milliseconds) then Inl (InvalidTime ''Invalid time value'')
      else Inr (timestamp + milliseconds))"

section \<open>Inversions\<close>

definition identifier_ok :: "string \<Rightarrow> nat \<Rightarrow> bool" where
  "identifier_ok v n \<longleftrightarrow> \<not> blank v \<and> length v \<le> n \<and> CHR 0x00 \<notin> set v"

definition artifact_ok :: "artifact_reference \<Rightarrow> bool" where
  "artifact_ok a \<longleftrightarrow> identifier_ok (artifactId a) 500 \<and> sha256_pattern (sha256 a)"

lemma assert_durable_identifier_Inr [result_simps]:
  "assert_durable_identifier v name n = Inr u \<longleftrightarrow> identifier_ok v n"
  by (auto simp: assert_durable_identifier_def identifier_ok_def)

lemma assert_reason_code_Inr [result_simps]: "assert_reason_code v = Inr u \<longleftrightarrow> reason_code_pattern v"
  by (simp add: assert_reason_code_def)

lemma assert_canonical_timestamp_Inr [result_simps]: "assert_canonical_timestamp ms name = Inr u \<longleftrightarrow> date_range ms"
  by (simp add: assert_canonical_timestamp_def)

lemma assert_safe_integer_Inr [result_simps]:
  "assert_safe_integer v name lo hi = Inr u \<longleftrightarrow> safe_integer v \<and> lo \<le> v \<and> v \<le> hi"
  by (auto simp: assert_safe_integer_def)

lemma assert_sha256_Inr [result_simps]: "assert_sha256 v name = Inr u \<longleftrightarrow> sha256_pattern v"
  by (simp add: assert_sha256_def)

lemma assert_artifact_reference_Inr [result_simps]: "assert_artifact_reference a name = Inr u \<longleftrightarrow> artifact_ok a"
  by (auto simp: assert_artifact_reference_def artifact_ok_def result_simps)

lemma add_milliseconds_Inr [result_simps]: "add_milliseconds t d = Inr x \<longleftrightarrow> x = t + d \<and> date_range x"
  by (auto simp: add_milliseconds_def date_range_def safe_integer_def max_safe_integer_def)

lemma reason_code_simps [simp]:
  "reason_code_pattern ''attempts_exhausted''" "reason_code_pattern ''cancellation_won''"
  "reason_code_pattern ''worker_cancelled''" "reason_code_pattern ''cancel_lease_expired''"
  "reason_code_pattern ''cancel_requested''" "reason_code_pattern ''lease_expired''"
  "reason_code_pattern ''handler_timeout''" "reason_code_pattern ''handler_error''"
  by (simp_all add: reason_code_pattern_def reason_head_def reason_tail_def)

end
