(* ===== verification/DurableJobs.thy ===== *)
theory DurableJobs
  imports DurableInternal
begin

text \<open>
  The durable job queue (\<open>SqliteDurableStore\<close> in \<open>src/durable/store.ts\<close>): the tables \<open>jobs\<close>,
  \<open>job_idempotency\<close> and \<open>job_events\<close> and every operation on them. An operation is one immediate
  transaction, so a failure leaves the tables as they were; it returns its value with the new
  tables. Rows are kept in insertion order; an \<open>ORDER BY\<close> is the stable sort of theory \<open>Prelude\<close>.
  Timestamps are instants, compared as texts where SQL compares them (\<open>text_le\<close>) and as instants
  where JavaScript does. The lease token a claim draws is its argument \<open>token\<close>.
\<close>

section \<open>Data\<close>

datatype job_status =
    JobPending | JobRunning | JobRetryWait | JobCancelling | JobCancelled | JobSucceeded | JobBlocked

datatype job_event_type =
    Enqueued | Claimed | Reclaimed | Heartbeat | RetryScheduled | Succeeded | Blocked | Cancelling | Cancelled

record job_enqueue_input =
  enq_idempotencyKey :: string
  enq_jobId :: string
  enq_missionId :: string
  enq_taskId :: string
  enq_priority :: int
  enq_maxAttempts :: int
  enq_availableAt :: int
  enq_createdAt :: int
  enq_payload :: artifact_reference

record durable_job =
  jobId :: string
  job_missionId :: string
  job_taskId :: string
  priority :: int
  status :: job_status
  maxAttempts :: int
  attemptCount :: int
  availableAt :: int
  payload :: artifact_reference
  leaseGeneration :: int
  leaseWorkerId :: "string option"
  leaseExpiresAt :: "int option"
  result :: "artifact_reference option"
  createdAt :: int
  updatedAt :: int

text \<open>A row has the columns of the record, and three more; the result is two columns.\<close>

record job_row =
  row_jobId :: string
  row_missionId :: string
  row_taskId :: string
  row_priority :: int
  row_status :: job_status
  row_maxAttempts :: int
  row_attemptCount :: int
  row_availableAt :: int
  row_payload :: artifact_reference
  row_leaseGeneration :: int
  row_leaseWorkerId :: "string option"
  row_leaseTokenHash :: "string option"
  row_leaseExpiresAt :: "int option"
  row_resultArtifactId :: "string option"
  row_resultSha256 :: "string option"
  row_createdAt :: int
  row_updatedAt :: int
  row_enqueueFingerprint :: string

record job_lease =
  lease_jobId :: string
  lease_missionId :: string
  lease_taskId :: string
  lease_workerId :: string
  lease_attempt :: int
  lease_generation :: int
  lease_token :: string
  lease_expiresAt :: int
  lease_payload :: artifact_reference

record job_event =
  event_cursor :: nat
  event_missionId :: string
  event_jobId :: string
  event_type :: job_event_type
  event_status :: job_status
  event_generation :: int
  event_occurredAt :: int
  event_reasonCode :: "string option"
  event_hash :: string

record job_store =
  jobs :: "job_row list"
  job_idempotency :: "string \<times> string \<rightharpoonup> string \<times> string"
  job_events :: "job_event list"

type_synonym 'a job_op = "(durable_error, 'a \<times> job_store) Prelude.result"

section \<open>Texts of the enumerations\<close>

primrec status_text :: "job_status \<Rightarrow> string" where
  "status_text JobPending = ''PENDING''"
| "status_text JobRunning = ''RUNNING''"
| "status_text JobRetryWait = ''RETRY_WAIT''"
| "status_text JobCancelling = ''CANCELLING''"
| "status_text JobCancelled = ''CANCELLED''"
| "status_text JobSucceeded = ''SUCCEEDED''"
| "status_text JobBlocked = ''BLOCKED''"

primrec event_type_text :: "job_event_type \<Rightarrow> string" where
  "event_type_text Enqueued = ''job.enqueued''"
| "event_type_text Claimed = ''job.claimed''"
| "event_type_text Reclaimed = ''job.reclaimed''"
| "event_type_text Heartbeat = ''job.heartbeat''"
| "event_type_text RetryScheduled = ''job.retry_scheduled''"
| "event_type_text Succeeded = ''job.succeeded''"
| "event_type_text Blocked = ''job.blocked''"
| "event_type_text Cancelling = ''job.cancelling''"
| "event_type_text Cancelled = ''job.cancelled''"

section \<open>Checks of inputs\<close>

definition artifact_json :: "artifact_reference \<Rightarrow> json" where
  "artifact_json a = JObj [(''artifactId'', JStr (artifactId a)), (''sha256'', JStr (sha256 a))]"

definition validate_enqueue_input :: "job_enqueue_input \<Rightarrow> unit durable" where
  "validate_enqueue_input i =
     and_then (assert_durable_identifier (enq_idempotencyKey i) ''job idempotencyKey'' 500) (\<lambda>_.
     and_then (assert_durable_identifier (enq_jobId i) ''jobId'' 200) (\<lambda>_.
     and_then (assert_durable_identifier (enq_missionId i) ''missionId'' 200) (\<lambda>_.
     and_then (assert_durable_identifier (enq_taskId i) ''taskId'' 200) (\<lambda>_.
     and_then (assert_safe_integer (enq_priority i) ''job priority'' 0 100) (\<lambda>_.
     and_then (assert_safe_integer (enq_maxAttempts i) ''job maxAttempts'' 1 100) (\<lambda>_.
     and_then (assert_canonical_timestamp (enq_availableAt i) ''job availableAt'') (\<lambda>_.
     and_then (assert_canonical_timestamp (enq_createdAt i) ''job createdAt'') (\<lambda>_.
     if enq_availableAt i < enq_createdAt i
     then Inl (InvalidArgument ''job availableAt cannot precede createdAt.'')
     else assert_artifact_reference (enq_payload i) ''job payload''))))))))"

definition validate_claim_input :: "durable_limits \<Rightarrow> string \<Rightarrow> int \<Rightarrow> int \<Rightarrow> unit durable" where
  "validate_claim_input l workerId now leaseMs =
     and_then (assert_durable_identifier workerId ''workerId'' 200) (\<lambda>_.
     and_then (assert_canonical_timestamp now ''claim now'') (\<lambda>_.
     assert_safe_integer leaseMs ''leaseMs'' 1 (maxLeaseMs l)))"

definition validate_lease_envelope :: "job_lease \<Rightarrow> unit durable" where
  "validate_lease_envelope ls =
     and_then (assert_durable_identifier (lease_jobId ls) ''lease.jobId'' 200) (\<lambda>_.
     and_then (assert_durable_identifier (lease_missionId ls) ''lease.missionId'' 200) (\<lambda>_.
     and_then (assert_durable_identifier (lease_taskId ls) ''lease.taskId'' 200) (\<lambda>_.
     and_then (assert_durable_identifier (lease_workerId ls) ''lease.workerId'' 200) (\<lambda>_.
     and_then (assert_durable_identifier (lease_token ls) ''lease.token'' 500) (\<lambda>_.
     and_then (assert_safe_integer (lease_attempt ls) ''lease.attempt'' 1 max_safe_integer) (\<lambda>_.
     and_then (assert_safe_integer (lease_generation ls) ''lease.generation'' 1 max_safe_integer) (\<lambda>_.
     and_then (assert_canonical_timestamp (lease_expiresAt ls) ''lease.expiresAt'') (\<lambda>_.
     assert_artifact_reference (lease_payload ls) ''lease.payload''))))))))"

text \<open>The value is at most 32000 bytes long, so \<open>canonicalJson\<close> does not refuse it.\<close>

definition job_fingerprint :: "(json \<Rightarrow> string) \<Rightarrow> job_enqueue_input \<Rightarrow> string" where
  "job_fingerprint digest i = digest (canonicalize (JObj
     [(''availableAt'', JStr (iso_text (enq_availableAt i))), (''createdAt'', JStr (iso_text (enq_createdAt i))),
      (''jobId'', JStr (enq_jobId i)), (''maxAttempts'', JNum (of_int (enq_maxAttempts i))),
      (''missionId'', JStr (enq_missionId i)), (''payload'', artifact_json (enq_payload i)),
      (''priority'', JNum (of_int (enq_priority i))), (''taskId'', JStr (enq_taskId i))]))"

section \<open>Rows\<close>

definition row_checks :: "job_row \<Rightarrow> unit durable" where
  "row_checks r =
     corrupt_if_failed (and_then (assert_durable_identifier (row_jobId r) ''persisted jobId'' 200) (\<lambda>_.
           and_then (assert_durable_identifier (row_missionId r) ''persisted missionId'' 200) (\<lambda>_.
           and_then (assert_durable_identifier (row_taskId r) ''persisted taskId'' 200) (\<lambda>_.
           and_then (assert_safe_integer (row_priority r) ''persisted priority'' 0 100) (\<lambda>_.
           and_then (assert_safe_integer (row_maxAttempts r) ''persisted maxAttempts'' 1 100) (\<lambda>_.
           and_then (assert_safe_integer (row_attemptCount r) ''persisted attemptCount'' 0 100) (\<lambda>_.
           and_then (assert_safe_integer (row_leaseGeneration r) ''persisted leaseGeneration'' 0 max_safe_integer) (\<lambda>_.
           and_then (assert_canonical_timestamp (row_availableAt r) ''persisted availableAt'') (\<lambda>_.
           and_then (assert_canonical_timestamp (row_createdAt r) ''persisted createdAt'') (\<lambda>_.
           and_then (assert_canonical_timestamp (row_updatedAt r) ''persisted updatedAt'') (\<lambda>_.
           and_then (assert_artifact_reference (row_payload r) ''persisted payload'') (\<lambda>_.
           and_then (case row_leaseExpiresAt r of None \<Rightarrow> Inr ()
                     | Some t \<Rightarrow> assert_canonical_timestamp t ''persisted lease expiry'') (\<lambda>_.
           and_then (case row_leaseTokenHash r of None \<Rightarrow> Inr ()
                     | Some h \<Rightarrow> assert_sha256 h ''persisted lease token hash'') (\<lambda>_.
           (case (row_resultArtifactId r, row_resultSha256 r) of
              (Some a, Some h) \<Rightarrow> assert_artifact_reference \<lparr>artifactId = a, sha256 = h\<rparr> ''persisted result''
            | _ \<Rightarrow> Inr ())))))))))))))))"

definition holds_lease :: "job_status \<Rightarrow> bool" where
  "holds_lease s \<longleftrightarrow> s = JobRunning \<or> s = JobCancelling"

definition decode_job_row :: "job_row \<Rightarrow> durable_job durable" where
  "decode_job_row r =
     (if (row_resultArtifactId r = None) \<noteq> (row_resultSha256 r = None)
      then corrupt ''Durable job result artifact columns are inconsistent.''
      else and_then (row_checks r) (\<lambda>_.
        if holds_lease (row_status r) \<and>
           (row_leaseWorkerId r = None \<or> row_leaseExpiresAt r = None \<or> row_leaseTokenHash r = None)
        then corrupt ''Running durable job is missing lease metadata.''
        else if \<not> holds_lease (row_status r) \<and>
           (row_leaseWorkerId r \<noteq> None \<or> row_leaseExpiresAt r \<noteq> None \<or> row_leaseTokenHash r \<noteq> None)
        then corrupt ''Non-running durable job retains lease metadata.''
        else if row_maxAttempts r < row_attemptCount r
        then corrupt ''Durable job attempt count exceeds its ceiling.''
        else Inr \<lparr>jobId = row_jobId r, job_missionId = row_missionId r, job_taskId = row_taskId r,
               priority = row_priority r, status = row_status r, maxAttempts = row_maxAttempts r,
               attemptCount = row_attemptCount r, availableAt = row_availableAt r, payload = row_payload r,
               leaseGeneration = row_leaseGeneration r, leaseWorkerId = row_leaseWorkerId r,
               leaseExpiresAt = row_leaseExpiresAt r,
               result = (case (row_resultArtifactId r, row_resultSha256 r) of
                   (Some a, Some h) \<Rightarrow> Some \<lparr>artifactId = a, sha256 = h\<rparr> | _ \<Rightarrow> None),
               createdAt = row_createdAt r, updatedAt = row_updatedAt r\<rparr>))"

definition find_row :: "job_store \<Rightarrow> string \<Rightarrow> job_row option" where
  "find_row s i = find (\<lambda>r. row_jobId r = i) (jobs s)"

definition update_row :: "string \<Rightarrow> (job_row \<Rightarrow> job_row) \<Rightarrow> job_store \<Rightarrow> job_store" where
  "update_row i f s = s\<lparr>jobs := map (\<lambda>r. if row_jobId r = i then f r else r) (jobs s)\<rparr>"

definition require_job :: "job_store \<Rightarrow> string \<Rightarrow> durable_job durable" where
  "require_job s i =
     (case find_row s i of
        None \<Rightarrow> Inl (StoreConflict (''Unknown durable job '' @ i @ ''.''))
      | Some r \<Rightarrow> decode_job_row r)"

definition return_job :: "job_store \<Rightarrow> string \<Rightarrow> durable_job job_op" where
  "return_job s i = and_then (require_job s i) (\<lambda>j. Inr (j, s))"

section \<open>Lifecycle events\<close>

text \<open>The hashed value is shorter than its bound of 8192 bytes.\<close>

definition job_event_json :: "string \<Rightarrow> string \<Rightarrow> job_event_type \<Rightarrow> job_status \<Rightarrow> int \<Rightarrow> int \<Rightarrow> string option \<Rightarrow> json" where
  "job_event_json missionId i ty st generation occurredAt reasonCode = JObj
     [(''generation'', JNum (of_int generation)), (''jobId'', JStr i), (''missionId'', JStr missionId),
      (''occurredAt'', JStr (iso_text occurredAt)),
      (''reasonCode'', case reasonCode of None \<Rightarrow> JNull | Some r \<Rightarrow> JStr r),
      (''status'', JStr (status_text st)), (''type'', JStr (event_type_text ty))]"

definition append_job_event :: "durable_limits \<Rightarrow> (json \<Rightarrow> string) \<Rightarrow> job_store \<Rightarrow> string \<Rightarrow> string \<Rightarrow> job_event_type
    \<Rightarrow> job_status \<Rightarrow> int \<Rightarrow> int \<Rightarrow> string option \<Rightarrow> job_store durable" where
  "append_job_event l digest s missionId i ty st generation occurredAt reasonCode =
     (if maxJobEvents l \<le> int (length (job_events s))
      then Inl (StoreConflict ''Job lifecycle event collection exceeds its configured bound.'')
      else Inr (s\<lparr>job_events := job_events s @
        [\<lparr>event_cursor = Suc (length (job_events s)), event_missionId = missionId, event_jobId = i, event_type = ty,
          event_status = st, event_generation = generation, event_occurredAt = occurredAt,
          event_reasonCode = reasonCode,
          event_hash = digest (canonicalize (job_event_json missionId i ty st generation occurredAt reasonCode))\<rparr>]\<rparr>))"

end
