(* ===== verification/DurableQueue.thy ===== *)
theory DurableQueue
  imports DurableJobs
begin

text \<open>
  The operations of the durable job queue (\<open>src/durable/store.ts\<close>): enqueue, claim with the
  maintenance of expired leases, heartbeat, the four settlements, cancellation and the reads.
  \<open>l\<close> are the configured limits, \<open>digest\<close> and \<open>hash_text\<close> the hashes.
\<close>

section \<open>Enqueue\<close>

definition new_row :: "job_enqueue_input \<Rightarrow> string \<Rightarrow> job_row" where
  "new_row i fingerprint =
     \<lparr>row_jobId = enq_jobId i, row_missionId = enq_missionId i, row_taskId = enq_taskId i,
      row_priority = enq_priority i, row_status = JobPending, row_maxAttempts = enq_maxAttempts i,
      row_attemptCount = 0, row_availableAt = enq_availableAt i, row_payload = enq_payload i,
      row_leaseGeneration = 0, row_leaseWorkerId = None, row_leaseTokenHash = None, row_leaseExpiresAt = None,
      row_resultArtifactId = None, row_resultSha256 = None, row_createdAt = enq_createdAt i,
      row_updatedAt = enq_createdAt i, row_enqueueFingerprint = fingerprint\<rparr>"

definition remember_key :: "job_enqueue_input \<Rightarrow> string \<Rightarrow> job_store \<Rightarrow> job_store" where
  "remember_key i fingerprint s = s\<lparr>job_idempotency :=
     (job_idempotency s)((enq_missionId i, enq_idempotencyKey i) \<mapsto> (enq_jobId i, fingerprint))\<rparr>"

definition enqueue_job :: "durable_limits \<Rightarrow> (json \<Rightarrow> string) \<Rightarrow> job_enqueue_input \<Rightarrow> job_store \<Rightarrow> durable_job job_op" where
  "enqueue_job l digest i s =
     and_then (validate_enqueue_input i) (\<lambda>_.
     let fingerprint = job_fingerprint digest i in
     case job_idempotency s (enq_missionId i, enq_idempotencyKey i) of
       Some (known, print) \<Rightarrow>
         if print \<noteq> fingerprint \<or> known \<noteq> enq_jobId i
         then Inl (StoreConflict ''Job idempotency key was reused for different immutable input.'')
         else return_job s (enq_jobId i)
     | None \<Rightarrow>
        (case find_row s (enq_jobId i) of
           Some r \<Rightarrow>
             if row_enqueueFingerprint r \<noteq> fingerprint
             then Inl (StoreConflict ''Job ID was reused for different immutable input.'')
             else and_then (decode_job_row r) (\<lambda>j. Inr (j, remember_key i fingerprint s))
         | None \<Rightarrow>
             if maxJobs l \<le> int (length (jobs s))
             then Inl (StoreConflict ''Durable job collection exceeds its configured bound.'')
             else and_then (append_job_event l digest
                      (remember_key i fingerprint (s\<lparr>jobs := jobs s @ [new_row i fingerprint]\<rparr>))
                      (enq_missionId i) (enq_jobId i) Enqueued JobPending 0 (enq_createdAt i) None) (\<lambda>s'.
                  return_job s' (enq_jobId i))))"

section \<open>Leases\<close>

definition clear_lease :: "job_status \<Rightarrow> int \<Rightarrow> job_row \<Rightarrow> job_row" where
  "clear_lease st now r =
     r\<lparr>row_status := st, row_leaseWorkerId := None, row_leaseTokenHash := None, row_leaseExpiresAt := None,
       row_updatedAt := now\<rparr>"

definition leave_running :: "durable_limits \<Rightarrow> (json \<Rightarrow> string) \<Rightarrow> job_status \<Rightarrow> job_event_type \<Rightarrow> durable_job \<Rightarrow> int
    \<Rightarrow> string \<Rightarrow> job_store \<Rightarrow> durable_job job_op" where
  "leave_running l digest st ty j now reasonCode s =
     and_then (assert_reason_code reasonCode) (\<lambda>_.
     and_then (append_job_event l digest (update_row (jobId j) (clear_lease st now) s)
       (job_missionId j) (jobId j) ty st (leaseGeneration j) now (Some reasonCode)) (\<lambda>s'.
     return_job s' (jobId j)))"

definition block_running_job :: "durable_limits \<Rightarrow> (json \<Rightarrow> string) \<Rightarrow> durable_job \<Rightarrow> int \<Rightarrow> string
    \<Rightarrow> job_store \<Rightarrow> durable_job job_op" where
  "block_running_job l digest = leave_running l digest JobBlocked Blocked"

definition cancel_running_job :: "durable_limits \<Rightarrow> (json \<Rightarrow> string) \<Rightarrow> durable_job \<Rightarrow> int \<Rightarrow> string
    \<Rightarrow> job_store \<Rightarrow> durable_job job_op" where
  "cancel_running_job l digest = leave_running l digest JobCancelled Cancelled"

text \<open>\<open>lease_expires_at <= now\<close>; a comparison with \<open>NULL\<close> does not hold.\<close>

definition lease_expired :: "int \<Rightarrow> job_row \<Rightarrow> bool" where
  "lease_expired now r \<longleftrightarrow> (case row_leaseExpiresAt r of None \<Rightarrow> False | Some t \<Rightarrow> text_le t now)"

definition by_job_id :: "job_row \<Rightarrow> job_row \<Rightarrow> int" where
  "by_job_id a b = code_unit_compare (row_jobId a) (row_jobId b)"

definition expired_exhausted :: "int \<Rightarrow> job_store \<Rightarrow> job_row list" where
  "expired_exhausted now s = js_sort by_job_id
     (filter (\<lambda>r. row_status r = JobRunning \<and> lease_expired now r \<and> row_maxAttempts r \<le> row_attemptCount r) (jobs s))"

definition expired_cancelling :: "int \<Rightarrow> job_store \<Rightarrow> job_row list" where
  "expired_cancelling now s = js_sort by_job_id
     (filter (\<lambda>r. row_status r = JobCancelling \<and> lease_expired now r) (jobs s))"

primrec leave_all :: "(durable_job \<Rightarrow> job_store \<Rightarrow> durable_job job_op) \<Rightarrow> job_row list \<Rightarrow> job_store \<Rightarrow> job_store durable" where
  "leave_all f [] s = Inr s"
| "leave_all f (r # rs) s =
     and_then (decode_job_row r) (\<lambda>j. and_then (f j s) (\<lambda>(_, s'). leave_all f rs s'))"

definition maintain_expired_jobs :: "durable_limits \<Rightarrow> (json \<Rightarrow> string) \<Rightarrow> int \<Rightarrow> job_store \<Rightarrow> job_store durable" where
  "maintain_expired_jobs l digest now s =
     and_then (leave_all (\<lambda>j. block_running_job l digest j now ''attempts_exhausted'') (expired_exhausted now s) s) (\<lambda>s'.
     leave_all (\<lambda>j. cancel_running_job l digest j now ''cancel_lease_expired'') (expired_cancelling now s') s')"

section \<open>Claim\<close>

definition claimable :: "int \<Rightarrow> job_row \<Rightarrow> bool" where
  "claimable now r \<longleftrightarrow>
     ((row_status r = JobPending \<or> row_status r = JobRetryWait) \<and> text_le (row_availableAt r) now) \<or>
     (row_status r = JobRunning \<and> lease_expired now r \<and> row_attemptCount r < row_maxAttempts r)"

definition time_compare :: "int \<Rightarrow> int \<Rightarrow> int" where
  "time_compare a b = code_unit_compare (iso_text a) (iso_text b)"

text \<open>\<open>ORDER BY available_at ASC, priority DESC, created_at ASC, job_id ASC\<close>.\<close>

definition claim_order :: "job_row \<Rightarrow> job_row \<Rightarrow> int" where
  "claim_order a b =
     (let byAvailable = time_compare (row_availableAt a) (row_availableAt b);
          byPriority = row_priority b - row_priority a;
          byCreated = time_compare (row_createdAt a) (row_createdAt b) in
      if byAvailable \<noteq> 0 then byAvailable
      else if byPriority \<noteq> 0 then byPriority
      else if byCreated \<noteq> 0 then byCreated
      else by_job_id a b)"

definition claim_candidate :: "int \<Rightarrow> job_store \<Rightarrow> job_row option" where
  "claim_candidate now s =
     (case js_sort claim_order (filter (claimable now) (jobs s)) of [] \<Rightarrow> None | r # _ \<Rightarrow> Some r)"

definition grant_lease :: "int \<Rightarrow> int \<Rightarrow> string \<Rightarrow> string \<Rightarrow> int \<Rightarrow> int \<Rightarrow> job_row \<Rightarrow> job_row" where
  "grant_lease attempt generation workerId tokenHash expiresAt now r =
     r\<lparr>row_status := JobRunning, row_attemptCount := attempt, row_leaseGeneration := generation,
       row_leaseWorkerId := Some workerId, row_leaseTokenHash := Some tokenHash,
       row_leaseExpiresAt := Some expiresAt, row_updatedAt := now\<rparr>"

definition claim_row :: "durable_limits \<Rightarrow> (json \<Rightarrow> string) \<Rightarrow> (string \<Rightarrow> string) \<Rightarrow> string \<Rightarrow> int \<Rightarrow> int \<Rightarrow> string
    \<Rightarrow> durable_job \<Rightarrow> job_store \<Rightarrow> job_lease option job_op" where
  "claim_row l digest hash_text workerId now expiresAt token c s =
     (let reclaimed = status c = JobRunning; attempt = attemptCount c + 1; generation = leaseGeneration c + 1 in
      if maxAttempts c < attempt then corrupt ''Claim candidate exceeded its attempt ceiling.''
      else and_then (append_job_event l digest
          (update_row (jobId c) (grant_lease attempt generation workerId (hash_text token) expiresAt now) s)
          (job_missionId c) (jobId c) (if reclaimed then Reclaimed else Claimed) JobRunning generation now
          (if reclaimed then Some ''lease_expired'' else None)) (\<lambda>s'.
        Inr (Some \<lparr>lease_jobId = jobId c, lease_missionId = job_missionId c, lease_taskId = job_taskId c,
                  lease_workerId = workerId, lease_attempt = attempt, lease_generation = generation,
                  lease_token = token, lease_expiresAt = expiresAt, lease_payload = payload c\<rparr>, s')))"

definition claim_job :: "durable_limits \<Rightarrow> (json \<Rightarrow> string) \<Rightarrow> (string \<Rightarrow> string) \<Rightarrow> string \<Rightarrow> int \<Rightarrow> int \<Rightarrow> string
    \<Rightarrow> job_store \<Rightarrow> job_lease option job_op" where
  "claim_job l digest hash_text workerId now leaseMs token s =
     and_then (validate_claim_input l workerId now leaseMs) (\<lambda>_.
     and_then (add_milliseconds now leaseMs) (\<lambda>expiresAt.
     and_then (maintain_expired_jobs l digest now s) (\<lambda>s1.
     case claim_candidate now s1 of
       None \<Rightarrow> Inr (None, s1)
     | Some r \<Rightarrow> and_then (decode_job_row r) (\<lambda>c. claim_row l digest hash_text workerId now expiresAt token c s1))))"

section \<open>Heartbeat and settlement\<close>

definition rejected :: "string \<Rightarrow> 'a durable" where
  "rejected message = Inl (LeaseRejected message)"

definition require_valid_lease :: "(string \<Rightarrow> string) \<Rightarrow> job_lease \<Rightarrow> int \<Rightarrow> bool \<Rightarrow> job_store \<Rightarrow> durable_job durable" where
  "require_valid_lease hash_text ls now allowCancelling s =
     and_then (require_job s (lease_jobId ls)) (\<lambda>j.
     if job_missionId j \<noteq> lease_missionId ls \<or> job_taskId j \<noteq> lease_taskId ls
     then rejected ''Lease scope does not match the durable job identity.''
     else if leaseWorkerId j \<noteq> Some (lease_workerId ls) \<or> leaseGeneration j \<noteq> lease_generation ls
     then rejected ''Lease worker or fencing generation is stale.''
     else (case find_row s (lease_jobId ls) of
         None \<Rightarrow> rejected ''Durable job disappeared during lease validation.''
       | Some raw \<Rightarrow>
          if row_leaseTokenHash raw \<noteq> Some (hash_text (lease_token ls))
          then rejected ''Lease token is invalid or superseded.''
          else if (case leaseExpiresAt j of None \<Rightarrow> True | Some t \<Rightarrow> t \<le> now)
          then rejected ''Lease has expired.''
          else if status j \<noteq> JobRunning \<and> \<not> (allowCancelling \<and> status j = JobCancelling)
          then rejected (''Job status '' @ status_text (status j) @ '' cannot be settled by this lease.'')
          else Inr j))"

datatype heartbeat_state = HeartbeatRunning | HeartbeatCancelling

definition heartbeat_job :: "durable_limits \<Rightarrow> (json \<Rightarrow> string) \<Rightarrow> (string \<Rightarrow> string) \<Rightarrow> job_lease \<Rightarrow> int \<Rightarrow> int
    \<Rightarrow> job_store \<Rightarrow> (heartbeat_state \<times> int) job_op" where
  "heartbeat_job l digest hash_text ls now leaseMs s =
     and_then (validate_lease_envelope ls) (\<lambda>_.
     and_then (assert_canonical_timestamp now ''heartbeat now'') (\<lambda>_.
     and_then (assert_safe_integer leaseMs ''leaseMs'' 1 (maxLeaseMs l)) (\<lambda>_.
     and_then (add_milliseconds now leaseMs) (\<lambda>expiresAt.
     and_then (require_valid_lease hash_text ls now True s) (\<lambda>j.
     if status j = JobCancelling
     then Inr ((HeartbeatCancelling, case leaseExpiresAt j of None \<Rightarrow> lease_expiresAt ls | Some t \<Rightarrow> t), s)
     else and_then (append_job_event l digest
            (update_row (lease_jobId ls) (\<lambda>r. r\<lparr>row_leaseExpiresAt := Some expiresAt, row_updatedAt := now\<rparr>) s)
            (job_missionId j) (jobId j) Heartbeat JobRunning (lease_generation ls) now None) (\<lambda>s'.
          Inr ((HeartbeatRunning, expiresAt), s')))))))"

definition settle_job_success :: "durable_limits \<Rightarrow> (json \<Rightarrow> string) \<Rightarrow> (string \<Rightarrow> string) \<Rightarrow> job_lease
    \<Rightarrow> artifact_reference \<Rightarrow> int \<Rightarrow> job_store \<Rightarrow> durable_job job_op" where
  "settle_job_success l digest hash_text ls res now s =
     and_then (validate_lease_envelope ls) (\<lambda>_.
     and_then (assert_artifact_reference res ''result'') (\<lambda>_.
     and_then (assert_canonical_timestamp now ''settlement now'') (\<lambda>_.
     and_then (require_valid_lease hash_text ls now True s) (\<lambda>j.
     if status j = JobCancelling then cancel_running_job l digest j now ''cancellation_won'' s
     else and_then (append_job_event l digest
            (update_row (jobId j) (\<lambda>r. (clear_lease JobSucceeded now r)
               \<lparr>row_resultArtifactId := Some (artifactId res), row_resultSha256 := Some (sha256 res)\<rparr>) s)
            (job_missionId j) (jobId j) Succeeded JobSucceeded (lease_generation ls) now None) (\<lambda>s'.
          return_job s' (jobId j))))))"

definition settle_job_retry :: "durable_limits \<Rightarrow> (json \<Rightarrow> string) \<Rightarrow> (string \<Rightarrow> string) \<Rightarrow> job_lease
    \<Rightarrow> string \<Rightarrow> int \<Rightarrow> int \<Rightarrow> job_store \<Rightarrow> durable_job job_op" where
  "settle_job_retry l digest hash_text ls reasonCode retryAfterMs now s =
     and_then (validate_lease_envelope ls) (\<lambda>_.
     and_then (assert_reason_code reasonCode) (\<lambda>_.
     and_then (assert_safe_integer retryAfterMs ''retryAfterMs'' 0 (maxRetryDelayMs l)) (\<lambda>_.
     and_then (assert_canonical_timestamp now ''settlement now'') (\<lambda>_.
     and_then (add_milliseconds now retryAfterMs) (\<lambda>retryAt.
     and_then (require_valid_lease hash_text ls now True s) (\<lambda>j.
     if status j = JobCancelling then cancel_running_job l digest j now ''cancellation_won'' s
     else if maxAttempts j \<le> attemptCount j then block_running_job l digest j now ''attempts_exhausted'' s
     else and_then (append_job_event l digest
            (update_row (jobId j) (\<lambda>r. (clear_lease JobRetryWait now r)\<lparr>row_availableAt := retryAt\<rparr>) s)
            (job_missionId j) (jobId j) RetryScheduled JobRetryWait (lease_generation ls) now (Some reasonCode)) (\<lambda>s'.
          return_job s' (jobId j))))))))"

definition settle_job_blocked :: "durable_limits \<Rightarrow> (json \<Rightarrow> string) \<Rightarrow> (string \<Rightarrow> string) \<Rightarrow> job_lease
    \<Rightarrow> string \<Rightarrow> int \<Rightarrow> job_store \<Rightarrow> durable_job job_op" where
  "settle_job_blocked l digest hash_text ls reasonCode now s =
     and_then (validate_lease_envelope ls) (\<lambda>_.
     and_then (assert_reason_code reasonCode) (\<lambda>_.
     and_then (assert_canonical_timestamp now ''settlement now'') (\<lambda>_.
     and_then (require_valid_lease hash_text ls now True s) (\<lambda>j.
     if status j = JobCancelling then cancel_running_job l digest j now ''cancellation_won'' s
     else block_running_job l digest j now reasonCode s))))"

definition settle_job_cancelled :: "durable_limits \<Rightarrow> (json \<Rightarrow> string) \<Rightarrow> (string \<Rightarrow> string) \<Rightarrow> job_lease
    \<Rightarrow> int \<Rightarrow> job_store \<Rightarrow> durable_job job_op" where
  "settle_job_cancelled l digest hash_text ls now s =
     and_then (validate_lease_envelope ls) (\<lambda>_.
     and_then (assert_canonical_timestamp now ''settlement now'') (\<lambda>_.
     and_then (require_valid_lease hash_text ls now True s) (\<lambda>j.
     cancel_running_job l digest j now ''worker_cancelled'' s)))"

section \<open>Cancellation and reads\<close>

definition request_cancel :: "durable_limits \<Rightarrow> (json \<Rightarrow> string) \<Rightarrow> job_status \<Rightarrow> job_event_type \<Rightarrow> durable_job \<Rightarrow> int
    \<Rightarrow> job_store \<Rightarrow> durable_job job_op" where
  "request_cancel l digest st ty j now s =
     and_then (append_job_event l digest
         (update_row (jobId j) (\<lambda>r. r\<lparr>row_status := st, row_updatedAt := now\<rparr>) s)
         (job_missionId j) (jobId j) ty st (leaseGeneration j) now (Some ''cancel_requested'')) (\<lambda>s'.
       return_job s' (jobId j))"

definition cancel_job :: "durable_limits \<Rightarrow> (json \<Rightarrow> string) \<Rightarrow> string \<Rightarrow> int \<Rightarrow> job_store \<Rightarrow> durable_job job_op" where
  "cancel_job l digest i now s =
     and_then (assert_durable_identifier i ''jobId'' 200) (\<lambda>_.
     and_then (assert_canonical_timestamp now ''cancellation now'') (\<lambda>_.
     and_then (require_job s i) (\<lambda>j.
     if status j = JobPending \<or> status j = JobRetryWait then request_cancel l digest JobCancelled Cancelled j now s
     else if status j = JobRunning then request_cancel l digest JobCancelling Cancelling j now s
     else Inr (j, s))))"

definition get_job :: "string \<Rightarrow> job_store \<Rightarrow> durable_job option durable" where
  "get_job i s =
     and_then (assert_durable_identifier i ''jobId'' 200) (\<lambda>_.
     case find_row s i of None \<Rightarrow> Inr None | Some r \<Rightarrow> and_then (decode_job_row r) (\<lambda>j. Inr (Some j)))"

definition decode_job_event_row :: "(json \<Rightarrow> string) \<Rightarrow> string \<Rightarrow> job_event \<Rightarrow> job_event durable" where
  "decode_job_event_row digest missionId e =
     (if event_missionId e \<noteq> missionId then corrupt ''Job event leaked across mission scope.''
      else and_then (corrupt_if_failed
              (and_then (assert_durable_identifier (event_jobId e) ''persisted event jobId'' 200) (\<lambda>_.
               and_then (assert_safe_integer (event_generation e) ''persisted event generation'' 0 max_safe_integer) (\<lambda>_.
               and_then (assert_canonical_timestamp (event_occurredAt e) ''persisted event occurredAt'') (\<lambda>_.
               and_then (assert_sha256 (event_hash e) ''persisted event hash'') (\<lambda>_.
               (case event_reasonCode e of None \<Rightarrow> Inr () | Some r \<Rightarrow> assert_reason_code r))))))) (\<lambda>_.
            if digest (canonicalize (job_event_json (event_missionId e) (event_jobId e) (event_type e) (event_status e)
                 (event_generation e) (event_occurredAt e) (event_reasonCode e))) \<noteq> event_hash e
            then corrupt ''Job lifecycle event hash mismatch.''
            else Inr e))"

definition read_job_events :: "durable_limits \<Rightarrow> (json \<Rightarrow> string) \<Rightarrow> string \<Rightarrow> int \<Rightarrow> int \<Rightarrow> job_store
    \<Rightarrow> job_event list durable" where
  "read_job_events l digest missionId afterCursor limit s =
     and_then (assert_durable_identifier missionId ''missionId'' 200) (\<lambda>_.
     and_then (assert_safe_integer afterCursor ''afterCursor'' 0 max_safe_integer) (\<lambda>_.
     and_then (assert_safe_integer limit ''limit'' 1 (maxJobEventPage l)) (\<lambda>_.
     traverse (decode_job_event_row digest missionId)
       (take (nat limit) (sort_key event_cursor
         (filter (\<lambda>e. event_missionId e = missionId \<and> afterCursor < int (event_cursor e)) (job_events s)))))))"

definition job_counts :: "string \<Rightarrow> job_store \<Rightarrow> (job_status \<Rightarrow> nat) durable" where
  "job_counts missionId s =
     and_then (assert_durable_identifier missionId ''missionId'' 200) (\<lambda>_.
     Inr (\<lambda>st. length (filter (\<lambda>r. row_missionId r = missionId \<and> row_status r = st) (jobs s))))"

definition empty_job_store :: job_store where
  "empty_job_store = \<lparr>jobs = [], job_idempotency = Map.empty, job_events = []\<rparr>"

end
