(* ===== verification/DurableMachine.thy ===== *)
theory DurableMachine
  imports DurableQueue
begin

text \<open>
  The state machine the job queue promises, and the proof that the queue keeps it. \<open>row_step\<close> is the
  life of one job, \<open>store_step\<close> one change of the tables; every operation of \<open>DurableQueue\<close> is a
  sequence of such steps (\<open>..._steps\<close>). The invariant \<open>store_ok\<close>: rows decode, a lease is present
  exactly while a worker holds the job, the fencing generation counts the attempts and never
  passes the ceiling, and the last lifecycle event of a job shows its status and generation.
\<close>

section \<open>One job\<close>

definition terminal :: "job_status \<Rightarrow> bool" where
  "terminal st \<longleftrightarrow> st = JobCancelled \<or> st = JobSucceeded \<or> st = JobBlocked"

inductive row_step :: "job_row \<Rightarrow> job_row \<Rightarrow> bool" where
  claim: "row_status r \<in> {JobPending, JobRetryWait, JobRunning} \<Longrightarrow> row_attemptCount r < row_maxAttempts r \<Longrightarrow>
    sha256_pattern h \<Longrightarrow> date_range e \<Longrightarrow> date_range now \<Longrightarrow>
    row_step r (grant_lease (row_attemptCount r + 1) (row_leaseGeneration r + 1) w h e now r)"
| heartbeat: "row_status r = JobRunning \<Longrightarrow> date_range e \<Longrightarrow> date_range now \<Longrightarrow>
    row_step r (r\<lparr>row_leaseExpiresAt := Some e, row_updatedAt := now\<rparr>)"
| succeed: "row_status r = JobRunning \<Longrightarrow> artifact_ok res \<Longrightarrow> date_range now \<Longrightarrow>
    row_step r ((clear_lease JobSucceeded now r)
      \<lparr>row_resultArtifactId := Some (artifactId res), row_resultSha256 := Some (sha256 res)\<rparr>)"
| retry: "row_status r = JobRunning \<Longrightarrow> row_attemptCount r < row_maxAttempts r \<Longrightarrow> date_range t \<Longrightarrow> date_range now \<Longrightarrow>
    row_step r ((clear_lease JobRetryWait now r)\<lparr>row_availableAt := t\<rparr>)"
| block: "row_status r = JobRunning \<Longrightarrow> date_range now \<Longrightarrow> row_step r (clear_lease JobBlocked now r)"
| cancel: "holds_lease (row_status r) \<Longrightarrow> date_range now \<Longrightarrow> row_step r (clear_lease JobCancelled now r)"
| cancel_idle: "row_status r \<in> {JobPending, JobRetryWait} \<Longrightarrow> date_range now \<Longrightarrow>
    row_step r (r\<lparr>row_status := JobCancelled, row_updatedAt := now\<rparr>)"
| request: "row_status r = JobRunning \<Longrightarrow> date_range now \<Longrightarrow>
    row_step r (r\<lparr>row_status := JobCancelling, row_updatedAt := now\<rparr>)"

inductive_cases row_step_cases: "row_step r r'"

definition row_ok :: "job_row \<Rightarrow> bool" where
  "row_ok r \<longleftrightarrow>
     identifier_ok (row_jobId r) 200 \<and> identifier_ok (row_missionId r) 200 \<and> identifier_ok (row_taskId r) 200 \<and>
     0 \<le> row_priority r \<and> row_priority r \<le> 100 \<and> row_maxAttempts r \<le> 100 \<and> 1 \<le> row_maxAttempts r \<and>
     0 \<le> row_attemptCount r \<and> row_attemptCount r \<le> row_maxAttempts r \<and> row_leaseGeneration r = row_attemptCount r \<and>
     (row_status r \<in> {JobPending, JobRetryWait} \<longrightarrow> row_attemptCount r < row_maxAttempts r) \<and>
     date_range (row_availableAt r) \<and> date_range (row_createdAt r) \<and> date_range (row_updatedAt r) \<and>
     artifact_ok (row_payload r) \<and>
     (if holds_lease (row_status r)
      then row_leaseWorkerId r \<noteq> None \<and> (\<exists>h. row_leaseTokenHash r = Some h \<and> sha256_pattern h)
        \<and> (\<exists>t. row_leaseExpiresAt r = Some t \<and> date_range t)
      else row_leaseWorkerId r = None \<and> row_leaseTokenHash r = None \<and> row_leaseExpiresAt r = None) \<and>
     (if row_status r = JobSucceeded
      then \<exists>a h. row_resultArtifactId r = Some a \<and> row_resultSha256 r = Some h \<and> artifact_ok \<lparr>artifactId = a, sha256 = h\<rparr>
      else row_resultArtifactId r = None \<and> row_resultSha256 r = None)"

lemma artifact_ok_parts [simp]: "artifact_ok \<lparr>artifactId = artifactId a, sha256 = sha256 a\<rparr> = artifact_ok a"
  by (simp add: artifact_ok_def)

lemma row_step_ok: "row_step r r' \<Longrightarrow> row_ok r \<Longrightarrow> row_ok r'"
  by (cases rule: row_step.cases, assumption)
     (auto simp: row_ok_def grant_lease_def clear_lease_def holds_lease_def)

lemma row_step_identity:
  "row_step r r' \<Longrightarrow> row_jobId r' = row_jobId r \<and> row_missionId r' = row_missionId r \<and> row_taskId r' = row_taskId r \<and>
     row_priority r' = row_priority r \<and> row_maxAttempts r' = row_maxAttempts r \<and> row_payload r' = row_payload r \<and>
     row_createdAt r' = row_createdAt r \<and> row_enqueueFingerprint r' = row_enqueueFingerprint r"
  by (cases rule: row_step.cases, assumption) (simp_all add: grant_lease_def clear_lease_def)

lemma row_step_terminal: "row_step r r' \<Longrightarrow> \<not> terminal (row_status r)"
  by (cases rule: row_step.cases, assumption) (auto simp: terminal_def holds_lease_def)

lemma row_step_generation:
  "row_step r r' \<Longrightarrow> row_leaseGeneration r' = row_leaseGeneration r \<and> row_attemptCount r' = row_attemptCount r
     \<or> row_leaseGeneration r' = row_leaseGeneration r + 1 \<and> row_attemptCount r' = row_attemptCount r + 1
       \<and> row_status r' = JobRunning"
  by (cases rule: row_step.cases, assumption) (simp_all add: grant_lease_def clear_lease_def)

lemma row_step_cancelling: "row_step r r' \<Longrightarrow> row_status r = JobCancelling \<Longrightarrow> row_status r' = JobCancelled"
  by (cases rule: row_step.cases, assumption) (auto simp: clear_lease_def)

lemma small_safe: "0 \<le> n \<Longrightarrow> n \<le> 100 \<Longrightarrow> safe_integer n"
  by (simp add: safe_integer_def max_safe_integer_def)

lemma row_checks_Inr [result_simps]:
  "row_checks r = Inr u \<longleftrightarrow>
     identifier_ok (row_jobId r) 200 \<and> identifier_ok (row_missionId r) 200 \<and> identifier_ok (row_taskId r) 200 \<and>
     safe_integer (row_priority r) \<and> 0 \<le> row_priority r \<and> row_priority r \<le> 100 \<and>
     safe_integer (row_maxAttempts r) \<and> 1 \<le> row_maxAttempts r \<and> row_maxAttempts r \<le> 100 \<and>
     safe_integer (row_attemptCount r) \<and> 0 \<le> row_attemptCount r \<and> row_attemptCount r \<le> 100 \<and>
     safe_integer (row_leaseGeneration r) \<and> 0 \<le> row_leaseGeneration r \<and> row_leaseGeneration r \<le> max_safe_integer \<and>
     date_range (row_availableAt r) \<and> date_range (row_createdAt r) \<and> date_range (row_updatedAt r) \<and>
     artifact_ok (row_payload r) \<and> (\<forall>t. row_leaseExpiresAt r = Some t \<longrightarrow> date_range t) \<and>
     (\<forall>h. row_leaseTokenHash r = Some h \<longrightarrow> sha256_pattern h) \<and>
     (\<forall>a h. row_resultArtifactId r = Some a \<longrightarrow> row_resultSha256 r = Some h \<longrightarrow> artifact_ok \<lparr>artifactId = a, sha256 = h\<rparr>)"
  unfolding row_checks_def corrupt_if_failed_Inr
  by (simp add: and_then_Inr assert_durable_identifier_Inr assert_safe_integer_Inr assert_canonical_timestamp_Inr
        assert_artifact_reference_Inr assert_sha256_Inr split: option.split)

text \<open>The decoded record shows the row.\<close>

definition shown_job :: "job_row \<Rightarrow> durable_job" where
  "shown_job r =
     \<lparr>jobId = row_jobId r, job_missionId = row_missionId r, job_taskId = row_taskId r,
      priority = row_priority r, status = row_status r, maxAttempts = row_maxAttempts r,
      attemptCount = row_attemptCount r, availableAt = row_availableAt r, payload = row_payload r,
      leaseGeneration = row_leaseGeneration r, leaseWorkerId = row_leaseWorkerId r, leaseExpiresAt = row_leaseExpiresAt r,
      result = (case (row_resultArtifactId r, row_resultSha256 r) of
         (Some a, Some h) \<Rightarrow> Some \<lparr>artifactId = a, sha256 = h\<rparr> | _ \<Rightarrow> None),
      createdAt = row_createdAt r, updatedAt = row_updatedAt r\<rparr>"

lemma shown_job_simps [simp]:
  "jobId (shown_job r) = row_jobId r" "job_missionId (shown_job r) = row_missionId r"
  "job_taskId (shown_job r) = row_taskId r" "status (shown_job r) = row_status r"
  "maxAttempts (shown_job r) = row_maxAttempts r" "attemptCount (shown_job r) = row_attemptCount r"
  "leaseGeneration (shown_job r) = row_leaseGeneration r" "leaseWorkerId (shown_job r) = row_leaseWorkerId r"
  "leaseExpiresAt (shown_job r) = row_leaseExpiresAt r" "payload (shown_job r) = row_payload r"
  by (simp_all add: shown_job_def)

lemma decode_job_row_shown: "decode_job_row r = Inr j \<Longrightarrow> j = shown_job r"
  by (auto simp: decode_job_row_def corrupt_def shown_job_def and_then_Inr split: if_splits)

lemma decode_row_ok: "row_ok r \<Longrightarrow> decode_job_row r = Inr (shown_job r)"
proof -
  assume ok: "row_ok r"
  then have checks: "row_checks r = Inr ()"
    unfolding row_checks_Inr
    by (auto simp: row_ok_def small_safe max_safe_integer_def split: if_splits)
  with ok show ?thesis
    by (auto simp: decode_job_row_def shown_job_def row_ok_def split: if_splits)
qed

section \<open>The tables\<close>

inductive store_step :: "durable_limits \<Rightarrow> (json \<Rightarrow> string) \<Rightarrow> job_store \<Rightarrow> job_store \<Rightarrow> bool"
  for l digest where
  touch: "find_row s i = Some r \<Longrightarrow> row_step r (f r) \<Longrightarrow> date_range now \<Longrightarrow>
    (\<And>x. reason = Some x \<Longrightarrow> reason_code_pattern x) \<Longrightarrow>
    append_job_event l digest (update_row i f s) (row_missionId r) i ty (row_status (f r)) (row_leaseGeneration (f r))
      now reason = Inr s' \<Longrightarrow>
    store_step l digest s s'"
| insert: "validate_enqueue_input i = Inr () \<Longrightarrow> find_row s (enq_jobId i) = None \<Longrightarrow>
    job_idempotency s (enq_missionId i, enq_idempotencyKey i) = None \<Longrightarrow>
    int (length (jobs s)) < maxJobs l \<Longrightarrow>
    append_job_event l digest (remember_key i p (s\<lparr>jobs := jobs s @ [new_row i p]\<rparr>))
      (enq_missionId i) (enq_jobId i) Enqueued JobPending 0 (enq_createdAt i) None = Inr s' \<Longrightarrow>
    store_step l digest s s'"
| rekey: "find_row s (enq_jobId i) = Some r \<Longrightarrow> row_enqueueFingerprint r = p \<Longrightarrow>
    job_idempotency s (enq_missionId i, enq_idempotencyKey i) = None \<Longrightarrow>
    store_step l digest s (remember_key i p s)"

definition last_event :: "job_store \<Rightarrow> string \<Rightarrow> job_event option" where
  "last_event s i = find (\<lambda>e. event_jobId e = i) (rev (job_events s))"

definition event_ok :: "(json \<Rightarrow> string) \<Rightarrow> job_event \<Rightarrow> bool" where
  "event_ok digest e \<longleftrightarrow>
     identifier_ok (event_jobId e) 200 \<and> 0 \<le> event_generation e \<and> event_generation e \<le> 100 \<and>
     date_range (event_occurredAt e) \<and> (\<forall>x. event_reasonCode e = Some x \<longrightarrow> reason_code_pattern x) \<and>
     event_hash e = digest (canonicalize (job_event_json (event_missionId e) (event_jobId e) (event_type e)
       (event_status e) (event_generation e) (event_occurredAt e) (event_reasonCode e)))"

definition reported :: "job_store \<Rightarrow> job_row \<Rightarrow> bool" where
  "reported s r \<longleftrightarrow> (\<exists>e. last_event s (row_jobId r) = Some e \<and> event_status e = row_status r
     \<and> event_generation e = row_leaseGeneration r \<and> event_missionId e = row_missionId r)"

definition store_ok :: "durable_limits \<Rightarrow> (json \<Rightarrow> string) \<Rightarrow> job_store \<Rightarrow> bool" where
  "store_ok l digest s \<longleftrightarrow>
     distinct (map row_jobId (jobs s)) \<and> (\<forall>r \<in> set (jobs s). row_ok r \<and> reported s r) \<and>
     map event_cursor (job_events s) = [1..<Suc (length (job_events s))] \<and> list_all (event_ok digest) (job_events s) \<and>
     (\<forall>k i p. job_idempotency s k = Some (i, p) \<longrightarrow> (\<exists>r \<in> set (jobs s). row_jobId r = i \<and> row_enqueueFingerprint r = p)) \<and>
     int (length (jobs s)) \<le> max 0 (maxJobs l) \<and> int (length (job_events s)) \<le> max 0 (maxJobEvents l)"

lemma empty_store_ok: "store_ok l digest empty_job_store"
  by (simp add: store_ok_def empty_job_store_def)

lemma find_row_Some: "find_row s i = Some r \<Longrightarrow> r \<in> set (jobs s) \<and> row_jobId r = i"
  by (auto simp: find_row_def find_Some_iff)

lemma find_row_None: "find_row s i = None \<longleftrightarrow> i \<notin> row_jobId ` set (jobs s)"
  by (auto simp: find_row_def find_None_iff)

lemma find_row_mem: "distinct (map row_jobId (jobs s)) \<Longrightarrow> r \<in> set (jobs s) \<Longrightarrow> find_row s (row_jobId r) = Some r"
proof -
  have "distinct (map row_jobId rs) \<Longrightarrow> r \<in> set rs \<Longrightarrow> find (\<lambda>q. row_jobId q = row_jobId r) rs = Some r" for rs
    by (induction rs) (auto simp: rev_image_eqI)
  then show "distinct (map row_jobId (jobs s)) \<Longrightarrow> r \<in> set (jobs s) \<Longrightarrow> ?thesis" by (simp add: find_row_def)
qed

lemma find_row_update:
  assumes "\<And>r. r \<in> set (jobs s) \<Longrightarrow> row_jobId r = i \<Longrightarrow> row_jobId (f r) = i"
  shows "find_row (update_row i f s) j = map_option (\<lambda>r. if j = i then f r else r) (find_row s j)"
proof -
  have "find (\<lambda>r. row_jobId r = j) (map (\<lambda>r. if row_jobId r = i then f r else r) rs) =
      map_option (\<lambda>r. if j = i then f r else r) (find (\<lambda>r. row_jobId r = j) rs)"
    if "\<And>r. r \<in> set rs \<Longrightarrow> row_jobId r = i \<Longrightarrow> row_jobId (f r) = i" for rs
    using that by (induction rs) auto
  then show ?thesis using assms by (simp add: find_row_def update_row_def)
qed

lemma append_job_event_Inr:
  "append_job_event l digest s m i ty st g now reason = Inr s' \<longleftrightarrow>
     int (length (job_events s)) < maxJobEvents l \<and>
     s' = s\<lparr>job_events := job_events s @ [\<lparr>event_cursor = Suc (length (job_events s)), event_missionId = m, event_jobId = i,
       event_type = ty, event_status = st, event_generation = g, event_occurredAt = now, event_reasonCode = reason,
       event_hash = digest (canonicalize (job_event_json m i ty st g now reason))\<rparr>]\<rparr>"
  by (auto simp: append_job_event_def)

lemma last_event_append [simp]:
  "last_event (s\<lparr>job_events := es @ [e]\<rparr>) i = (if event_jobId e = i then Some e else last_event (s\<lparr>job_events := es\<rparr>) i)"
  by (simp add: last_event_def)

lemma last_event_frames [simp]:
  "last_event (s\<lparr>jobs := rs\<rparr>) i = last_event s i" "last_event (s\<lparr>job_idempotency := m\<rparr>) i = last_event s i"
  "last_event (s\<lparr>job_events := job_events s'\<rparr>) i = last_event s' i"
  by (simp_all add: last_event_def)

lemma find_row_frames [simp]:
  "find_row (s\<lparr>job_events := es\<rparr>) i = find_row s i" "find_row (s\<lparr>job_idempotency := m\<rparr>) i = find_row s i"
  "find_row (remember_key j p s) i = find_row s i"
  by (simp_all add: find_row_def remember_key_def)

lemma update_row_frames [simp]:
  "job_events (update_row i f s) = job_events s" "job_idempotency (update_row i f s) = job_idempotency s"
  "length (jobs (update_row i f s)) = length (jobs s)" "last_event (update_row i f s) j = last_event s j"
  by (simp_all add: update_row_def)

lemma remember_key_frames [simp]:
  "jobs (remember_key i p s) = jobs s" "job_events (remember_key i p s) = job_events s"
  "last_event (remember_key i p s) j = last_event s j"
  by (simp_all add: remember_key_def)

lemma unique_row:
  "store_ok l digest s \<Longrightarrow> find_row s i = Some r \<Longrightarrow> q \<in> set (jobs s) \<Longrightarrow> row_jobId q = i \<Longrightarrow> q = r"
  using find_row_mem [of s q] by (auto simp: store_ok_def)

text \<open>One touched row: the others stay, and the identity of the touched one stays.\<close>

lemma touched_rows:
  assumes ok: "store_ok l digest s" and r: "find_row s i = Some r" and step: "row_step r (f r)"
  shows "map row_jobId (jobs (update_row i f s)) = map row_jobId (jobs s)"
    and "q \<in> set (jobs (update_row i f s)) \<longleftrightarrow> q = f r \<or> (q \<in> set (jobs s) \<and> row_jobId q \<noteq> i)"
    and "find_row (update_row i f s) j = (if j = i then Some (f r) else find_row s j)"
proof -
  have same: "row_jobId (f q) = i" if "q \<in> set (jobs s)" "row_jobId q = i" for q
    using unique_row [OF ok r that] row_step_identity [OF step] that by simp
  then show "map row_jobId (jobs (update_row i f s)) = map row_jobId (jobs s)"
    by (auto simp: update_row_def)
  show "q \<in> set (jobs (update_row i f s)) \<longleftrightarrow> q = f r \<or> (q \<in> set (jobs s) \<and> row_jobId q \<noteq> i)"
    using unique_row [OF ok r] find_row_Some [OF r] by (auto simp: update_row_def image_iff)
  show "find_row (update_row i f s) j = (if j = i then Some (f r) else find_row s j)"
    using find_row_update [of s i f j] same r by (simp add: option.map_id0 option.map_ident)
qed

lemma touch_ok:
  assumes ok: "store_ok l digest s" and r: "find_row s i = Some r" and step: "row_step r (f r)" and now: "date_range now"
    and reason: "\<And>x. reason = Some x \<Longrightarrow> reason_code_pattern x"
    and app: "append_job_event l digest (update_row i f s) (row_missionId r) i ty (row_status (f r))
      (row_leaseGeneration (f r)) now reason = Inr s'"
  shows "store_ok l digest s'"
proof -
  note rows = touched_rows [where f = f, OF ok r step]
  note mem = find_row_Some [OF r]
  have row: "row_ok (f r)" using ok mem step by (auto simp: store_ok_def intro: row_step_ok)
  note ident = row_step_identity [OF step]
  define e where "e = \<lparr>event_cursor = Suc (length (job_events s)), event_missionId = row_missionId r, event_jobId = i,
    event_type = ty, event_status = row_status (f r), event_generation = row_leaseGeneration (f r), event_occurredAt = now,
    event_reasonCode = reason, event_hash = digest (canonicalize (job_event_json (row_missionId r) i ty (row_status (f r))
      (row_leaseGeneration (f r)) now reason))\<rparr>"
  from app have few: "int (length (job_events s)) < maxJobEvents l"
    and s': "s' = (update_row i f s)\<lparr>job_events := job_events s @ [e]\<rparr>"
    by (simp_all add: append_job_event_Inr e_def)
  have jobs: "jobs s' = jobs (update_row i f s)" "job_idempotency s' = job_idempotency s" "job_events s' = job_events s @ [e]"
    using s' by simp_all
  have last: "last_event s' j = (if j = i then Some e else last_event s j)" for j
    by (simp add: last_event_def jobs e_def)
  have "event_ok digest e" using row now reason mem ident by (simp add: e_def event_ok_def row_ok_def)
  moreover have "row_ok q \<and> reported s' q" if "q \<in> set (jobs s')" for q
    using that rows(2) [of q] row ok ident mem unfolding jobs(1)
    by (auto simp: store_ok_def reported_def last e_def)
  moreover have "\<exists>q \<in> set (jobs s'). row_jobId q = j \<and> row_enqueueFingerprint q = p" if "job_idempotency s' k = Some (j, p)" for k j p
  proof -
    from that ok obtain q where q: "q \<in> set (jobs s)" "row_jobId q = j" "row_enqueueFingerprint q = p"
      unfolding store_ok_def jobs by blast
    show ?thesis
    proof (cases "j = i")
      case True
      with q unique_row [OF ok r] have "q = r" by blast
      with q ident show ?thesis unfolding jobs(1) by (intro bexI [of _ "f r"]) (simp_all add: rows(2))
    next
      case False
      with q show ?thesis unfolding jobs(1) by (intro bexI [of _ q]) (simp_all add: rows(2))
    qed
  qed
  moreover have "map event_cursor (job_events s') = [1..<Suc (length (job_events s'))]"
    using ok by (simp add: store_ok_def jobs e_def)
  ultimately show ?thesis
    using ok few rows(1) by (auto simp: store_ok_def jobs)
qed

lemma validate_enqueue_input_Inr [result_simps]:
  "validate_enqueue_input i = Inr u \<longleftrightarrow>
     identifier_ok (enq_idempotencyKey i) 500 \<and> identifier_ok (enq_jobId i) 200 \<and> identifier_ok (enq_missionId i) 200 \<and>
     identifier_ok (enq_taskId i) 200 \<and> safe_integer (enq_priority i) \<and> 0 \<le> enq_priority i \<and> enq_priority i \<le> 100 \<and>
     safe_integer (enq_maxAttempts i) \<and> 1 \<le> enq_maxAttempts i \<and> enq_maxAttempts i \<le> 100 \<and>
     date_range (enq_availableAt i) \<and> date_range (enq_createdAt i) \<and> enq_createdAt i \<le> enq_availableAt i \<and>
     artifact_ok (enq_payload i)"
  by (auto simp: validate_enqueue_input_def result_simps)

lemma new_row_ok: "validate_enqueue_input i = Inr () \<Longrightarrow> row_ok (new_row i p)"
  by (simp add: validate_enqueue_input_Inr row_ok_def new_row_def holds_lease_def)

lemma find_row_snoc:
  "find_row s (row_jobId r) = None \<Longrightarrow>
     find_row (s\<lparr>jobs := jobs s @ [r]\<rparr>) j = (if j = row_jobId r then Some r else find_row s j)"
proof -
  have "find (\<lambda>q. row_jobId q = j) (rs @ [r]) =
      (case find (\<lambda>q. row_jobId q = j) rs of Some q \<Rightarrow> Some q | None \<Rightarrow> if row_jobId r = j then Some r else None)" for rs
    by (induction rs) auto
  then show "find_row s (row_jobId r) = None \<Longrightarrow> ?thesis"
    by (auto simp: find_row_def split: option.split)
qed

lemma insert_ok:
  assumes ok: "store_ok l digest s" and valid: "validate_enqueue_input i = Inr ()" and new: "find_row s (enq_jobId i) = None"
    and room: "int (length (jobs s)) < maxJobs l"
    and app: "append_job_event l digest (remember_key i p (s\<lparr>jobs := jobs s @ [new_row i p]\<rparr>))
      (enq_missionId i) (enq_jobId i) Enqueued JobPending 0 (enq_createdAt i) None = Inr s'"
  shows "store_ok l digest s'"
proof -
  define e where "e = \<lparr>event_cursor = Suc (length (job_events s)), event_missionId = enq_missionId i,
    event_jobId = enq_jobId i, event_type = Enqueued, event_status = JobPending, event_generation = 0,
    event_occurredAt = enq_createdAt i, event_reasonCode = None,
    event_hash = digest (canonicalize (job_event_json (enq_missionId i) (enq_jobId i) Enqueued JobPending 0 (enq_createdAt i) None))\<rparr>"
  from app have few: "int (length (job_events s)) < maxJobEvents l"
    and s': "jobs s' = jobs s @ [new_row i p]" "job_events s' = job_events s @ [e]"
      "job_idempotency s' = (job_idempotency s)((enq_missionId i, enq_idempotencyKey i) \<mapsto> (enq_jobId i, p))"
    by (simp_all add: append_job_event_Inr remember_key_def e_def)
  have last: "last_event s' j = (if j = enq_jobId i then Some e else last_event s j)" for j
    by (simp add: last_event_def s' e_def)
  have row: "row_jobId (new_row i p) = enq_jobId i" "row_ok (new_row i p)"
    using valid by (simp_all add: new_row_ok) (simp add: new_row_def)
  have fresh: "enq_jobId i \<notin> row_jobId ` set (jobs s)" using new by (simp add: find_row_None)
  have "event_ok digest e" using valid by (simp add: e_def event_ok_def validate_enqueue_input_Inr)
  moreover have "reported s' (new_row i p)" by (simp add: reported_def last row) (simp add: e_def new_row_def)
  moreover have "reported s' q" if "q \<in> set (jobs s)" for q
    using ok that fresh by (auto simp: store_ok_def reported_def last image_iff)
  moreover have "\<exists>q \<in> set (jobs s'). row_jobId q = j \<and> row_enqueueFingerprint q = q'" if "job_idempotency s' k = Some (j, q')" for k j q'
  proof (cases "k = (enq_missionId i, enq_idempotencyKey i)")
    case True
    with that show ?thesis by (auto simp: s' new_row_def)
  next
    case False
    with that ok show ?thesis unfolding s' store_ok_def by (simp del: split_paired_All)
  qed
  moreover have "map event_cursor (job_events s') = [1..<Suc (length (job_events s'))]"
    using ok by (simp add: store_ok_def s' e_def)
  ultimately show ?thesis
    using ok few room row fresh by (simp add: store_ok_def s' ball_Un del: split_paired_All)
qed

lemma rekey_ok:
  assumes ok: "store_ok l digest s" and r: "find_row s (enq_jobId i) = Some r" "row_enqueueFingerprint r = p"
  shows "store_ok l digest (remember_key i p s)"
proof -
  have "\<exists>q \<in> set (jobs s). row_jobId q = j \<and> row_enqueueFingerprint q = q'"
    if "job_idempotency (remember_key i p s) k = Some (j, q')" for k j q'
  proof (cases "k = (enq_missionId i, enq_idempotencyKey i)")
    case True
    with that find_row_Some [OF r(1)] r(2) show ?thesis by (auto simp: remember_key_def)
  next
    case False
    with that ok show ?thesis unfolding remember_key_def store_ok_def by (simp del: split_paired_All)
  qed
  with ok show ?thesis by (simp add: store_ok_def reported_def del: split_paired_All)
qed

lemma store_step_ok: "store_step l digest s s' \<Longrightarrow> store_ok l digest s \<Longrightarrow> store_ok l digest s'"
  by (induction rule: store_step.induct) (blast intro: touch_ok insert_ok rekey_ok)+

text \<open>A step moves one row at most, and never removes one.\<close>

lemma store_step_rows:
  assumes "store_step l digest s s'" and "store_ok l digest s" and "find_row s j = Some q"
  shows "\<exists>q'. find_row s' j = Some q' \<and> (q' = q \<or> row_step q q')"
  using assms
proof (induction rule: store_step.induct)
  case (touch s i r f now reason ty s')
  then show ?case
    using touched_rows(3) [where f = f, OF touch.prems(1) touch.hyps(1,2), of j]
    by (auto simp: append_job_event_Inr)
next
  case (insert i s p s')
  have "row_jobId (new_row i p) = enq_jobId i" by (simp add: new_row_def)
  with insert find_row_snoc [of s "new_row i p" j] show ?case
    by (auto simp: append_job_event_Inr)
qed auto

lemma store_step_keys:
  "store_step l digest s s' \<Longrightarrow> job_idempotency s k = Some v \<Longrightarrow> job_idempotency s' k = Some v"
  by (induction rule: store_step.induct) (auto simp: append_job_event_Inr remember_key_def)

end
