(* ===== verification/DurableSteps.thy ===== *)
theory DurableSteps
  imports DurableMachine
begin

text \<open>
  Every operation of the job queue is a sequence of steps of the state machine, so what holds of
  the steps holds of the queue: the invariant, the order of generations, the end states.
\<close>

abbreviation store_steps :: "durable_limits \<Rightarrow> (json \<Rightarrow> string) \<Rightarrow> job_store \<Rightarrow> job_store \<Rightarrow> bool" where
  "store_steps l digest \<equiv> (store_step l digest)\<^sup>*\<^sup>*"

lemma store_steps_ok: "store_steps l digest s s' \<Longrightarrow> store_ok l digest s \<Longrightarrow> store_ok l digest s'"
  by (induction rule: rtranclp_induct) (auto intro: store_step_ok)

lemma store_steps_rows:
  "store_steps l digest s s' \<Longrightarrow> store_ok l digest s \<Longrightarrow> find_row s j = Some q \<Longrightarrow>
     \<exists>q'. find_row s' j = Some q' \<and> row_step\<^sup>*\<^sup>* q q'"
proof (induction rule: rtranclp_induct)
  case (step s1 s2)
  then obtain q1 where q1: "find_row s1 j = Some q1" "row_step\<^sup>*\<^sup>* q q1" by auto
  have "store_ok l digest s1" using step.hyps(1) step.prems(1) by (rule store_steps_ok)
  from store_step_rows [OF step.hyps(2) this q1(1)] q1(2) show ?case
    by (auto intro: rtranclp.rtrancl_into_rtrancl)
qed auto

lemma row_steps_generation: "row_step\<^sup>*\<^sup>* q q' \<Longrightarrow> row_leaseGeneration q \<le> row_leaseGeneration q'"
  by (induction rule: rtranclp_induct) (auto dest: row_step_generation)

lemma row_steps_identity:
  "row_step\<^sup>*\<^sup>* q q' \<Longrightarrow> row_jobId q' = row_jobId q \<and> row_missionId q' = row_missionId q \<and> row_taskId q' = row_taskId q \<and>
     row_maxAttempts q' = row_maxAttempts q \<and> row_payload q' = row_payload q \<and> row_enqueueFingerprint q' = row_enqueueFingerprint q"
  by (induction rule: rtranclp_induct) (auto dest: row_step_identity)

lemma row_steps_terminal: "row_step\<^sup>*\<^sup>* q q' \<Longrightarrow> terminal (row_status q) \<Longrightarrow> q' = q"
  by (induction rule: rtranclp_induct) (auto dest: row_step_terminal)

lemma row_steps_cancelling:
  "row_step\<^sup>*\<^sup>* q q' \<Longrightarrow> row_status q = JobCancelling \<Longrightarrow> q' = q \<or> row_status q' = JobCancelled"
proof (induction rule: rtranclp_induct)
  case (step y z)
  then show ?case
    using row_step_cancelling [OF step.hyps(2)] row_step_terminal [OF step.hyps(2)] by (auto simp: terminal_def)
qed simp

section \<open>Reading a job\<close>

lemma require_job_Inr:
  "require_job s i = Inr j \<Longrightarrow> \<exists>r. find_row s i = Some r \<and> decode_job_row r = Inr j \<and> j = shown_job r"
  by (auto simp: require_job_def dest: decode_job_row_shown split: option.splits)

lemma return_job_Inr: "return_job s i = Inr (j, s') \<longleftrightarrow> s' = s \<and> require_job s i = Inr j"
  by (auto simp: return_job_def and_then_Inr)

lemma return_job_row: "return_job s i = Inr (j, s') \<Longrightarrow> s' = s \<and> (\<exists>r. find_row s i = Some r \<and> j = shown_job r)"
  by (auto simp: return_job_Inr dest: require_job_Inr)

section \<open>Leaving the running state\<close>

lemma leave_running_step:
  assumes "leave_running l digest st ty (shown_job r) now reason s = Inr (j, s')"
    and "find_row s (row_jobId r) = Some r" and "row_step r (clear_lease st now r)" and "date_range now"
  shows "store_step l digest s s'"
    and "jobs s' = jobs (update_row (row_jobId r) (clear_lease st now) s)"
    and "find_row s' (row_jobId r) = Some (clear_lease st now r) \<Longrightarrow> j = shown_job (clear_lease st now r)"
proof -
  from assms(1) obtain s1 where
    r: "reason_code_pattern reason" and
    app: "append_job_event l digest (update_row (row_jobId r) (clear_lease st now) s) (row_missionId r) (row_jobId r) ty
       st (row_leaseGeneration r) now (Some reason) = Inr s1"
    and ret: "return_job s1 (row_jobId r) = Inr (j, s')"
    by (auto simp: leave_running_def result_simps)
  have s': "s' = s1" "\<exists>q. find_row s1 (row_jobId r) = Some q \<and> j = shown_job q"
    using return_job_row [OF ret] by auto
  have frame: "row_status (clear_lease st now r) = st" "row_leaseGeneration (clear_lease st now r) = row_leaseGeneration r"
    by (simp_all add: clear_lease_def)
  show "store_step l digest s s'"
    using store_step.touch [where f = "clear_lease st now" and reason = "Some reason", OF assms(2,3,4)] r app s'(1)
    by (simp add: frame)
  show "jobs s' = jobs (update_row (row_jobId r) (clear_lease st now) s)"
    using app s'(1) by (simp add: append_job_event_Inr)
  show "find_row s' (row_jobId r) = Some (clear_lease st now r) \<Longrightarrow> j = shown_job (clear_lease st now r)"
    using s' by simp
qed

lemma find_row_jobs: "jobs s = jobs s' \<Longrightarrow> find_row s i = find_row s' i"
  by (simp add: find_row_def)

lemma leave_all_steps:
  assumes "leave_all (\<lambda>j. leave_running l digest st ty j now reason) rs s = Inr s'"
    and "store_ok l digest s" and "distinct (map row_jobId rs)" and "date_range now"
    and "\<forall>r \<in> set rs. find_row s (row_jobId r) = Some r \<and> row_step r (clear_lease st now r)"
  shows "store_steps l digest s s' \<and>
    (\<forall>i. find_row s' i = (if i \<in> row_jobId ` set rs then map_option (clear_lease st now) (find_row s i) else find_row s i))"
  using assms
proof (induction rs arbitrary: s)
  case (Cons r rs)
  from Cons.prems(1) obtain j j' s1 where j: "decode_job_row r = Inr j"
    and one: "leave_running l digest st ty j now reason s = Inr (j', s1)"
    and rest: "leave_all (\<lambda>j. leave_running l digest st ty j now reason) rs s1 = Inr s'"
    by (auto simp: and_then_Inr)
  have r: "find_row s (row_jobId r) = Some r" "row_step r (clear_lease st now r)" using Cons.prems(5) by auto
  note one' = one [unfolded decode_job_row_shown [OF j]]
  note step = leave_running_step [OF one' r Cons.prems(4)]
  have ok1: "store_ok l digest s1" using store_step_ok [OF step(1) Cons.prems(2)] .
  have rows: "find_row s1 i = (if i = row_jobId r then Some (clear_lease st now r) else find_row s i)" for i
    using touched_rows(3) [where f = "clear_lease st now", OF Cons.prems(2) r] find_row_jobs [OF step(2)] by simp
  have "\<forall>q \<in> set rs. find_row s1 (row_jobId q) = Some q \<and> row_step q (clear_lease st now q)"
    using Cons.prems(3,5) rows by (auto simp: image_iff)
  from Cons.IH [OF rest ok1 _ Cons.prems(4) this] Cons.prems(3)
  have ih: "store_steps l digest s1 s'"
    "find_row s' i = (if i \<in> row_jobId ` set rs then map_option (clear_lease st now) (find_row s1 i) else find_row s1 i)" for i
    by auto
  have "store_steps l digest s s'" using step(1) ih(1) by (rule converse_rtranclp_into_rtranclp)
  moreover have "row_jobId r \<notin> row_jobId ` set rs" using Cons.prems(3) by (simp add: image_iff)
  ultimately show ?case using ih(2) rows r(1) by auto
qed simp

section \<open>Maintenance and claim\<close>

lemma distinct_sorted_rows: "distinct (map row_jobId (jobs s)) \<Longrightarrow> distinct (map row_jobId (js_sort cmp (filter P (jobs s))))"
proof -
  assume d: "distinct (map row_jobId (jobs s))"
  have "mset (map row_jobId (js_sort cmp (filter P (jobs s)))) = mset (map row_jobId (filter P (jobs s)))" by simp
  moreover have "distinct (map row_jobId (filter P (jobs s)))" using d by (rule distinct_map_filter)
  ultimately show ?thesis by (metis mset_eq_imp_distinct_iff)
qed

lemma maintain_steps:
  assumes "maintain_expired_jobs l digest now s = Inr s'" and ok: "store_ok l digest s" and now: "date_range now"
  shows "store_steps l digest s s'"
proof -
  from assms(1) obtain s1 where
    1: "leave_all (\<lambda>j. leave_running l digest JobBlocked Blocked j now ''attempts_exhausted'') (expired_exhausted now s) s = Inr s1"
    and 2: "leave_all (\<lambda>j. leave_running l digest JobCancelled Cancelled j now ''cancel_lease_expired'') (expired_cancelling now s1) s1 = Inr s'"
    by (auto simp: maintain_expired_jobs_def and_then_Inr block_running_job_def cancel_running_job_def)
  have d: "distinct (map row_jobId (jobs s))" using ok by (simp add: store_ok_def)
  have "store_steps l digest s s1"
    using leave_all_steps [OF 1 ok _ now] distinct_sorted_rows [OF d] find_row_mem [OF d] now
    by (auto simp: expired_exhausted_def intro: row_step.block)
  moreover from store_steps_ok [OF this ok] have ok1: "store_ok l digest s1" .
  then have d1: "distinct (map row_jobId (jobs s1))" by (simp add: store_ok_def)
  have "row_step r (clear_lease JobCancelled now r)" if "row_status r = JobCancelling" for r
    using that now by (intro row_step.cancel) (simp_all add: holds_lease_def)
  then have "store_steps l digest s1 s'"
    using leave_all_steps [OF 2 ok1 _ now] distinct_sorted_rows [OF d1] find_row_mem [OF d1]
    by (auto simp: expired_cancelling_def)
  ultimately show ?thesis by (rule rtranclp_trans)
qed

lemma comparator_by: "comparator (\<lambda>a b. code_unit_compare (f a) (f b))"
  by unfold_locales (auto simp: code_units.sign intro: code_units.trans)

lemma comparator_down: "comparator (\<lambda>a b. (f b :: int) - f a)"
  by unfold_locales auto

interpretation by_claim: comparator claim_order
proof -
  have "claim_order = (\<lambda>a b.
      if code_unit_compare (iso_text (row_availableAt a)) (iso_text (row_availableAt b)) \<noteq> 0
      then code_unit_compare (iso_text (row_availableAt a)) (iso_text (row_availableAt b))
      else if row_priority b - row_priority a \<noteq> 0 then row_priority b - row_priority a
      else if code_unit_compare (iso_text (row_createdAt a)) (iso_text (row_createdAt b)) \<noteq> 0
      then code_unit_compare (iso_text (row_createdAt a)) (iso_text (row_createdAt b))
      else code_unit_compare (row_jobId a) (row_jobId b))"
    by (simp only: fun_eq_iff claim_order_def Let_def time_compare_def by_job_id_def simp_thms)
  moreover have "comparator \<dots>"
    by (rule lexicographic [OF comparator_by lexicographic [OF comparator_down lexicographic [OF comparator_by comparator_by]]])
  ultimately show "comparator claim_order" by (simp only:)
qed

lemma claim_candidate_Some:
  assumes "claim_candidate now s = Some r"
  shows "r \<in> set (jobs s)" and "claimable now r"
    and "q \<in> set (jobs s) \<Longrightarrow> claimable now q \<Longrightarrow> claim_order r q \<le> 0"
proof -
  from assms obtain rs where sorted: "js_sort claim_order (filter (claimable now) (jobs s)) = r # rs"
    by (auto simp: claim_candidate_def split: list.splits)
  then have "r \<in> set (js_sort claim_order (filter (claimable now) (jobs s)))" by simp
  then show "r \<in> set (jobs s)" "claimable now r" by simp_all
  show "claim_order r q \<le> 0" if "q \<in> set (jobs s)" "claimable now q"
    using by_claim.sort_least [OF _ sorted, of q] that by simp
qed

lemma claim_candidate_None: "claim_candidate now s = None \<longleftrightarrow> (\<forall>r \<in> set (jobs s). \<not> claimable now r)"
proof -
  have "claim_candidate now s = None \<longleftrightarrow> js_sort claim_order (filter (claimable now) (jobs s)) = []"
    by (simp add: claim_candidate_def split: list.split)
  also have "\<dots> \<longleftrightarrow> set (js_sort claim_order (filter (claimable now) (jobs s))) = {}" by (simp only: set_empty)
  finally show ?thesis by auto
qed

lemma validate_claim_input_Inr [result_simps]:
  "validate_claim_input l w now ms = Inr u \<longleftrightarrow>
     identifier_ok w 200 \<and> date_range now \<and> safe_integer ms \<and> 1 \<le> ms \<and> ms \<le> maxLeaseMs l"
  by (auto simp: validate_claim_input_def result_simps)

text \<open>What a claim does: maintenance, then a lease on the first candidate of the maintained queue.\<close>

lemma claim_job_cases:
  assumes "claim_job l digest hash_text w now ms token s = Inr (out, s')" and ok: "store_ok l digest s"
    and hash: "\<And>t. sha256_pattern (hash_text t)"
  obtains (idle) s1 where "store_steps l digest s s1" "claim_candidate now s1 = None" "out = None" "s' = s1"
      "maintain_expired_jobs l digest now s = Inr s1"
  | (leased) s1 r ls where "maintain_expired_jobs l digest now s = Inr s1" "store_steps l digest s s1"
      "claim_candidate now s1 = Some r" "find_row s1 (row_jobId r) = Some r"
      "row_step r (grant_lease (row_attemptCount r + 1) (row_leaseGeneration r + 1) w (hash_text token) (now + ms) now r)"
      "store_step l digest s1 s'" "out = Some ls"
      "find_row s' (row_jobId r) =
         Some (grant_lease (row_attemptCount r + 1) (row_leaseGeneration r + 1) w (hash_text token) (now + ms) now r)"
      "ls = \<lparr>lease_jobId = row_jobId r, lease_missionId = row_missionId r, lease_taskId = row_taskId r, lease_workerId = w,
        lease_attempt = row_attemptCount r + 1, lease_generation = row_leaseGeneration r + 1, lease_token = token,
        lease_expiresAt = now + ms, lease_payload = row_payload r\<rparr>"
proof -
  from assms(1) obtain s1 where valid: "date_range now" "date_range (now + ms)"
    and maint: "maintain_expired_jobs l digest now s = Inr s1"
    and rest: "(case claim_candidate now s1 of None \<Rightarrow> Inr (None, s1)
       | Some r \<Rightarrow> and_then (decode_job_row r) (\<lambda>c. claim_row l digest hash_text w now (now + ms) token c s1)) = Inr (out, s')"
    by (auto simp: claim_job_def result_simps)
  have steps: "store_steps l digest s s1" using maintain_steps [OF maint ok valid(1)] .
  note ok1 = store_steps_ok [OF steps ok]
  show ?thesis
  proof (cases "claim_candidate now s1")
    case None
    with rest show ?thesis by (intro idle [OF steps None _ _ maint]) simp_all
  next
    case (Some r)
    note cand = claim_candidate_Some [OF Some]
    have row: "row_ok r" using cand(1) ok1 by (simp add: store_ok_def)
    have found: "find_row s1 (row_jobId r) = Some r" using find_row_mem cand(1) ok1 by (simp add: store_ok_def)
    have live: "row_status r \<in> {JobPending, JobRetryWait, JobRunning}" using cand(2) by (auto simp: claimable_def)
    define g where "g = grant_lease (row_attemptCount r + 1) (row_leaseGeneration r + 1) w (hash_text token) (now + ms) now"
    from rest Some decode_row_ok [OF row]
    have "claim_row l digest hash_text w now (now + ms) token (shown_job r) s1 = Inr (out, s')" by simp
    then have few: "row_attemptCount r < row_maxAttempts r"
      and app: "append_job_event l digest (update_row (row_jobId r) g s1) (row_missionId r) (row_jobId r)
          (if row_status r = JobRunning then Reclaimed else Claimed) JobRunning (row_leaseGeneration r + 1) now
          (if row_status r = JobRunning then Some ''lease_expired'' else None) = Inr s'"
      and out: "out = Some \<lparr>lease_jobId = row_jobId r, lease_missionId = row_missionId r, lease_taskId = row_taskId r,
        lease_workerId = w, lease_attempt = row_attemptCount r + 1, lease_generation = row_leaseGeneration r + 1,
        lease_token = token, lease_expiresAt = now + ms, lease_payload = row_payload r\<rparr>"
      by (auto simp: claim_row_def Let_def corrupt_def and_then_Inr g_def split: if_splits)
    have step: "row_step r (g r)" unfolding g_def using live few hash valid by (intro row_step.claim)
    have frame: "row_status (g r) = JobRunning" "row_leaseGeneration (g r) = row_leaseGeneration r + 1"
      by (simp_all add: g_def grant_lease_def)
    have "store_step l digest s1 s'"
      by (rule store_step.touch [where f = g and r = r, OF found step valid(1)])
         (use app in \<open>auto simp add: frame split: if_splits\<close>)
    moreover have "find_row s' (row_jobId r) = Some (g r)"
      using touched_rows(3) [where f = g, OF ok1 found step, of "row_jobId r"] app
      by (simp add: append_job_event_Inr)
    ultimately show ?thesis
      using leased [OF maint steps Some found _ _ out _ refl] step by (simp add: g_def)
  qed
qed

end
