(* ===== verification/DurableSettle.thy ===== *)
theory DurableSettle
  imports DurableSteps
begin

text \<open>
  Enqueue, heartbeat, settlement and cancellation as steps of the state machine, with the row each
  one leaves behind; then the queue as one step relation over all its operations, and the fencing
  of leases that have been superseded.
\<close>

definition lease_valid :: "(string \<Rightarrow> string) \<Rightarrow> job_lease \<Rightarrow> int \<Rightarrow> job_row \<Rightarrow> bool" where
  "lease_valid hash_text ls now r \<longleftrightarrow>
     row_missionId r = lease_missionId ls \<and> row_taskId r = lease_taskId ls \<and>
     row_leaseWorkerId r = Some (lease_workerId ls) \<and> row_leaseGeneration r = lease_generation ls \<and>
     row_leaseTokenHash r = Some (hash_text (lease_token ls)) \<and>
     (\<exists>t. row_leaseExpiresAt r = Some t \<and> now < t) \<and> holds_lease (row_status r)"

lemma require_valid_lease_Inr:
  assumes "require_valid_lease hash_text ls now True s = Inr j"
  shows "\<exists>r. find_row s (lease_jobId ls) = Some r \<and> j = shown_job r \<and> lease_valid hash_text ls now r"
proof -
  from assms obtain j' where j': "require_job s (lease_jobId ls) = Inr j'"
    by (auto simp: require_valid_lease_def and_then_Inr)
  from require_job_Inr [OF this] obtain r where r: "find_row s (lease_jobId ls) = Some r" "j' = shown_job r" by auto
  with assms j' have "j = shown_job r \<and> lease_valid hash_text ls now r"
    by (auto simp: require_valid_lease_def rejected_def lease_valid_def holds_lease_def split: if_splits option.splits)
  with r show ?thesis by blast
qed

text \<open>A row is touched and read back.\<close>

lemma touch_step:
  assumes ok: "store_ok l digest s" and r: "find_row s i = Some r" and step: "row_step r (f r)" and now: "date_range now"
    and reason: "\<And>x. reason = Some x \<Longrightarrow> reason_code_pattern x"
    and app: "append_job_event l digest (update_row i f s) (row_missionId r) i ty st g now reason = Inr s1"
    and st: "row_status (f r) = st" "row_leaseGeneration (f r) = g"
  shows "store_step l digest s s1" and "find_row s1 i = Some (f r)"
    and "return_job s1 i = Inr (j, s') \<Longrightarrow> s' = s1 \<and> j = shown_job (f r)"
proof -
  show "store_step l digest s s1"
    using store_step.touch [where f = f and reason = reason, OF r step now reason] app st by simp
  show row: "find_row s1 i = Some (f r)"
    using touched_rows(3) [where f = f, OF ok r step, of i] app by (simp add: append_job_event_Inr)
  show "return_job s1 i = Inr (j, s') \<Longrightarrow> s' = s1 \<and> j = shown_job (f r)"
    using row by (auto dest: return_job_row)
qed

text \<open>The row \<open>i\<close> moved from \<open>r\<close> to \<open>r'\<close> in one step of the tables, and the caller sees \<open>r'\<close>.\<close>

definition moved :: "durable_limits \<Rightarrow> (json \<Rightarrow> string) \<Rightarrow> string \<Rightarrow> job_row \<Rightarrow> job_row \<Rightarrow> durable_job \<Rightarrow> job_store \<Rightarrow> job_store \<Rightarrow> bool" where
  "moved l digest i r r' j s s' \<longleftrightarrow> find_row s i = Some r \<and> row_step r r' \<and> store_step l digest s s' \<and>
     find_row s' i = Some r' \<and> j = shown_job r'"

lemma leave_running_moved:
  assumes ok: "store_ok l digest s" and r: "find_row s i = Some r" and step: "row_step r (clear_lease st now r)"
    and now: "date_range now" and leave: "leave_running l digest st ty (shown_job r) now reason s = Inr (j, s')"
  shows "moved l digest i r (clear_lease st now r) j s s'"
proof -
  have id: "row_jobId r = i" using find_row_Some [OF r] by simp
  note moves = leave_running_step [OF leave r [folded id] step now]
  have "find_row s' i = Some (clear_lease st now r)"
    using touched_rows(3) [where f = "clear_lease st now", OF ok r step, of i] find_row_jobs [OF moves(2)] by (simp add: id)
  with moves id r step show ?thesis by (auto simp: moved_def)
qed

lemma leave_steps:
  "holds_lease (row_status r) \<Longrightarrow> date_range now \<Longrightarrow> row_step r (clear_lease JobCancelled now r)"
  "row_status r = JobRunning \<Longrightarrow> date_range now \<Longrightarrow> row_step r (clear_lease JobBlocked now r)"
  by (auto intro: row_step.intros)

section \<open>Settlement\<close>

text \<open>
  Each settlement needs a valid lease and moves the row of that lease. If a cancellation was
  requested, the job ends as cancelled, whatever the worker reports.
\<close>

definition settled_as :: "(job_row \<Rightarrow> job_row \<Rightarrow> bool) \<Rightarrow> durable_limits \<Rightarrow> (json \<Rightarrow> string) \<Rightarrow> (string \<Rightarrow> string)
    \<Rightarrow> job_lease \<Rightarrow> int \<Rightarrow> durable_job \<Rightarrow> job_store \<Rightarrow> job_store \<Rightarrow> bool" where
  "settled_as P l digest hash_text ls now j s s' \<longleftrightarrow>
     (\<exists>r r'. moved l digest (lease_jobId ls) r r' j s s' \<and> lease_valid hash_text ls now r \<and>
       (if row_status r = JobCancelling then r' = clear_lease JobCancelled now r else row_status r = JobRunning \<and> P r r'))"

lemma settled_cancelling:
  "moved l digest (lease_jobId ls) r (clear_lease JobCancelled now r) j s s' \<Longrightarrow> lease_valid hash_text ls now r \<Longrightarrow>
     row_status r = JobCancelling \<Longrightarrow> settled_as P l digest hash_text ls now j s s'"
  by (auto simp: settled_as_def)

lemma settled_running:
  "moved l digest (lease_jobId ls) r r' j s s' \<Longrightarrow> lease_valid hash_text ls now r \<Longrightarrow>
     row_status r = JobRunning \<Longrightarrow> P r r' \<Longrightarrow> settled_as P l digest hash_text ls now j s s'"
  unfolding settled_as_def by (intro exI [of _ r] exI [of _ r']) simp

lemma cancelled_moved:
  assumes "store_ok l digest s" and "find_row s i = Some r" and "lease_valid hash_text ls now r" and "date_range now"
    and "cancel_running_job l digest (shown_job r) now reason s = Inr (j, s')"
  shows "moved l digest i r (clear_lease JobCancelled now r) j s s'"
  using assms leave_running_moved [OF assms(1,2) leave_steps(1) assms(4)]
  by (auto simp: cancel_running_job_def lease_valid_def)

lemma blocked_moved:
  assumes "store_ok l digest s" and "find_row s i = Some r" and "row_status r = JobRunning" and "date_range now"
    and "block_running_job l digest (shown_job r) now reason s = Inr (j, s')"
  shows "moved l digest i r (clear_lease JobBlocked now r) j s s'"
  using assms leave_running_moved [OF assms(1,2) leave_steps(2) assms(4)]
  by (auto simp: block_running_job_def)

lemma lease_status: "lease_valid hash_text ls now r \<Longrightarrow> row_status r \<noteq> JobCancelling \<Longrightarrow> row_status r = JobRunning"
  by (auto simp: lease_valid_def holds_lease_def)

lemma settle_success_as:
  assumes ok: "store_ok l digest s" and settle: "settle_job_success l digest hash_text ls res now s = Inr (j, s')"
  shows "settled_as (\<lambda>r r'. r' = (clear_lease JobSucceeded now r)
     \<lparr>row_resultArtifactId := Some (artifactId res), row_resultSha256 := Some (sha256 res)\<rparr>) l digest hash_text ls now j s s'"
proof -
  define f where "f r = (clear_lease JobSucceeded now r)
     \<lparr>row_resultArtifactId := Some (artifactId res), row_resultSha256 := Some (sha256 res)\<rparr>" for r
  from settle obtain j0 where now: "date_range now" and res: "artifact_ok res"
    and lease: "require_valid_lease hash_text ls now True s = Inr j0"
    and rest: "(if status j0 = JobCancelling then cancel_running_job l digest j0 now ''cancellation_won'' s
     else and_then (append_job_event l digest (update_row (jobId j0) f s)
            (job_missionId j0) (jobId j0) Succeeded JobSucceeded (lease_generation ls) now None) (\<lambda>s'.
          return_job s' (jobId j0))) = Inr (j, s')"
    unfolding settle_job_success_def f_def by (auto simp: result_simps)
  from require_valid_lease_Inr [OF lease] obtain r where
    r: "find_row s (lease_jobId ls) = Some r" "j0 = shown_job r" "lease_valid hash_text ls now r" by auto
  have id: "row_jobId r = lease_jobId ls" using find_row_Some [OF r(1)] by simp
  show ?thesis
  proof (cases "row_status r = JobCancelling")
    case True
    with rest r(2) have "cancel_running_job l digest (shown_job r) now ''cancellation_won'' s = Inr (j, s')" by simp
    from settled_cancelling [OF cancelled_moved [OF ok r(1,3) now this] r(3) True] show ?thesis .
  next
    case False
    with r(3) have running: "row_status r = JobRunning" by (rule lease_status)
    have step: "row_step r (f r)" unfolding f_def using running res now by (intro row_step.succeed)
    from rest False r id obtain s1 where
      app: "append_job_event l digest (update_row (lease_jobId ls) f s) (row_missionId r) (lease_jobId ls) Succeeded JobSucceeded
         (lease_generation ls) now None = Inr s1" and ret: "return_job s1 (lease_jobId ls) = Inr (j, s')"
      by (auto simp: and_then_Inr)
    have "row_status (f r) = JobSucceeded" "row_leaseGeneration (f r) = lease_generation ls"
      using r(3) by (simp_all add: f_def clear_lease_def lease_valid_def)
    note t = touch_step [where f = f, OF ok r(1) step now _ app this]
    have "moved l digest (lease_jobId ls) r (f r) j s s'"
      using t(1,2) t(3) [OF _ ret] r(1) step by (auto simp: moved_def)
    from settled_running [OF this r(3) running] show ?thesis by (simp add: f_def)
  qed
qed

lemma settle_retry_as:
  assumes ok: "store_ok l digest s" and settle: "settle_job_retry l digest hash_text ls code delay now s = Inr (j, s')"
  shows "settled_as (\<lambda>r r'.
     if row_attemptCount r < row_maxAttempts r then r' = (clear_lease JobRetryWait now r)\<lparr>row_availableAt := now + delay\<rparr>
     else r' = clear_lease JobBlocked now r) l digest hash_text ls now j s s'"
proof -
  define f where "f r = (clear_lease JobRetryWait now r)\<lparr>row_availableAt := now + delay\<rparr>" for r
  from settle obtain j0 where now: "date_range now" "date_range (now + delay)" and code: "reason_code_pattern code"
    and lease: "require_valid_lease hash_text ls now True s = Inr j0"
    and rest: "(if status j0 = JobCancelling then cancel_running_job l digest j0 now ''cancellation_won'' s
     else if maxAttempts j0 \<le> attemptCount j0 then block_running_job l digest j0 now ''attempts_exhausted'' s
     else and_then (append_job_event l digest (update_row (jobId j0) f s)
            (job_missionId j0) (jobId j0) RetryScheduled JobRetryWait (lease_generation ls) now (Some code)) (\<lambda>s'.
          return_job s' (jobId j0))) = Inr (j, s')"
    unfolding settle_job_retry_def f_def by (auto simp: result_simps)
  from require_valid_lease_Inr [OF lease] obtain r where
    r: "find_row s (lease_jobId ls) = Some r" "j0 = shown_job r" "lease_valid hash_text ls now r" by auto
  have id: "row_jobId r = lease_jobId ls" using find_row_Some [OF r(1)] by simp
  show ?thesis
  proof (cases "row_status r = JobCancelling")
    case True
    with rest r(2) have "cancel_running_job l digest (shown_job r) now ''cancellation_won'' s = Inr (j, s')" by simp
    from settled_cancelling [OF cancelled_moved [OF ok r(1,3) now(1) this] r(3) True] show ?thesis .
  next
    case False
    with r(3) have running: "row_status r = JobRunning" by (rule lease_status)
    show ?thesis
    proof (cases "row_attemptCount r < row_maxAttempts r")
      case exhausted: False
      with rest r(2) False have "block_running_job l digest (shown_job r) now ''attempts_exhausted'' s = Inr (j, s')" by simp
      from settled_running [OF blocked_moved [OF ok r(1) running now(1) this] r(3) running] exhausted show ?thesis by simp
    next
      case few: True
      have step: "row_step r (f r)" unfolding f_def using running few now by (intro row_step.retry)
      from rest False few r id obtain s1 where
        app: "append_job_event l digest (update_row (lease_jobId ls) f s) (row_missionId r) (lease_jobId ls) RetryScheduled
           JobRetryWait (lease_generation ls) now (Some code) = Inr s1" and ret: "return_job s1 (lease_jobId ls) = Inr (j, s')"
        by (auto simp: and_then_Inr)
      have "row_status (f r) = JobRetryWait" "row_leaseGeneration (f r) = lease_generation ls"
        using r(3) by (simp_all add: f_def clear_lease_def lease_valid_def)
      note t = touch_step [where f = f, OF ok r(1) step now(1) _ app this]
      have "moved l digest (lease_jobId ls) r (f r) j s s'"
        using t(1,2) t(3) [OF _ ret] r(1) step code by (auto simp: moved_def)
      from settled_running [OF this r(3) running] few show ?thesis by (simp add: f_def)
    qed
  qed
qed

lemma settle_blocked_as:
  assumes ok: "store_ok l digest s" and settle: "settle_job_blocked l digest hash_text ls code now s = Inr (j, s')"
  shows "settled_as (\<lambda>r r'. r' = clear_lease JobBlocked now r) l digest hash_text ls now j s s'"
proof -
  from settle obtain j0 where now: "date_range now"
    and lease: "require_valid_lease hash_text ls now True s = Inr j0"
    and rest: "(if status j0 = JobCancelling then cancel_running_job l digest j0 now ''cancellation_won'' s
       else block_running_job l digest j0 now code s) = Inr (j, s')"
    by (auto simp: settle_job_blocked_def result_simps)
  from require_valid_lease_Inr [OF lease] obtain r where
    r: "find_row s (lease_jobId ls) = Some r" "j0 = shown_job r" "lease_valid hash_text ls now r" by auto
  show ?thesis
  proof (cases "row_status r = JobCancelling")
    case True
    with rest r(2) have "cancel_running_job l digest (shown_job r) now ''cancellation_won'' s = Inr (j, s')" by simp
    from settled_cancelling [OF cancelled_moved [OF ok r(1,3) now this] r(3) True] show ?thesis .
  next
    case False
    with rest r(2) have block: "block_running_job l digest (shown_job r) now code s = Inr (j, s')" by simp
    note running = lease_status [OF r(3) False]
    from settled_running [OF blocked_moved [OF ok r(1) running now block] r(3) running] show ?thesis by simp
  qed
qed

lemma settle_cancelled_as:
  assumes ok: "store_ok l digest s" and settle: "settle_job_cancelled l digest hash_text ls now s = Inr (j, s')"
  shows "settled_as (\<lambda>r r'. r' = clear_lease JobCancelled now r) l digest hash_text ls now j s s'"
proof -
  from settle obtain j0 where now: "date_range now"
    and lease: "require_valid_lease hash_text ls now True s = Inr j0"
    and rest: "cancel_running_job l digest j0 now ''worker_cancelled'' s = Inr (j, s')"
    by (auto simp: settle_job_cancelled_def result_simps)
  from require_valid_lease_Inr [OF lease] obtain r where
    r: "find_row s (lease_jobId ls) = Some r" "j0 = shown_job r" "lease_valid hash_text ls now r" by auto
  note moves = cancelled_moved [OF ok r(1,3) now rest [unfolded r(2)]]
  show ?thesis
    using settled_cancelling [OF moves r(3)] settled_running [OF moves r(3) lease_status [OF r(3)]]
    by (cases "row_status r = JobCancelling") simp_all
qed

section \<open>Heartbeat, cancellation, enqueue\<close>

lemma heartbeat_as:
  assumes ok: "store_ok l digest s" and beat: "heartbeat_job l digest hash_text ls now ms s = Inr ((st, e), s')"
  shows "\<exists>r. find_row s (lease_jobId ls) = Some r \<and> lease_valid hash_text ls now r \<and>
    (if row_status r = JobCancelling then st = HeartbeatCancelling \<and> s' = s
     else row_status r = JobRunning \<and> st = HeartbeatRunning \<and> e = now + ms \<and> store_step l digest s s' \<and>
       find_row s' (lease_jobId ls) = Some (r\<lparr>row_leaseExpiresAt := Some (now + ms), row_updatedAt := now\<rparr>))"
proof -
  define f where "f r = r\<lparr>row_leaseExpiresAt := Some (now + ms), row_updatedAt := now\<rparr>" for r :: job_row
  from beat obtain j0 where now: "date_range now" "date_range (now + ms)"
    and lease: "require_valid_lease hash_text ls now True s = Inr j0"
    and rest: "(if status j0 = JobCancelling
     then Inr ((HeartbeatCancelling, case leaseExpiresAt j0 of None \<Rightarrow> lease_expiresAt ls | Some t \<Rightarrow> t), s)
     else and_then (append_job_event l digest (update_row (lease_jobId ls) f s)
            (job_missionId j0) (jobId j0) Heartbeat JobRunning (lease_generation ls) now None) (\<lambda>s'.
          Inr ((HeartbeatRunning, now + ms), s'))) = Inr ((st, e), s')"
    unfolding heartbeat_job_def f_def by (auto simp: result_simps)
  from require_valid_lease_Inr [OF lease] obtain r where
    r: "find_row s (lease_jobId ls) = Some r" "j0 = shown_job r" "lease_valid hash_text ls now r" by auto
  have id: "row_jobId r = lease_jobId ls" using find_row_Some [OF r(1)] by simp
  show ?thesis
  proof (cases "row_status r = JobCancelling")
    case True
    with rest r show ?thesis by (intro exI [of _ r]) simp
  next
    case False
    with r(3) have running: "row_status r = JobRunning" by (rule lease_status)
    have step: "row_step r (f r)" unfolding f_def using running now by (intro row_step.heartbeat)
    from rest False r id have
      app: "append_job_event l digest (update_row (lease_jobId ls) f s) (row_missionId r) (lease_jobId ls) Heartbeat JobRunning
         (lease_generation ls) now None = Inr s'" and out: "st = HeartbeatRunning" "e = now + ms"
      by (auto simp: and_then_Inr)
    have "row_status (f r) = JobRunning" "row_leaseGeneration (f r) = lease_generation ls"
      using r(3) running by (simp_all add: f_def lease_valid_def)
    note t = touch_step(1,2) [where f = f, OF ok r(1) step now(1) _ app this]
    show ?thesis using r(1,3) running out t by (intro exI [of _ r]) (simp add: f_def)
  qed
qed

text \<open>A cancellation ends a waiting job, asks a running one to stop, and leaves the others alone.\<close>

lemma cancel_job_as:
  assumes ok: "store_ok l digest s" and cancel: "cancel_job l digest i now s = Inr (j, s')"
  shows "\<exists>r. find_row s i = Some r \<and>
    (if row_status r \<in> {JobPending, JobRetryWait} then moved l digest i r (r\<lparr>row_status := JobCancelled, row_updatedAt := now\<rparr>) j s s'
     else if row_status r = JobRunning then moved l digest i r (r\<lparr>row_status := JobCancelling, row_updatedAt := now\<rparr>) j s s'
     else s' = s \<and> j = shown_job r)"
proof -
  from cancel obtain j0 where now: "date_range now" and job: "require_job s i = Inr j0"
    and rest: "(if status j0 = JobPending \<or> status j0 = JobRetryWait then request_cancel l digest JobCancelled Cancelled j0 now s
     else if status j0 = JobRunning then request_cancel l digest JobCancelling Cancelling j0 now s
     else Inr (j0, s)) = Inr (j, s')"
    by (auto simp: cancel_job_def result_simps)
  from require_job_Inr [OF job] obtain r where r: "find_row s i = Some r" "j0 = shown_job r" by auto
  have id: "row_jobId r = i" using find_row_Some [OF r(1)] by simp
  have request: "moved l digest i r (r\<lparr>row_status := st, row_updatedAt := now\<rparr>) j s s'"
    if req: "request_cancel l digest st ty (shown_job r) now s = Inr (j, s')"
      and step: "row_step r (r\<lparr>row_status := st, row_updatedAt := now\<rparr>)" for st ty
  proof -
    define f where "f r = r\<lparr>row_status := st, row_updatedAt := now\<rparr>" for r :: job_row
    from req obtain s1 where
      app: "append_job_event l digest (update_row i f s) (row_missionId r) i ty st (row_leaseGeneration r) now (Some ''cancel_requested'') = Inr s1"
      and ret: "return_job s1 i = Inr (j, s')"
      unfolding request_cancel_def f_def by (auto simp: and_then_Inr id)
    have "row_step r (f r)" "row_status (f r) = st" "row_leaseGeneration (f r) = row_leaseGeneration r"
      using step by (simp_all add: f_def)
    note t = touch_step [where f = f, OF ok r(1) this(1) now _ app this(2,3)]
    show ?thesis using t(1,2) t(3) [OF _ ret] r(1) step by (auto simp: moved_def f_def)
  qed
  consider "row_status r \<in> {JobPending, JobRetryWait}" | "row_status r = JobRunning"
    | "row_status r \<notin> {JobPending, JobRetryWait, JobRunning}" by blast
  then show ?thesis
  proof cases
    case 1
    with rest r request [of JobCancelled Cancelled] row_step.cancel_idle [OF 1 now] show ?thesis
      by (intro exI [of _ r]) auto
  next
    case 2
    with rest r request [of JobCancelling Cancelling] row_step.request [OF 2 now] show ?thesis
      by (intro exI [of _ r]) auto
  next
    case 3
    with rest r show ?thesis by (intro exI [of _ r]) auto
  qed
qed

text \<open>Enqueue: a replay reads the job back, a new identifier inserts it.\<close>

lemma enqueue_as:
  assumes ok: "store_ok l digest s" and enq: "enqueue_job l digest i s = Inr (j, s')"
  shows "\<exists>r. find_row s' (enq_jobId i) = Some r \<and> j = shown_job r \<and> row_enqueueFingerprint r = job_fingerprint digest i \<and>
    (s' = s \<or> store_step l digest s s') \<and> (find_row s (enq_jobId i) \<noteq> None \<longrightarrow> find_row s (enq_jobId i) = Some r) \<and>
    (find_row s (enq_jobId i) = None \<longrightarrow> r = new_row i (job_fingerprint digest i)) \<and>
    job_idempotency s' (enq_missionId i, enq_idempotencyKey i) = Some (enq_jobId i, job_fingerprint digest i)"
proof -
  let ?p = "job_fingerprint digest i" and ?k = "(enq_missionId i, enq_idempotencyKey i)"
  from enq have valid: "validate_enqueue_input i = Inr ()" by (auto simp: enqueue_job_def and_then_Inr)
  show ?thesis
  proof (cases "job_idempotency s ?k")
    case known: (Some kp)
    with enq valid have kp: "kp = (enq_jobId i, ?p)" and ret: "return_job s (enq_jobId i) = Inr (j, s')"
      by (auto simp: enqueue_job_def Let_def split: prod.splits if_splits)
    from return_job_row [OF ret] obtain r where r: "find_row s (enq_jobId i) = Some r" "j = shown_job r" "s' = s" by auto
    from ok known kp obtain q where "q \<in> set (jobs s)" "row_jobId q = enq_jobId i" "row_enqueueFingerprint q = ?p"
      unfolding store_ok_def by (simp del: split_paired_All) blast
    with unique_row [OF ok r(1)] have "row_enqueueFingerprint r = ?p" by blast
    with r known kp show ?thesis by (intro exI [of _ r]) simp
  next
    case unknown: None
    show ?thesis
    proof (cases "find_row s (enq_jobId i)")
      case (Some r)
      with enq valid unknown have "row_enqueueFingerprint r = ?p" "s' = remember_key i ?p s" "decode_job_row r = Inr j"
        by (auto simp: enqueue_job_def Let_def and_then_Inr split: if_splits)
      with Some unknown show ?thesis
        by (intro exI [of _ r]) (auto simp: remember_key_def intro: store_step.rekey [unfolded remember_key_def] dest: decode_job_row_shown)
    next
      case None
      from enq valid unknown None obtain s1 where room: "int (length (jobs s)) < maxJobs l"
        and app: "append_job_event l digest (remember_key i ?p (s\<lparr>jobs := jobs s @ [new_row i ?p]\<rparr>))
           (enq_missionId i) (enq_jobId i) Enqueued JobPending 0 (enq_createdAt i) None = Inr s1"
        and ret: "return_job s1 (enq_jobId i) = Inr (j, s')"
        by (auto simp: enqueue_job_def Let_def and_then_Inr not_le split: if_splits)
      have id: "row_jobId (new_row i ?p) = enq_jobId i" "row_enqueueFingerprint (new_row i ?p) = ?p"
        by (simp_all add: new_row_def)
      have row: "find_row s1 (enq_jobId i) = Some (new_row i ?p)"
        using app find_row_snoc [of s "new_row i ?p" "enq_jobId i"] None by (simp add: append_job_event_Inr id)
      moreover have "job_idempotency s1 ?k = Some (enq_jobId i, ?p)"
        using app by (simp add: append_job_event_Inr remember_key_def)
      moreover have "store_step l digest s s1" by (rule store_step.insert [OF valid None unknown room app])
      ultimately show ?thesis
        using return_job_row [OF ret] None id by auto
    qed
  qed
qed

section \<open>The queue as one step relation\<close>

text \<open>Every operation that changes the tables; a failed operation is rolled back and is no step.\<close>

inductive queue_step :: "durable_limits \<Rightarrow> (json \<Rightarrow> string) \<Rightarrow> (string \<Rightarrow> string) \<Rightarrow> job_store \<Rightarrow> job_store \<Rightarrow> bool"
  for l digest hash_text where
  enqueue: "enqueue_job l digest i s = Inr (j, s') \<Longrightarrow> queue_step l digest hash_text s s'"
| claim: "claim_job l digest hash_text w now ms token s = Inr (out, s') \<Longrightarrow> queue_step l digest hash_text s s'"
| heartbeat: "heartbeat_job l digest hash_text ls now ms s = Inr (beat, s') \<Longrightarrow> queue_step l digest hash_text s s'"
| success: "settle_job_success l digest hash_text ls res now s = Inr (j, s') \<Longrightarrow> queue_step l digest hash_text s s'"
| retry: "settle_job_retry l digest hash_text ls code delay now s = Inr (j, s') \<Longrightarrow> queue_step l digest hash_text s s'"
| blocked: "settle_job_blocked l digest hash_text ls code now s = Inr (j, s') \<Longrightarrow> queue_step l digest hash_text s s'"
| cancelled: "settle_job_cancelled l digest hash_text ls now s = Inr (j, s') \<Longrightarrow> queue_step l digest hash_text s s'"
| cancel: "cancel_job l digest i now s = Inr (j, s') \<Longrightarrow> queue_step l digest hash_text s s'"

abbreviation queue_run :: "durable_limits \<Rightarrow> (json \<Rightarrow> string) \<Rightarrow> (string \<Rightarrow> string) \<Rightarrow> job_store \<Rightarrow> job_store \<Rightarrow> bool" where
  "queue_run l digest hash_text \<equiv> (queue_step l digest hash_text)\<^sup>*\<^sup>*"

lemma settled_step: "settled_as P l digest hash_text ls now j s s' \<Longrightarrow> store_steps l digest s s'"
  by (auto simp: settled_as_def moved_def)

lemma claim_steps:
  assumes "claim_job l digest hash_text w now ms token s = Inr (out, s')" and "store_ok l digest s"
    and "\<And>t. sha256_pattern (hash_text t)"
  shows "store_steps l digest s s'"
  using assms by (cases rule: claim_job_cases) (auto intro: rtranclp.rtrancl_into_rtrancl)

lemma queue_step_steps:
  assumes hash: "\<And>t. sha256_pattern (hash_text t)"
  shows "queue_step l digest hash_text s s' \<Longrightarrow> store_ok l digest s \<Longrightarrow> store_steps l digest s s'"
proof (induction rule: queue_step.induct)
  case (claim w now ms token s out s')
  from claim_steps [OF claim.hyps claim.prems hash] show ?case .
next
  case (heartbeat ls now ms s beat s')
  obtain st e where beat: "beat = (st, e)" by force
  from heartbeat_as [OF heartbeat.prems heartbeat.hyps [unfolded beat]] show ?case by (auto split: if_splits)
next
  case (enqueue i s j s')
  from enqueue_as [OF enqueue.prems enqueue.hyps] show ?case by auto
next
  case (cancel i now s j s')
  from cancel_job_as [OF cancel.prems cancel.hyps] show ?case by (auto simp: moved_def split: if_splits)
qed (auto dest: settle_success_as settle_retry_as settle_blocked_as settle_cancelled_as intro: settled_step)

lemma queue_run_steps:
  assumes hash: "\<And>t. sha256_pattern (hash_text t)"
  shows "queue_run l digest hash_text s s' \<Longrightarrow> store_ok l digest s \<Longrightarrow> store_steps l digest s s'"
proof (induction rule: rtranclp_induct)
  case (step s1 s2)
  then have run: "store_steps l digest s s1" by simp
  from queue_step_steps [OF hash step.hyps(2) store_steps_ok [OF run step.prems]] run show ?case by (rule rtranclp_trans [rotated])
qed simp

lemma queue_run_ok:
  "(\<And>t. sha256_pattern (hash_text t)) \<Longrightarrow> queue_run l digest hash_text s s' \<Longrightarrow> store_ok l digest s \<Longrightarrow> store_ok l digest s'"
  by (rule store_steps_ok [OF queue_run_steps])

lemma queue_run_rows:
  "(\<And>t. sha256_pattern (hash_text t)) \<Longrightarrow> queue_run l digest hash_text s s' \<Longrightarrow> store_ok l digest s \<Longrightarrow>
     find_row s i = Some r \<Longrightarrow> \<exists>r'. find_row s' i = Some r' \<and> row_step\<^sup>*\<^sup>* r r'"
  by (rule store_steps_rows [OF queue_run_steps])

text \<open>A lease of an older generation never becomes valid again.\<close>

lemma stale_lease_rejected:
  assumes "find_row s (lease_jobId ls) = Some r" and "lease_generation ls < row_leaseGeneration r"
  shows "require_valid_lease hash_text ls now True s \<noteq> Inr j"
proof
  assume "require_valid_lease hash_text ls now True s = Inr j"
  from require_valid_lease_Inr [OF this] assms show False by (auto simp: lease_valid_def)
qed

lemma store_steps_keys:
  "store_steps l digest s s' \<Longrightarrow> job_idempotency s k = Some v \<Longrightarrow> job_idempotency s' k = Some v"
  by (induction rule: rtranclp_induct) (auto dest: store_step_keys)

lemma enqueue_again:
  assumes "store_ok l digest s" and "validate_enqueue_input i = Inr ()"
    and "job_idempotency s (enq_missionId i, enq_idempotencyKey i) = Some (enq_jobId i, job_fingerprint digest i)"
  shows "\<exists>r. find_row s (enq_jobId i) = Some r \<and> enqueue_job l digest i s = Inr (shown_job r, s)"
proof -
  from assms(1,3) obtain r where r: "r \<in> set (jobs s)" "row_jobId r = enq_jobId i"
    unfolding store_ok_def by (simp del: split_paired_All) blast
  then have "find_row s (enq_jobId i) = Some r" using find_row_mem [of s r] assms(1) by (simp add: store_ok_def)
  moreover have "row_ok r" using r(1) assms(1) by (simp add: store_ok_def)
  ultimately show ?thesis
    using assms(2,3) decode_row_ok by (auto simp: enqueue_job_def Let_def return_job_def require_job_def)
qed

section \<open>Enough room for a claim\<close>

text \<open>Maintenance writes at most one event for each job, so with that much room it does not fail.\<close>

lemma leave_running_total:
  assumes "store_ok l digest s" and "find_row s (row_jobId r) = Some r" and "row_step r (clear_lease st now r)"
    and "date_range now" and "reason_code_pattern reason" and "int (length (job_events s)) < maxJobEvents l"
  shows "\<exists>j s'. leave_running l digest st ty (shown_job r) now reason s = Inr (j, s') \<and>
    length (job_events s') = Suc (length (job_events s))"
proof -
  obtain s1 where app: "append_job_event l digest (update_row (row_jobId r) (clear_lease st now) s) (row_missionId r)
      (row_jobId r) ty st (row_leaseGeneration r) now (Some reason) = Inr s1"
    using assms(6) by (simp add: append_job_event_def)
  have "find_row s1 (row_jobId r) = Some (clear_lease st now r)"
    using touched_rows(3) [where f = "clear_lease st now", OF assms(1-3), of "row_jobId r"] app by (simp add: append_job_event_Inr)
  moreover have "row_ok (clear_lease st now r)"
    using row_step_ok [OF assms(3)] find_row_Some [OF assms(2)] assms(1) by (simp add: store_ok_def)
  ultimately have "return_job s1 (row_jobId r) = Inr (shown_job (clear_lease st now r), s1)"
    using decode_row_ok by (simp add: return_job_def require_job_def)
  moreover have "length (job_events s1) = Suc (length (job_events s))" using app by (auto simp: append_job_event_Inr)
  moreover have "assert_reason_code reason = Inr ()" using assms(5) by (simp add: assert_reason_code_Inr)
  ultimately show ?thesis using app by (simp add: leave_running_def)
qed

lemma leave_all_total:
  assumes "store_ok l digest s" and "distinct (map row_jobId rs)" and "date_range now" and "reason_code_pattern reason"
    and "\<forall>r \<in> set rs. find_row s (row_jobId r) = Some r \<and> row_step r (clear_lease st now r)"
    and "int (length (job_events s) + length rs) \<le> maxJobEvents l"
  shows "\<exists>s'. leave_all (\<lambda>j. leave_running l digest st ty j now reason) rs s = Inr s' \<and>
    length (job_events s') = length (job_events s) + length rs \<and> length (jobs s') = length (jobs s)"
  using assms
proof (induction rs arbitrary: s)
  case (Cons r rs)
  have r: "find_row s (row_jobId r) = Some r" "row_step r (clear_lease st now r)" using Cons.prems(5) by auto
  have ok: "row_ok r" using find_row_Some [OF r(1)] Cons.prems(1) by (simp add: store_ok_def)
  obtain j s1 where one: "leave_running l digest st ty (shown_job r) now reason s = Inr (j, s1)"
    "length (job_events s1) = Suc (length (job_events s))"
    using leave_running_total [OF Cons.prems(1) r Cons.prems(3,4), of ty] Cons.prems(6) by auto
  note step = leave_running_step [OF one(1) r Cons.prems(3)]
  have ok1: "store_ok l digest s1" using store_step_ok [OF step(1) Cons.prems(1)] .
  have rows: "find_row s1 i = (if i = row_jobId r then Some (clear_lease st now r) else find_row s i)" for i
    using touched_rows(3) [where f = "clear_lease st now", OF Cons.prems(1) r] find_row_jobs [OF step(2)] by simp
  have "\<forall>q \<in> set rs. find_row s1 (row_jobId q) = Some q \<and> row_step q (clear_lease st now q)"
    using Cons.prems(2,5) rows by (auto simp: image_iff)
  from Cons.IH [OF ok1 _ Cons.prems(3,4) this] Cons.prems(2,6) one(2) obtain s' where
    "leave_all (\<lambda>j. leave_running l digest st ty j now reason) rs s1 = Inr s'"
    "length (job_events s') = length (job_events s1) + length rs" "length (jobs s') = length (jobs s1)" by auto
  with one decode_row_ok [OF ok] step(2) show ?case by simp
qed simp

lemma cancel_lease_step: "row_status r = JobCancelling \<Longrightarrow> date_range now \<Longrightarrow> row_step r (clear_lease JobCancelled now r)"
  by (intro row_step.cancel) (simp_all add: holds_lease_def)

text \<open>Maintenance succeeds and leaves waiting jobs alone.\<close>

lemma maintain_total:
  assumes ok: "store_ok l digest s" and now: "date_range now"
    and room: "int (length (job_events s)) + 2 * int (length (jobs s)) < maxJobEvents l"
  shows "\<exists>s'. maintain_expired_jobs l digest now s = Inr s' \<and> int (length (job_events s')) < maxJobEvents l \<and>
    (\<forall>i r. find_row s i = Some r \<longrightarrow> \<not> holds_lease (row_status r) \<longrightarrow> find_row s' i = Some r)"
proof -
  let ?block = "\<lambda>j. leave_running l digest JobBlocked Blocked j now ''attempts_exhausted''"
  let ?cancel = "\<lambda>j. leave_running l digest JobCancelled Cancelled j now ''cancel_lease_expired''"
  have d: "distinct (map row_jobId (jobs s))" using ok by (simp add: store_ok_def)
  have few: "length (expired_exhausted now s) \<le> length (jobs s)" by (simp add: expired_exhausted_def)
  have rows: "\<forall>r \<in> set (expired_exhausted now s). find_row s (row_jobId r) = Some r \<and> row_step r (clear_lease JobBlocked now r)"
    using find_row_mem [OF d] now by (auto simp: expired_exhausted_def intro: row_step.block)
  have dx: "distinct (map row_jobId (expired_exhausted now s))" using distinct_sorted_rows [OF d] by (simp add: expired_exhausted_def)
  obtain s1 where 1: "leave_all ?block (expired_exhausted now s) s = Inr s1"
    "length (job_events s1) = length (job_events s) + length (expired_exhausted now s)" "length (jobs s1) = length (jobs s)"
    using leave_all_total [OF ok dx now _ rows, of "''attempts_exhausted''" Blocked] room few by auto
  note steps1 = leave_all_steps [OF 1(1) ok dx now rows]
  have ok1: "store_ok l digest s1" using store_steps_ok steps1 ok by blast
  then have d1: "distinct (map row_jobId (jobs s1))" by (simp add: store_ok_def)
  have few1: "length (expired_cancelling now s1) \<le> length (jobs s1)" by (simp add: expired_cancelling_def)
  have rows1: "\<forall>r \<in> set (expired_cancelling now s1). find_row s1 (row_jobId r) = Some r \<and> row_step r (clear_lease JobCancelled now r)"
    using find_row_mem [OF d1] cancel_lease_step [OF _ now] by (auto simp: expired_cancelling_def)
  have dx1: "distinct (map row_jobId (expired_cancelling now s1))" using distinct_sorted_rows [OF d1] by (simp add: expired_cancelling_def)
  obtain s' where 2: "leave_all ?cancel (expired_cancelling now s1) s1 = Inr s'"
    "length (job_events s') = length (job_events s1) + length (expired_cancelling now s1)"
    using leave_all_total [OF ok1 dx1 now _ rows1, of "''cancel_lease_expired''" Cancelled] room few few1 1(2,3) by auto
  note steps2 = leave_all_steps [OF 2(1) ok1 dx1 now rows1]
  have "find_row s' i = Some r" if r: "find_row s i = Some r" "\<not> holds_lease (row_status r)" for i r
  proof -
    have "i \<notin> row_jobId ` set (expired_exhausted now s)"
      using r unique_row [OF ok r(1)] by (auto simp: expired_exhausted_def holds_lease_def)
    with steps1 r(1) have row1: "find_row s1 i = Some r" by simp
    have "i \<notin> row_jobId ` set (expired_cancelling now s1)"
      using r(2) unique_row [OF ok1 row1] by (auto simp: expired_cancelling_def holds_lease_def)
    with steps2 row1 show ?thesis by simp
  qed
  moreover have "maintain_expired_jobs l digest now s = Inr s'"
    using 1(1) 2(1) by (simp add: maintain_expired_jobs_def block_running_job_def cancel_running_job_def)
  moreover have "int (length (job_events s')) < maxJobEvents l" using 1(2,3) 2(2) few few1 room by linarith
  ultimately show ?thesis by blast
qed

lemma claim_total:
  assumes ok: "store_ok l digest s" and valid: "validate_claim_input l w now ms = Inr ()" "date_range (now + ms)"
    and room: "int (length (job_events s)) + 2 * int (length (jobs s)) < maxJobEvents l"
    and r: "find_row s i = Some r" "row_status r \<in> {JobPending, JobRetryWait}" "text_le (row_availableAt r) now"
  shows "\<exists>ls s'. claim_job l digest hash_text w now ms token s = Inr (Some ls, s')"
proof -
  have now: "date_range now" using valid(1) by (simp add: validate_claim_input_Inr)
  obtain s1 where s1: "maintain_expired_jobs l digest now s = Inr s1" "int (length (job_events s1)) < maxJobEvents l"
    "find_row s1 i = Some r"
    using maintain_total [OF ok now room] r(1,2) by (auto simp: holds_lease_def)
  have "claimable now r" using r(2,3) by (auto simp: claimable_def)
  then have "claim_candidate now s1 \<noteq> None" using find_row_Some [OF s1(3)] by (auto simp: claim_candidate_None)
  then obtain q where q: "claim_candidate now s1 = Some q" by auto
  have ok1: "store_ok l digest s1" using store_steps_ok [OF maintain_steps [OF s1(1) ok now] ok] .
  have row: "row_ok q" using claim_candidate_Some(1) [OF q] ok1 by (simp add: store_ok_def)
  have "row_attemptCount q < row_maxAttempts q"
    using claim_candidate_Some(2) [OF q] row by (auto simp: claimable_def row_ok_def)
  moreover have "add_milliseconds now ms = Inr (now + ms)" using valid(2) by (simp add: add_milliseconds_Inr)
  ultimately show ?thesis
    using valid s1(1,2) q decode_row_ok [OF row]
    by (simp add: claim_job_def claim_row_def append_job_event_def Let_def)
qed

end
