(* ===== verification/DurableProperties.thy ===== *)
theory DurableProperties
  imports DurableSettle
begin

text \<open>
  The properties of the durable job queue: the theorems a reader of the job half of
  \<open>src/durable/store.ts\<close> would ask for, each with a concrete instance where it has hypotheses. The
  instance is a job of two attempts enqueued at the first instant of 2000 and two workers.
\<close>

section \<open>A concrete queue\<close>

definition sample_print :: string where
  "sample_print = replicate 64 CHR ''a''"

definition sample_hash :: "string \<Rightarrow> string" where
  "sample_hash token = sample_print"

definition sample_digest :: "json \<Rightarrow> string" where
  "sample_digest j = sample_print"

definition sample_time :: int where
  "sample_time = 946684800000"

definition sample_artifact :: artifact_reference where
  "sample_artifact = \<lparr>artifactId = ''a'', sha256 = sample_print\<rparr>"

definition sample_enqueue :: job_enqueue_input where
  "sample_enqueue = \<lparr>enq_idempotencyKey = ''k'', enq_jobId = ''j'', enq_missionId = ''m'', enq_taskId = ''t'',
     enq_priority = 5, enq_maxAttempts = 2, enq_availableAt = sample_time, enq_createdAt = sample_time,
     enq_payload = sample_artifact\<rparr>"

abbreviation sample_run :: "job_store \<Rightarrow> job_store \<Rightarrow> bool" where
  "sample_run \<equiv> queue_run default_limits sample_digest sample_hash"

definition sample_row :: job_row where
  "sample_row = new_row sample_enqueue (sample_print)"

definition sample_event :: "nat \<Rightarrow> job_event_type \<Rightarrow> job_status \<Rightarrow> int \<Rightarrow> int \<Rightarrow> string option \<Rightarrow> job_event" where
  "sample_event n ty st g t reason = \<lparr>event_cursor = n, event_missionId = ''m'', event_jobId = ''j'', event_type = ty,
     event_status = st, event_generation = g, event_occurredAt = t, event_reasonCode = reason, event_hash = sample_print\<rparr>"

definition sample_store :: "job_row \<Rightarrow> job_event list \<Rightarrow> job_store" where
  "sample_store r es = \<lparr>jobs = [r], job_idempotency = [(''m'', ''k'') \<mapsto> (''j'', sample_print)],
     job_events = sample_event 1 Enqueued JobPending 0 sample_time None # es\<rparr>"

definition sample_lease :: "string \<Rightarrow> int \<Rightarrow> int \<Rightarrow> job_lease" where
  "sample_lease w n t = \<lparr>lease_jobId = ''j'', lease_missionId = ''m'', lease_taskId = ''t'', lease_workerId = w,
     lease_attempt = n, lease_generation = n, lease_token = ''x'', lease_expiresAt = t + 1000, lease_payload = sample_artifact\<rparr>"

definition queued :: job_store where
  "queued = sample_store sample_row []"

definition leased_row :: job_row where
  "leased_row = grant_lease 1 1 ''w1'' (sample_print) (sample_time + 1000) sample_time sample_row"

definition leased :: job_store where
  "leased = sample_store leased_row [sample_event 2 Claimed JobRunning 1 sample_time None]"

definition leased_again :: job_store where
  "leased_again = sample_store (grant_lease 2 2 ''w2'' (sample_print) (sample_time + 3000) (sample_time + 2000) leased_row)
     [sample_event 2 Claimed JobRunning 1 sample_time None,
      sample_event 3 Reclaimed JobRunning 2 (sample_time + 2000) (Some ''lease_expired'')]"

definition finished :: job_store where
  "finished = sample_store ((clear_lease JobSucceeded (sample_time + 10) leased_row)
       \<lparr>row_resultArtifactId := Some ''a'', row_resultSha256 := Some (sample_print)\<rparr>)
     [sample_event 2 Claimed JobRunning 1 sample_time None, sample_event 3 Succeeded JobSucceeded 1 (sample_time + 10) None]"

definition stopping :: job_store where
  "stopping = sample_store (leased_row\<lparr>row_status := JobCancelling, row_updatedAt := sample_time + 10\<rparr>)
     [sample_event 2 Claimed JobRunning 1 sample_time None,
      sample_event 3 Cancelling JobCancelling 1 (sample_time + 10) (Some ''cancel_requested'')]"

lemma sample_print_ok [simp]: "sha256_pattern sample_print"
  unfolding sample_print_def by code_simp

lemma sample_texts [simp]: "reason_code_pattern ''cancel_requested''"
  "identifier_ok ''j'' n \<longleftrightarrow> 1 \<le> n" "identifier_ok ''m'' n \<longleftrightarrow> 1 \<le> n" "identifier_ok ''t'' n \<longleftrightarrow> 1 \<le> n"
  "identifier_ok ''w1'' 200" "identifier_ok ''w2'' 200" "identifier_ok ''a'' 500" "identifier_ok ''x'' 500" "identifier_ok ''k'' 500"
  by (code_simp, (simp add: identifier_ok_def js_simps Suc_le_eq)+)

lemma sample_hashes [simp]: "sha256_pattern (sample_hash t)"
  by (simp add: sample_hash_def)

lemma sample_numbers [simp]:
  "date_range sample_time" "date_range (sample_time + 10)" "date_range (sample_time + 1000)"
  "date_range (sample_time + 2000)" "date_range (sample_time + 3000)" "artifact_ok sample_artifact"
  by (simp_all add: date_range_def sample_time_def artifact_ok_def sample_artifact_def)

lemma sample_times [simp]: "text_le sample_time sample_time" "text_le (sample_time + 1000) (sample_time + 2000)"
  by (simp_all add: text_le_iff four_digit_year_def sample_time_def)

lemma sample_fields [simp]: "row_jobId sample_row = ''j''" "row_missionId sample_row = ''m''" "row_taskId sample_row = ''t''"
  "row_status sample_row = JobPending" "row_availableAt sample_row = sample_time" "row_attemptCount sample_row = 0"
  "row_leaseGeneration sample_row = 0" "row_maxAttempts sample_row = 2" "row_payload sample_row = sample_artifact"
  by (simp_all add: sample_row_def new_row_def sample_enqueue_def)

lemma sample_row_ok: "row_ok sample_row"
  unfolding sample_row_def by (rule new_row_ok) (simp add: sample_enqueue_def validate_enqueue_input_Inr safe_integer_def max_safe_integer_def)

lemma sample_steps: "row_ok leased_row" "row_ok (grant_lease 2 2 ''w2'' sample_print (sample_time + 3000) (sample_time + 2000) leased_row)"
  using sample_row_ok by (simp_all add: leased_row_def row_ok_def grant_lease_def holds_lease_def)

lemma sample_find [simp]: "find_row (sample_store r es) i = (if row_jobId r = i then Some r else None)"
  "update_row i f (sample_store r es) = (if row_jobId r = i then sample_store (f r) es else sample_store r es)"
  by (simp_all add: find_row_def sample_store_def update_row_def)

lemma sample_append [simp]: "length es < 10 \<Longrightarrow> append_job_event default_limits sample_digest (sample_store r es) ''m'' ''j'' ty st g t reason =
    Inr (sample_store r (es @ [sample_event (2 + length es) ty st g t reason]))"
  by (simp add: append_job_event_def sample_store_def sample_event_def default_limits_def sample_digest_def)

lemma enqueued: "enqueue_job default_limits sample_digest sample_enqueue empty_job_store = Inr (shown_job sample_row, queued)"
proof -
  have "validate_enqueue_input sample_enqueue = Inr ()"
    by (simp add: sample_enqueue_def validate_enqueue_input_Inr safe_integer_def max_safe_integer_def)
  moreover have "job_fingerprint sample_digest sample_enqueue = sample_print" by (simp add: job_fingerprint_def sample_digest_def)
  moreover have "remember_key sample_enqueue sample_print (empty_job_store\<lparr>jobs := [sample_row]\<rparr>) = (sample_store sample_row [])\<lparr>job_events := []\<rparr>"
    by (simp add: remember_key_def sample_store_def empty_job_store_def sample_enqueue_def)
  ultimately show ?thesis using decode_row_ok [OF sample_row_ok]
    by (simp add: enqueue_job_def Let_def empty_job_store_def find_row_def default_limits_def append_job_event_def
      sample_row_def [symmetric] return_job_def require_job_def sample_store_def queued_def sample_event_def sample_digest_def
      sample_enqueue_def [THEN arg_cong [of _ _ enq_jobId]] 
      sample_enqueue_def [THEN arg_cong [of _ _ enq_missionId]] sample_enqueue_def [THEN arg_cong [of _ _ enq_createdAt]])
qed

lemma sample_maintain [simp]:
  "row_status r = JobPending \<or> row_status r = JobRunning \<and> row_attemptCount r < row_maxAttempts r \<Longrightarrow>
     maintain_expired_jobs default_limits sample_digest now (sample_store r es) = Inr (sample_store r es)"
  by (auto simp: maintain_expired_jobs_def expired_exhausted_def expired_cancelling_def sample_store_def)

lemma sample_candidate [simp]: "claim_candidate now (sample_store r es) = (if claimable now r then Some r else None)"
  by (simp add: claim_candidate_def sample_store_def)

lemma sample_claim_input [simp]: "validate_claim_input default_limits ''w1'' sample_time 1000 = Inr ()"
  "validate_claim_input default_limits ''w2'' (sample_time + 2000) 1000 = Inr ()"
  by (simp_all add: validate_claim_input_Inr safe_integer_def max_safe_integer_def default_limits_def)

lemma sample_later [simp]: "add_milliseconds sample_time 1000 = Inr (sample_time + 1000)"
  "add_milliseconds (sample_time + 2000) 1000 = Inr (sample_time + 3000)"
  by (simp_all add: add_milliseconds_Inr sample_time_def date_range_def)

lemma claimed: "claim_job default_limits sample_digest sample_hash ''w1'' sample_time 1000 ''x'' queued =
    Inr (Some (sample_lease ''w1'' 1 sample_time), leased)"
  using decode_row_ok [OF sample_row_ok]
  by (simp add: claim_job_def queued_def claimable_def claim_row_def Let_def leased_def leased_row_def sample_lease_def sample_hash_def)

lemma leased_row_simps [simp]: "row_status leased_row = JobRunning" "row_attemptCount leased_row = 1" "row_maxAttempts leased_row = 2"
  "row_leaseExpiresAt leased_row = Some (sample_time + 1000)" "row_jobId leased_row = ''j''" "row_missionId leased_row = ''m''"
  "row_taskId leased_row = ''t''" "row_leaseGeneration leased_row = 1" "row_payload leased_row = sample_artifact"
  "row_leaseWorkerId leased_row = Some ''w1''" "row_leaseTokenHash leased_row = Some sample_print"
  by (simp_all add: leased_row_def grant_lease_def)

lemma reclaimed: "claim_job default_limits sample_digest sample_hash ''w2'' (sample_time + 2000) 1000 ''x'' leased =
    Inr (Some (sample_lease ''w2'' 2 (sample_time + 2000)), leased_again)"
  using decode_row_ok [OF sample_steps(1)]
  by (simp add: claim_job_def leased_def claimable_def lease_expired_def claim_row_def Let_def leased_again_def sample_lease_def sample_hash_def)

lemma sample_lease_valid: "require_valid_lease sample_hash (sample_lease ''w1'' 1 sample_time) (sample_time + 10) True leased = Inr (shown_job leased_row)"
  using decode_row_ok [OF sample_steps(1)]
  by (simp add: require_valid_lease_def require_job_def leased_def sample_lease_def sample_hash_def)

lemma sample_generation: "lease_generation (sample_lease w n t) = n"
  by (simp add: sample_lease_def)

lemma sample_envelope: "validate_lease_envelope (sample_lease ''w1'' 1 sample_time) = Inr ()"
  by (simp add: validate_lease_envelope_def result_simps sample_lease_def safe_integer_def max_safe_integer_def)

lemma succeeded: "\<exists>j. settle_job_success default_limits sample_digest sample_hash (sample_lease ''w1'' 1 sample_time) sample_artifact
    (sample_time + 10) leased = Inr (j, finished)"
proof -
  have "row_ok ((clear_lease JobSucceeded (sample_time + 10) leased_row)
       \<lparr>row_resultArtifactId := Some ''a'', row_resultSha256 := Some sample_print\<rparr>)"
    using sample_steps(1) by (simp add: row_ok_def clear_lease_def holds_lease_def artifact_ok_def)
  from decode_row_ok [OF this] show ?thesis
    using sample_lease_valid sample_envelope
    by (simp add: settle_job_success_def leased_def finished_def sample_artifact_def clear_lease_def
      return_job_def require_job_def result_simps artifact_ok_def sample_generation)
qed

lemma retried: "\<exists>j s'. settle_job_retry default_limits sample_digest sample_hash (sample_lease ''w1'' 1 sample_time) ''busy'' 5
    (sample_time + 10) leased = Inr (j, s')"
proof -
  have "row_ok ((clear_lease JobRetryWait (sample_time + 10) leased_row)\<lparr>row_availableAt := sample_time + 10 + 5\<rparr>)"
    using sample_steps(1) by (simp add: row_ok_def clear_lease_def holds_lease_def date_range_def sample_time_def)
  moreover have "reason_code_pattern ''busy''" by code_simp
  moreover have "date_range (sample_time + 10 + 5)" by (simp add: date_range_def sample_time_def)
  moreover have "maxRetryDelayMs default_limits = 3600000" by (simp add: default_limits_def)
  ultimately show ?thesis
    using sample_lease_valid sample_envelope decode_row_ok
    by (simp add: settle_job_retry_def leased_def clear_lease_def safe_integer_def max_safe_integer_def
      return_job_def require_job_def result_simps sample_generation)
qed

lemma cancelling: "\<exists>j. cancel_job default_limits sample_digest ''j'' (sample_time + 10) leased = Inr (j, stopping) \<and> status j = JobCancelling"
proof -
  have "row_ok (leased_row\<lparr>row_status := JobCancelling, row_updatedAt := sample_time + 10\<rparr>)"
    using sample_steps(1) by (simp add: row_ok_def holds_lease_def)
  from decode_row_ok [OF this] decode_row_ok [OF sample_steps(1)] show ?thesis
    by (simp add: cancel_job_def leased_def stopping_def request_cancel_def return_job_def require_job_def result_simps)
qed

lemma runs: "sample_run empty_job_store queued" "sample_run empty_job_store leased" "sample_run empty_job_store leased_again"
  "sample_run leased finished" "sample_run leased stopping"
proof -
  show 1: "sample_run empty_job_store queued" using queue_step.enqueue [OF enqueued] by blast
  then show 2: "sample_run empty_job_store leased" using queue_step.claim [OF claimed] by (meson rtranclp.rtrancl_into_rtrancl)
  then show "sample_run empty_job_store leased_again" using queue_step.claim [OF reclaimed] by (meson rtranclp.rtrancl_into_rtrancl)
  show "sample_run leased finished" using queue_step.success succeeded by blast
  show "sample_run leased stopping" using queue_step.cancel cancelling by blast
qed

lemma sample_ok: "sample_run empty_job_store s \<Longrightarrow> store_ok default_limits sample_digest s"
  by (rule queue_run_ok [OF sample_hashes _ empty_store_ok])


section \<open>The invariant of the tables\<close>

lemma queue_step_ok:
  assumes "\<And>t. sha256_pattern (hash_text t)"
  shows "queue_step l digest hash_text s s' \<Longrightarrow> store_ok l digest s \<Longrightarrow> store_ok l digest s'"
  by (rule store_steps_ok [OF queue_step_steps [OF assms]])

lemma reported_last:
  assumes ok: "store_ok l digest s" and r: "find_row s i = Some r"
  shows "\<exists>e \<in> set (job_events s). event_jobId e = i \<and> event_status e = row_status r \<and> event_generation e = row_leaseGeneration r \<and>
    (\<forall>e' \<in> set (job_events s). event_jobId e' = i \<longrightarrow> event_cursor e' \<le> event_cursor e)"
proof -
  have id: "row_jobId r = i" and "r \<in> set (jobs s)" using find_row_Some [OF r] by auto
  with ok obtain e where e: "find (\<lambda>e. event_jobId e = i) (rev (job_events s)) = Some e" "event_status e = row_status r"
    "event_generation e = row_leaseGeneration r" by (auto simp: store_ok_def reported_def last_event_def)
  from e(1) obtain n where n: "n < length (job_events s)" "event_jobId (rev (job_events s) ! n) = i" "e = rev (job_events s) ! n"
    "\<forall>m < n. event_jobId (rev (job_events s) ! m) \<noteq> i" by (auto simp: find_Some_iff)
  have cursors: "map event_cursor (job_events s) = [1..<Suc (length (job_events s))]" using ok by (simp add: store_ok_def)
  have cursor: "event_cursor (job_events s ! k) = Suc k" if "k < length (job_events s)" for k
    using that arg_cong [where f = "\<lambda>xs. xs ! k", OF cursors] by (simp del: upt_Suc)
  have "event_cursor e' \<le> event_cursor e" if e': "e' \<in> set (job_events s)" "event_jobId e' = i" for e'
  proof -
    from e'(1) obtain m where m: "m < length (job_events s)" "e' = rev (job_events s) ! m" by (metis in_set_conv_nth length_rev set_rev)
    with n(4) e'(2) have "n \<le> m" by (metis not_le)
    with m n cursor show ?thesis by (simp add: rev_nth)
  qed
  moreover have "e \<in> set (job_events s)" using n by (metis length_rev nth_mem set_rev)
  ultimately show ?thesis using e n by blast
qed

text \<open>C7. Every reachable queue is well formed: each row decodes; it carries a lease exactly while it is running or
  cancelling; the attempts never exceed the maximum, and the fencing generation is the number of
  attempts; the newest lifecycle event of the job shows its status and generation.\<close>

theorem reachable_rows_well_formed:
  assumes "\<And>t. sha256_pattern (hash_text t)" and "queue_run l digest hash_text empty_job_store s" and "find_row s i = Some r"
  shows "decode_job_row r = Inr (shown_job r) \<and>
    (row_leaseTokenHash r \<noteq> None \<longleftrightarrow> row_status r \<in> {JobRunning, JobCancelling}) \<and>
    0 \<le> row_attemptCount r \<and> row_attemptCount r \<le> row_maxAttempts r \<and> row_leaseGeneration r = row_attemptCount r \<and>
    (\<exists>e \<in> set (job_events s). event_jobId e = i \<and> event_status e = row_status r \<and> event_generation e = row_leaseGeneration r \<and>
       (\<forall>e' \<in> set (job_events s). event_jobId e' = i \<longrightarrow> event_cursor e' \<le> event_cursor e))"
proof -
  have ok: "store_ok l digest s" using queue_run_ok [OF assms(1,2) empty_store_ok] .
  have row: "row_ok r" using find_row_Some [OF assms(3)] ok by (simp add: store_ok_def)
  then have "(row_leaseTokenHash r \<noteq> None \<longleftrightarrow> row_status r \<in> {JobRunning, JobCancelling}) \<and>
    0 \<le> row_attemptCount r \<and> row_attemptCount r \<le> row_maxAttempts r \<and> row_leaseGeneration r = row_attemptCount r"
    by (auto simp: row_ok_def holds_lease_def split: if_splits)
  with decode_row_ok [OF row] reported_last [OF ok assms(3)] show ?thesis by blast
qed

theorem reachable_rows_well_formed_witness:
  "decode_job_row leased_row = Inr (shown_job leased_row) \<and> row_leaseTokenHash leased_row \<noteq> None"
proof -
  have "find_row leased ''j'' = Some leased_row" by (simp add: leased_def)
  from reachable_rows_well_formed [OF sample_hashes runs(2) this] show ?thesis by simp
qed

section \<open>Fencing\<close>

lemma rejected_operations:
  assumes "\<And>now j. require_valid_lease hash_text ls now True s \<noteq> Inr j"
  shows "settle_job_success l digest hash_text ls res now s \<noteq> Inr x" "settle_job_retry l digest hash_text ls code delay now s \<noteq> Inr x"
    "settle_job_blocked l digest hash_text ls code now s \<noteq> Inr x" "settle_job_cancelled l digest hash_text ls now s \<noteq> Inr x"
    "heartbeat_job l digest hash_text ls now ms s \<noteq> Inr y"
  using assms by (auto simp: settle_job_success_def settle_job_retry_def settle_job_blocked_def settle_job_cancelled_def
    heartbeat_job_def and_then_Inr)

lemma claim_generation:
  assumes claim: "claim_job l digest hash_text w now ms token s = Inr (Some ls, s')" and ok: "store_ok l digest s"
    and hash: "\<And>t. sha256_pattern (hash_text t)"
  shows "\<exists>r'. find_row s' (lease_jobId ls) = Some r' \<and> row_leaseGeneration r' = lease_generation ls"
    and "find_row s (lease_jobId ls) = Some q \<Longrightarrow> row_leaseGeneration q < lease_generation ls"
proof -
  show "\<exists>r'. find_row s' (lease_jobId ls) = Some r' \<and> row_leaseGeneration r' = lease_generation ls"
    using claim ok hash by (cases rule: claim_job_cases) (auto simp: grant_lease_def)
  show "row_leaseGeneration q < lease_generation ls" if q: "find_row s (lease_jobId ls) = Some q"
    using claim ok hash
  proof (cases rule: claim_job_cases)
    case (leased s1 r ls')
    from store_steps_rows [OF leased(2) ok q] leased(4,7,9) have "row_step\<^sup>*\<^sup>* q r" by auto
    from row_steps_generation [OF this] show ?thesis using leased(7,9) by simp
  qed simp
qed

text \<open>C8. Fencing: once a job was claimed a second time, the first lease is dead for good. Whatever the queue did
  in between and does afterwards, neither a settlement nor a heartbeat with it succeeds.\<close>

theorem superseded_lease_is_dead:
  assumes "\<And>t. sha256_pattern (hash_text t)" and "queue_run l digest hash_text empty_job_store s"
    and "claim_job l digest hash_text w now ms token s = Inr (Some ls, s1)" and "queue_run l digest hash_text s1 s2"
    and "claim_job l digest hash_text w' now' ms' token' s2 = Inr (Some ls', s3)" and "lease_jobId ls' = lease_jobId ls"
    and "queue_run l digest hash_text s3 s4"
  shows "lease_generation ls < lease_generation ls' \<and>
    settle_job_success l digest hash_text ls res t s4 \<noteq> Inr x \<and> settle_job_retry l digest hash_text ls code delay t s4 \<noteq> Inr x \<and>
    settle_job_blocked l digest hash_text ls code t s4 \<noteq> Inr x \<and> settle_job_cancelled l digest hash_text ls t s4 \<noteq> Inr x \<and>
    heartbeat_job l digest hash_text ls t leaseMs s4 \<noteq> Inr y"
proof -
  note run = queue_run_ok [OF assms(1)] and rows = queue_run_rows [OF assms(1)]
  have ok: "store_ok l digest s" using run [OF assms(2) empty_store_ok] .
  have ok1: "store_ok l digest s1" using queue_step_ok [OF assms(1) queue_step.claim [OF assms(3)] ok] .
  have ok2: "store_ok l digest s2" using run [OF assms(4) ok1] .
  have ok3: "store_ok l digest s3" using queue_step_ok [OF assms(1) queue_step.claim [OF assms(5)] ok2] .
  from claim_generation(1) [OF assms(3) ok assms(1)] obtain r1 where
    r1: "find_row s1 (lease_jobId ls) = Some r1" "row_leaseGeneration r1 = lease_generation ls" by blast
  from rows [OF assms(4) ok1 r1(1)] obtain r2 where r2: "find_row s2 (lease_jobId ls) = Some r2" "row_step\<^sup>*\<^sup>* r1 r2" by blast
  have newer: "lease_generation ls < lease_generation ls'"
    using claim_generation(2) [OF assms(5) ok2 assms(1), of r2] r2 r1(2) row_steps_generation [OF r2(2)] assms(6) by simp
  from claim_generation(1) [OF assms(5) ok2 assms(1)] obtain r3 where
    r3: "find_row s3 (lease_jobId ls) = Some r3" "row_leaseGeneration r3 = lease_generation ls'" using assms(6) by auto
  from rows [OF assms(7) ok3 r3(1)] obtain r4 where r4: "find_row s4 (lease_jobId ls) = Some r4" "row_step\<^sup>*\<^sup>* r3 r4" by blast
  have "lease_generation ls < row_leaseGeneration r4" using newer r3(2) row_steps_generation [OF r4(2)] by simp
  note dead = rejected_operations [OF stale_lease_rejected [OF r4(1) this]]
  show ?thesis by (intro conjI newer dead)
qed

theorem superseded_lease_is_dead_witness:
  "lease_generation (sample_lease ''w1'' 1 sample_time) < lease_generation (sample_lease ''w2'' 2 (sample_time + 2000)) \<and>
   settle_job_success default_limits sample_digest sample_hash (sample_lease ''w1'' 1 sample_time) sample_artifact 0 leased_again
     \<noteq> Inr (shown_job sample_row, queued)"
  using superseded_lease_is_dead [OF sample_hashes runs(1) claimed rtranclp.rtrancl_refl reclaimed _ rtranclp.rtrancl_refl]
  by (simp add: sample_lease_def)

section \<open>Ends of a job\<close>

text \<open>C9. A job that succeeded, was blocked or was cancelled never changes again.\<close>

theorem finished_jobs_stay:
  assumes "\<And>t. sha256_pattern (hash_text t)" and "queue_run l digest hash_text empty_job_store s"
    and "find_row s i = Some r" and "row_status r \<in> {JobSucceeded, JobBlocked, JobCancelled}"
    and "queue_run l digest hash_text s s'"
  shows "find_row s' i = Some r"
proof -
  have ok: "store_ok l digest s" using queue_run_ok [OF assms(1,2) empty_store_ok] .
  from queue_run_rows [OF assms(1,5) ok assms(3)] obtain r' where r': "find_row s' i = Some r'" "row_step\<^sup>*\<^sup>* r r'" by blast
  have "terminal (row_status r)" using assms(4) by (auto simp: terminal_def)
  from row_steps_terminal [OF r'(2) this] r'(1) show ?thesis by simp
qed

lemma run_finished: "sample_run empty_job_store finished"
  using runs(2,4) by (rule rtranclp_trans)

theorem finished_jobs_stay_witness:
  "\<exists>r. find_row finished ''j'' = Some r \<and> row_status r = JobSucceeded"
proof -
  obtain r where r: "find_row finished ''j'' = Some r" "row_status r = JobSucceeded"
    by (simp add: finished_def clear_lease_def)
  from finished_jobs_stay [OF sample_hashes run_finished r(1) _ rtranclp.rtrancl_refl] r show ?thesis by simp
qed

text \<open>C10. Cancellation wins: after a running job was asked to stop, it is cancelling or cancelled ever after and
  never gets a result, whatever its worker reports.\<close>

theorem cancellation_wins:
  assumes "\<And>t. sha256_pattern (hash_text t)" and "queue_run l digest hash_text empty_job_store s"
    and "cancel_job l digest i now s = Inr (j, s1)" and "status j = JobCancelling" and "queue_run l digest hash_text s1 s2"
  shows "\<exists>r. find_row s2 i = Some r \<and> row_status r \<in> {JobCancelling, JobCancelled} \<and> row_resultArtifactId r = None"
proof -
  have ok: "store_ok l digest s" using queue_run_ok [OF assms(1,2) empty_store_ok] .
  have ok1: "store_ok l digest s1" using queue_step_ok [OF assms(1) queue_step.cancel [OF assms(3)] ok] .
  have ok2: "store_ok l digest s2" using queue_run_ok [OF assms(1,5) ok1] .
  have "\<exists>r. find_row s1 i = Some r \<and> row_status r = JobCancelling"
    using cancel_job_as [OF ok assms(3)] assms(4) by (auto simp: moved_def split: if_splits)
  then obtain r where r: "find_row s1 i = Some r" "row_status r = JobCancelling" by blast
  from queue_run_rows [OF assms(1,5) ok1 r(1)] obtain r2 where r2: "find_row s2 i = Some r2" "row_step\<^sup>*\<^sup>* r r2" by blast
  from row_steps_cancelling [OF r2(2) r(2)] r(2) have "row_status r2 \<in> {JobCancelling, JobCancelled}" by auto
  moreover from this have "row_resultArtifactId r2 = None"
    using find_row_Some [OF r2(1)] ok2 by (auto simp: store_ok_def row_ok_def)
  ultimately show ?thesis using r2(1) by blast
qed

theorem cancellation_wins_witness:
  "\<exists>r. find_row stopping ''j'' = Some r \<and> row_status r \<in> {JobCancelling, JobCancelled} \<and> row_resultArtifactId r = None"
proof -
  obtain j where "cancel_job default_limits sample_digest ''j'' (sample_time + 10) leased = Inr (j, stopping)" "status j = JobCancelling"
    using cancelling by blast
  from cancellation_wins [OF sample_hashes runs(2) this rtranclp.rtrancl_refl] show ?thesis .
qed


section \<open>Claims\<close>

text \<open>C11. A lease: a claim that returns one has put the job of the lease into the running state, for the attempt and the
  generation the lease names, and the attempt is within the maximum; the job it took is the first in
  the order of availability, priority, creation and identifier among the claimable ones, after
  expired jobs were maintained. It returns none only when nothing is claimable.\<close>

theorem claim_takes_the_first:
  assumes "\<And>t. sha256_pattern (hash_text t)" and "queue_run l digest hash_text empty_job_store s"
    and "claim_job l digest hash_text w now ms token s = Inr (out, s')"
  shows "\<exists>s1. maintain_expired_jobs l digest now s = Inr s1 \<and>
    (case out of None \<Rightarrow> \<forall>r \<in> set (jobs s1). \<not> claimable now r
     | Some ls \<Rightarrow> \<exists>r r'. find_row s1 (lease_jobId ls) = Some r \<and> claimable now r \<and>
         (\<forall>q \<in> {q \<in> set (jobs s1). claimable now q}. claim_order r q \<le> 0) \<and>
         find_row s' (lease_jobId ls) = Some r' \<and> lease_valid hash_text ls now r' \<and> row_status r' = JobRunning \<and>
         lease_attempt ls = row_attemptCount r + 1 \<and> lease_generation ls = lease_attempt ls \<and>
         1 \<le> lease_attempt ls \<and> lease_attempt ls \<le> row_maxAttempts r')"
proof -
  have ok: "store_ok l digest s" using queue_run_ok [OF assms(1,2) empty_store_ok] .
  have ms: "1 \<le> ms" using assms(3) by (auto simp: claim_job_def result_simps)
  show ?thesis
    using assms(3) ok assms(1)
  proof (cases rule: claim_job_cases)
    case (idle s1)
    then show ?thesis by (auto simp: claim_candidate_None)
  next
    case (leased s1 r ls)
    have row: "row_ok r" using claim_candidate_Some(1) [OF leased(3)] store_steps_ok [OF leased(2) ok] by (simp add: store_ok_def)
    have few: "row_attemptCount r < row_maxAttempts r"
      using claim_candidate_Some(2) [OF leased(3)] row by (auto simp: claimable_def row_ok_def)
    show ?thesis
      using leased(1,4,7,8,9) claim_candidate_Some [OF leased(3)] row few ms
      by (auto simp: lease_valid_def grant_lease_def holds_lease_def row_ok_def)
  qed
qed

theorem claim_takes_the_first_witness:
  "\<exists>s1. maintain_expired_jobs default_limits sample_digest sample_time queued = Inr s1"
  using claim_takes_the_first [OF sample_hashes runs(1) claimed] by blast

text \<open>C12. Work is found: if every timestamp lies in the years 0 to 9999, the event log has room for two events per job, and
  some job waits whose time has come, then a claim with valid arguments returns a lease.\<close>

theorem claim_finds_work:
  assumes "\<And>t. sha256_pattern (hash_text t)" and "queue_run l digest hash_text empty_job_store s"
    and "identifier_ok w 200" and "date_range (now + ms)" and "safe_integer ms" and "1 \<le> ms" and "ms \<le> maxLeaseMs l"
    and "int (length (job_events s)) + 2 * int (length (jobs s)) < maxJobEvents l"
    and "find_row s i = Some r" and "row_status r = JobPending \<or> row_status r = JobRetryWait"
    and "four_digit_year now" and "four_digit_year (row_availableAt r)" and "row_availableAt r \<le> now"
  shows "\<exists>ls s'. claim_job l digest hash_text w now ms token s = Inr (Some ls, s')"
proof (rule claim_total)
  show "store_ok l digest s" using queue_run_ok [OF assms(1,2) empty_store_ok] .
  have "date_range now" using assms(11) by (simp add: four_digit_year_def date_range_def)
  then show "validate_claim_input l w now ms = Inr ()" using assms(3,5,6,7) by (simp add: validate_claim_input_Inr)
  show "text_le (row_availableAt r) now" using text_le_iff [OF assms(12,11)] assms(13) by simp
  show "row_status r \<in> {JobPending, JobRetryWait}" using assms(10) by blast
qed (fact assms)+

theorem claim_finds_work_witness:
  "\<exists>ls s'. claim_job default_limits sample_digest sample_hash ''w1'' sample_time 1000 ''x'' queued = Inr (Some ls, s')"
  by (rule claim_finds_work [OF sample_hashes runs(1), where i = "''j''" and r = sample_row])
     (simp_all add: queued_def sample_store_def default_limits_def safe_integer_def max_safe_integer_def four_digit_year_def sample_time_def
       date_range_def find_row_def)

text \<open>Timestamps compare as texts: for instants of the years 0000 to 9999 the order of the canonical texts, which
  the queries use, is the order of the instants, which the code uses.\<close>

theorem text_order_is_time_order:
  assumes "four_digit_year a" and "four_digit_year b"
  shows "code_unit_compare (iso_text a) (iso_text b) \<le> 0 \<longleftrightarrow> a \<le> b"
  using text_le_iff [OF assms] by (simp add: text_le_def)

theorem text_order_is_time_order_witness:
  "code_unit_compare (iso_text 0) (iso_text 1) \<le> 0"
  using text_order_is_time_order [of 0 1] by (simp add: four_digit_year_def)

text \<open>C38. Beyond the year 9999 they differ: a job that becomes available at the first instant of 10000 is handed to a
  worker that asks in 2000, because the text of an expanded year starts with a plus sign and sorts
  before every digit.\<close>

theorem far_future_job_is_claimed_now:
  "\<exists>ls s'. claim_job default_limits sample_digest sample_hash ''w1'' sample_time 1000 ''x''
      (sample_store (sample_row\<lparr>row_availableAt := 253402300800000\<rparr>) []) = Inr (Some ls, s')
    \<and> sample_time < 253402300800000"
proof -
  have years: "civil_year 2932897 = (10000, 0)" "civil_year 10957 = (2000, 0)"
    by (simp_all add: civil_year_def year_of.simps year_length_def leap_year_def)
  have "padded 4 2000 = padded (Suc (Suc (Suc (Suc 0)))) 2000" by (rule arg_cong [where f = "\<lambda>w. padded w 2000"]) simp
  also have "\<dots> = char_of (50 :: nat) # [char_of (48 :: nat), char_of (48 :: nat), char_of (48 :: nat)]" by simp
  also have "char_of (50 :: nat) = CHR ''2''" by code_simp
  finally have "\<exists>a b. iso_text 253402300800000 = CHR ''+'' # a \<and> iso_text sample_time = CHR ''2'' # b"
    by (simp add: iso_text_def date_text_def years year_text_def sample_time_def split: prod.split)
  then have "text_le 253402300800000 sample_time" by (auto simp: text_le_def)
  have "row_ok (sample_row\<lparr>row_availableAt := 253402300800000\<rparr>)"
    using sample_row_ok by (simp add: row_ok_def date_range_def holds_lease_def)
  from decode_row_ok [OF this] \<open>text_le 253402300800000 sample_time\<close> show ?thesis
    by (simp add: claim_job_def claimable_def claim_row_def Let_def) (simp add: sample_time_def)
qed


section \<open>Enqueue\<close>

text \<open>Enqueueing is idempotent: after a job was enqueued, and after whatever the queue did since, the same call
  changes nothing and answers with the job's present row; the same key with another fingerprint or
  another job identifier is refused.\<close>

theorem enqueue_is_idempotent:
  assumes "\<And>t. sha256_pattern (hash_text t)" and "queue_run l digest hash_text empty_job_store s"
    and "enqueue_job l digest i s = Inr (j, s1)" and "queue_run l digest hash_text s1 s2"
  shows "\<exists>r. find_row s2 (enq_jobId i) = Some r \<and> enqueue_job l digest i s2 = Inr (shown_job r, s2) \<and>
    (\<forall>i'. validate_enqueue_input i' = Inr () \<longrightarrow> enq_missionId i' = enq_missionId i \<longrightarrow> enq_idempotencyKey i' = enq_idempotencyKey i \<longrightarrow>
       job_fingerprint digest i' \<noteq> job_fingerprint digest i \<or> enq_jobId i' \<noteq> enq_jobId i \<longrightarrow>
       enqueue_job l digest i' s2 = Inl (StoreConflict ''Job idempotency key was reused for different immutable input.''))"
proof -
  have ok: "store_ok l digest s" using queue_run_ok [OF assms(1,2) empty_store_ok] .
  have ok1: "store_ok l digest s1" using queue_step_ok [OF assms(1) queue_step.enqueue [OF assms(3)] ok] .
  from enqueue_as [OF ok assms(3)]
  have "job_idempotency s1 (enq_missionId i, enq_idempotencyKey i) = Some (enq_jobId i, job_fingerprint digest i)" by blast
  then have key: "job_idempotency s2 (enq_missionId i, enq_idempotencyKey i) = Some (enq_jobId i, job_fingerprint digest i)"
    using store_steps_keys [OF queue_run_steps [OF assms(1,4) ok1]] by blast
  have "validate_enqueue_input i = Inr ()" using assms(3) by (auto simp: enqueue_job_def and_then_Inr)
  from enqueue_again [OF queue_run_ok [OF assms(1,4) ok1] this key] key show ?thesis
    by (auto simp: enqueue_job_def Let_def)
qed

theorem enqueue_is_idempotent_witness:
  "\<exists>r. find_row leased ''j'' = Some r \<and> enqueue_job default_limits sample_digest sample_enqueue leased = Inr (shown_job r, leased)"
proof -
  have "sample_run queued leased" using queue_step.claim [OF claimed] by blast
  from enqueue_is_idempotent [OF sample_hashes rtranclp.rtrancl_refl enqueued this] show ?thesis
    by (auto simp: sample_enqueue_def)
qed

section \<open>Settlement\<close>

text \<open>Success needs a live lease: \<open>settleJobSuccess\<close> goes through only with the current generation, worker and
  token before the lease expires; then the job has the result, or, if it was asked to stop, it is
  cancelled without one; the lease is gone.\<close>

theorem success_needs_a_live_lease:
  assumes "\<And>t. sha256_pattern (hash_text t)" and "queue_run l digest hash_text empty_job_store s"
    and "settle_job_success l digest hash_text ls res now s = Inr (j, s')"
  shows "\<exists>r r' e. find_row s (lease_jobId ls) = Some r \<and> row_leaseGeneration r = lease_generation ls \<and>
    row_leaseWorkerId r = Some (lease_workerId ls) \<and> row_leaseTokenHash r = Some (hash_text (lease_token ls)) \<and>
    row_leaseExpiresAt r = Some e \<and> now < e \<and> find_row s' (lease_jobId ls) = Some r' \<and> j = shown_job r' \<and>
    row_leaseTokenHash r' = None \<and>
    (if row_status r = JobCancelling then status j = JobCancelled \<and> result j = None
     else status j = JobSucceeded \<and> result j = Some res)"
proof -
  have ok: "store_ok l digest s" using queue_run_ok [OF assms(1,2) empty_store_ok] .
  from settle_success_as [OF ok assms(3)] obtain r r' where
    moves: "moved l digest (lease_jobId ls) r r' j s s'" and valid: "lease_valid hash_text ls now r"
    and row: "if row_status r = JobCancelling then r' = clear_lease JobCancelled now r
      else row_status r = JobRunning \<and> r' = (clear_lease JobSucceeded now r)
       \<lparr>row_resultArtifactId := Some (artifactId res), row_resultSha256 := Some (sha256 res)\<rparr>"
    by (auto simp: settled_as_def)
  have "r \<in> set (jobs s)" using moves find_row_Some by (auto simp: moved_def)
  then have "row_ok r" using ok by (simp add: store_ok_def)
  then have "row_status r = JobCancelling \<Longrightarrow> row_resultArtifactId r = None" by (simp add: row_ok_def)
  then show ?thesis
    using moves valid row
    by (auto simp: moved_def lease_valid_def clear_lease_def shown_job_def split: if_splits)
qed

theorem success_needs_a_live_lease_witness:
  "\<exists>j. settle_job_success default_limits sample_digest sample_hash (sample_lease ''w1'' 1 sample_time) sample_artifact (sample_time + 10) leased
     = Inr (j, finished) \<and> status j = JobSucceeded"
proof -
  obtain j where j: "settle_job_success default_limits sample_digest sample_hash (sample_lease ''w1'' 1 sample_time) sample_artifact
      (sample_time + 10) leased = Inr (j, finished)" using succeeded by blast
  have "find_row leased (lease_jobId (sample_lease ''w1'' 1 sample_time)) = Some leased_row"
    by (simp add: leased_def sample_lease_def)
  with success_needs_a_live_lease [OF sample_hashes runs(2) j] j show ?thesis by (auto simp: leased_row_simps)
qed

text \<open>Retries are bounded: \<open>settleJobRetry\<close> of a job with attempts left makes it wait the delay; on its last
  attempt it blocks the job.\<close>

theorem retry_waits_or_blocks:
  assumes "\<And>t. sha256_pattern (hash_text t)" and "queue_run l digest hash_text empty_job_store s"
    and "settle_job_retry l digest hash_text ls code delay now s = Inr (j, s')"
  shows "\<exists>r. find_row s (lease_jobId ls) = Some r \<and> attemptCount j = row_attemptCount r \<and> maxAttempts j = row_maxAttempts r \<and>
    (if row_status r = JobCancelling then status j = JobCancelled
     else if row_attemptCount r < row_maxAttempts r then status j = JobRetryWait \<and> availableAt j = now + delay
     else status j = JobBlocked)"
proof -
  have ok: "store_ok l digest s" using queue_run_ok [OF assms(1,2) empty_store_ok] .
  from settle_retry_as [OF ok assms(3)] obtain r r' where
    moves: "find_row s (lease_jobId ls) = Some r" "j = shown_job r'"
    and row: "if row_status r = JobCancelling then r' = clear_lease JobCancelled now r
      else if row_attemptCount r < row_maxAttempts r then r' = (clear_lease JobRetryWait now r)\<lparr>row_availableAt := now + delay\<rparr>
      else r' = clear_lease JobBlocked now r"
    by (auto simp: settled_as_def moved_def)
  show ?thesis
    using row by (intro exI [of _ r]) (auto simp: moves clear_lease_def shown_job_def split: if_splits)
qed

theorem retry_waits_or_blocks_witness:
  "\<exists>j s'. settle_job_retry default_limits sample_digest sample_hash (sample_lease ''w1'' 1 sample_time) ''busy'' 5 (sample_time + 10) leased
     = Inr (j, s') \<and> status j = JobRetryWait \<and> availableAt j = sample_time + 10 + 5"
proof -
  obtain j s' where j: "settle_job_retry default_limits sample_digest sample_hash (sample_lease ''w1'' 1 sample_time) ''busy'' 5
      (sample_time + 10) leased = Inr (j, s')" using retried by blast
  have "find_row leased (lease_jobId (sample_lease ''w1'' 1 sample_time)) = Some leased_row"
    by (simp add: leased_def sample_lease_def)
  with retry_waits_or_blocks [OF sample_hashes runs(2) j] j show ?thesis by auto
qed

section \<open>The event log\<close>

lemma full_append: "maxJobEvents l \<le> int (length (job_events s)) \<Longrightarrow> append_job_event l digest s m i ty st g t reason \<noteq> Inr x"
  by (simp add: append_job_event_def)

lemma update_row_events [simp]: "job_events (update_row i f s) = job_events s"
  by (simp add: update_row_def)

lemma full_leave: "maxJobEvents l \<le> int (length (job_events s)) \<Longrightarrow> leave_running l digest st ty j now reason s \<noteq> Inr x"
  by (auto simp: leave_running_def and_then_Inr full_append)

lemma full_leave_all:
  "maxJobEvents l \<le> int (length (job_events s)) \<Longrightarrow> leave_all (\<lambda>j. leave_running l digest st ty j now reason) rs s = Inr s' \<Longrightarrow> s' = s"
  by (cases rs) (auto simp: and_then_Inr full_leave)

lemma full_settle:
  assumes "maxJobEvents l \<le> int (length (job_events s))"
  shows "settle_job_success l digest hash_text ls res now s \<noteq> Inr x" "settle_job_retry l digest hash_text ls code delay now s \<noteq> Inr x"
    "settle_job_blocked l digest hash_text ls code now s \<noteq> Inr x" "settle_job_cancelled l digest hash_text ls now s \<noteq> Inr x"
  using assms
  by (auto simp: settle_job_success_def settle_job_retry_def settle_job_blocked_def settle_job_cancelled_def and_then_Inr
    cancel_running_job_def block_running_job_def full_leave full_append split: if_splits)

lemma full_step:
  assumes "queue_step l digest hash_text s s'" and full: "maxJobEvents l \<le> int (length (job_events s))"
  shows "jobs s' = jobs s \<and> job_events s' = job_events s"
  using assms
proof (cases rule: queue_step.cases)
  case (enqueue i j)
  then show ?thesis using full
    by (auto simp: enqueue_job_def Let_def and_then_Inr return_job_def remember_key_def full_append split: if_splits option.splits)
next
  case (claim w now ms token out)
  then obtain s1 where s1: "maintain_expired_jobs l digest now s = Inr s1"
    and rest: "(case claim_candidate now s1 of None \<Rightarrow> Inr (None, s1)
      | Some r \<Rightarrow> and_then (decode_job_row r) (\<lambda>c. claim_row l digest hash_text w now (now + ms) token c s1)) = Inr (out, s')"
    by (auto simp: claim_job_def result_simps)
  from s1 have "s1 = s" using full
    by (auto simp: maintain_expired_jobs_def and_then_Inr block_running_job_def cancel_running_job_def dest!: full_leave_all [rotated])
  with rest show ?thesis using full
    by (auto simp: claim_row_def Let_def corrupt_def and_then_Inr full_append split: option.splits if_splits)
next
  case (heartbeat ls now ms beat)
  then show ?thesis using full by (auto simp: heartbeat_job_def and_then_Inr full_append split: if_splits)
next
  case (cancel i now j)
  then show ?thesis using full by (auto simp: cancel_job_def request_cancel_def and_then_Inr full_append split: if_splits)
qed (simp_all add: full_settle)

text \<open>A full log stops the queue: once the lifecycle log has reached its configured bound, no operation moves any
  job or logs anything any more, and no lease can be settled.\<close>

theorem full_log_stops_the_queue:
  assumes "maxJobEvents l \<le> int (length (job_events s))" and "queue_run l digest hash_text s s'"
  shows "jobs s' = jobs s \<and> job_events s' = job_events s \<and>
    settle_job_success l digest hash_text ls res now s' \<noteq> Inr x \<and> settle_job_retry l digest hash_text ls code delay now s' \<noteq> Inr x \<and>
    settle_job_blocked l digest hash_text ls code now s' \<noteq> Inr x \<and> settle_job_cancelled l digest hash_text ls now s' \<noteq> Inr x"
proof -
  from assms(2,1) have same: "jobs s' = jobs s \<and> job_events s' = job_events s"
    by (induction rule: rtranclp_induct) (auto dest: full_step)
  with assms(1) have "maxJobEvents l \<le> int (length (job_events s'))" by simp
  note full_settle [OF this]
  with same show ?thesis by (intro conjI) auto
qed

theorem full_log_stops_the_queue_witness:
  "settle_job_blocked (default_limits\<lparr>maxJobEvents := 2\<rparr>) sample_digest sample_hash (sample_lease ''w1'' 1 sample_time) ''busy''
     (sample_time + 10) leased \<noteq> Inr (shown_job leased_row, leased)"
proof -
  have "maxJobEvents (default_limits\<lparr>maxJobEvents := 2\<rparr>) \<le> int (length (job_events leased))"
    by (simp add: leased_def sample_store_def)
  from full_log_stops_the_queue [OF this rtranclp.rtrancl_refl] show ?thesis by blast
qed

lemma decode_event_ok:
  "event_ok digest e \<Longrightarrow> sha256_pattern (event_hash e) \<Longrightarrow> decode_job_event_row digest (event_missionId e) e = Inr e"
  by (cases "event_reasonCode e")
     (auto simp: event_ok_def decode_job_event_row_def result_simps safe_integer_def max_safe_integer_def)

text \<open>Pages lose nothing: reading the events of a mission after a cursor returns exactly the next events of that
  mission in the order they were logged, as many as asked for; none is skipped, repeated or refused.\<close>

theorem pages_lose_nothing:
  assumes "\<And>t. sha256_pattern (hash_text t)" and "\<And>x. sha256_pattern (digest x)"
    and "queue_run l digest hash_text empty_job_store s"
    and "identifier_ok m 200" and "safe_integer n" and "1 \<le> n" and "n \<le> maxJobEventPage l" and "safe_integer c" and "0 \<le> c"
  shows "read_job_events l digest m c n s =
    Inr (take (nat n) (filter (\<lambda>e. event_missionId e = m \<and> c < int (event_cursor e)) (job_events s)))"
proof -
  let ?es = "filter (\<lambda>e. event_missionId e = m \<and> c < int (event_cursor e)) (job_events s)"
  have ok: "store_ok l digest s" using queue_run_ok [OF assms(1,3) empty_store_ok] .
  then have "sorted (map event_cursor (job_events s))" by (simp add: store_ok_def del: upt_Suc)
  then have "sort_key event_cursor ?es = ?es" by (intro sort_key_id_if_sorted sorted_filter)
  moreover have "decode_job_event_row digest m e = Inr e" if "e \<in> set (take (nat n) ?es)" for e
  proof -
    have e: "e \<in> set (job_events s)" "event_missionId e = m" using in_set_takeD [OF that] by auto
    then have "event_ok digest e" using ok by (simp add: store_ok_def list_all_iff)
    with decode_event_ok [OF this] e(2) assms(2) show ?thesis by (simp add: event_ok_def)
  qed
  then have "traverse (decode_job_event_row digest m) (take (nat n) ?es) = Inr (take (nat n) ?es)"
    by (simp add: traverse_Inr list_all2_same)
  ultimately show ?thesis
    using assms(4-9) by (simp add: read_job_events_def result_simps safe_integer_def max_safe_integer_def)
qed

theorem pages_lose_nothing_witness:
  "read_job_events default_limits sample_digest ''m'' 1 5 leased = Inr [sample_event 2 Claimed JobRunning 1 sample_time None]"
proof -
  have "sha256_pattern (sample_digest x)" for x by (simp add: sample_digest_def)
  from pages_lose_nothing [OF sample_hashes this runs(2), of "''m''" 5 1] show ?thesis
    by (simp add: leased_def sample_store_def sample_event_def default_limits_def safe_integer_def max_safe_integer_def)
qed

end
