(* ===== verification/MissionCodec.thy ===== *)
theory MissionCodec
  imports Mission DurableInternal
begin

text \<open>
  The codec of persisted mission events (\<open>src/durable/mission-codec.ts\<close>). \<open>decode_event\<close> reads a JSON
  value field by field and rejects anything it does not know; \<open>event_value\<close> is the object an event
  is in the program. The lemmas: decoding gives back the event it was made from, exactly for the
  events whose fields are within the codec's bounds, and does not depend on the order of an
  object's keys, so it reads what \<open>canonicalJson\<close> wrote.
\<close>

section \<open>Names\<close>

definition mission_states :: "mission_state list" where
  "mission_states = [CREATED, UNDERSTANDING, RETRIEVING, PLANNING, RISK_CHECK, EXECUTING, OBSERVING, VERIFYING,
     DIAGNOSING, REPAIRING, CHECKPOINTING, FINAL_AUDIT, PAUSING, PAUSED, RESUMING, CANCELLING, COMPLETED,
     CANCELLED, BLOCKED, FAILED]"

primrec state_text :: "mission_state \<Rightarrow> string" where
  "state_text CREATED = ''CREATED''"
| "state_text UNDERSTANDING = ''UNDERSTANDING''"
| "state_text RETRIEVING = ''RETRIEVING''"
| "state_text PLANNING = ''PLANNING''"
| "state_text RISK_CHECK = ''RISK_CHECK''"
| "state_text EXECUTING = ''EXECUTING''"
| "state_text OBSERVING = ''OBSERVING''"
| "state_text VERIFYING = ''VERIFYING''"
| "state_text DIAGNOSING = ''DIAGNOSING''"
| "state_text REPAIRING = ''REPAIRING''"
| "state_text CHECKPOINTING = ''CHECKPOINTING''"
| "state_text FINAL_AUDIT = ''FINAL_AUDIT''"
| "state_text PAUSING = ''PAUSING''"
| "state_text PAUSED = ''PAUSED''"
| "state_text RESUMING = ''RESUMING''"
| "state_text CANCELLING = ''CANCELLING''"
| "state_text COMPLETED = ''COMPLETED''"
| "state_text CANCELLED = ''CANCELLED''"
| "state_text BLOCKED = ''BLOCKED''"
| "state_text FAILED = ''FAILED''"

definition task_statuses :: "task_status list" where
  "task_statuses = [PENDING, RUNNING, VERIFIED, FAILED_TASK, CANCELLED_TASK]"

primrec task_status_text :: "task_status \<Rightarrow> string" where
  "task_status_text PENDING = ''PENDING''"
| "task_status_text RUNNING = ''RUNNING''"
| "task_status_text VERIFIED = ''VERIFIED''"
| "task_status_text FAILED_TASK = ''FAILED''"
| "task_status_text CANCELLED_TASK = ''CANCELLED''"

definition focus_classes :: "focus_class list" where
  "focus_classes = [Routine, Standard, Complex, Critical]"

primrec focus_text :: "focus_class \<Rightarrow> string" where
  "focus_text Routine = ''routine''"
| "focus_text Standard = ''standard''"
| "focus_text Complex = ''complex''"
| "focus_text Critical = ''critical''"

text \<open>The element with a given name; \<open>None\<close> is a failed \<open>has\<close>.\<close>

definition named :: "('a \<Rightarrow> string) \<Rightarrow> 'a list \<Rightarrow> string \<Rightarrow> 'a option" where
  "named name xs t = find (\<lambda>x. name x = t) xs"

section \<open>Reading values\<close>

fun object_value :: "json option \<Rightarrow> string \<Rightarrow> (string \<times> json) list durable" where
  "object_value (Some (JObj props)) label = Inr props"
| "object_value _ label = corrupt (label @ '' must be an object.'')"

fun string_value :: "json option \<Rightarrow> string \<Rightarrow> string durable" where
  "string_value (Some (JStr t)) label = Inr t"
| "string_value _ label = corrupt (label @ '' must be text.'')"

fun array_value :: "json option \<Rightarrow> string \<Rightarrow> json list durable" where
  "array_value (Some (JArr xs)) label = Inr xs"
| "array_value _ label = corrupt (label @ '' must be an array.'')"

definition bounded_string :: "json option \<Rightarrow> string \<Rightarrow> nat \<Rightarrow> string durable" where
  "bounded_string v label maxLength =
     and_then (string_value v label) (\<lambda>t.
     if blank t \<or> maxLength < length t \<or> CHR 0x00 \<in> set t
     then corrupt (label @ '' is empty or exceeds its bound.'') else Inr t)"

fun safe_integer_value :: "json option \<Rightarrow> string \<Rightarrow> int \<Rightarrow> int \<Rightarrow> int durable" where
  "safe_integer_value (Some (JNum q)) label minimum maximum =
     (if \<not> num_is_safe_integer q \<or> fst (quotient_of q) < minimum \<or> maximum < fst (quotient_of q)
      then corrupt (label @ '' is not a valid safe integer.'') else Inr (fst (quotient_of q)))"
| "safe_integer_value _ label minimum maximum = corrupt (label @ '' is not a valid safe integer.'')"

definition exact_keys :: "(string \<times> json) list \<Rightarrow> string list \<Rightarrow> string \<Rightarrow> unit durable" where
  "exact_keys props keys label =
     (if length (js_keys props) \<noteq> length (remdups keys) then corrupt (label @ '' has an unexpected field count.'')
      else and_then (for_each (\<lambda>k. if k \<notin> set keys then corrupt (label @ '' contains unknown field '' @ k @ ''.'') else Inr ())
             (js_keys props)) (\<lambda>_.
           for_each (\<lambda>k. if \<not> js_in k props then corrupt (label @ '' is missing field '' @ k @ ''.'') else Inr ()) (remdups keys)))"

definition mission_state_value :: "json option \<Rightarrow> string \<Rightarrow> mission_state durable" where
  "mission_state_value v label =
     and_then (string_value v label) (\<lambda>t.
     case named state_text mission_states t of None \<Rightarrow> corrupt (label @ '' is unsupported.'') | Some st \<Rightarrow> Inr st)"

section \<open>Decoding\<close>

definition decode_counters :: "json option \<Rightarrow> string \<Rightarrow> budget_counters durable" where
  "decode_counters v label =
     and_then (object_value v label) (\<lambda>props.
     and_then (exact_keys props [''inputTokens'', ''outputTokens'', ''costMicros'', ''toolCalls'', ''attempts''] label) (\<lambda>_.
     and_then (safe_integer_value (own_property props ''attempts'') (label @ ''.attempts'') 0 max_safe_integer) (\<lambda>a.
     and_then (safe_integer_value (own_property props ''costMicros'') (label @ ''.costMicros'') 0 max_safe_integer) (\<lambda>c.
     and_then (safe_integer_value (own_property props ''inputTokens'') (label @ ''.inputTokens'') 0 max_safe_integer) (\<lambda>i.
     and_then (safe_integer_value (own_property props ''outputTokens'') (label @ ''.outputTokens'') 0 max_safe_integer) (\<lambda>out.
     and_then (safe_integer_value (own_property props ''toolCalls'') (label @ ''.toolCalls'') 0 max_safe_integer) (\<lambda>t.
     Inr \<lparr>inputTokens = i, outputTokens = out, costMicros = c, toolCalls = t, attempts = a\<rparr>)))))))"

definition task_fields :: "string list" where
  "task_fields = [''definitionOfDone'', ''dependsOn'', ''id'', ''priority'', ''title'']"

definition decode_task :: "json \<Rightarrow> mission_task_input durable" where
  "decode_task v =
     and_then (object_value (Some v) ''mission task'') (\<lambda>props.
     and_then (for_each (\<lambda>k. if k \<notin> set task_fields
         then corrupt (''Persisted mission task contains unknown field '' @ k @ ''.'') else Inr ()) (js_keys props)) (\<lambda>_.
     and_then (array_value (own_property props ''definitionOfDone'') ''definitionOfDone'') (\<lambda>items.
     and_then (traverse (\<lambda>x. bounded_string (Some x) ''definitionOfDone item'' 1000) items) (\<lambda>dones.
     and_then (if length dones = 0 \<or> 100 < length dones then corrupt ''definitionOfDone count is out of bounds.'' else Inr ()) (\<lambda>_.
     and_then (case own_property props ''dependsOn'' of None \<Rightarrow> Inr None
       | Some d \<Rightarrow> and_then (array_value (Some d) ''dependsOn'') (\<lambda>ds.
           and_then (traverse (\<lambda>x. bounded_string (Some x) ''dependency id'' 200) ds) (\<lambda>deps. Inr (Some deps)))) (\<lambda>deps.
     and_then (case own_property props ''priority'' of None \<Rightarrow> Inr None
       | Some p \<Rightarrow> and_then (safe_integer_value (Some p) ''task priority'' 0 100) (\<lambda>n. Inr (Some n))) (\<lambda>prio.
     and_then (bounded_string (own_property props ''id'') ''task id'' 200) (\<lambda>i.
     and_then (bounded_string (own_property props ''title'') ''task title'' 1000) (\<lambda>title.
     Inr \<lparr>input_id = i, input_title = title, input_dependsOn = deps, input_definitionOfDone = dones, input_priority = prio\<rparr>)))))))))"

definition decode_create_input :: "json option \<Rightarrow> mission_create_input durable" where
  "decode_create_input v =
     and_then (object_value v ''mission create input'') (\<lambda>props.
     and_then (exact_keys props [''budgetLimits'', ''focus'', ''id'', ''objective'', ''tasks''] ''mission create input'') (\<lambda>_.
     and_then (string_value (own_property props ''focus'') ''focus'') (\<lambda>f.
     case named focus_text focus_classes f of None \<Rightarrow> corrupt ''Persisted mission focus is unsupported.''
     | Some fc \<Rightarrow>
       and_then (array_value (own_property props ''tasks'') ''Persisted mission tasks'') (\<lambda>vs.
       and_then (traverse decode_task vs) (\<lambda>ts.
       and_then (case validate_task_graph ts of Inl _ \<Rightarrow> corrupt ''Persisted mission task graph is invalid.'' | Inr _ \<Rightarrow> Inr ()) (\<lambda>_.
       and_then (decode_counters (own_property props ''budgetLimits'') ''budget limits'') (\<lambda>limits.
       and_then (bounded_string (own_property props ''id'') ''mission id'' 200) (\<lambda>i.
       and_then (bounded_string (own_property props ''objective'') ''mission objective'' 20000) (\<lambda>obj.
       Inr \<lparr>create_id = i, create_objective = obj, create_focus = fc, create_tasks = ts, create_budgetLimits = limits\<rparr>)))))))))"

definition decode_event :: "json \<Rightarrow> mission_event durable" where
  "decode_event v =
     and_then (object_value (Some v) ''mission event'') (\<lambda>props.
     and_then (string_value (own_property props ''type'') ''mission event type'') (\<lambda>ty.
     if ty = ''mission.created'' then
       and_then (exact_keys props [''input'', ''type''] ty) (\<lambda>_.
       and_then (decode_create_input (own_property props ''input'')) (\<lambda>i. Inr (MissionCreated i)))
     else if ty = ''mission.transitioned'' then
       and_then (exact_keys props [''from'', ''to'', ''type''] ty) (\<lambda>_.
       and_then (mission_state_value (own_property props ''from'') ''mission transition source'') (\<lambda>a.
       and_then (mission_state_value (own_property props ''to'') ''mission transition destination'') (\<lambda>b.
       Inr (MissionTransitioned a b))))
     else if ty = ''task.status_changed'' then
       and_then (exact_keys props [''status'', ''taskId'', ''type''] ty) (\<lambda>_.
       and_then (string_value (own_property props ''status'') ''task status'') (\<lambda>t.
       case named task_status_text task_statuses t of None \<Rightarrow> corrupt ''Persisted task status is unsupported.''
       | Some st \<Rightarrow> and_then (bounded_string (own_property props ''taskId'') ''taskId'' 200) (\<lambda>i. Inr (TaskStatusChanged i st))))
     else if ty = ''budget.debited'' then
       and_then (exact_keys props [''delta'', ''type''] ty) (\<lambda>_.
       and_then (decode_counters (own_property props ''delta'') ''budget delta'') (\<lambda>d. Inr (BudgetDebited d)))
     else if ty = ''failure.recorded'' then
       and_then (exact_keys props [''signature'', ''type''] ty) (\<lambda>_.
       and_then (bounded_string (own_property props ''signature'') ''failure signature'' 500) (\<lambda>g. Inr (FailureRecorded g)))
     else corrupt ''Persisted mission event type is unsupported.''))"


section \<open>Events as values\<close>

definition counters_value :: "budget_counters \<Rightarrow> json" where
  "counters_value c = JObj
     [(''inputTokens'', JNum (of_int (inputTokens c))), (''outputTokens'', JNum (of_int (outputTokens c))),
      (''costMicros'', JNum (of_int (costMicros c))), (''toolCalls'', JNum (of_int (toolCalls c))),
      (''attempts'', JNum (of_int (attempts c)))]"

definition task_value :: "mission_task_input \<Rightarrow> json" where
  "task_value t = JObj
     ([(''id'', JStr (input_id t)), (''title'', JStr (input_title t))]
      @ (case input_dependsOn t of None \<Rightarrow> [] | Some ds \<Rightarrow> [(''dependsOn'', JArr (map JStr ds))])
      @ [(''definitionOfDone'', JArr (map JStr (input_definitionOfDone t)))]
      @ (case input_priority t of None \<Rightarrow> [] | Some n \<Rightarrow> [(''priority'', JNum (of_int n))]))"

definition create_value :: "mission_create_input \<Rightarrow> json" where
  "create_value i = JObj
     [(''id'', JStr (create_id i)), (''objective'', JStr (create_objective i)), (''focus'', JStr (focus_text (create_focus i))),
      (''tasks'', JArr (map task_value (create_tasks i))), (''budgetLimits'', counters_value (create_budgetLimits i))]"

primrec event_value :: "mission_event \<Rightarrow> json" where
  "event_value (MissionCreated i) = JObj [(''input'', create_value i), (''type'', JStr ''mission.created'')]"
| "event_value (MissionTransitioned a b) =
     JObj [(''from'', JStr (state_text a)), (''to'', JStr (state_text b)), (''type'', JStr ''mission.transitioned'')]"
| "event_value (TaskStatusChanged i st) =
     JObj [(''status'', JStr (task_status_text st)), (''taskId'', JStr i), (''type'', JStr ''task.status_changed'')]"
| "event_value (BudgetDebited d) = JObj [(''delta'', counters_value d), (''type'', JStr ''budget.debited'')]"
| "event_value (FailureRecorded g) = JObj [(''signature'', JStr g), (''type'', JStr ''failure.recorded'')]"

section \<open>Round trip\<close>

text \<open>What the codec demands of an event.\<close>

definition counters_ok :: "budget_counters \<Rightarrow> bool" where
  "counters_ok c \<longleftrightarrow> (\<forall>n \<in> {inputTokens c, outputTokens c, costMicros c, toolCalls c, attempts c}. 0 \<le> n \<and> n \<le> max_safe_integer)"

definition task_ok :: "mission_task_input \<Rightarrow> bool" where
  "task_ok t \<longleftrightarrow> identifier_ok (input_id t) 200 \<and> identifier_ok (input_title t) 1000 \<and>
     input_definitionOfDone t \<noteq> [] \<and> length (input_definitionOfDone t) \<le> 100 \<and>
     (\<forall>d \<in> set (input_definitionOfDone t). identifier_ok d 1000) \<and>
     (\<forall>ds. input_dependsOn t = Some ds \<longrightarrow> (\<forall>d \<in> set ds. identifier_ok d 200)) \<and>
     (\<forall>n. input_priority t = Some n \<longrightarrow> 0 \<le> n \<and> n \<le> 100)"

definition create_ok :: "mission_create_input \<Rightarrow> bool" where
  "create_ok i \<longleftrightarrow> identifier_ok (create_id i) 200 \<and> identifier_ok (create_objective i) 20000 \<and>
     (\<forall>t \<in> set (create_tasks i). task_ok t) \<and> (\<exists>ts. validate_task_graph (create_tasks i) = Inr ts) \<and>
     counters_ok (create_budgetLimits i)"

primrec storable :: "mission_event \<Rightarrow> bool" where
  "storable (MissionCreated i) \<longleftrightarrow> create_ok i"
| "storable (MissionTransitioned a b) \<longleftrightarrow> True"
| "storable (TaskStatusChanged i st) \<longleftrightarrow> identifier_ok i 200"
| "storable (BudgetDebited d) \<longleftrightarrow> counters_ok d"
| "storable (FailureRecorded g) \<longleftrightarrow> identifier_ok g 500"

lemma named_state [simp]: "named state_text mission_states (state_text st) = Some st"
  by (cases st) (simp_all add: named_def mission_states_def)

lemma named_task_status [simp]: "named task_status_text task_statuses (task_status_text st) = Some st"
  by (cases st) (simp_all add: named_def task_statuses_def)

lemma named_focus [simp]: "named focus_text focus_classes (focus_text f) = Some f"
  by (cases f) (simp_all add: named_def focus_classes_def)

lemma bounded_string_text [simp]: "bounded_string (Some (JStr t)) label n = (if identifier_ok t n then Inr t
    else corrupt (label @ '' is empty or exceeds its bound.''))"
  by (auto simp: bounded_string_def identifier_ok_def)

lemma safe_integer_number [simp]: "num_is_safe_integer (of_int n) = safe_integer n"
  by (simp add: num_is_safe_integer_def num_is_integer_def)

lemma corrupt_not_Inr [simp]: "corrupt message \<noteq> Inr x" "Inr x \<noteq> corrupt message"
  by (simp_all add: corrupt_def)

lemma bounded_strings [simp]: "traverse (\<lambda>x. bounded_string (Some x) label n) (map JStr ts) = Inr us \<longleftrightarrow>
    us = ts \<and> (\<forall>t \<in> set ts. identifier_ok t n)"
  by (induction ts arbitrary: us) (auto simp: and_then_Inr)

lemma exact_keys_Inr:
  "distinct (map fst props) \<Longrightarrow> distinct keys \<Longrightarrow> exact_keys props keys label = Inr u \<longleftrightarrow> set (map fst props) = set keys"
proof -
  assume d: "distinct (map fst props)" "distinct keys"
  have "exact_keys props keys label = Inr u \<longleftrightarrow>
      length props = length keys \<and> fst ` set props \<subseteq> set keys \<and> (\<forall>k \<in> set keys. js_in k props)"
    using d(2) by (auto simp: exact_keys_def js_keys_def and_then_Inr for_each_Inr distinct_remdups_id split: if_splits)
  also have "\<dots> \<longleftrightarrow> set (map fst props) = set keys"
  proof
    assume "length props = length keys \<and> fst ` set props \<subseteq> set keys \<and> (\<forall>k \<in> set keys. js_in k props)"
    then have "card (set (map fst props)) = card (set keys)" "set (map fst props) \<subseteq> set keys"
      using d by (simp_all add: distinct_card [OF d(1)] distinct_card [OF d(2)] del: set_map, simp)
    then show "set (map fst props) = set keys" by (metis List.finite_set card_subset_eq)
  next
    assume eq: "set (map fst props) = set keys"
    have "length props = length keys" using distinct_card [OF d(1)] distinct_card [OF d(2)] eq by simp
    with eq show "length props = length keys \<and> fst ` set props \<subseteq> set keys \<and> (\<forall>k \<in> set keys. js_in k props)"
      by (auto simp: js_in_def)
  qed
  finally show ?thesis .
qed

lemma decode_counters_value: "decode_counters (Some (counters_value c)) label = Inr d \<longleftrightarrow> d = c \<and> counters_ok c"
proof -
  have keys: "exact_keys [(''inputTokens'', a), (''outputTokens'', b), (''costMicros'', c), (''toolCalls'', d), (''attempts'', e)]
      [''inputTokens'', ''outputTokens'', ''costMicros'', ''toolCalls'', ''attempts''] label = Inr ()" for a b c d e
    by (simp add: exact_keys_Inr)
  show ?thesis
    by (cases c) (simp add: decode_counters_def counters_value_def keys own_property_def and_then_Inr counters_ok_def
      safe_integer_def max_safe_integer_def, auto)
qed

lemma decode_task_value: "decode_task (task_value t) = Inr u \<longleftrightarrow> u = t \<and> task_ok t"
proof -
  obtain i n ds dn p where t: "t = \<lparr>input_id = i, input_title = n, input_dependsOn = ds, input_definitionOfDone = dn, input_priority = p\<rparr>"
    by (cases t)
  show ?thesis
    by (cases ds; cases p)
       (simp_all add: t decode_task_def task_value_def task_fields_def js_keys_def own_property_def and_then_Inr task_ok_def,
        auto simp: safe_integer_def max_safe_integer_def split: if_splits)
qed

lemma decode_tasks_value: "traverse decode_task (map task_value ts) = Inr us \<longleftrightarrow> us = ts \<and> (\<forall>t \<in> set ts. task_ok t)"
  by (induction ts arbitrary: us) (auto simp: and_then_Inr decode_task_value)

lemma decode_create_value: "decode_create_input (Some (create_value i)) = Inr j \<longleftrightarrow> j = i \<and> create_ok i"
proof -
  obtain a b c d e where i: "i = \<lparr>create_id = a, create_objective = b, create_focus = c, create_tasks = d, create_budgetLimits = e\<rparr>"
    by (cases i)
  have "(case validate_task_graph d of Inl _ \<Rightarrow> corrupt ''Persisted mission task graph is invalid.'' | Inr _ \<Rightarrow> Inr ()) = Inr () \<longleftrightarrow>
      (\<exists>ts. validate_task_graph d = Inr ts)" by (simp split: sum.split)
  then show ?thesis
    by (simp add: i decode_create_input_def create_value_def exact_keys_def js_keys_def js_in_def own_property_def and_then_Inr
      decode_tasks_value decode_counters_value create_ok_def) auto
qed

lemma decode_event_value: "decode_event (event_value e) = Inr d \<longleftrightarrow> d = e \<and> storable e"
  by (cases e)
     (auto simp: decode_event_def exact_keys_def js_keys_def js_in_def own_property_def and_then_Inr
       decode_create_value decode_counters_value mission_state_value_def split: if_splits)


section \<open>The order of keys does not matter\<close>

definition canonical_props :: "(string \<times> json) list \<Rightarrow> (string \<times> json) list" where
  "canonical_props props = from_entries (js_sort key_compare (map (map_prod id canonicalize) props))"

lemma canonicalize_object [simp]: "canonicalize (JObj props) = JObj (canonical_props props)"
  by (simp add: canonical_props_def)

declare canonicalize.simps(6) [simp del]

lemma canonicalize_shape [simp]:
  "canonicalize v = JObj p \<longleftrightarrow> (\<exists>q. v = JObj q \<and> p = canonical_props q)"
  "canonicalize v = JArr xs \<longleftrightarrow> (\<exists>ys. v = JArr ys \<and> xs = map canonicalize ys)"
  by (cases v; auto)+

lemma canonicalize_option_shape [simp]:
  "map_option canonicalize v = Some (JObj p) \<longleftrightarrow> (\<exists>q. v = Some (JObj q) \<and> p = canonical_props q)"
  "map_option canonicalize v = Some (JArr xs) \<longleftrightarrow> (\<exists>ys. v = Some (JArr ys) \<and> xs = map canonicalize ys)"
  by (cases v; auto)+

lemma canonical_props_keys:
  "distinct (map fst props) \<Longrightarrow> distinct (map fst (canonical_props props))"
  "set (map fst (canonical_props props)) = set (map fst props)"
proof -
  have "mset (map fst (canonical_props props)) = mset (map fst props)"
    by (simp add: canonical_props_def multiset.map_comp comp_def)
  then show "distinct (map fst props) \<Longrightarrow> distinct (map fst (canonical_props props))"
    and "set (map fst (canonical_props props)) = set (map fst props)"
    by (metis mset_eq_imp_distinct_iff, metis set_mset_mset)
qed

lemma canonical_property:
  assumes "distinct (map fst props)"
  shows "own_property (canonical_props props) k = map_option canonicalize (own_property props k)"
proof -
  have "set (canonical_props props) = set (map (map_prod id canonicalize) props)"
    by (simp add: canonical_props_def)
  moreover have "distinct (map fst (map (map_prod id canonicalize) props))" using assms by (simp add: comp_def)
  ultimately have "map_of (canonical_props props) = map_of (map (map_prod id canonicalize) props)"
    using canonical_props_keys(1) [OF assms] by (simp add: map_of_inject_set)
  also have "map (map_prod id canonicalize) props = map (\<lambda>(k, v). (k, canonicalize v)) props" by auto
  finally show ?thesis by (simp add: own_property_def map_of_map)
qed

lemma canonical_strings [simp]:
  "string_value (map_option canonicalize v) label = Inr t \<longleftrightarrow> string_value v label = Inr t"
  "string_value (Some (canonicalize x)) label = Inr t \<longleftrightarrow> string_value (Some x) label = Inr t"
  by (cases "(v, label)" rule: string_value.cases; simp) (cases "(Some x, label)" rule: string_value.cases; simp)

lemma canonical_bounded [simp]:
  "bounded_string (map_option canonicalize v) label n = Inr t \<longleftrightarrow> bounded_string v label n = Inr t"
  "bounded_string (Some (canonicalize x)) label n = Inr t \<longleftrightarrow> bounded_string (Some x) label n = Inr t"
  by (simp_all add: bounded_string_def and_then_Inr)

lemma canonical_integer [simp]:
  "safe_integer_value (map_option canonicalize v) label lo hi = Inr n \<longleftrightarrow> safe_integer_value v label lo hi = Inr n"
  "safe_integer_value (Some (canonicalize x)) label lo hi = Inr n \<longleftrightarrow> safe_integer_value (Some x) label lo hi = Inr n"
  by (cases "(v, label, lo, hi)" rule: safe_integer_value.cases; simp)
     (cases "(Some x, label, lo, hi)" rule: safe_integer_value.cases; simp)

lemma canonical_object [simp]:
  "object_value (map_option canonicalize v) label = Inr p \<longleftrightarrow> (\<exists>q. v = Some (JObj q) \<and> p = canonical_props q)"
  "object_value (Some (canonicalize x)) label = Inr p \<longleftrightarrow> (\<exists>q. x = JObj q \<and> p = canonical_props q)"
  by (cases "(v, label)" rule: object_value.cases; auto) (cases "(Some x, label)" rule: object_value.cases; auto)

lemma canonical_array [simp]:
  "array_value (map_option canonicalize v) label = Inr p \<longleftrightarrow> (\<exists>q. v = Some (JArr q) \<and> p = map canonicalize q)"
  "array_value (Some (canonicalize x)) label = Inr p \<longleftrightarrow> (\<exists>q. x = JArr q \<and> p = map canonicalize q)"
  by (cases "(v, label)" rule: array_value.cases; auto) (cases "(Some x, label)" rule: array_value.cases; auto)

lemma ex_image: "(\<exists>x. (\<exists>y. P y \<and> x = g y) \<and> Q x) \<longleftrightarrow> (\<exists>y. P y \<and> Q (g y))"
  by blast

lemma value_Inr:
  "object_value v label = Inr p \<longleftrightarrow> v = Some (JObj p)" "array_value v label = Inr xs \<longleftrightarrow> v = Some (JArr xs)"
  by (cases "(v, label)" rule: object_value.cases; auto) (cases "(v, label)" rule: array_value.cases; auto)

lemma traverse_map_same:
  "(\<And>x y. x \<in> set xs \<Longrightarrow> f (g x) = Inr y \<longleftrightarrow> f x = Inr y) \<Longrightarrow> traverse f (map g xs) = Inr ys \<longleftrightarrow> traverse f xs = Inr ys"
  by (induction xs arbitrary: ys) (auto simp: and_then_Inr)

lemma json_wf_object: "json_wf (JObj props) \<longleftrightarrow> distinct (map fst props) \<and> (\<forall>p \<in> set props. json_wf (snd p))"
  by (auto simp: list_all_iff)

lemma json_wf_property: "json_wf (JObj props) \<Longrightarrow> own_property props k = Some v \<Longrightarrow> json_wf v"
  by (auto simp: json_wf_object own_property_def dest!: map_of_SomeD simp del: json_wf.simps)

declare json_wf.simps(6) [simp del]

lemma decode_counters_canonical:
  assumes "\<And>j. v = Some j \<Longrightarrow> json_wf j"
  shows "decode_counters (map_option canonicalize v) label = Inr d \<longleftrightarrow> decode_counters v label = Inr d"
proof (cases "\<exists>props. v = Some (JObj props)")
  case True
  then obtain props where v: "v = Some (JObj props)" by blast
  with assms have d: "distinct (map fst props)" by (simp add: json_wf_object)
  show ?thesis
    by (simp add: v decode_counters_def and_then_Inr exact_keys_Inr d canonical_props_keys canonical_property [OF d]
      del: set_map)
next
  case False
  then show ?thesis by (auto simp: decode_counters_def and_then_Inr value_Inr)
qed

lemma decode_task_canonical:
  assumes "json_wf v"
  shows "decode_task (canonicalize v) = Inr t \<longleftrightarrow> decode_task v = Inr t"
proof (cases "\<exists>props. v = JObj props")
  case True
  then obtain props where v: "v = JObj props" by blast
  with assms have d: "distinct (map fst props)" by (simp add: json_wf_object)
  have keys: "set (js_keys (canonical_props props)) = set (js_keys props)"
    using canonical_props_keys(2) by (simp add: js_keys_def)
  have texts: "traverse (\<lambda>x. bounded_string (Some x) label n) (map canonicalize xs) = Inr ys \<longleftrightarrow>
      traverse (\<lambda>x. bounded_string (Some x) label n) xs = Inr ys" for label n xs ys
    by (rule traverse_map_same) simp
  show ?thesis
    by (cases "own_property props ''dependsOn''"; cases "own_property props ''priority''")
       (simp_all add: v decode_task_def and_then_Inr for_each_Inr keys canonical_property [OF d] texts value_Inr ex_image
       del: map_option_eq_Some split: option.split)
next
  case False
  then show ?thesis by (auto simp: decode_task_def and_then_Inr value_Inr)
qed

lemma decode_create_canonical:
  assumes "\<And>j. v = Some j \<Longrightarrow> json_wf j"
  shows "decode_create_input (map_option canonicalize v) = Inr i \<longleftrightarrow> decode_create_input v = Inr i"
proof (cases "\<exists>props. v = Some (JObj props)")
  case True
  then obtain props where v: "v = Some (JObj props)" by blast
  with assms have wf: "json_wf (JObj props)" by simp
  then have d: "distinct (map fst props)" by (simp add: json_wf_object)
  have "traverse decode_task (map canonicalize vs) = Inr ts \<longleftrightarrow> traverse decode_task vs = Inr ts"
    if "own_property props ''tasks'' = Some (JArr vs)" for vs ts
  proof (rule traverse_map_same)
    fix x t assume "x \<in> set vs"
    then have "json_wf x" using json_wf_property [OF wf that] by (simp add: list_all_iff)
    then show "decode_task (canonicalize x) = Inr t \<longleftrightarrow> decode_task x = Inr t" by (rule decode_task_canonical)
  qed
  moreover have "decode_counters (map_option canonicalize (own_property props k)) label = Inr c \<longleftrightarrow>
      decode_counters (own_property props k) label = Inr c" for k label c
    using json_wf_property [OF wf] by (intro decode_counters_canonical)
  ultimately show ?thesis
    by (simp add: v decode_create_input_def and_then_Inr exact_keys_Inr d canonical_props_keys canonical_property [OF d]
      value_Inr ex_image cong: conj_cong del: set_map map_option_eq_Some split: option.split)
next
  case False
  then show ?thesis by (auto simp: decode_create_input_def and_then_Inr value_Inr)
qed

lemma decode_event_canonical:
  assumes "json_wf v"
  shows "decode_event (canonicalize v) = Inr e \<longleftrightarrow> decode_event v = Inr e"
proof (cases "\<exists>props. v = JObj props")
  case True
  then obtain props where v: "v = JObj props" by blast
  with assms have wf: "json_wf (JObj props)" by simp
  then have d: "distinct (map fst props)" by (simp add: json_wf_object)
  have "decode_counters (map_option canonicalize (own_property props k)) label = Inr c \<longleftrightarrow>
      decode_counters (own_property props k) label = Inr c" for k label c
    using json_wf_property [OF wf] by (intro decode_counters_canonical)
  moreover have "decode_create_input (map_option canonicalize (own_property props k)) = Inr c \<longleftrightarrow>
      decode_create_input (own_property props k) = Inr c" for k c
    using json_wf_property [OF wf] by (intro decode_create_canonical)
  ultimately show ?thesis
    by (simp add: v decode_event_def and_then_Inr mission_state_value_def exact_keys_Inr d canonical_props_keys
      canonical_property [OF d] del: set_map map_option_eq_Some split: option.split)
next
  case False
  then show ?thesis by (auto simp: decode_event_def and_then_Inr value_Inr)
qed

lemma counters_value_wf: "json_wf (counters_value c)"
  by (simp add: counters_value_def json_wf_object)

lemma task_value_wf: "json_wf (task_value t)"
  by (cases "input_dependsOn t"; cases "input_priority t") (simp_all add: task_value_def json_wf_object list_all_iff)

lemma event_value_wf: "json_wf (event_value e)"
  by (cases e) (simp_all add: json_wf_object create_value_def counters_value_wf list_all_iff task_value_wf)

lemma decode_stored_event: "decode_event (canonicalize (event_value e)) = Inr d \<longleftrightarrow> d = e \<and> storable e"
  by (simp add: decode_event_canonical event_value_wf decode_event_value)

end
