(* ===== verification/DurableEvents.thy ===== *)
theory DurableEvents
  imports MissionCodec MissionRuntime
begin

text \<open>
  The event half of the SQLite store (\<open>src/durable/store.ts\<close>): mission events as rows that hold the
  canonical JSON text of an event and its hash, and the idempotency records of batches. A table is a
  list of rows; an operation is one transaction on the tables, so a failure leaves them unchanged.
  \<open>JSON.stringify\<close>, \<open>JSON.parse\<close>, \<open>Date.parse\<close> and SHA-256 are the functions of a \<open>durable_env\<close>. The
  store meets the \<open>EventStore\<close> contract: everything proved of missions over that contract holds over it.
\<close>

record durable_env =
  env_text :: "json \<Rightarrow> string"
  env_parse :: "string \<Rightarrow> json option"
  env_hash :: "string \<Rightarrow> string"
  env_date :: "string \<Rightarrow> int option"

record event_row =
  er_missionId :: string
  er_sequence :: int
  er_aggregateVersion :: int
  er_key :: string
  er_occurredAt :: string
  er_json :: string
  er_hash :: string

record event_tables =
  mission_events :: "event_row list"
  event_idempotency :: "string \<times> string \<rightharpoonup> string \<times> int \<times> int"

section \<open>Serialized values\<close>

definition utf8_length :: "string \<Rightarrow> int" where
  "utf8_length t = sum_list (map (\<lambda>c. if (of_char c :: nat) < 128 then 1 else 2) t)"

definition canonical_json :: "durable_env \<Rightarrow> json \<Rightarrow> int \<Rightarrow> string durable" where
  "canonical_json e v maxBytes =
     and_then (assert_safe_integer maxBytes ''maxBytes'' 1 max_safe_integer) (\<lambda>_.
     let serialized = env_text e (canonicalize v) in
     if maxBytes < utf8_length serialized
     then Inl (durable_error.StoreError ''Serialized durable value exceeds its configured byte bound.'') else Inr serialized)"

definition parse_json :: "durable_env \<Rightarrow> string \<Rightarrow> int \<Rightarrow> string \<Rightarrow> json durable" where
  "parse_json e t maxBytes label =
     (if maxBytes < utf8_length t then corrupt (label @ '' exceeds its configured byte bound.'')
      else (case env_parse e t of None \<Rightarrow> corrupt (label @ '' contains malformed JSON.'') | Some v \<Rightarrow> Inr v))"

definition assert_canonical_text :: "durable_env \<Rightarrow> string \<Rightarrow> string \<Rightarrow> unit durable" where
  "assert_canonical_text e t name =
     (case env_date e t of
        None \<Rightarrow> Inl (InvalidArgument (name @ '' must be a canonical UTC ISO timestamp.''))
      | Some ms \<Rightarrow> if iso_text ms \<noteq> t then Inl (InvalidArgument (name @ '' must be a canonical UTC ISO timestamp.'')) else Inr ())"

section \<open>Reading\<close>

definition rows_of :: "event_tables \<Rightarrow> string \<Rightarrow> event_row list" where
  "rows_of s m = sort_key er_sequence (filter (\<lambda>r. er_missionId r = m) (mission_events s))"

definition mission_event_count :: "event_tables \<Rightarrow> string \<Rightarrow> int" where
  "mission_event_count s m = int (length (filter (\<lambda>r. er_missionId r = m) (mission_events s)))"

definition decode_event_row :: "durable_env \<Rightarrow> durable_limits \<Rightarrow> string \<Rightarrow> int \<Rightarrow> event_row
    \<Rightarrow> mission_event stored_event durable" where
  "decode_event_row e l m expected r =
     (if er_missionId r \<noteq> m \<or> er_sequence r \<noteq> expected \<or> er_aggregateVersion r \<noteq> er_sequence r
      then corrupt ''Mission event identity or sequence is corrupt.''
      else and_then (assert_durable_identifier (er_key r) ''persisted idempotency key'' 500) (\<lambda>_.
           and_then (corrupt_if_failed (and_then (assert_canonical_text e (er_occurredAt r) ''persisted event occurredAt'') (\<lambda>_.
              assert_sha256 (er_hash r) ''persisted event hash''))) (\<lambda>_.
           if env_hash e (er_json r) \<noteq> er_hash r then corrupt ''Persisted mission event hash mismatch.''
           else and_then (parse_json e (er_json r) (maxEventBytes l) ''mission event JSON'') (\<lambda>v.
                and_then (decode_event v) (\<lambda>d.
                Inr \<lparr>missionId = m, sequence = er_sequence r, aggregateVersion = er_aggregateVersion r,
                     idempotencyKey = er_key r, occurredAt = er_occurredAt r, event_data = d\<rparr>)))))"

primrec decode_event_rows :: "durable_env \<Rightarrow> durable_limits \<Rightarrow> event_row list \<Rightarrow> string \<Rightarrow> int
    \<Rightarrow> mission_event stored_event list durable" where
  "decode_event_rows e l [] m expected = Inr []"
| "decode_event_rows e l (r # rs) m expected =
     and_then (decode_event_row e l m expected r) (\<lambda>ev.
     and_then (decode_event_rows e l rs m (expected + 1)) (\<lambda>evs. Inr (ev # evs)))"

definition load_mission_events :: "durable_env \<Rightarrow> durable_limits \<Rightarrow> event_tables \<Rightarrow> string
    \<Rightarrow> mission_event stored_event list durable" where
  "load_mission_events e l s m =
     and_then (assert_durable_identifier m ''missionId'' 200) (\<lambda>_. decode_event_rows e l (rows_of s m) m 1)"

definition load_event_range :: "durable_env \<Rightarrow> durable_limits \<Rightarrow> event_tables \<Rightarrow> string \<Rightarrow> int \<Rightarrow> int
    \<Rightarrow> mission_event stored_event list durable" where
  "load_event_range e l s m first amount =
     and_then (assert_safe_integer first ''firstSequence'' 1 max_safe_integer) (\<lambda>_.
     and_then (assert_safe_integer amount ''event count'' 1 (maxEventBatch l)) (\<lambda>_.
     let rows = filter (\<lambda>r. first \<le> er_sequence r \<and> er_sequence r < first + amount) (rows_of s m) in
     if int (length rows) \<noteq> amount then corrupt ''Idempotency record points to an incomplete event batch.''
     else decode_event_rows e l rows m first))"

section \<open>Appending\<close>

record normalized_item =
  norm_data :: mission_event
  norm_json :: string
  norm_hash :: string
  norm_occurredAt :: string

definition normalize_item :: "durable_env \<Rightarrow> durable_limits \<Rightarrow> mission_event append_item \<Rightarrow> normalized_item durable" where
  "normalize_item e l item =
     and_then (assert_canonical_text e (item_occurredAt item) ''event occurredAt'') (\<lambda>_.
     and_then (decode_event (event_value (item_data item))) (\<lambda>d.
     and_then (canonical_json e (event_value d) (maxEventBytes l)) (\<lambda>t.
     Inr \<lparr>norm_data = d, norm_json = t, norm_hash = env_hash e t, norm_occurredAt = item_occurredAt item\<rparr>)))"

definition batch_fingerprint :: "durable_env \<Rightarrow> durable_limits \<Rightarrow> int \<Rightarrow> normalized_item list \<Rightarrow> string durable" where
  "batch_fingerprint e l expectedVersion items =
     and_then (canonical_json e (JObj [(''expectedVersion'', JNum (of_int expectedVersion)),
         (''items'', JArr (map (\<lambda>n. JObj [(''dataHash'', JStr (norm_hash n)), (''occurredAt'', JStr (norm_occurredAt n))]) items))])
       (maxEventBytes l)) (\<lambda>t. Inr (env_hash e t))"

primrec number_rows :: "string \<Rightarrow> string \<Rightarrow> int \<Rightarrow> normalized_item list \<Rightarrow> event_row list" where
  "number_rows m key vers [] = []"
| "number_rows m key vers (n # ns) =
     \<lparr>er_missionId = m, er_sequence = vers + 1, er_aggregateVersion = vers + 1, er_key = key,
      er_occurredAt = norm_occurredAt n, er_json = norm_json n, er_hash = norm_hash n\<rparr>
     # number_rows m key (vers + 1) ns"

primrec number_normalized :: "string \<Rightarrow> string \<Rightarrow> int \<Rightarrow> normalized_item list \<Rightarrow> mission_event stored_event list" where
  "number_normalized m key vers [] = []"
| "number_normalized m key vers (n # ns) =
     \<lparr>missionId = m, sequence = vers + 1, aggregateVersion = vers + 1, idempotencyKey = key,
      occurredAt = norm_occurredAt n, event_data = norm_data n\<rparr>
     # number_normalized m key (vers + 1) ns"

definition append_mission_events :: "durable_env \<Rightarrow> durable_limits \<Rightarrow> event_tables \<Rightarrow> string \<Rightarrow> int \<Rightarrow> string
    \<Rightarrow> mission_event append_item list \<Rightarrow> (durable_error, mission_event stored_event list \<times> event_tables) result" where
  "append_mission_events e l s m expectedVersion key items =
     and_then (assert_durable_identifier m ''missionId'' 200) (\<lambda>_.
     and_then (assert_durable_identifier key ''idempotencyKey'' 500) (\<lambda>_.
     and_then (assert_safe_integer expectedVersion ''expectedVersion'' 0 max_safe_integer) (\<lambda>_.
     if length items = 0 \<or> maxEventBatch l < int (length items)
     then Inl (InvalidArgument ''Mission event batch size is outside the configured bound.'')
     else and_then (traverse (normalize_item e l) items) (\<lambda>norms.
          and_then (batch_fingerprint e l expectedVersion norms) (\<lambda>fingerprint.
          case event_idempotency s (m, key) of
            Some (known, first, amount) \<Rightarrow>
              if known \<noteq> fingerprint
              then Inl (EventConflict ''Idempotency key was reused for a different durable event batch.'')
              else and_then (load_event_range e l s m first amount) (\<lambda>evs. Inr (evs, s))
          | None \<Rightarrow>
              if mission_event_count s m \<noteq> expectedVersion then Inl (EventConflict ''Optimistic version conflict.'')
              else if maxMissionEvents l < mission_event_count s m + int (length norms)
              then Inl (StoreConflict ''Mission event stream exceeds its configured bound.'')
              else Inr (number_normalized m key expectedVersion norms,
                   s\<lparr>mission_events := mission_events s @ number_rows m key expectedVersion norms,
                     event_idempotency := (event_idempotency s)((m, key) \<mapsto>
                       (fingerprint, expectedVersion + 1, int (length norms)))\<rparr>))))))"

definition empty_tables :: event_tables where
  "empty_tables = \<lparr>mission_events = [], event_idempotency = Map.empty\<rparr>"


section \<open>The invariant of the tables\<close>

text \<open>What the store relies on: a stored text parses to the value it was made of, and hashes are SHA-256 digests.\<close>

definition json_laws :: "durable_env \<Rightarrow> bool" where
  "json_laws e \<longleftrightarrow> (\<forall>d. storable d \<longrightarrow> env_parse e (env_text e (canonicalize (event_value d))) = Some (canonicalize (event_value d))) \<and>
     (\<forall>t. sha256_pattern (env_hash e t))"

definition canonical_text :: "durable_env \<Rightarrow> string \<Rightarrow> bool" where
  "canonical_text e t \<longleftrightarrow> (case env_date e t of None \<Rightarrow> False | Some ms \<Rightarrow> iso_text ms = t)"

definition event_row_ok :: "durable_env \<Rightarrow> durable_limits \<Rightarrow> event_row \<Rightarrow> bool" where
  "event_row_ok e l r \<longleftrightarrow> er_aggregateVersion r = er_sequence r \<and> identifier_ok (er_key r) 500 \<and>
     canonical_text e (er_occurredAt r) \<and> er_hash r = env_hash e (er_json r) \<and>
     utf8_length (er_json r) \<le> maxEventBytes l \<and> (\<exists>d. storable d \<and> er_json r = env_text e (canonicalize (event_value d)))"

definition mission_rows :: "event_tables \<Rightarrow> string \<Rightarrow> event_row list" where
  "mission_rows s m = filter (\<lambda>r. er_missionId r = m) (mission_events s)"

definition events_inv :: "durable_env \<Rightarrow> durable_limits \<Rightarrow> event_tables \<Rightarrow> bool" where
  "events_inv e l s \<longleftrightarrow> json_laws e \<and> maxMissionEvents l \<le> max_safe_integer \<and> (\<forall>r \<in> set (mission_events s). event_row_ok e l r) \<and>
     (\<forall>m. map er_sequence (mission_rows s m) = [1..int (length (mission_rows s m))]) \<and>
     (\<forall>m key p first amount. event_idempotency s (m, key) = Some (p, first, amount) \<longrightarrow>
        1 \<le> first \<and> 1 \<le> amount \<and> amount \<le> maxEventBatch l \<and> first + amount \<le> int (length (mission_rows s m)) + 1)"

lemma events_inv_empty: "json_laws e \<Longrightarrow> maxMissionEvents l \<le> max_safe_integer \<Longrightarrow> events_inv e l empty_tables"
  by (simp add: events_inv_def empty_tables_def mission_rows_def)

lemma canonical_text_Inr [result_simps]: "assert_canonical_text e t name = Inr u \<longleftrightarrow> canonical_text e t"
  by (simp add: assert_canonical_text_def canonical_text_def split: option.split)

lemma canonical_json_Inr [result_simps]: "canonical_json e v n = Inr t \<longleftrightarrow>
    safe_integer n \<and> 1 \<le> n \<and> n \<le> max_safe_integer \<and> t = env_text e (canonicalize v) \<and> utf8_length t \<le> n"
  by (auto simp: canonical_json_def result_simps Let_def)

lemma decode_row_event:
  assumes "json_laws e" and "event_row_ok e l r" and "er_missionId r = m" and "er_sequence r = n"
  shows "\<exists>ev. decode_event_row e l m n r = Inr ev \<and> missionId ev = m \<and> sequence ev = n \<and> aggregateVersion ev = n \<and>
    idempotencyKey ev = er_key r \<and> occurredAt ev = er_occurredAt r \<and>
    (\<forall>d. storable d \<longrightarrow> er_json r = env_text e (canonicalize (event_value d)) \<longrightarrow> event_data ev = d)"
proof -
  from assms(2) obtain d where d: "storable d" "er_json r = env_text e (canonicalize (event_value d))"
    by (auto simp: event_row_ok_def)
  have parse: "env_parse e (er_json r) = Some (canonicalize (event_value d))" if "storable d"
      "er_json r = env_text e (canonicalize (event_value d))" for d
    using that assms(1) by (simp add: json_laws_def)
  have same: "d' = d" if d': "storable d'" "er_json r = env_text e (canonicalize (event_value d'))" for d'
  proof -
    have "canonicalize (event_value d') = canonicalize (event_value d)" using parse [OF d'] parse [OF d] by simp
    then show ?thesis using decode_stored_event [of d d] decode_stored_event [of d' d] d(1) by simp
  qed
  have "decode_event (canonicalize (event_value d)) = Inr d" using d(1) by (simp add: decode_stored_event)
  then have "decode_event_row e l m n r = Inr \<lparr>missionId = m, sequence = n, aggregateVersion = n,
      idempotencyKey = er_key r, occurredAt = er_occurredAt r, event_data = d\<rparr>"
    using assms parse [OF d] by (auto simp: decode_event_row_def parse_json_def result_simps event_row_ok_def json_laws_def)
  then show ?thesis using same by auto
qed

lemma decode_rows_append: "decode_event_rows e l (xs @ ys) m n =
    and_then (decode_event_rows e l xs m n) (\<lambda>a. and_then (decode_event_rows e l ys m (n + int (length xs))) (\<lambda>b. Inr (a @ b)))"
proof (induction xs arbitrary: n)
  case Nil
  show ?case by (cases "decode_event_rows e l ys m n") simp_all
next
  case (Cons x xs)
  show ?case
    by (cases "decode_event_row e l m n x"; cases "decode_event_rows e l xs m (n + 1)";
        cases "decode_event_rows e l ys m (n + 1 + int (length xs))") (simp_all add: Cons.IH ac_simps)
qed

lemma decode_rows_total:
  assumes "json_laws e"
  shows "\<forall>r \<in> set rs. event_row_ok e l r \<and> er_missionId r = m \<Longrightarrow> map er_sequence rs = [n + 1..n + int (length rs)] \<Longrightarrow>
    \<exists>evs. decode_event_rows e l rs m (n + 1) = Inr evs \<and> contiguous_from m n evs \<and> length evs = length rs"
proof (induction rs arbitrary: n)
  case (Cons r rs)
  have upto: "[n + 1..n + int (length (r # rs))] = (n + 1) # [n + 1 + 1..n + 1 + int (length rs)]"
    by (subst upto_rec1) (simp_all add: add.assoc)
  with Cons.prems(2) have seq: "er_sequence r = n + 1" "map er_sequence rs = [n + 1 + 1..n + 1 + int (length rs)]" by simp_all
  from decode_row_event [of e l r m "n + 1"] assms Cons.prems(1) seq(1) obtain ev where
    "decode_event_row e l m (n + 1) r = Inr ev" "missionId ev = m" "sequence ev = n + 1" "aggregateVersion ev = n + 1" by auto
  moreover from Cons.IH [OF _ seq(2)] Cons.prems(1) obtain evs where
    "decode_event_rows e l rs m (n + 1 + 1) = Inr evs" "contiguous_from m (n + 1) evs" "length evs = length rs" by auto
  ultimately show ?case by simp
qed simp

lemma mission_rows_simps:
  assumes "events_inv e l s"
  shows "rows_of s m = mission_rows s m" and "mission_event_count s m = int (length (mission_rows s m))"
    and "\<forall>r \<in> set (mission_rows s m). event_row_ok e l r \<and> er_missionId r = m"
proof -
  have "sorted (map er_sequence (mission_rows s m))" using assms by (simp add: events_inv_def)
  then show "rows_of s m = mission_rows s m" by (simp add: rows_of_def mission_rows_def [symmetric] sort_key_id_if_sorted)
  show "mission_event_count s m = int (length (mission_rows s m))" by (simp add: mission_event_count_def mission_rows_def)
  show "\<forall>r \<in> set (mission_rows s m). event_row_ok e l r \<and> er_missionId r = m"
    using assms by (auto simp: events_inv_def mission_rows_def)
qed

lemma loaded_rows:
  assumes "events_inv e l s"
  shows "\<exists>evs. decode_event_rows e l (rows_of s m) m 1 = Inr evs \<and> contiguous_from m 0 evs \<and> length evs = length (mission_rows s m)"
proof -
  have "json_laws e" and seq: "map er_sequence (mission_rows s m) = [0 + 1..0 + int (length (mission_rows s m))]"
    using assms by (simp_all add: events_inv_def)
  from decode_rows_total [OF this(1) mission_rows_simps(3) [OF assms] this(2)] show ?thesis
    by (simp add: mission_rows_simps(1) [OF assms])
qed

section \<open>Appending\<close>

definition norm_ok :: "durable_env \<Rightarrow> durable_limits \<Rightarrow> normalized_item \<Rightarrow> bool" where
  "norm_ok e l n \<longleftrightarrow> storable (norm_data n) \<and> norm_json n = env_text e (canonicalize (event_value (norm_data n))) \<and>
     norm_hash n = env_hash e (norm_json n) \<and> utf8_length (norm_json n) \<le> maxEventBytes l \<and>
     canonical_text e (norm_occurredAt n)"

lemma normalize_item_Inr:
  "normalize_item e l item = Inr n \<Longrightarrow> norm_ok e l n \<and> norm_data n = item_data item \<and> norm_occurredAt n = item_occurredAt item"
  by (auto simp: normalize_item_def result_simps decode_event_value norm_ok_def)

lemma normalize_items_Inr:
  "traverse (normalize_item e l) items = Inr ns \<Longrightarrow>
     (\<forall>n \<in> set ns. norm_ok e l n) \<and> length ns = length items \<and> number_normalized m key v ns = number_events m key v items"
  by (induction items arbitrary: ns v) (auto simp: and_then_Inr dest!: normalize_item_Inr)

lemma number_rows_simps [simp]: "length (number_rows m key v ns) = length ns"
  "map er_sequence (number_rows m key v ns) = [v + 1..v + int (length ns)]"
  "filter (\<lambda>r. er_missionId r = m') (number_rows m key v ns) = (if m' = m then number_rows m key v ns else [])"
proof -
  show "length (number_rows m key v ns) = length ns" by (induction ns arbitrary: v) simp_all
  show "map er_sequence (number_rows m key v ns) = [v + 1..v + int (length ns)]"
  proof (induction ns arbitrary: v)
    case (Cons n ns)
    have "[v + 1..v + int (length (n # ns))] = (v + 1) # [v + 1 + 1..v + 1 + int (length ns)]"
      by (subst upto_rec1) (simp_all add: add.assoc)
    with Cons show ?case by simp
  qed simp
  show "filter (\<lambda>r. er_missionId r = m') (number_rows m key v ns) = (if m' = m then number_rows m key v ns else [])"
    by (induction ns arbitrary: v) auto
qed

lemma number_row_ok: "norm_ok e l n \<Longrightarrow> identifier_ok key 500 \<Longrightarrow>
    event_row_ok e l \<lparr>er_missionId = m, er_sequence = v, er_aggregateVersion = v, er_key = key,
      er_occurredAt = norm_occurredAt n, er_json = norm_json n, er_hash = norm_hash n\<rparr>"
  by (auto simp: norm_ok_def event_row_ok_def)

lemma number_rows_ok:
  "\<forall>n \<in> set ns. norm_ok e l n \<Longrightarrow> identifier_ok key 500 \<Longrightarrow> \<forall>r \<in> set (number_rows m key v ns). event_row_ok e l r \<and> er_missionId r = m"
  by (induction ns arbitrary: v) (simp_all add: number_row_ok)

lemma decode_number_rows:
  assumes "json_laws e" and "identifier_ok key 500"
  shows "\<forall>n \<in> set ns. norm_ok e l n \<Longrightarrow> decode_event_rows e l (number_rows m key v ns) m (v + 1) = Inr (number_normalized m key v ns)"
proof (induction ns arbitrary: v)
  case (Cons n ns)
  let ?r = "\<lparr>er_missionId = m, er_sequence = v + 1, er_aggregateVersion = v + 1, er_key = key,
      er_occurredAt = norm_occurredAt n, er_json = norm_json n, er_hash = norm_hash n\<rparr>"
  have "event_row_ok e l ?r" using Cons.prems assms(2) by (simp add: number_row_ok)
  from decode_row_event [OF assms(1) this, of m "v + 1"] obtain ev where ev: "decode_event_row e l m (v + 1) ?r = Inr ev" "missionId ev = m"
    "sequence ev = v + 1" "aggregateVersion ev = v + 1" "idempotencyKey ev = key" "occurredAt ev = norm_occurredAt n" "event_data ev = norm_data n"
    using Cons.prems by (auto simp: norm_ok_def)
  then have "ev = \<lparr>missionId = m, sequence = v + 1, aggregateVersion = v + 1, idempotencyKey = key,
      occurredAt = norm_occurredAt n, event_data = norm_data n\<rparr>" by simp
  moreover have "decode_event_rows e l (number_rows m key (v + 1) ns) m (v + 1 + 1) = Inr (number_normalized m key (v + 1) ns)"
    using Cons.IH [of "v + 1"] Cons.prems by simp
  ultimately show ?case using ev(1) by simp
qed simp


lemma append_mission_events_Inr:
  assumes "append_mission_events e l s m v key items = Inr (evs, s')"
  obtains ns p where "identifier_ok m 200" "identifier_ok key 500" "safe_integer v" "0 \<le> v" "items \<noteq> []"
    "int (length items) \<le> maxEventBatch l" "traverse (normalize_item e l) items = Inr ns" "batch_fingerprint e l v ns = Inr p"
    "(s' = s \<and> (\<exists>first amount. event_idempotency s (m, key) = Some (p, first, amount) \<and> load_event_range e l s m first amount = Inr evs)) \<or>
     (event_idempotency s (m, key) = None \<and> mission_event_count s m = v \<and> v + int (length ns) \<le> maxMissionEvents l \<and>
      evs = number_normalized m key v ns \<and> s' = s\<lparr>mission_events := mission_events s @ number_rows m key v ns,
        event_idempotency := (event_idempotency s)((m, key) \<mapsto> (p, v + 1, int (length ns)))\<rparr>)"
  using assms
  by (auto simp: append_mission_events_def result_simps not_less split: if_splits option.splits)

lemma appended_mission_rows:
  "mission_rows (s\<lparr>mission_events := mission_events s @ number_rows m key v ns, event_idempotency := f\<rparr>) m' =
     mission_rows s m' @ (if m' = m then number_rows m key v ns else [])"
  by (simp add: mission_rows_def)

lemma upto_append: "1 \<le> i \<Longrightarrow> [1..i - 1] @ [i..j] = [1..j]" if "i \<le> j + 1" for i j :: int
  using upto_split1 [of 1 i j] that by (cases "i = j + 1") simp_all

lemma append_mission_inv:
  assumes inv: "events_inv e l s" and app: "append_mission_events e l s m v key items = Inr (evs, s')"
  shows "events_inv e l s'"
  using app
proof (cases rule: append_mission_events_Inr)
  case (1 ns p)
  note norm = normalize_items_Inr [OF 1(7)]
  from 1(9) show ?thesis
  proof (elim disjE conjE)
    assume v: "mission_event_count s m = v" and few: "v + int (length ns) \<le> maxMissionEvents l"
      and s': "s' = s\<lparr>mission_events := mission_events s @ number_rows m key v ns,
        event_idempotency := (event_idempotency s)((m, key) \<mapsto> (p, v + 1, int (length ns)))\<rparr>"
    have rows: "mission_rows s' m' = mission_rows s m' @ (if m' = m then number_rows m key v ns else [])" for m'
      unfolding s' by (rule appended_mission_rows)
    have len: "int (length (mission_rows s m)) = v" using v mission_rows_simps(2) [OF inv] by simp
    have "map er_sequence (mission_rows s' m') = [1..int (length (mission_rows s' m'))]" for m'
    proof -
      have "map er_sequence (mission_rows s m') = [1..int (length (mission_rows s m'))]" using inv by (simp add: events_inv_def)
      then show ?thesis using upto_append [of "v + 1" "v + int (length ns)"] len 1(4) by (simp add: rows)
    qed
    moreover have "\<forall>r \<in> set (mission_events s'). event_row_ok e l r"
      using inv number_rows_ok [OF conjunct1 [OF norm] 1(2), of m v] by (auto simp: s' events_inv_def)
    moreover have "1 \<le> first \<and> 1 \<le> amount \<and> amount \<le> maxEventBatch l \<and> first + amount \<le> int (length (mission_rows s' m')) + 1"
      if "event_idempotency s' (m', key') = Some (q, first, amount)" for m' key' q first amount
    proof (cases "(m', key') = (m, key)")
      case True
      with that have "first = v + 1" "amount = int (length ns)" by (simp_all add: s')
      then show ?thesis using True 1(4,5,6) norm len by (simp add: rows Suc_le_eq flip: length_greater_0_conv)
    next
      case False
      with that have old: "event_idempotency s (m', key') = Some (q, first, amount)" by (auto simp: s')
      with inv have "1 \<le> first \<and> 1 \<le> amount \<and> amount \<le> maxEventBatch l \<and> first + amount \<le> int (length (mission_rows s m')) + 1"
        unfolding events_inv_def by blast
      then show ?thesis by (simp add: rows)
    qed
    ultimately show ?thesis using inv unfolding events_inv_def by blast
  qed (use inv in simp)
qed


lemma number_rows_in: "r \<in> set (number_rows m key v ns) \<Longrightarrow> v + 1 \<le> er_sequence r \<and> er_sequence r < v + 1 + int (length ns)"
  by (induction ns arbitrary: v) force+

lemma appended_range:
  assumes inv: "events_inv e l s" and inv': "events_inv e l s'"
    and rows: "mission_rows s' m = mission_rows s m @ number_rows m key v ns" and len: "int (length (mission_rows s m)) = v"
    and ns: "\<forall>n \<in> set ns. norm_ok e l n" "ns \<noteq> []" "int (length ns) \<le> maxEventBatch l" and key: "identifier_ok key 500"
    and v: "0 \<le> v" "v + int (length ns) \<le> maxMissionEvents l"
  shows "load_event_range e l s' m (v + 1) (int (length ns)) = Inr (number_normalized m key v ns)"
proof -
  have old: "er_sequence r \<le> v" if "r \<in> set (mission_rows s m)" for r
  proof -
    have "er_sequence r \<in> set [1..int (length (mission_rows s m))]"
      using that inv unfolding events_inv_def by (metis image_eqI list.set_map)
    with len show ?thesis by simp
  qed
  have new: "filter (\<lambda>r. v + 1 \<le> er_sequence r \<and> er_sequence r < v + 1 + int (length ns)) (rows_of s' m) = number_rows m key v ns"
    unfolding mission_rows_simps(1) [OF inv'] rows using old number_rows_in
    by (fastforce simp: filter_empty_conv filter_id_conv)
  have laws: "json_laws e" and bound: "maxMissionEvents l \<le> max_safe_integer" using inv by (simp_all add: events_inv_def)
  have "safe_integer (v + 1)" "v + 1 \<le> max_safe_integer" "safe_integer (int (length ns))" "1 \<le> int (length ns)"
    using v ns(2) bound by (auto simp: safe_integer_def Suc_le_eq neq_Nil_conv)
  then show ?thesis
    using decode_number_rows [OF laws key ns(1), of m v] ns(3) v(1)
    by (simp add: load_event_range_def Let_def new and_then_Inr assert_safe_integer_Inr)
qed

lemma append_mission_again:
  assumes inv: "events_inv e l s" and app: "append_mission_events e l s m v key items = Inr (evs, s')"
  shows "append_mission_events e l s' m v key items = Inr (evs, s')"
  using app
proof (cases rule: append_mission_events_Inr)
  case (1 ns p)
  note norm = normalize_items_Inr [OF 1(7)]
  note inv' = append_mission_inv [OF inv app]
  from 1(9) show ?thesis
  proof (elim disjE conjE)
    assume v: "mission_event_count s m = v" and few: "v + int (length ns) \<le> maxMissionEvents l"
      and evs: "evs = number_normalized m key v ns"
      and s': "s' = s\<lparr>mission_events := mission_events s @ number_rows m key v ns,
        event_idempotency := (event_idempotency s)((m, key) \<mapsto> (p, v + 1, int (length ns)))\<rparr>"
    have rows: "mission_rows s' m = mission_rows s m @ number_rows m key v ns"
      unfolding s' by (simp add: appended_mission_rows)
    have len: "int (length (mission_rows s m)) = v" using v mission_rows_simps(2) [OF inv] by simp
    have "length ns = length items" using norm by blast
    then have "ns \<noteq> []" "int (length ns) \<le> maxEventBatch l" using 1(5,6) by auto
    note range = appended_range [OF inv inv' rows len conjunct1 [OF norm] this 1(2,4) few]
    have "event_idempotency s' (m, key) = Some (p, v + 1, int (length ns))" by (simp add: s')
    with 1(1-8) range evs show ?thesis
      by (simp add: append_mission_events_def and_then_Inr assert_durable_identifier_Inr assert_safe_integer_Inr safe_integer_def)
  qed (use app in simp)
qed

lemma load_mission_events_Inr [result_simps]:
  "load_mission_events e l s m = Inr evs \<longleftrightarrow> identifier_ok m 200 \<and> decode_event_rows e l (rows_of s m) m 1 = Inr evs"
  by (simp add: load_mission_events_def result_simps)

lemma append_mission_stream:
  assumes inv: "events_inv e l s" and app: "append_mission_events e l s m v key items = Inr (evs, s')"
  shows "load_mission_events e l s' m = load_mission_events e l s m \<or>
    (\<exists>old. load_mission_events e l s m = Inr old \<and> int (length old) = v \<and>
       load_mission_events e l s' m = Inr (old @ number_events m key v items))"
  using app
proof (cases rule: append_mission_events_Inr)
  case (1 ns p)
  note norm = normalize_items_Inr [OF 1(7)]
  note inv' = append_mission_inv [OF inv app]
  from 1(9) show ?thesis
  proof (elim disjE conjE)
    assume v: "mission_event_count s m = v"
      and s': "s' = s\<lparr>mission_events := mission_events s @ number_rows m key v ns,
        event_idempotency := (event_idempotency s)((m, key) \<mapsto> (p, v + 1, int (length ns)))\<rparr>"
    have rows: "mission_rows s' m = mission_rows s m @ number_rows m key v ns"
      unfolding s' by (simp add: appended_mission_rows)
    have len: "int (length (mission_rows s m)) = v" using v mission_rows_simps(2) [OF inv] by simp
    from loaded_rows [OF inv, of m] obtain old where
      old: "decode_event_rows e l (rows_of s m) m 1 = Inr old" "length old = length (mission_rows s m)" by auto
    have laws: "json_laws e" using inv by (simp add: events_inv_def)
    have "decode_event_rows e l (rows_of s' m) m 1 = Inr (old @ number_normalized m key v ns)"
      using old(1) decode_number_rows [OF laws 1(2) conjunct1 [OF norm], of m v] len
      by (simp add: mission_rows_simps(1) [OF inv] mission_rows_simps(1) [OF inv'] rows decode_rows_append add.commute)
    then show ?thesis using old len norm 1(1) by (auto simp: load_mission_events_Inr)
  qed simp
qed

lemma append_mission_frame:
  assumes inv: "events_inv e l s" and app: "append_mission_events e l s m v key items = Inr (evs, s')" and "m' \<noteq> m"
  shows "load_mission_events e l s' m' = load_mission_events e l s m'"
  using app
proof (cases rule: append_mission_events_Inr)
  case (1 ns p)
  then have "mission_rows s' m' = mission_rows s m'" using assms(3) by (auto simp: mission_rows_def)
  then show ?thesis
    using mission_rows_simps(1) [OF inv] mission_rows_simps(1) [OF append_mission_inv [OF inv app]]
    by (simp add: load_mission_events_def)
qed

interpretation durable: event_store "append_mission_events e l" "load_mission_events e l" "events_inv e l"
proof unfold_locales
  fix s s' :: event_tables and m v key items evs
  assume inv: "events_inv e l s" and app: "append_mission_events e l s m v key items = Inr (evs, s')"
  show "events_inv e l s'" using inv app by (rule append_mission_inv)
  show "append_mission_events e l s' m v key items = Inr (evs, s')" using inv app by (rule append_mission_again)
  show "load_mission_events e l s' m = load_mission_events e l s m \<or>
      (\<exists>old. load_mission_events e l s m = Inr old \<and> int (length old) = v \<and>
         load_mission_events e l s' m = Inr (old @ number_events m key v items))"
    using append_mission_stream [OF inv app] .
  show "load_mission_events e l s' m' = load_mission_events e l s m'" if "m' \<noteq> m" for m'
    using append_mission_frame [OF inv app that] .
next
  fix s :: event_tables and m evs
  assume "events_inv e l s" and "load_mission_events e l s m = Inr evs"
  then show "contiguous_from m 0 evs" using loaded_rows [of e l s m] by (auto simp: load_mission_events_Inr)
qed

interpretation durable_missions: mission_event_store "append_mission_events e l" "load_mission_events e l" "events_inv e l"
  by unfold_locales

end
