(* ===== verification/DurableCheckpoints.thy ===== *)
theory DurableCheckpoints
  imports DurableEvents Checkpoint
begin

text \<open>
  Durable checkpoints (\<open>saveCheckpoint\<close> and \<open>loadCheckpoint\<close> of \<open>src/durable/store.ts\<close>): a checkpoint is
  stored as canonical JSON beside its columns, and neither saved nor returned unless the mission
  events up to its version project to the same snapshot. \<open>sv\<close> is the JSON value of a snapshot.
\<close>

record checkpoint_row =
  cr_aggregateVersion :: int
  cr_eventSequence :: int
  cr_hash :: string
  cr_json :: string
  cr_savedAt :: string

record stored_checkpoint =
  sc_missionId :: string
  sc_aggregateVersion :: int
  sc_eventSequence :: int
  sc_hash :: string
  sc_snapshot :: json

type_synonym 'a checked = "(durable_error runtime_error, 'a) result"

definition snapshot_digest :: "durable_env \<Rightarrow> (mission_snapshot \<Rightarrow> json) \<Rightarrow> mission_snapshot \<Rightarrow> string" where
  "snapshot_digest e sv snap = env_hash e (env_text e (canonicalize (sv snap)))"

definition checkpoint_value :: "(mission_snapshot \<Rightarrow> json) \<Rightarrow> mission_checkpoint \<Rightarrow> json" where
  "checkpoint_value sv c = JObj
     [(''aggregateVersion'', JNum (of_int (cp_aggregateVersion c))), (''eventSequence'', JNum (of_int (cp_eventSequence c))),
      (''missionId'', JStr (cp_missionId c)), (''schemaVersion'', JNum (of_int (schemaVersion c))),
      (''snapshot'', sv (cp_snapshot c)), (''snapshotHash'', JStr (snapshotHash c))]"

section \<open>Decoding\<close>

definition checkpoint_fields :: "string list" where
  "checkpoint_fields = [''aggregateVersion'', ''eventSequence'', ''missionId'', ''schemaVersion'', ''snapshot'', ''snapshotHash'']"

fun decode_checkpoint :: "json \<Rightarrow> stored_checkpoint durable" where
  "decode_checkpoint (JObj props) =
     (if length (js_keys props) \<noteq> length checkpoint_fields \<or> list_ex (\<lambda>k. \<not> js_in k props) checkpoint_fields
      then corrupt ''Checkpoint JSON fields are incomplete or unexpected.''
      else if own_property props ''schemaVersion'' \<noteq> Some (JNum 1) then corrupt ''Checkpoint JSON schema version is unsupported.''
      else (case (own_property props ''missionId'', own_property props ''snapshotHash'') of
          (Some (JStr m), Some (JStr h)) \<Rightarrow>
            (case (own_property props ''aggregateVersion'', own_property props ''eventSequence'', own_property props ''snapshot'') of
               (Some (JNum a), Some (JNum q), Some (JObj snap)) \<Rightarrow>
                 if \<not> num_is_safe_integer a \<or> \<not> num_is_safe_integer q
                 then corrupt ''Checkpoint version or snapshot fields are malformed.''
                 else Inr \<lparr>sc_missionId = m, sc_aggregateVersion = fst (quotient_of a), sc_eventSequence = fst (quotient_of q),
                        sc_hash = h, sc_snapshot = JObj snap\<rparr>
             | _ \<Rightarrow> corrupt ''Checkpoint version or snapshot fields are malformed.'')
        | _ \<Rightarrow> corrupt ''Checkpoint identity/hash fields are malformed.''))"
| "decode_checkpoint _ = corrupt ''Checkpoint JSON root must be an object.''"

text \<open>\<open>restoreMissionCheckpoint\<close> of a loaded checkpoint, whose snapshot is a JSON value.\<close>

fun snapshot_field :: "json \<Rightarrow> string \<Rightarrow> json option" where
  "snapshot_field (JObj props) k = own_property props k"
| "snapshot_field _ k = None"

definition restore_stored :: "durable_env \<Rightarrow> stored_checkpoint \<Rightarrow> string \<Rightarrow> (mission_error, json) result" where
  "restore_stored e c m =
     (if sc_missionId c \<noteq> m \<or> snapshot_field (sc_snapshot c) ''id'' \<noteq> Some (JStr m) then Inl CheckpointIdentityMismatch
      else if sc_aggregateVersion c \<noteq> sc_eventSequence c
           \<or> snapshot_field (sc_snapshot c) ''version'' \<noteq> Some (JNum (of_int (sc_aggregateVersion c)))
        then Inl CheckpointVersionInconsistent
      else if env_hash e (env_text e (canonicalize (sc_snapshot c))) \<noteq> sc_hash c then Inl CheckpointIntegrityFailed
      else Inr (sc_snapshot c))"

section \<open>Agreement with the events\<close>

definition assert_checkpoint_matches :: "durable_env \<Rightarrow> durable_limits \<Rightarrow> (mission_snapshot \<Rightarrow> json) \<Rightarrow> event_tables
    \<Rightarrow> string \<Rightarrow> int \<Rightarrow> string \<Rightarrow> json \<Rightarrow> unit checked" where
  "assert_checkpoint_matches e l sv s m aggregate hash snap =
     (let rows = filter (\<lambda>r. er_sequence r \<le> aggregate) (rows_of s m) in
      if int (length rows) \<noteq> aggregate then lift_store (corrupt ''Checkpoint cannot be reproduced from canonical events.'')
      else and_then (lift_store (decode_event_rows e l rows m 1)) (\<lambda>evs.
           and_then (lift_domain (project_mission evs)) (\<lambda>projected.
           and_then (lift_domain (create_mission_checkpoint (snapshot_digest e sv) projected (version projected))) (\<lambda>rebuilt.
           if snapshotHash rebuilt \<noteq> hash
           then lift_store (corrupt ''Checkpoint snapshot disagrees with canonical mission events.'')
           else and_then (lift_store (canonical_json e (sv (cp_snapshot rebuilt)) (maxCheckpointBytes l))) (\<lambda>a.
                and_then (lift_store (canonical_json e snap (maxCheckpointBytes l))) (\<lambda>b.
                if a \<noteq> b then lift_store (corrupt ''Checkpoint snapshot disagrees with canonical mission events.'')
                else Inr ()))))))"

section \<open>Saving and loading\<close>

definition save_checkpoint :: "durable_env \<Rightarrow> durable_limits \<Rightarrow> (mission_snapshot \<Rightarrow> json) \<Rightarrow> event_tables
    \<Rightarrow> (string \<rightharpoonup> checkpoint_row) \<Rightarrow> mission_checkpoint \<Rightarrow> string
    \<Rightarrow> (mission_checkpoint \<times> (string \<rightharpoonup> checkpoint_row)) checked" where
  "save_checkpoint e l sv s cs c savedAt =
     and_then (lift_store (assert_canonical_text e savedAt ''checkpoint savedAt'')) (\<lambda>_.
     and_then (lift_domain (restore_mission_checkpoint (snapshot_digest e sv) c (cp_missionId c))) (\<lambda>restored.
     and_then (lift_domain (create_mission_checkpoint (snapshot_digest e sv) restored (cp_eventSequence c))) (\<lambda>canonical.
     if snapshotHash canonical \<noteq> snapshotHash c
     then lift_store (corrupt ''Checkpoint canonical hash does not match supplied hash.'')
     else and_then (lift_store (canonical_json e (checkpoint_value sv c) (maxCheckpointBytes l))) (\<lambda>json.
       let m = cp_missionId c;
           written = Inr (c, cs(m \<mapsto> \<lparr>cr_aggregateVersion = cp_aggregateVersion c, cr_eventSequence = cp_eventSequence c,
                       cr_hash = snapshotHash c, cr_json = json, cr_savedAt = savedAt\<rparr>)) in
       if mission_event_count s m < cp_aggregateVersion c
       then lift_store (Inl (StoreConflict ''Checkpoint version is ahead of the canonical mission event stream.''))
       else and_then (assert_checkpoint_matches e l sv s m (cp_aggregateVersion c) (snapshotHash c) (sv (cp_snapshot c))) (\<lambda>_.
         case cs m of
           None \<Rightarrow> written
         | Some row \<Rightarrow>
             if cp_aggregateVersion c < cr_aggregateVersion row
             then lift_store (Inl (StoreConflict ''Checkpoint version regression is not allowed.''))
             else if cr_aggregateVersion row = cp_aggregateVersion c
             then (if cr_hash row \<noteq> snapshotHash c \<or> cr_json row \<noteq> json
                   then lift_store (Inl (StoreConflict ''Checkpoint version was reused for conflicting content.''))
                   else Inr (c, cs))
             else written)))))"

text \<open>\<open>loadCheckpoint\<close>: an error of the integrity checks other than a corruption becomes one.\<close>

fun as_corruption :: "'a checked \<Rightarrow> 'a checked" where
  "as_corruption (Inl (runtime_error.StoreError (StoreCorruption message))) = Inl (runtime_error.StoreError (StoreCorruption message))"
| "as_corruption (Inl _) = lift_store (corrupt ''Checkpoint failed durable integrity validation.'')"
| "as_corruption (Inr x) = Inr x"

definition load_checkpoint :: "durable_env \<Rightarrow> durable_limits \<Rightarrow> (mission_snapshot \<Rightarrow> json) \<Rightarrow> event_tables
    \<Rightarrow> (string \<rightharpoonup> checkpoint_row) \<Rightarrow> string \<Rightarrow> stored_checkpoint option checked" where
  "load_checkpoint e l sv s cs m =
     and_then (lift_store (assert_durable_identifier m ''missionId'' 200)) (\<lambda>_.
     case cs m of
       None \<Rightarrow> Inr None
     | Some row \<Rightarrow>
         and_then (lift_store (parse_json e (cr_json row) (maxCheckpointBytes l) ''checkpoint JSON'')) (\<lambda>v.
         and_then (lift_store (decode_checkpoint v)) (\<lambda>c.
         if sc_aggregateVersion c \<noteq> cr_aggregateVersion row \<or> sc_eventSequence c \<noteq> cr_eventSequence row \<or> sc_hash c \<noteq> cr_hash row
         then lift_store (corrupt ''Checkpoint columns disagree with checkpoint JSON.'')
         else and_then (as_corruption (and_then (lift_domain (restore_stored e c m)) (\<lambda>_.
                assert_checkpoint_matches e l sv s (sc_missionId c) (sc_aggregateVersion c) (sc_hash c) (sc_snapshot c)))) (\<lambda>_.
              Inr (Some c)))))"


section \<open>What a loaded checkpoint says\<close>

lemma as_corruption_Inr [result_simps]: "as_corruption x = Inr y \<longleftrightarrow> x = Inr y"
  by (cases x rule: as_corruption.cases) (simp_all add: lift_store_def corrupt_def)

lemma checkpoint_matches_Inr:
  "assert_checkpoint_matches e l sv s m aggregate hash snap = Inr u \<longleftrightarrow>
     (let rows = filter (\<lambda>r. er_sequence r \<le> aggregate) (rows_of s m) in
      int (length rows) = aggregate \<and>
      (\<exists>evs projected. decode_event_rows e l rows m 1 = Inr evs \<and> project_mission evs = Inr projected \<and>
         safe_integer (version projected) \<and> 1 \<le> version projected \<and> hash = snapshot_digest e sv projected \<and>
         env_text e (canonicalize (sv projected)) = env_text e (canonicalize snap) \<and>
         safe_integer (maxCheckpointBytes l) \<and> 1 \<le> maxCheckpointBytes l \<and>
         utf8_length (env_text e (canonicalize snap)) \<le> maxCheckpointBytes l))"
  by (auto simp: assert_checkpoint_matches_def Let_def result_simps safe_integer_def max_safe_integer_def split: if_splits)

lemma decode_rows_length: "decode_event_rows e l xs m n = Inr evs \<Longrightarrow> length evs = length xs"
  by (induction xs arbitrary: n evs) (auto simp: and_then_Inr)

lemma decode_rows_prefix:
  assumes "decode_event_rows e l (xs @ ys) m n = Inr evs"
  shows "decode_event_rows e l xs m n = Inr (take (length xs) evs)"
proof -
  from assms obtain a b where ab: "decode_event_rows e l xs m n = Inr a" "evs = a @ b"
    by (auto simp: decode_rows_append and_then_Inr)
  have "length a = length xs" using ab(1) by (rule decode_rows_length)
  with ab show ?thesis by simp
qed

lemma sorted_filter_prefix:
  "sorted (map f xs) \<Longrightarrow> filter (\<lambda>x. f x \<le> n) xs = take (length (filter (\<lambda>x. f x \<le> n) xs)) xs"
  for f :: "'a \<Rightarrow> int"
proof (induction xs)
  case (Cons x xs)
  show ?case
  proof (cases "f x \<le> n")
    case False
    with Cons.prems have "filter (\<lambda>x. f x \<le> n) xs = []" by (auto simp: filter_empty_conv)
    with False show ?thesis by simp
  qed (use Cons in simp)
qed simp

lemma rows_upto:
  assumes "int (length (filter (\<lambda>r. er_sequence r \<le> n) (rows_of s m))) = n"
    and "decode_event_rows e l (filter (\<lambda>r. er_sequence r \<le> n) (rows_of s m)) m 1 = Inr evs"
    and "load_mission_events e l s m = Inr all"
  shows "evs = take (nat n) all"
proof -
  let ?xs = "filter (\<lambda>r. er_sequence r \<le> n) (rows_of s m)"
  have "?xs = take (length ?xs) (rows_of s m)" by (rule sorted_filter_prefix) (simp add: rows_of_def)
  then obtain ys where "rows_of s m = ?xs @ ys" by (metis append_take_drop_id)
  then have "decode_event_rows e l (?xs @ ys) m 1 = Inr all" using assms(3) by (simp add: load_mission_events_Inr)
  from decode_rows_prefix [OF this] assms(1,2) show ?thesis by (metis nat_int sum.inject(2))
qed

lemma load_checkpoint_Inr:
  assumes "load_checkpoint e l sv s cs m = Inr (Some c)"
  shows "sc_missionId c = m \<and> sc_aggregateVersion c = sc_eventSequence c \<and>
    snapshot_field (sc_snapshot c) ''id'' = Some (JStr m) \<and>
    snapshot_field (sc_snapshot c) ''version'' = Some (JNum (of_int (sc_aggregateVersion c))) \<and>
    assert_checkpoint_matches e l sv s m (sc_aggregateVersion c) (sc_hash c) (sc_snapshot c) = Inr ()"
  using assms
  by (auto simp: load_checkpoint_def restore_stored_def result_simps split: option.splits if_splits)

section \<open>A saved checkpoint can be loaded\<close>

definition snapshot_laws :: "durable_env \<Rightarrow> (mission_snapshot \<Rightarrow> json) \<Rightarrow> bool" where
  "snapshot_laws e sv \<longleftrightarrow> (\<forall>snap. json_wf (sv snap) \<and> (\<exists>props. sv snap = JObj props \<and>
       own_property props ''id'' = Some (JStr (snap_id snap)) \<and> own_property props ''version'' = Some (JNum (of_int (version snap))))) \<and>
     (\<forall>c. env_parse e (env_text e (canonicalize (checkpoint_value sv c))) = Some (canonicalize (checkpoint_value sv c)))"

definition stored_form :: "(mission_snapshot \<Rightarrow> json) \<Rightarrow> mission_checkpoint \<Rightarrow> stored_checkpoint" where
  "stored_form sv c = \<lparr>sc_missionId = cp_missionId c, sc_aggregateVersion = cp_aggregateVersion c,
     sc_eventSequence = cp_eventSequence c, sc_hash = snapshotHash c, sc_snapshot = canonicalize (sv (cp_snapshot c))\<rparr>"

lemma length_canonical_props: "length (canonical_props props) = length props"
proof -
  have "mset (canonical_props props) = mset (map (map_prod id canonicalize) props)" by (simp add: canonical_props_def)
  from arg_cong [where f = size, OF this] show ?thesis by simp
qed

lemma decode_checkpoint_value:
  assumes laws: "snapshot_laws e sv" and c: "schemaVersion c = 1" "safe_integer (cp_aggregateVersion c)" "safe_integer (cp_eventSequence c)"
  shows "decode_checkpoint (canonicalize (checkpoint_value sv c)) = Inr (stored_form sv c)"
proof -
  obtain props where props: "sv (cp_snapshot c) = JObj props" using laws by (auto simp: snapshot_laws_def)
  define fields where "fields = [(''aggregateVersion'', JNum (of_int (cp_aggregateVersion c))),
     (''eventSequence'', JNum (of_int (cp_eventSequence c))), (''missionId'', JStr (cp_missionId c)),
     (''schemaVersion'', JNum (of_int (schemaVersion c))), (''snapshot'', sv (cp_snapshot c)), (''snapshotHash'', JStr (snapshotHash c))]"
  have d: "distinct (map fst fields)" by (simp add: fields_def)
  have keys: "fst ` set (canonical_props fields) = set checkpoint_fields"
    using canonical_props_keys(2) [of fields] by (simp add: fields_def checkpoint_fields_def)
  have len: "length (js_keys (canonical_props fields)) = length checkpoint_fields"
    by (simp add: js_keys_def length_canonical_props) (simp add: fields_def checkpoint_fields_def)
  have all: "\<not> list_ex (\<lambda>k. \<not> js_in k (canonical_props fields)) checkpoint_fields"
    using keys by (simp add: list_ex_iff js_in_def)
  have own: "own_property (canonical_props fields) k = map_option canonicalize (own_property fields k)" for k
    by (rule canonical_property [OF d])
  have stored: "own_property (canonical_props fields) ''schemaVersion'' = Some (JNum 1)"
    "own_property (canonical_props fields) ''missionId'' = Some (JStr (cp_missionId c))"
    "own_property (canonical_props fields) ''snapshotHash'' = Some (JStr (snapshotHash c))"
    "own_property (canonical_props fields) ''aggregateVersion'' = Some (JNum (of_int (cp_aggregateVersion c)))"
    "own_property (canonical_props fields) ''eventSequence'' = Some (JNum (of_int (cp_eventSequence c)))"
    "own_property (canonical_props fields) ''snapshot'' = Some (JObj (canonical_props props))"
    unfolding own by (simp_all add: fields_def own_property_def c(1) props)
  have "checkpoint_value sv c = JObj fields" by (simp add: checkpoint_value_def fields_def)
  then show ?thesis
    using c(2,3) by (simp add: len all stored stored_form_def props)
qed

lemma canonical_snapshot:
  assumes "snapshot_laws e sv"
  shows "canonicalize (canonicalize (sv snap)) = canonicalize (sv snap)"
    and "snapshot_field (canonicalize (sv snap)) ''id'' = Some (JStr (snap_id snap))"
    and "snapshot_field (canonicalize (sv snap)) ''version'' = Some (JNum (of_int (version snap)))"
proof -
  from assms obtain props where wf: "json_wf (sv snap)" and p: "sv snap = JObj props"
    "own_property props ''id'' = Some (JStr (snap_id snap))" "own_property props ''version'' = Some (JNum (of_int (version snap)))"
    unfolding snapshot_laws_def by blast
  show "canonicalize (canonicalize (sv snap)) = canonicalize (sv snap)" using canonicalize_canonical [OF wf] .
  have "distinct (map fst props)" using wf p(1) by (simp add: json_wf_object)
  from canonical_property [OF this] p show "snapshot_field (canonicalize (sv snap)) ''id'' = Some (JStr (snap_id snap))"
    and "snapshot_field (canonicalize (sv snap)) ''version'' = Some (JNum (of_int (version snap)))" by simp_all
qed


lemma written_row:
  assumes "save_checkpoint e l sv s cs c savedAt = Inr (c', cs')"
  shows "c' = c \<and> schemaVersion c = 1 \<and> snap_id (cp_snapshot c) = cp_missionId c \<and>
    cp_aggregateVersion c = cp_eventSequence c \<and> cp_aggregateVersion c = version (cp_snapshot c) \<and>
    snapshotHash c = snapshot_digest e sv (cp_snapshot c) \<and> safe_integer (version (cp_snapshot c)) \<and>
    utf8_length (env_text e (canonicalize (checkpoint_value sv c))) \<le> maxCheckpointBytes l \<and>
    cp_aggregateVersion c \<le> mission_event_count s (cp_missionId c) \<and>
    assert_checkpoint_matches e l sv s (cp_missionId c) (cp_aggregateVersion c) (snapshotHash c) (sv (cp_snapshot c)) = Inr () \<and>
    ((\<exists>row. cs' (cp_missionId c) = Some row \<and> cr_aggregateVersion row = cp_aggregateVersion c \<and>
        cr_hash row = snapshotHash c \<and> cr_json row = env_text e (canonicalize (checkpoint_value sv c)) \<and>
        (cr_eventSequence row = cp_eventSequence c \<or> cs (cp_missionId c) = Some row)))"
  using assms
  by (auto simp: save_checkpoint_def Let_def result_simps not_less split: option.splits if_splits)

text \<open>Appends keep the agreement: the rows up to the checkpoint's version stay.\<close>

lemma matches_after_append:
  assumes inv: "events_inv e l s" and app: "append_mission_events e l s m' v key items = Inr (evs, s')"
    and few: "aggregate \<le> mission_event_count s m"
    and matches: "assert_checkpoint_matches e l sv s m aggregate hash snap = Inr ()"
  shows "assert_checkpoint_matches e l sv s' m aggregate hash snap = Inr () \<and> aggregate \<le> mission_event_count s' m"
  using app
proof (cases rule: append_mission_events_Inr)
  case (1 ns p)
  have inv': "events_inv e l s'" using append_mission_inv [OF inv app] .
  from 1(9) have "\<exists>new. mission_rows s' m = mission_rows s m @ new \<and> (\<forall>r \<in> set new. int (length (mission_rows s m)) < er_sequence r)"
  proof (elim disjE conjE)
    assume v: "mission_event_count s m' = v"
      and s': "s' = s\<lparr>mission_events := mission_events s @ number_rows m' key v ns,
        event_idempotency := (event_idempotency s)((m', key) \<mapsto> (p, v + 1, int (length ns)))\<rparr>"
    have "mission_rows s' m = mission_rows s m @ (if m = m' then number_rows m' key v ns else [])"
      unfolding s' by (rule appended_mission_rows)
    moreover have "int (length (mission_rows s m')) = v" using v mission_rows_simps(2) [OF inv] by simp
    ultimately show ?thesis using number_rows_in by fastforce
  qed simp
  then obtain new where new: "mission_rows s' m = mission_rows s m @ new"
    "\<forall>r \<in> set new. int (length (mission_rows s m)) < er_sequence r" by blast
  have "filter (\<lambda>r. er_sequence r \<le> aggregate) new = []"
    using new(2) few mission_rows_simps(2) [OF inv, of m] by (auto simp: filter_empty_conv)
  then have "filter (\<lambda>r. er_sequence r \<le> aggregate) (rows_of s' m) = filter (\<lambda>r. er_sequence r \<le> aggregate) (rows_of s m)"
    using new(1) mission_rows_simps(1) [OF inv] mission_rows_simps(1) [OF inv'] by simp
  with matches have "assert_checkpoint_matches e l sv s' m aggregate hash snap = Inr ()"
    by (simp add: checkpoint_matches_Inr)
  then show ?thesis
    using few mission_rows_simps(2) [OF inv, of m] mission_rows_simps(2) [OF inv', of m] new(1) by simp
qed

definition event_step :: "durable_env \<Rightarrow> durable_limits \<Rightarrow> event_tables \<Rightarrow> event_tables \<Rightarrow> bool" where
  "event_step e l s s' \<longleftrightarrow> (\<exists>m v key items evs. append_mission_events e l s m v key items = Inr (evs, s'))"

lemma matches_after_appends:
  assumes "(event_step e l)\<^sup>*\<^sup>* s s'" and "events_inv e l s" and "aggregate \<le> mission_event_count s m"
    and "assert_checkpoint_matches e l sv s m aggregate hash snap = Inr ()"
  shows "events_inv e l s' \<and> assert_checkpoint_matches e l sv s' m aggregate hash snap = Inr () \<and> aggregate \<le> mission_event_count s' m"
  using assms(1)
proof (induction rule: rtranclp_induct)
  case (step s1 s2)
  then obtain m' v key items evs where "append_mission_events e l s1 m' v key items = Inr (evs, s2)"
    by (auto simp: event_step_def)
  with step.IH show ?case using matches_after_append [of e l s1] append_mission_inv [of e l s1] by blast
qed (use assms in simp)

text \<open>Every stored row has equal version columns, as every saved checkpoint does.\<close>

definition checkpoint_rows_ok :: "(string \<rightharpoonup> checkpoint_row) \<Rightarrow> bool" where
  "checkpoint_rows_ok cs \<longleftrightarrow> (\<forall>m row. cs m = Some row \<longrightarrow> cr_eventSequence row = cr_aggregateVersion row)"

lemma save_checkpoint_rows_ok:
  "save_checkpoint e l sv s cs c savedAt = Inr (c', cs') \<Longrightarrow> checkpoint_rows_ok cs \<Longrightarrow> checkpoint_rows_ok cs'"
  by (auto simp: checkpoint_rows_ok_def save_checkpoint_def Let_def result_simps split: option.splits if_splits)

lemma saved_then_loaded:
  assumes laws: "snapshot_laws e sv" and save: "save_checkpoint e l sv s cs c savedAt = Inr (c', cs')"
    and rows: "checkpoint_rows_ok cs"
    and m: "identifier_ok (cp_missionId c) 200"
    and matches: "assert_checkpoint_matches e l sv s' (cp_missionId c) (cp_aggregateVersion c) (snapshotHash c) (sv (cp_snapshot c)) = Inr ()"
  shows "load_checkpoint e l sv s' cs' (cp_missionId c) = Inr (Some (stored_form sv c))"
proof -
  note w = written_row [OF save]
  then obtain row where row: "cs' (cp_missionId c) = Some row" "cr_aggregateVersion row = cp_aggregateVersion c"
    "cr_hash row = snapshotHash c" "cr_json row = env_text e (canonicalize (checkpoint_value sv c))" "cr_eventSequence row = cp_eventSequence c"
    using rows by (auto simp: checkpoint_rows_ok_def)
  have "decode_checkpoint (canonicalize (checkpoint_value sv c)) = Inr (stored_form sv c)"
    using w by (intro decode_checkpoint_value [OF laws]) (metis, metis, metis)
  moreover have "parse_json e (cr_json row) (maxCheckpointBytes l) ''checkpoint JSON'' = Inr (canonicalize (checkpoint_value sv c))"
    using w row(4) laws by (simp add: parse_json_def snapshot_laws_def)
  moreover have "restore_stored e (stored_form sv c) (cp_missionId c) = Inr (canonicalize (sv (cp_snapshot c)))"
    using w by (simp add: restore_stored_def stored_form_def canonical_snapshot [OF laws] snapshot_digest_def)
  moreover have "assert_checkpoint_matches e l sv s' (cp_missionId c) (cp_aggregateVersion c) (snapshotHash c)
      (canonicalize (sv (cp_snapshot c))) = Inr ()"
    using matches by (simp add: checkpoint_matches_Inr canonical_snapshot(1) [OF laws])
  ultimately show ?thesis
    using row m by (simp add: load_checkpoint_def result_simps) (simp add: stored_form_def)
qed

end
