(* ===== verification/DurableStoreProperties.thy ===== *)
theory DurableStoreProperties
  imports DurableCheckpoints MissionProperties
begin

text \<open>
  The properties of mission events and checkpoints in the SQLite store. \<open>plain_env\<close> is a serializer that
  meets the laws the store relies on; it gives a few chosen values short texts, so that a sample
  mission fits the byte bounds.
\<close>

section \<open>A serializer\<close>

definition plain_text :: "json list \<Rightarrow> json \<Rightarrow> string" where
  "plain_text known j = replicate (if j \<in> set known then length (takeWhile (\<lambda>k. k \<noteq> j) known) else length known + to_nat j) CHR ''x''"

definition plain_parse :: "json list \<Rightarrow> string \<Rightarrow> json option" where
  "plain_parse known t = Some (if length t < length known then known ! length t else from_nat (length t - length known))"

definition plain_env :: "json list \<Rightarrow> durable_env" where
  "plain_env known = \<lparr>env_text = plain_text known, env_parse = plain_parse known,
     env_hash = (\<lambda>_. replicate 64 CHR ''a''), env_date = (\<lambda>_. Some 946684800000)\<rparr>"

lemma takeWhile_found: "j \<in> set xs \<Longrightarrow> length (takeWhile (\<lambda>k. k \<noteq> j) xs) < length xs \<and> xs ! length (takeWhile (\<lambda>k. k \<noteq> j) xs) = j"
  by (induction xs) auto

lemma plain_roundtrip: "plain_parse known (plain_text known j) = Some j"
  using takeWhile_found [of j known] by (simp add: plain_parse_def plain_text_def)

lemma plain_hash_ok: "sha256_pattern (replicate 64 CHR ''a'')"
  by code_simp

lemma plain_laws: "json_laws (plain_env known)"
  by (simp add: json_laws_def plain_env_def plain_roundtrip plain_hash_ok)

lemma plain_length: "j \<in> set known \<Longrightarrow> utf8_length (plain_text known j) \<le> int (length known)"
  using takeWhile_found [of j known] by (simp add: plain_text_def utf8_length_def sum_list_replicate)

lemma run_inv: "(event_step e l)\<^sup>*\<^sup>* s s' \<Longrightarrow> events_inv e l s \<Longrightarrow> events_inv e l s'"
  by (induction rule: rtranclp_induct) (auto simp: event_step_def dest: durable.append_inv)

section \<open>A concrete store\<close>

definition stored_at :: string where
  "stored_at = iso_text 946684800000"

definition stored_items :: "mission_event append_item list" where
  "stored_items = [item_at stored_at (MissionCreated sample_input)]"

definition sample_value :: "mission_snapshot \<Rightarrow> json" where
  "sample_value snap = JObj [(''id'', JStr (snap_id snap)), (''version'', JNum (of_int (version snap)))]"

definition sample_snapshot :: mission_snapshot where
  "sample_snapshot = projr (initial_snapshot sample_input 1)"

definition sample_checkpoint :: mission_checkpoint where
  "sample_checkpoint = \<lparr>schemaVersion = 1, cp_missionId = ''m'', cp_aggregateVersion = 1, cp_eventSequence = 1,
     snapshotHash = replicate 64 CHR ''a'', cp_snapshot = sample_snapshot\<rparr>"

definition sample_batch :: json where
  "sample_batch = JObj [(''expectedVersion'', JNum 0), (''items'', JArr [JObj
     [(''dataHash'', JStr (replicate 64 CHR ''a'')), (''occurredAt'', JStr stored_at)]])]"

definition sample_known :: "json list" where
  "sample_known = [canonicalize (event_value (MissionCreated sample_input)), canonicalize sample_batch,
     canonicalize (sample_value sample_snapshot), canonicalize (checkpoint_value sample_value sample_checkpoint)]"

abbreviation sample_env :: durable_env where
  "sample_env \<equiv> plain_env sample_known"

definition sample_tables :: event_tables where
  "sample_tables = \<lparr>mission_events = [\<lparr>er_missionId = ''m'', er_sequence = 1, er_aggregateVersion = 1, er_key = ''k'',
       er_occurredAt = stored_at, er_json = plain_text sample_known (canonicalize (event_value (MissionCreated sample_input))),
       er_hash = replicate 64 CHR ''a''\<rparr>],
     event_idempotency = [(''m'', ''k'') \<mapsto> (replicate 64 CHR ''a'', 1, 1)]\<rparr>"

lemma plain_simps [simp]: "env_text (plain_env known) = plain_text known" "env_parse (plain_env known) = plain_parse known"
  "env_hash (plain_env known) t = replicate 64 CHR ''a''" "env_date (plain_env known) t = Some 946684800000"
  by (simp_all add: plain_env_def)

lemma sample_ids [simp]: "identifier_ok ''m'' 200" "identifier_ok ''k'' 500" "canonical_text (plain_env known) stored_at"
  by (simp_all add: identifier_ok_def js_simps canonical_text_def stored_at_def)

lemma sample_lengths [simp]:
  "utf8_length (plain_text sample_known (canonicalize (event_value (MissionCreated sample_input)))) \<le> 4"
  "utf8_length (plain_text sample_known (canonicalize sample_batch)) \<le> 4"
  "utf8_length (plain_text sample_known (canonicalize (sample_value sample_snapshot))) \<le> 4"
  "utf8_length (plain_text sample_known (canonicalize (checkpoint_value sample_value sample_checkpoint))) \<le> 4"
  using plain_length [of _ sample_known] by (force simp: sample_known_def)+

lemma sample_storable: "storable (MissionCreated sample_input)"
proof -
  have "case validate_task_graph (create_tasks sample_input) of Inl _ \<Rightarrow> False | Inr _ \<Rightarrow> True" by code_simp
  moreover have "\<forall>t \<in> set (create_tasks sample_input). task_ok t"
    by (simp add: sample_defs task_ok_def identifier_ok_def js_simps)
  ultimately show ?thesis
    by (auto simp: create_ok_def sample_input_def sample_limits_def counters_ok_def identifier_ok_def js_simps
      max_safe_integer_def split: sum.splits)
qed

lemma sample_initial: "initial_snapshot sample_input 1 = Inr sample_snapshot"
proof -
  have "case initial_snapshot sample_input 1 of Inl _ \<Rightarrow> False | Inr _ \<Rightarrow> True" by code_simp
  then show ?thesis by (auto simp: sample_snapshot_def split: sum.splits)
qed

lemma initial_snapshot_head: "initial_snapshot i n = Inr snap \<Longrightarrow> snap_id snap = create_id i \<and> version snap = n"
  by (auto simp: initial_snapshot_def result_simps)

lemma sample_snapshot_simps [simp]: "snap_id sample_snapshot = ''m''" "version sample_snapshot = 1"
  using initial_snapshot_head [OF sample_initial] by (simp_all add: sample_input_def)

lemma sample_limit_simps [simp]: "maxEventBytes default_limits = 128000" "maxCheckpointBytes default_limits = 512000"
  "maxEventBatch default_limits = 64" "maxMissionEvents default_limits = 100000"
  by (simp_all add: default_limits_def)

lemma sample_bounds [simp]: "safe_integer 0" "safe_integer 1" "safe_integer 128000" "safe_integer 512000"
  "128000 \<le> max_safe_integer" "512000 \<le> max_safe_integer" "100000 \<le> max_safe_integer"
  by (simp_all add: safe_integer_def max_safe_integer_def)

lemma at_most_four [simp]: "x \<le> 4 \<Longrightarrow> x \<le> 128000" "x \<le> 4 \<Longrightarrow> x \<le> 512000" for x :: int
  by simp_all

lemma sample_normalized: "normalize_item sample_env default_limits (item_at stored_at (MissionCreated sample_input)) =
    Inr \<lparr>norm_data = MissionCreated sample_input,
      norm_json = plain_text sample_known (canonicalize (event_value (MissionCreated sample_input))),
      norm_hash = replicate 64 CHR ''a'', norm_occurredAt = stored_at\<rparr>"
proof -
  have "assert_canonical_text sample_env stored_at n = Inr ()" for n by (simp add: canonical_text_Inr)
  moreover have "decode_event (event_value (MissionCreated sample_input)) = Inr (MissionCreated sample_input)"
    using sample_storable by (simp only: decode_event_value)
  moreover have "canonical_json sample_env (event_value (MissionCreated sample_input)) (maxEventBytes default_limits) =
      Inr (plain_text sample_known (canonicalize (event_value (MissionCreated sample_input))))"
    by (simp add: canonical_json_Inr del: event_value.simps)
  ultimately show ?thesis by (simp add: normalize_item_def del: event_value.simps)
qed

lemma sample_fingerprint: "batch_fingerprint sample_env default_limits 0
    [\<lparr>norm_data = d, norm_json = t, norm_hash = replicate 64 CHR ''a'', norm_occurredAt = stored_at\<rparr>] = Inr (replicate 64 CHR ''a'')"
proof -
  have "canonical_json sample_env sample_batch (maxEventBytes default_limits) = Inr (plain_text sample_known (canonicalize sample_batch))"
    by (simp add: canonical_json_Inr)
  then show ?thesis by (simp add: batch_fingerprint_def sample_batch_def)
qed

lemma sample_checks [simp]: "assert_durable_identifier ''m'' label 200 = Inr ()" "assert_durable_identifier ''k'' label 500 = Inr ()"
  "assert_safe_integer 0 label 0 max_safe_integer = Inr ()"
  by (simp_all add: result_simps) (simp add: max_safe_integer_def)

lemma stored_append: "append_mission_events sample_env default_limits empty_tables ''m'' 0 ''k'' stored_items =
    Inr (number_events ''m'' ''k'' 0 stored_items, sample_tables)"
  by (simp add: append_mission_events_def stored_items_def sample_normalized sample_fingerprint empty_tables_def
    mission_event_count_def sample_tables_def del: event_value.simps)

lemma stored_run: "(event_step sample_env default_limits)\<^sup>*\<^sup>* empty_tables sample_tables"
  by (rule r_into_rtranclp) (unfold event_step_def, intro exI, rule stored_append)

lemma sample_inv: "events_inv sample_env default_limits sample_tables"
  by (rule run_inv [OF stored_run events_inv_empty]) (simp_all add: plain_laws)

lemma stored_load: "load_mission_events sample_env default_limits sample_tables ''m'' = Inr (number_events ''m'' ''k'' 0 stored_items)"
proof -
  have "load_mission_events sample_env default_limits empty_tables ''m'' = Inr []"
    by (simp add: load_mission_events_Inr empty_tables_def rows_of_def)
  with append_mission_stream [OF events_inv_empty stored_append] show ?thesis
    by (auto simp: plain_laws stored_items_def load_mission_events_Inr sample_tables_def rows_of_def and_then_Inr)
qed

lemma stored_projected: "project_mission (number_events ''m'' ''k'' 0 stored_items) = Inr sample_snapshot"
  using sample_initial by (simp add: stored_items_def item_at_def first_snapshot_def sample_input_def)

lemma sample_matches: "assert_checkpoint_matches sample_env default_limits sample_value sample_tables ''m'' 1 (replicate 64 CHR ''a'')
    (sample_value sample_snapshot) = Inr ()"
proof -
  have "decode_event_rows sample_env default_limits (rows_of sample_tables ''m'') ''m'' 1 = Inr (number_events ''m'' ''k'' 0 stored_items)"
    using stored_load by (simp add: load_mission_events_Inr)
  moreover have "filter (\<lambda>r. er_sequence r \<le> 1) (rows_of sample_tables ''m'') = rows_of sample_tables ''m''"
    "length (rows_of sample_tables ''m'') = 1" by (simp_all add: rows_of_def sample_tables_def)
  ultimately show ?thesis
    using stored_projected by (simp add: checkpoint_matches_Inr snapshot_digest_def)
qed

definition sample_rows :: "string \<rightharpoonup> checkpoint_row" where
  "sample_rows = [''m'' \<mapsto> \<lparr>cr_aggregateVersion = 1, cr_eventSequence = 1, cr_hash = replicate 64 CHR ''a'',
     cr_json = plain_text sample_known (canonicalize (checkpoint_value sample_value sample_checkpoint)), cr_savedAt = stored_at\<rparr>]"

lemma sample_checkpoint_simps [simp]: "schemaVersion sample_checkpoint = 1" "cp_missionId sample_checkpoint = ''m''"
  "cp_aggregateVersion sample_checkpoint = 1" "cp_eventSequence sample_checkpoint = 1"
  "snapshotHash sample_checkpoint = replicate 64 CHR ''a''" "cp_snapshot sample_checkpoint = sample_snapshot"
  by (simp_all add: sample_checkpoint_def)

lemma sample_saved: "save_checkpoint sample_env default_limits sample_value sample_tables Map.empty sample_checkpoint stored_at =
    Inr (sample_checkpoint, sample_rows)"
proof -
  have "assert_canonical_text sample_env stored_at n = Inr ()" for n by (simp add: canonical_text_Inr)
  moreover have "restore_mission_checkpoint (snapshot_digest sample_env sample_value) sample_checkpoint ''m'' = Inr sample_snapshot"
    by (simp add: restore_mission_checkpoint_def snapshot_digest_def)
  moreover have "create_mission_checkpoint (snapshot_digest sample_env sample_value) sample_snapshot 1 = Inr sample_checkpoint"
    by (simp add: create_mission_checkpoint_def snapshot_digest_def sample_checkpoint_def)
  moreover have "canonical_json sample_env (checkpoint_value sample_value sample_checkpoint) (maxCheckpointBytes default_limits) =
      Inr (plain_text sample_known (canonicalize (checkpoint_value sample_value sample_checkpoint)))"
    by (simp add: canonical_json_Inr)
  moreover have "mission_event_count sample_tables ''m'' = 1" by (simp add: mission_event_count_def sample_tables_def)
  ultimately show ?thesis
    by (simp add: save_checkpoint_def Let_def sample_matches sample_rows_def lift_domain_def lift_store_def)
qed

lemma sample_laws: "snapshot_laws sample_env sample_value"
  by (simp add: snapshot_laws_def sample_value_def json_wf_object own_property_def plain_roundtrip)

lemma stored_checkpoint_loads:
  "load_checkpoint sample_env default_limits sample_value sample_tables sample_rows ''m'' = Inr (Some (stored_form sample_value sample_checkpoint))"
  using saved_then_loaded [OF sample_laws sample_saved] sample_matches by (simp add: checkpoint_rows_ok_def)

lemma stored_reachable: "runtime_reachable (load_mission_events sample_env default_limits) (append_mission_events sample_env default_limits)
    empty_tables (sample_tables, [])"
proof -
  let ?L = "load_mission_events sample_env default_limits" and ?A = "append_mission_events sample_env default_limits"
  have "prepare_create sample_input stored_at = Inr stored_items"
    using sample_prepared by (auto simp: prepare_create_def stored_items_def result_simps)
  from runtime_reachable.step [OF runtime_reachable.start runtime_step.begin_create [OF this, of ?L ?A empty_tables "[]" "''k''"]]
  have "runtime_reachable ?L ?A empty_tables (empty_tables,
      [\<lparr>flight_mission = ''m'', flight_version = 0, flight_key = ''k'', flight_items = stored_items\<rparr>])"
    by (simp add: sample_input_def)
  from runtime_reachable.step [OF this runtime_step.finish [OF list.set_intros(1)]] show ?thesis
    using stored_append by simp
qed

section \<open>Events as text\<close>

text \<open>C37. A mission event survives the store: what \<open>decodeMissionEvent\<close> reads back from the canonical
  JSON of an event is that event, and only events within the codec's bounds (identifiers, lists and
  integers, priorities up to 100, an accepted task graph) can be read back at all.\<close>

theorem event_codec_roundtrip: "decode_event (canonicalize (event_value d)) = Inr d' \<longleftrightarrow> d' = d \<and> storable d"
  by (rule decode_stored_event)

text \<open>Every event of an appended batch comes back from the tables: after any history of appends, a batch
  that is accepted either repeats an earlier call and changes no stream, or extends the mission's loaded
  stream, which was as long as the expected version, by exactly its items; other missions load as
  before, and the same call made again answers with the same events and changes nothing.\<close>

theorem appended_events_load:
  assumes "json_laws e" and "maxMissionEvents l \<le> max_safe_integer" and "(event_step e l)\<^sup>*\<^sup>* empty_tables s"
    and "append_mission_events e l s m v key items = Inr (evs, s')"
  shows "(load_mission_events e l s' m = load_mission_events e l s m \<or>
      (\<exists>old. load_mission_events e l s m = Inr old \<and> int (length old) = v \<and>
         load_mission_events e l s' m = Inr (old @ number_events m key v items))) \<and>
    (\<forall>m'. m' \<noteq> m \<longrightarrow> load_mission_events e l s' m' = load_mission_events e l s m') \<and>
    append_mission_events e l s' m v key items = Inr (evs, s')"
proof -
  have inv: "events_inv e l s" using run_inv [OF assms(3) events_inv_empty [OF assms(1,2)]] .
  show ?thesis
    using durable.append_stream [OF inv assms(4)] durable.append_frame [OF inv assms(4)] durable.append_again [OF inv assms(4)] by blast
qed

lemma appended_events_load_witness:
  "load_mission_events sample_env default_limits sample_tables ''m'' = Inr (number_events ''m'' ''k'' 0 stored_items) \<and>
   append_mission_events sample_env default_limits sample_tables ''m'' 0 ''k'' stored_items =
     Inr (number_events ''m'' ''k'' 0 stored_items, sample_tables)"
  using appended_events_load [OF plain_laws _ rtranclp.rtrancl_refl stored_append] stored_load by simp

text \<open>C15. Missions stay readable over the SQLite store too: whatever the interleaving of calls of the mission
  runtime, every stream the store returns projects, and its version is the number of its events.\<close>

theorem durable_streams_stay_projectable:
  assumes "json_laws e" and "maxMissionEvents l \<le> max_safe_integer"
    and "runtime_reachable (load_mission_events e l) (append_mission_events e l) empty_tables c"
    and "load_mission_events e l (fst c) m = Inr evs" and "evs \<noteq> []"
  shows "\<exists>s. project_mission evs = Inr s \<and> version s = int (length evs)"
proof -
  have "system_ok (load_mission_events e l) c"
    using durable_missions.reachable_system_ok [OF assms(3) events_inv_empty [OF assms(1,2)]]
    by (auto simp: result_simps empty_tables_def rows_of_def)
  then have "projects evs" unfolding system_ok_def using assms(4) by blast
  then show ?thesis using assms(5) projected_version unfolding projects_def by blast
qed

lemma durable_streams_stay_projectable_witness:
  "\<exists>s. project_mission (number_events ''m'' ''k'' 0 stored_items) = Inr s \<and> version s = 1"
  using durable_streams_stay_projectable [OF plain_laws _ stored_reachable, of "''m''"] stored_load
  by (simp add: stored_items_def del: project_mission.simps)

section \<open>Checkpoints\<close>

text \<open>C14. A checkpoint the store returns tells the truth: it belongs to the mission asked for, and its snapshot has the
  canonical JSON of the projection of the first events of the stream, as many as its version says.\<close>

theorem loaded_checkpoint_is_projection:
  assumes "load_checkpoint e l sv s cs m = Inr (Some c)" and "load_mission_events e l s m = Inr evs"
  shows "sc_missionId c = m \<and> sc_aggregateVersion c = sc_eventSequence c \<and> sc_aggregateVersion c \<le> int (length evs) \<and>
    (\<exists>projected. project_mission (take (nat (sc_aggregateVersion c)) evs) = Inr projected \<and>
       version projected = sc_aggregateVersion c \<and> sc_hash c = snapshot_digest e sv projected \<and>
       env_text e (canonicalize (sc_snapshot c)) = env_text e (canonicalize (sv projected)))"
proof -
  note c = load_checkpoint_Inr [OF assms(1)]
  let ?v = "sc_aggregateVersion c"
  let ?rows = "filter (\<lambda>r. er_sequence r \<le> ?v) (rows_of s m)"
  from c obtain pre projected where rows: "int (length ?rows) = ?v"
    and front: "decode_event_rows e l ?rows m 1 = Inr pre" and p: "project_mission pre = Inr projected"
    and hash: "sc_hash c = snapshot_digest e sv projected"
    and same: "env_text e (canonicalize (sv projected)) = env_text e (canonicalize (sc_snapshot c))"
    by (auto simp: checkpoint_matches_Inr Let_def)
  have take: "pre = take (nat ?v) evs" by (rule rows_upto [OF rows front assms(2)])
  have "length pre = length ?rows" by (rule decode_rows_length [OF front])
  then have len: "int (length pre) = ?v" using rows by simp
  moreover have "?v \<le> int (length evs)" using len take by simp
  moreover have "version projected = ?v" using projected_version [OF p] len by simp
  ultimately show ?thesis using c take p hash same by auto
qed

lemma loaded_checkpoint_is_projection_witness:
  "\<exists>projected. project_mission (take 1 (number_events ''m'' ''k'' 0 stored_items)) = Inr projected \<and> version projected = 1"
  using loaded_checkpoint_is_projection [OF stored_checkpoint_loads stored_load]
  by (auto simp: stored_form_def)

text \<open>C13. A saved checkpoint stays loadable: once \<open>saveCheckpoint\<close> accepted it, \<open>loadCheckpoint\<close> returns it, with the snapshot
  in canonical form, after any further appends to any mission.\<close>

theorem saved_checkpoint_survives:
  assumes "json_laws e" and "maxMissionEvents l \<le> max_safe_integer" and "snapshot_laws e sv"
    and "(event_step e l)\<^sup>*\<^sup>* empty_tables s" and "checkpoint_rows_ok cs" and "identifier_ok (cp_missionId c) 200"
    and "save_checkpoint e l sv s cs c savedAt = Inr (c', cs')" and "(event_step e l)\<^sup>*\<^sup>* s s'"
  shows "load_checkpoint e l sv s' cs' (cp_missionId c) = Inr (Some (stored_form sv c))"
proof -
  have inv: "events_inv e l s" using run_inv [OF assms(4) events_inv_empty [OF assms(1,2)]] .
  note w = written_row [OF assms(7)]
  have "assert_checkpoint_matches e l sv s' (cp_missionId c) (cp_aggregateVersion c) (snapshotHash c) (sv (cp_snapshot c)) = Inr ()"
    using matches_after_appends [OF assms(8) inv] w by blast
  then show ?thesis by (rule saved_then_loaded [OF assms(3,7,5,6)])
qed

lemma saved_checkpoint_survives_witness:
  "load_checkpoint sample_env default_limits sample_value sample_tables sample_rows ''m'' =
     Inr (Some (stored_form sample_value sample_checkpoint))"
  using saved_checkpoint_survives [OF plain_laws _ sample_laws stored_run _ _ sample_saved rtranclp.rtrancl_refl]
  by (simp add: checkpoint_rows_ok_def)

end
