(* ===== verification/DurableRunner.thy ===== *)
theory DurableRunner
  imports DurableSettle
begin

text \<open>
  The job runner (\<open>src/durable/runner.ts\<close>): it claims a job, runs the handler while a timer sends
  heartbeats and another one limits the time, and settles the job by what happened. What happens
  between the claim and the handler's answer is a list of \<open>run_event\<close>s: the timeout fires, the heartbeat
  timer ticks, the promise of a heartbeat settles, another process changes the store. A \<open>run_input\<close>
  is what one \<open>runNext\<close> meets: the readings of the clock, the lease token, these events, the answer.
\<close>

datatype job_handler_result =
    HandlerSucceeded artifact_reference
  | HandlerRetry string int
  | HandlerBlocked string
  | HandlerCancelled

datatype handler_answer = Answered job_handler_result | NotAnObject | UnsupportedOutcome | HandlerThrew

record runner_options =
  opt_workerId :: string
  opt_leaseMs :: int
  opt_heartbeatMs :: int
  opt_timeoutMs :: int

record job_run_result =
  run_jobId :: string
  run_generation :: int
  finalStatus :: job_status

section \<open>Checks\<close>

definition validate_options :: "runner_options \<Rightarrow> unit durable" where
  "validate_options opts =
     (if blank (opt_workerId opts) \<or> 200 < length (opt_workerId opts)
      then Inl (InvalidArgument ''Runner workerId must be a bounded non-empty identifier.'')
      else and_then (assert_safe_integer (opt_leaseMs opts) ''runner leaseMs'' 1 300000) (\<lambda>_.
           and_then (assert_safe_integer (opt_heartbeatMs opts) ''runner heartbeatMs'' 1 300000) (\<lambda>_.
           and_then (assert_safe_integer (opt_timeoutMs opts) ''runner timeoutMs'' 1 3600000) (\<lambda>_.
           if opt_leaseMs opts \<le> opt_heartbeatMs opts
           then Inl (InvalidArgument ''Runner heartbeat cadence must be shorter than its lease duration.'')
           else Inr ()))))"

fun validate_handler_result :: "handler_answer \<Rightarrow> job_handler_result durable" where
  "validate_handler_result (Answered (HandlerSucceeded a)) =
     and_then (assert_artifact_reference a ''handler result'') (\<lambda>_. Inr (HandlerSucceeded a))"
| "validate_handler_result (Answered (HandlerRetry code delay)) =
     and_then (assert_reason_code code) (\<lambda>_.
     and_then (assert_safe_integer delay ''handler retryAfterMs'' 0 3600000) (\<lambda>_. Inr (HandlerRetry code delay)))"
| "validate_handler_result (Answered (HandlerBlocked code)) =
     and_then (assert_reason_code code) (\<lambda>_. Inr (HandlerBlocked code))"
| "validate_handler_result (Answered HandlerCancelled) = Inr HandlerCancelled"
| "validate_handler_result NotAnObject = Inl (InvalidArgument ''Job handler result must be a structured object.'')"
| "validate_handler_result UnsupportedOutcome = Inl (InvalidArgument ''Job handler outcome is unsupported.'')"
| "validate_handler_result HandlerThrew = Inl (durable_error.StoreError ''handler'')"

section \<open>One run\<close>

record run_state =
  run_store :: job_store
  timeoutTriggered :: bool
  aborted :: bool
  cancellationObserved :: bool
  heartbeatFailure :: "durable_error option"
  heartbeatActive :: "heartbeat_state durable option"

datatype run_event = TimeoutFires | HeartbeatTick int | HeartbeatSettles | StoreChanges "job_store \<Rightarrow> job_store"

text \<open>
  \<open>heartbeatJob\<close> runs its transaction when it is called; its result is seen when its promise settles.
  Until then \<open>heartbeatActive\<close> holds that result.
\<close>

fun run_event_step :: "durable_limits \<Rightarrow> (json \<Rightarrow> string) \<Rightarrow> (string \<Rightarrow> string) \<Rightarrow> runner_options \<Rightarrow> job_lease
    \<Rightarrow> run_event \<Rightarrow> run_state \<Rightarrow> run_state" where
  "run_event_step l digest hash_text opts ls TimeoutFires st = st\<lparr>timeoutTriggered := True, aborted := True\<rparr>"
| "run_event_step l digest hash_text opts ls (HeartbeatTick now) st =
     (if heartbeatActive st \<noteq> None \<or> aborted st then st
      else (case heartbeat_job l digest hash_text ls now (opt_leaseMs opts) (run_store st) of
          Inl e \<Rightarrow> st\<lparr>heartbeatActive := Some (Inl e)\<rparr>
        | Inr ((beat, _), s') \<Rightarrow> st\<lparr>run_store := s', heartbeatActive := Some (Inr beat)\<rparr>))"
| "run_event_step l digest hash_text opts ls HeartbeatSettles st =
     (case heartbeatActive st of
        None \<Rightarrow> st
      | Some (Inl e) \<Rightarrow> st\<lparr>heartbeatFailure := Some e, aborted := True, heartbeatActive := None\<rparr>
      | Some (Inr HeartbeatCancelling) \<Rightarrow> st\<lparr>cancellationObserved := True, aborted := True, heartbeatActive := None\<rparr>
      | Some (Inr HeartbeatRunning) \<Rightarrow> st\<lparr>heartbeatActive := None\<rparr>)"
| "run_event_step l digest hash_text opts ls (StoreChanges f) st = st\<lparr>run_store := f (run_store st)\<rparr>"

definition started :: "job_store \<Rightarrow> run_state" where
  "started s = \<lparr>run_store = s, timeoutTriggered = False, aborted = False, cancellationObserved = False,
     heartbeatFailure = None, heartbeatActive = None\<rparr>"

definition chosen_outcome :: "run_state \<Rightarrow> handler_answer \<Rightarrow> job_handler_result" where
  "chosen_outcome st answer =
     (let outcome = (case validate_handler_result answer of
            Inr r \<Rightarrow> r
          | Inl _ \<Rightarrow> HandlerRetry (if timeoutTriggered st then ''handler_timeout'' else ''handler_error'') 0) in
      if cancellationObserved st \<or> (aborted st \<and> \<not> timeoutTriggered st) then HandlerCancelled
      else if timeoutTriggered st then HandlerRetry ''handler_timeout'' 0
      else outcome)"

fun settle_outcome :: "durable_limits \<Rightarrow> (json \<Rightarrow> string) \<Rightarrow> (string \<Rightarrow> string) \<Rightarrow> job_lease \<Rightarrow> job_handler_result
    \<Rightarrow> int \<Rightarrow> job_store \<Rightarrow> durable_job job_op" where
  "settle_outcome l digest hash_text ls (HandlerSucceeded a) now s = settle_job_success l digest hash_text ls a now s"
| "settle_outcome l digest hash_text ls (HandlerRetry code delay) now s = settle_job_retry l digest hash_text ls code delay now s"
| "settle_outcome l digest hash_text ls (HandlerBlocked code) now s = settle_job_blocked l digest hash_text ls code now s"
| "settle_outcome l digest hash_text ls HandlerCancelled now s = settle_job_cancelled l digest hash_text ls now s"

definition execute_lease :: "durable_limits \<Rightarrow> (json \<Rightarrow> string) \<Rightarrow> (string \<Rightarrow> string) \<Rightarrow> runner_options \<Rightarrow> job_lease
    \<Rightarrow> run_event list \<Rightarrow> handler_answer \<Rightarrow> int \<Rightarrow> job_store \<Rightarrow> job_run_result durable \<times> job_store" where
  "execute_lease l digest hash_text opts ls events answer now s =
     (let st = fold (run_event_step l digest hash_text opts ls) events (started s) in
      case heartbeatFailure st of
        Some e \<Rightarrow> (Inl e, run_store st)
      | None \<Rightarrow>
         (case settle_outcome l digest hash_text ls (chosen_outcome st answer) now (run_store st) of
            Inl e \<Rightarrow> (Inl e, run_store st)
          | Inr (j, s') \<Rightarrow> (Inr \<lparr>run_jobId = lease_jobId ls, run_generation = lease_generation ls, finalStatus = status j\<rparr>, s')))"

record run_input =
  meanwhile :: "job_store \<Rightarrow> job_store"
  claimAt :: int
  claimToken :: string
  during :: "run_event list"
  answer :: handler_answer
  settleAt :: int

definition run_next :: "durable_limits \<Rightarrow> (json \<Rightarrow> string) \<Rightarrow> (string \<Rightarrow> string) \<Rightarrow> runner_options \<Rightarrow> run_input
    \<Rightarrow> job_store \<Rightarrow> job_run_result option durable \<times> job_store" where
  "run_next l digest hash_text opts i s0 =
     (let s = meanwhile i s0 in
      case claim_job l digest hash_text (opt_workerId opts) (claimAt i) (opt_leaseMs opts) (claimToken i) s of
        Inl e \<Rightarrow> (Inl e, s)
      | Inr (None, s1) \<Rightarrow> (Inr None, s1)
      | Inr (Some ls, s1) \<Rightarrow>
          (case execute_lease l digest hash_text opts ls (during i) (answer i) (settleAt i) s1 of
             (Inl e, s2) \<Rightarrow> (Inl e, s2)
           | (Inr r, s2) \<Rightarrow> (Inr (Some r), s2)))"

text \<open>\<open>drain\<close>: the loop runs while fewer than \<open>maxRuns\<close> results are there; \<open>inputs k\<close> is what its \<open>k\<close>-th run meets.\<close>

primrec drain_runs :: "durable_limits \<Rightarrow> (json \<Rightarrow> string) \<Rightarrow> (string \<Rightarrow> string) \<Rightarrow> runner_options \<Rightarrow> (nat \<Rightarrow> run_input)
    \<Rightarrow> nat \<Rightarrow> nat \<Rightarrow> job_store \<Rightarrow> job_run_result list durable \<times> job_store" where
  "drain_runs l digest hash_text opts inputs 0 k s = (Inr [], s)"
| "drain_runs l digest hash_text opts inputs (Suc n) k s =
     (case run_next l digest hash_text opts (inputs k) s of
        (Inl e, s1) \<Rightarrow> (Inl e, s1)
      | (Inr None, s1) \<Rightarrow> (Inr [], s1)
      | (Inr (Some r), s1) \<Rightarrow>
          (case drain_runs l digest hash_text opts inputs n (Suc k) s1 of
             (Inl e, s2) \<Rightarrow> (Inl e, s2)
           | (Inr rs, s2) \<Rightarrow> (Inr (r # rs), s2)))"

definition drain :: "durable_limits \<Rightarrow> (json \<Rightarrow> string) \<Rightarrow> (string \<Rightarrow> string) \<Rightarrow> runner_options \<Rightarrow> (nat \<Rightarrow> run_input)
    \<Rightarrow> int \<Rightarrow> job_store \<Rightarrow> job_run_result list durable \<times> job_store" where
  "drain l digest hash_text opts inputs maxRuns s =
     (case assert_safe_integer maxRuns ''maxRuns'' 1 10000 of
        Inl e \<Rightarrow> (Inl e, s)
      | Inr _ \<Rightarrow> drain_runs l digest hash_text opts inputs (nat maxRuns) 0 s)"

section \<open>A run is a run of the queue\<close>

definition others_ok :: "durable_limits \<Rightarrow> (json \<Rightarrow> string) \<Rightarrow> (string \<Rightarrow> string) \<Rightarrow> run_input \<Rightarrow> bool" where
  "others_ok l digest hash_text i \<longleftrightarrow> (\<forall>s. queue_run l digest hash_text s (meanwhile i s)) \<and>
     (\<forall>f s. StoreChanges f \<in> set (during i) \<longrightarrow> queue_run l digest hash_text s (f s))"

lemma event_run:
  assumes "\<And>f s. ev = StoreChanges f \<Longrightarrow> queue_run l digest hash_text s (f s)"
  shows "queue_run l digest hash_text (run_store st) (run_store (run_event_step l digest hash_text opts ls ev st))"
proof (cases ev)
  case (HeartbeatTick now)
  then show ?thesis
    by (auto split: sum.split intro: r_into_rtranclp queue_step.heartbeat)
next
  case HeartbeatSettles
  then show ?thesis by (auto split: option.split sum.split heartbeat_state.split)
qed (use assms in auto)

lemma events_run:
  assumes "\<And>f s. StoreChanges f \<in> set evs \<Longrightarrow> queue_run l digest hash_text s (f s)"
  shows "queue_run l digest hash_text (run_store st) (run_store (fold (run_event_step l digest hash_text opts ls) evs st))"
  using assms
proof (induction evs arbitrary: st)
  case (Cons ev evs)
  have "queue_run l digest hash_text (run_store st) (run_store (run_event_step l digest hash_text opts ls ev st))"
    using Cons.prems by (intro event_run) auto
  also have "queue_run l digest hash_text (run_store (run_event_step l digest hash_text opts ls ev st))
      (run_store (fold (run_event_step l digest hash_text opts ls) (ev # evs) st))"
    using Cons.IH Cons.prems by simp
  finally show ?case .
qed simp

lemma settle_outcome_step: "settle_outcome l digest hash_text ls out now s = Inr (j, s') \<Longrightarrow> queue_step l digest hash_text s s'"
  by (cases out) (auto intro: queue_step.intros)

lemma execute_run:
  assumes "\<And>f s. StoreChanges f \<in> set evs \<Longrightarrow> queue_run l digest hash_text s (f s)"
  shows "queue_run l digest hash_text s (snd (execute_lease l digest hash_text opts ls evs ans now s))"
proof -
  let ?st = "fold (run_event_step l digest hash_text opts ls) evs (started s)"
  have "queue_run l digest hash_text (run_store (started s)) (run_store ?st)" using assms by (rule events_run)
  then have "queue_run l digest hash_text s (run_store ?st)" by (simp add: started_def)
  then show ?thesis
    by (auto simp: execute_lease_def Let_def split: option.split sum.split
      dest!: settle_outcome_step intro: rtranclp.rtrancl_into_rtrancl)
qed

lemma run_next_run:
  assumes "others_ok l digest hash_text i"
  shows "queue_run l digest hash_text s (snd (run_next l digest hash_text opts i s))"
proof -
  have before: "queue_run l digest hash_text s (meanwhile i s)" using assms by (simp add: others_ok_def)
  show ?thesis
  proof (cases "claim_job l digest hash_text (opt_workerId opts) (claimAt i) (opt_leaseMs opts) (claimToken i) (meanwhile i s)")
    case (Inl e)
    with before show ?thesis by (simp add: run_next_def)
  next
    case (Inr p)
    obtain out s1 where p: "p = (out, s1)" by force
    from Inr p have "queue_step l digest hash_text (meanwhile i s) s1" by (auto intro: queue_step.claim)
    with before have claim: "queue_run l digest hash_text s s1" by simp
    show ?thesis
    proof (cases out)
      case None
      with Inr p claim show ?thesis by (simp add: run_next_def)
    next
      case (Some ls)
      have "queue_run l digest hash_text s1 (snd (execute_lease l digest hash_text opts ls (during i) (answer i) (settleAt i) s1))"
        using assms by (intro execute_run) (simp add: others_ok_def)
      with claim have "queue_run l digest hash_text s
          (snd (execute_lease l digest hash_text opts ls (during i) (answer i) (settleAt i) s1))" by simp
      with Inr p Some show ?thesis
        by (auto simp: run_next_def split: prod.splits sum.splits)
    qed
  qed
qed

lemma drain_runs_run:
  assumes "\<And>k. others_ok l digest hash_text (inputs k)"
  shows "queue_run l digest hash_text s (snd (drain_runs l digest hash_text opts inputs n k s))"
proof (induction n arbitrary: k s)
  case (Suc n)
  have next_run: "queue_run l digest hash_text s (snd (run_next l digest hash_text opts (inputs k) s))"
    using assms by (rule run_next_run)
  obtain out s1 where one: "run_next l digest hash_text opts (inputs k) s = (out, s1)" by force
  show ?case
    using next_run Suc.IH [of s1 "Suc k"] one
    by (auto split: sum.split option.split prod.split intro: rtranclp_trans)
qed simp

section \<open>What a run reports\<close>

text \<open>The row \<open>r\<close> of the lease became \<open>r'\<close> by the settlement \<open>out\<close>.\<close>

definition settled_row :: "job_lease \<Rightarrow> job_handler_result \<Rightarrow> int \<Rightarrow> job_row \<Rightarrow> job_row \<Rightarrow> bool" where
  "settled_row ls out now r r' \<longleftrightarrow> row_leaseGeneration r = lease_generation ls \<and> row_leaseGeneration r' = lease_generation ls \<and>
    row_leaseTokenHash r' = None \<and>
    (if row_status r = JobCancelling then row_status r' = JobCancelled
     else row_status r = JobRunning \<and>
       (case out of
          HandlerSucceeded a \<Rightarrow> row_status r' = JobSucceeded \<and> row_resultArtifactId r' = Some (artifactId a) \<and> row_resultSha256 r' = Some (sha256 a)
        | HandlerRetry code delay \<Rightarrow> if row_attemptCount r' < row_maxAttempts r' then row_status r' = JobRetryWait \<and> row_availableAt r' = now + delay
            else row_status r' = JobBlocked
        | HandlerBlocked code \<Rightarrow> row_status r' = JobBlocked
        | HandlerCancelled \<Rightarrow> row_status r' = JobCancelled))"

lemma settle_outcome_row:
  assumes ok: "store_ok l digest s" and settle: "settle_outcome l digest hash_text ls out now s = Inr (j, s')"
  shows "\<exists>r r'. moved l digest (lease_jobId ls) r r' j s s' \<and> settled_row ls out now r r'"
proof -
  have settled: ?thesis if "settled_as P l digest hash_text ls now j s s'"
    and "\<And>r r'. lease_valid hash_text ls now r \<Longrightarrow> row_status r = JobRunning \<Longrightarrow> P r r' \<Longrightarrow> settled_row ls out now r r'" for P
  proof -
    from that(1) obtain r r' where m: "moved l digest (lease_jobId ls) r r' j s s'" "lease_valid hash_text ls now r"
      "if row_status r = JobCancelling then r' = clear_lease JobCancelled now r else row_status r = JobRunning \<and> P r r'"
      by (auto simp: settled_as_def)
    have "settled_row ls out now r r'"
    proof (cases "row_status r = JobCancelling")
      case True
      with m show ?thesis by (auto simp: settled_row_def clear_lease_def lease_valid_def)
    next
      case False
      then show ?thesis using m that(2) by simp
    qed
    with m(1) show ?thesis by blast
  qed
  show ?thesis
  proof (cases out)
    case (HandlerSucceeded a)
    with settle have "settle_job_success l digest hash_text ls a now s = Inr (j, s')" by simp
    from settle_success_as [OF ok this] show ?thesis by (rule settled) (auto simp: HandlerSucceeded settled_row_def clear_lease_def lease_valid_def split: if_splits)
  next
    case (HandlerRetry code delay)
    with settle have "settle_job_retry l digest hash_text ls code delay now s = Inr (j, s')" by simp
    from settle_retry_as [OF ok this] show ?thesis by (rule settled) (auto simp: HandlerRetry settled_row_def clear_lease_def lease_valid_def split: if_splits)
  next
    case (HandlerBlocked code)
    with settle have "settle_job_blocked l digest hash_text ls code now s = Inr (j, s')" by simp
    from settle_blocked_as [OF ok this] show ?thesis by (rule settled) (auto simp: HandlerBlocked settled_row_def clear_lease_def lease_valid_def split: if_splits)
  next
    case HandlerCancelled
    with settle have "settle_job_cancelled l digest hash_text ls now s = Inr (j, s')" by simp
    from settle_cancelled_as [OF ok this] show ?thesis by (rule settled) (auto simp: HandlerCancelled settled_row_def clear_lease_def lease_valid_def split: if_splits)
  qed
qed

text \<open>The flags of a run only rise, and a run with a timeout keeps its flag.\<close>

lemma event_flags:
  "timeoutTriggered (run_event_step l digest hash_text opts ls ev st) \<longleftrightarrow> timeoutTriggered st \<or> ev = TimeoutFires"
  "aborted st \<Longrightarrow> aborted (run_event_step l digest hash_text opts ls ev st)"
  "cancellationObserved st \<Longrightarrow> cancellationObserved (run_event_step l digest hash_text opts ls ev st)"
  by (cases "(l, digest, hash_text, opts, ls, ev, st)" rule: run_event_step.cases;
      auto split: sum.split option.split heartbeat_state.split)+

lemma events_timeout:
  "timeoutTriggered (fold (run_event_step l digest hash_text opts ls) evs st) \<longleftrightarrow> timeoutTriggered st \<or> TimeoutFires \<in> set evs"
  by (induction evs arbitrary: st) (auto simp: event_flags)

lemma events_cancelled: "cancellationObserved st \<Longrightarrow> cancellationObserved (fold (run_event_step l digest hash_text opts ls) evs st)"
  by (induction evs arbitrary: st) (auto simp: event_flags)

text \<open>A heartbeat that answers \<open>CANCELLING\<close> has seen the row of its lease being cancelled, which is not undone.\<close>

definition asked_to_stop :: "job_lease \<Rightarrow> job_store \<Rightarrow> bool" where
  "asked_to_stop ls s \<longleftrightarrow> (\<exists>r. find_row s (lease_jobId ls) = Some r \<and> row_status r \<in> {JobCancelling, JobCancelled})"

definition cancellation_seen :: "run_state \<Rightarrow> bool" where
  "cancellation_seen st \<longleftrightarrow> cancellationObserved st \<or> heartbeatActive st = Some (Inr HeartbeatCancelling)"

lemma asked_to_stop_stays:
  assumes "\<And>t. sha256_pattern (hash_text t)" "queue_run l digest hash_text s s'" "store_ok l digest s" "asked_to_stop ls s"
  shows "asked_to_stop ls s'"
proof -
  from assms(4) obtain r where r: "find_row s (lease_jobId ls) = Some r" "row_status r \<in> {JobCancelling, JobCancelled}" by (auto simp: asked_to_stop_def)
  from queue_run_rows [OF assms(1-3) r(1)] obtain r' where r': "find_row s' (lease_jobId ls) = Some r'" "row_step\<^sup>*\<^sup>* r r'" by blast
  moreover have "row_status r' \<in> {JobCancelling, JobCancelled}"
    using r(2) row_steps_cancelling [OF r'(2)] row_steps_terminal [OF r'(2)] by (auto simp: terminal_def)
  ultimately show ?thesis by (auto simp: asked_to_stop_def)
qed

lemma event_seen:
  assumes hash: "\<And>t. sha256_pattern (hash_text t)" and ok: "store_ok l digest (run_store st)"
    and others: "\<forall>f s. ev = StoreChanges f \<longrightarrow> queue_run l digest hash_text s (f s)"
    and seen: "cancellation_seen st \<longrightarrow> asked_to_stop ls (run_store st)"
    and st': "st' = run_event_step l digest hash_text opts ls ev st" and now: "cancellation_seen st'"
  shows "asked_to_stop ls (run_store st')"
proof (cases "cancellation_seen st")
  case True
  have "queue_run l digest hash_text (run_store st) (run_store st')" unfolding st' by (rule event_run) (use others in blast)
  from asked_to_stop_stays [OF hash this ok] True seen show ?thesis by blast
next
  case False
  with now st' obtain time where tick: "ev = HeartbeatTick time"
    by (cases ev) (auto simp: cancellation_seen_def split: option.splits sum.splits heartbeat_state.splits)
  with False now st' obtain e where beat: "heartbeat_job l digest hash_text ls time (opt_leaseMs opts) (run_store st) = Inr ((HeartbeatCancelling, e), run_store st')"
    by (auto simp: cancellation_seen_def split: if_splits sum.splits)
  from heartbeat_as [OF ok beat] show ?thesis by (auto simp: asked_to_stop_def split: if_splits)
qed

lemma events_seen:
  assumes hash: "\<And>t. sha256_pattern (hash_text t)" and "store_ok l digest (run_store st)"
    and "\<forall>f s. StoreChanges f \<in> set evs \<longrightarrow> queue_run l digest hash_text s (f s)"
    and "cancellation_seen st \<longrightarrow> asked_to_stop ls (run_store st)"
    and "cancellation_seen (fold (run_event_step l digest hash_text opts ls) evs st)"
  shows "asked_to_stop ls (run_store (fold (run_event_step l digest hash_text opts ls) evs st))"
  using assms(2-)
proof (induction evs arbitrary: st)
  case (Cons ev evs)
  let ?st = "run_event_step l digest hash_text opts ls ev st"
  have one: "\<forall>f s. ev = StoreChanges f \<longrightarrow> queue_run l digest hash_text s (f s)" using Cons.prems(2) by simp
  have "queue_run l digest hash_text (run_store st) (run_store ?st)" by (rule event_run) (use one in blast)
  from queue_run_ok [OF hash this Cons.prems(1)] have "store_ok l digest (run_store ?st)" .
  moreover have "cancellation_seen ?st \<longrightarrow> asked_to_stop ls (run_store ?st)"
    using event_seen [OF hash Cons.prems(1) one Cons.prems(3) refl] by blast
  ultimately show ?case using Cons.IH [of ?st] Cons.prems(2,4) by simp
qed simp

lemma events_aborted:
  "(aborted st \<longrightarrow> timeoutTriggered st \<or> cancellationObserved st \<or> heartbeatFailure st \<noteq> None) \<Longrightarrow>
   aborted (fold (run_event_step l digest hash_text opts ls) evs st) \<Longrightarrow>
     timeoutTriggered (fold (run_event_step l digest hash_text opts ls) evs st) \<or> cancellationObserved (fold (run_event_step l digest hash_text opts ls) evs st) \<or>
     heartbeatFailure (fold (run_event_step l digest hash_text opts ls) evs st) \<noteq> None"
proof (induction evs arbitrary: st)
  case (Cons ev evs)
  let ?st = "run_event_step l digest hash_text opts ls ev st"
  have "aborted ?st \<longrightarrow> timeoutTriggered ?st \<or> cancellationObserved ?st \<or> heartbeatFailure ?st \<noteq> None"
    using Cons.prems(1) by (cases ev) (auto split: option.splits sum.splits heartbeat_state.splits)
  then show ?case using Cons.IH [of ?st] Cons.prems(2) by simp
qed simp

lemma validated_success: "validate_handler_result ans = Inr (HandlerSucceeded a) \<Longrightarrow> ans = Answered (HandlerSucceeded a) \<and> artifact_ok a"
  by (cases ans rule: validate_handler_result.cases) (auto simp: result_simps)

lemma chosen_success:
  "chosen_outcome st ans = HandlerSucceeded a \<Longrightarrow>
     ans = Answered (HandlerSucceeded a) \<and> artifact_ok a \<and> \<not> timeoutTriggered st \<and> \<not> cancellationObserved st \<and> \<not> aborted st"
  by (auto simp: chosen_outcome_def Let_def split: sum.splits if_splits dest!: validated_success)

lemma run_next_Some:
  assumes "run_next l digest hash_text opts i s = (Inr (Some r), s')"
  obtains ls s1 st j where
    "claim_job l digest hash_text (opt_workerId opts) (claimAt i) (opt_leaseMs opts) (claimToken i) (meanwhile i s) = Inr (Some ls, s1)"
    "st = fold (run_event_step l digest hash_text opts ls) (during i) (started s1)" "heartbeatFailure st = None"
    "settle_outcome l digest hash_text ls (chosen_outcome st (answer i)) (settleAt i) (run_store st) = Inr (j, s')"
    "r = \<lparr>run_jobId = lease_jobId ls, run_generation = lease_generation ls, finalStatus = status j\<rparr>"
  using assms by (auto simp: run_next_def execute_lease_def Let_def split: sum.splits option.splits prod.splits)

end
