(* ===== verification/RunnerProperties.thy ===== *)
theory RunnerProperties
  imports DurableRunner DurableProperties
begin

text \<open>
  The properties of the job runner over the durable queue, with a run of the sample job as instance.
\<close>

definition sample_options :: runner_options where
  "sample_options = \<lparr>opt_workerId = ''w1'', opt_leaseMs = 1000, opt_heartbeatMs = 500, opt_timeoutMs = 5000\<rparr>"

definition sample_run_input :: run_input where
  "sample_run_input = \<lparr>meanwhile = id, claimAt = sample_time, claimToken = ''x'', during = [],
     answer = Answered (HandlerSucceeded sample_artifact), settleAt = sample_time + 10\<rparr>"

lemma sample_others: "others_ok l digest hash_text sample_run_input"
  by (simp add: others_ok_def sample_run_input_def)

lemma sample_runs: "\<exists>r. run_next default_limits sample_digest sample_hash sample_options sample_run_input queued = (Inr (Some r), finished) \<and>
    run_jobId r = ''j'' \<and> finalStatus r = JobSucceeded"
proof -
  obtain j where j: "settle_job_success default_limits sample_digest sample_hash (sample_lease ''w1'' 1 sample_time) sample_artifact
      (sample_time + 10) leased = Inr (j, finished)" using succeeded by blast
  then obtain r where "find_row finished ''j'' = Some r" "j = shown_job r"
    using settle_success_as [OF sample_ok [OF runs(2)] j] by (auto simp: settled_as_def moved_def sample_lease_def)
  then have "status j = JobSucceeded" by (auto simp: finished_def clear_lease_def)
  moreover have "validate_handler_result (Answered (HandlerSucceeded sample_artifact)) = Inr (HandlerSucceeded sample_artifact)"
    using assert_artifact_reference_Inr [of sample_artifact "''handler result''" "()"] by simp
  moreover have "lease_jobId (sample_lease ''w1'' 1 sample_time) = ''j''" by (simp add: sample_lease_def)
  ultimately show ?thesis
    using claimed j by (simp add: run_next_def execute_lease_def Let_def sample_run_input_def sample_options_def started_def
      chosen_outcome_def del: validate_handler_result.simps)
qed

text \<open>A settlement that retries at once or after a delay, while attempts are left.\<close>

definition retried :: "int \<Rightarrow> job_status \<Rightarrow> job_row \<Rightarrow> bool" where
  "retried due final row \<longleftrightarrow> (if row_attemptCount row < row_maxAttempts row then final = JobRetryWait \<and> row_availableAt row = due else final = JobBlocked)"

lemma chosen_for_running:
  assumes "\<not> cancellationObserved st" "aborted st \<longrightarrow> timeoutTriggered st"
  shows "chosen_outcome st ans = (if timeoutTriggered st then HandlerRetry ''handler_timeout'' 0
    else case validate_handler_result ans of Inr out \<Rightarrow> out | Inl e \<Rightarrow> HandlerRetry ''handler_error'' 0)"
  using assms by (auto simp: chosen_outcome_def split: sum.splits)

text \<open>C31. A run settles the job it claimed: when \<open>runNext\<close> returns a result, whatever happened to the store
  meanwhile, one settlement took the job's row, still leased to this run, to the reported status and generation and
  without a lease. A job that was asked to stop by then is cancelled. Any other is retried at once when the run was over the
  time limit, and else ends as the handler answered: succeeded with its valid artifact, blocked, cancelled, or
  retried after its delay, at once for an invalid answer or an exception; a retry without attempts left blocks.\<close>

theorem run_settles_its_job:
  assumes "\<And>t. sha256_pattern (hash_text t)" and "queue_run l digest hash_text empty_job_store s" and "others_ok l digest hash_text i"
    and "run_next l digest hash_text opts i s = (Inr (Some r), s')"
  shows "\<exists>u q row. queue_run l digest hash_text s u \<and> queue_step l digest hash_text u s' \<and>
    find_row u (run_jobId r) = Some q \<and> row_leaseGeneration q = run_generation r \<and> row_status q \<in> {JobRunning, JobCancelling} \<and>
    find_row s' (run_jobId r) = Some row \<and> row_status row = finalStatus r \<and>
    row_leaseGeneration row = run_generation r \<and> row_leaseTokenHash row = None \<and>
    (row_status q = JobCancelling \<longrightarrow> finalStatus r = JobCancelled) \<and>
    (row_status q = JobRunning \<longrightarrow>
      (if TimeoutFires \<in> set (during i) then retried (settleAt i) (finalStatus r) row
       else case validate_handler_result (answer i) of
           Inl e \<Rightarrow> retried (settleAt i) (finalStatus r) row
         | Inr (HandlerSucceeded a) \<Rightarrow> finalStatus r = JobSucceeded \<and> answer i = Answered (HandlerSucceeded a) \<and> artifact_ok a \<and>
             row_resultArtifactId row = Some (artifactId a) \<and> row_resultSha256 row = Some (sha256 a)
         | Inr (HandlerRetry code delay) \<Rightarrow> retried (settleAt i + delay) (finalStatus r) row
         | Inr (HandlerBlocked code) \<Rightarrow> finalStatus r = JobBlocked
         | Inr HandlerCancelled \<Rightarrow> finalStatus r = JobCancelled))"
proof -
  from assms(4) obtain ls s1 st j where
    claim: "claim_job l digest hash_text (opt_workerId opts) (claimAt i) (opt_leaseMs opts) (claimToken i) (meanwhile i s) = Inr (Some ls, s1)"
    and st: "st = fold (run_event_step l digest hash_text opts ls) (during i) (started s1)" and beats: "heartbeatFailure st = None"
    and settle: "settle_outcome l digest hash_text ls (chosen_outcome st (answer i)) (settleAt i) (run_store st) = Inr (j, s')"
    and r: "r = \<lparr>run_jobId = lease_jobId ls, run_generation = lease_generation ls, finalStatus = status j\<rparr>"
    by (rule run_next_Some)
  have others: "\<forall>f s. StoreChanges f \<in> set (during i) \<longrightarrow> queue_run l digest hash_text s (f s)" using assms(3) by (simp add: others_ok_def)
  have "queue_run l digest hash_text s (meanwhile i s)" using assms(3) by (simp add: others_ok_def)
  moreover have "queue_step l digest hash_text (meanwhile i s) s1" using claim by (rule queue_step.claim)
  ultimately have before: "queue_run l digest hash_text s s1" by simp
  have "queue_run l digest hash_text (run_store (started s1)) (run_store st)" unfolding st by (rule events_run) (use others in blast)
  with before have run: "queue_run l digest hash_text s (run_store st)" by (simp add: started_def)
  have "store_ok l digest s1" using queue_run_ok [OF assms(1) _ empty_store_ok] before assms(2) by (meson rtranclp_trans)
  then have start: "store_ok l digest (run_store (started s1))" by (simp add: started_def)
  have ok: "store_ok l digest (run_store st)" using queue_run_ok [OF assms(1) _ empty_store_ok] run assms(2) by (meson rtranclp_trans)
  from settle_outcome_row [OF ok settle] obtain q row where m: "moved l digest (lease_jobId ls) q row j (run_store st) s'"
    and settled: "settled_row ls (chosen_outcome st (answer i)) (settleAt i) q row" by blast
  have rows: "find_row (run_store st) (lease_jobId ls) = Some q" "find_row s' (lease_jobId ls) = Some row" "finalStatus r = row_status row"
    using m by (auto simp: moved_def r)
  have q: "row_status q \<in> {JobRunning, JobCancelling}" using settled by (auto simp: settled_row_def split: if_splits)
  have timeout: "timeoutTriggered st \<longleftrightarrow> TimeoutFires \<in> set (during i)" by (simp add: st events_timeout started_def)
  have unseen: "\<not> cancellationObserved st" if "row_status q = JobRunning"
    using events_seen [OF assms(1) start others, of ls opts] that rows(1) st
    by (auto simp: asked_to_stop_def cancellation_seen_def started_def)
  have aborts: "aborted st \<longrightarrow> timeoutTriggered st \<or> cancellationObserved st"
    using events_aborted [of "started s1" l digest hash_text opts ls "during i"] beats by (auto simp: st started_def)
  have chosen: "chosen_outcome st (answer i) = (if TimeoutFires \<in> set (during i) then HandlerRetry ''handler_timeout'' 0
      else case validate_handler_result (answer i) of Inr out \<Rightarrow> out | Inl e \<Rightarrow> HandlerRetry ''handler_error'' 0)"
    if "row_status q = JobRunning"
    unfolding timeout [symmetric] by (rule chosen_for_running) (use aborts unseen [OF that] in blast)+
  have stop: "row_status q = JobCancelling \<longrightarrow> finalStatus r = JobCancelled" using settled rows(3) by (simp add: settled_row_def)
  have running: "if TimeoutFires \<in> set (during i) then retried (settleAt i) (finalStatus r) row
       else case validate_handler_result (answer i) of
           Inl e \<Rightarrow> retried (settleAt i) (finalStatus r) row
         | Inr (HandlerSucceeded a) \<Rightarrow> finalStatus r = JobSucceeded \<and> answer i = Answered (HandlerSucceeded a) \<and> artifact_ok a \<and>
             row_resultArtifactId row = Some (artifactId a) \<and> row_resultSha256 row = Some (sha256 a)
         | Inr (HandlerRetry code delay) \<Rightarrow> retried (settleAt i + delay) (finalStatus r) row
         | Inr (HandlerBlocked code) \<Rightarrow> finalStatus r = JobBlocked
         | Inr HandlerCancelled \<Rightarrow> finalStatus r = JobCancelled" if "row_status q = JobRunning"
  proof (cases "TimeoutFires \<in> set (during i)")
    case True
    then show ?thesis using settled that rows(3) unfolding settled_row_def chosen [OF that] by (simp add: retried_def split: if_splits)
  next
    case False
    then show ?thesis using settled that rows(3) validated_success [of "answer i"] unfolding settled_row_def chosen [OF that]
      by (cases "validate_handler_result (answer i)"; cases "projr (validate_handler_result (answer i))")
        (simp_all add: retried_def split: if_splits)
  qed
  have step: "queue_step l digest hash_text (run_store st) s'" using settle by (rule settle_outcome_step)
  have ids: "run_jobId r = lease_jobId ls" "run_generation r = lease_generation ls" by (simp_all add: r)
  show ?thesis unfolding ids
    by (rule exI [of _ "run_store st"], rule exI [of _ q], rule exI [of _ row])
      (use run rows q settled stop running step in \<open>auto simp: settled_row_def split del: if_split\<close>)
qed

lemma run_settles_its_job_witness:
  "\<exists>r. run_next default_limits sample_digest sample_hash sample_options sample_run_input queued = (Inr (Some r), finished) \<and>
     answer sample_run_input = Answered (HandlerSucceeded sample_artifact) \<and> TimeoutFires \<notin> set (during sample_run_input)"
proof -
  obtain r where r: "run_next default_limits sample_digest sample_hash sample_options sample_run_input queued = (Inr (Some r), finished)"
    "finalStatus r = JobSucceeded" using sample_runs by blast
  have "\<not> retried t (finalStatus r) row" for t row using r(2) by (simp add: retried_def)
  with run_settles_its_job [OF sample_hashes runs(1) sample_others r(1)] r(2) have "TimeoutFires \<notin> set (during sample_run_input)" by auto
  with r(1) show ?thesis by (intro exI [of _ r]) (simp add: sample_run_input_def)
qed

lemma drain_runs_bound:
  "drain_runs l digest hash_text opts inputs n k s = (Inr rs, s') \<Longrightarrow> length rs \<le> n \<and>
     (length rs < n \<longrightarrow> (\<exists>t. run_next l digest hash_text opts (inputs (k + length rs)) t = (Inr None, s')))"
proof (induction n arbitrary: k s rs)
  case (Suc n)
  then consider "rs = []" "run_next l digest hash_text opts (inputs k) s = (Inr None, s')"
    | r s1 rs' where "drain_runs l digest hash_text opts inputs n (Suc k) s1 = (Inr rs', s')" "rs = r # rs'"
    by (auto split: prod.splits sum.splits option.splits)
  then show ?case
  proof cases
    case 1
    then show ?thesis by auto
  next
    case 2
    from Suc.IH [OF 2(1)] 2(2) show ?thesis by simp
  qed
qed simp

text \<open>C32. \<open>drain\<close> stops: it returns at most \<open>maxRuns\<close> results, fewer only when a claim found no job, and
  the store it leaves was reached by queue operations alone, so every property of the queue holds.\<close>

theorem drain_is_bounded:
  assumes "\<And>k. others_ok l digest hash_text (inputs k)"
    and "drain l digest hash_text opts inputs maxRuns s = (Inr rs, s')"
  shows "int (length rs) \<le> maxRuns \<and> queue_run l digest hash_text s s' \<and>
    (int (length rs) < maxRuns \<longrightarrow> (\<exists>t. run_next l digest hash_text opts (inputs (length rs)) t = (Inr None, s')))"
proof -
  from assms(2) have max: "1 \<le> maxRuns" and runs: "drain_runs l digest hash_text opts inputs (nat maxRuns) 0 s = (Inr rs, s')"
    by (auto simp: drain_def result_simps split: sum.splits)
  have "queue_run l digest hash_text s (snd (drain_runs l digest hash_text opts inputs (nat maxRuns) 0 s))"
    using assms(1) by (rule drain_runs_run)
  then show ?thesis using drain_runs_bound [OF runs] runs max by auto
qed

lemma drain_is_bounded_witness:
  "\<exists>rs. drain default_limits sample_digest sample_hash sample_options (\<lambda>_. sample_run_input) 1 queued = (Inr rs, finished) \<and>
     length rs \<le> 1 \<and> queue_run default_limits sample_digest sample_hash queued finished"
proof -
  obtain r where "run_next default_limits sample_digest sample_hash sample_options sample_run_input queued = (Inr (Some r), finished)"
    using sample_runs by blast
  then have "drain default_limits sample_digest sample_hash sample_options (\<lambda>_. sample_run_input) 1 queued = (Inr [r], finished)"
    by (simp add: drain_def assert_safe_integer_def safe_integer_def max_safe_integer_def)
  from this drain_is_bounded [OF sample_others this] show ?thesis by auto
qed

end
