(* ===== verification/Reliability.thy ===== *)
theory Reliability
  imports Json
begin

text \<open>
  Failure recovery (\<open>src/reliability/\<close>): \<open>classifyFailure\<close> turns a failure signal into a signed,
  categorised failure, \<open>ReliabilityController.decide\<close> picks the next recovery action within the budgets.
  Signals and requests are JSON values, checked as the source checks them; \<open>lc\<close> is \<open>localeCompare\<close> and
  \<open>digest\<close> the SHA-256 of the text of a value.
\<close>

datatype reliability_error = InvalidInput string | NotAnObject_TypeError

type_synonym 'a reliable = "(reliability_error, 'a) result"

datatype failure_category = Budget | Cancelled_Category | Conflict | Context | Execution | Plan | Policy
  | Transient | Unknown | Verification

primrec category_text :: "failure_category \<Rightarrow> string" where
  "category_text Budget = ''BUDGET''"
| "category_text Cancelled_Category = ''CANCELLED''"
| "category_text Conflict = ''CONFLICT''"
| "category_text Context = ''CONTEXT''"
| "category_text Execution = ''EXECUTION''"
| "category_text Plan = ''PLAN''"
| "category_text Policy = ''POLICY''"
| "category_text Transient = ''TRANSIENT''"
| "category_text Unknown = ''UNKNOWN''"
| "category_text Verification = ''VERIFICATION''"

datatype recovery_action = ALTERNATIVE_PLAN | CHECKPOINT_AND_BLOCK | ESCALATE_MODEL | ESCALATE_VERIFIER
  | REDUCE_CONTEXT | ROLLBACK | STOP_CANCELLED | TARGETED_REPAIR | TARGETED_RETRY

primrec action_text :: "recovery_action \<Rightarrow> string" where
  "action_text ALTERNATIVE_PLAN = ''ALTERNATIVE_PLAN''"
| "action_text CHECKPOINT_AND_BLOCK = ''CHECKPOINT_AND_BLOCK''"
| "action_text ESCALATE_MODEL = ''ESCALATE_MODEL''"
| "action_text ESCALATE_VERIFIER = ''ESCALATE_VERIFIER''"
| "action_text REDUCE_CONTEXT = ''REDUCE_CONTEXT''"
| "action_text ROLLBACK = ''ROLLBACK''"
| "action_text STOP_CANCELLED = ''STOP_CANCELLED''"
| "action_text TARGETED_REPAIR = ''TARGETED_REPAIR''"
| "action_text TARGETED_RETRY = ''TARGETED_RETRY''"

definition recovery_actions :: "recovery_action list" where
  "recovery_actions = [ALTERNATIVE_PLAN, CHECKPOINT_AND_BLOCK, ESCALATE_MODEL, ESCALATE_VERIFIER,
     REDUCE_CONTEXT, ROLLBACK, STOP_CANCELLED, TARGETED_REPAIR, TARGETED_RETRY]"

datatype recovery_outcome = OutcomeFailed | OutcomeNoProgress | OutcomeSucceeded

primrec outcome_text :: "recovery_outcome \<Rightarrow> string" where
  "outcome_text OutcomeFailed = ''FAILED''"
| "outcome_text OutcomeNoProgress = ''NO_PROGRESS''"
| "outcome_text OutcomeSucceeded = ''SUCCEEDED''"

definition recovery_outcomes :: "recovery_outcome list" where
  "recovery_outcomes = [OutcomeFailed, OutcomeNoProgress, OutcomeSucceeded]"

definition failure_sources :: "string list" where
  "failure_sources = [''persistence'', ''planner'', ''provider'', ''runtime'', ''sandbox'', ''tool'', ''verification'']"

definition side_effects :: "string list" where
  "side_effects = [''IDEMPOTENT'', ''IRREVERSIBLE_OR_UNKNOWN'', ''NONE'', ''REVERSIBLE'']"

record recovery_attempt =
  at_failureSignature :: string
  at_action :: recovery_action
  at_outcome :: recovery_outcome
  at_decisionHash :: string

record recovery_budget =
  retriesRemaining :: int
  repairsRemaining :: int
  alternativePlansRemaining :: int
  rollbacksRemaining :: int
  verifierEscalationsRemaining :: int
  modelEscalationsRemaining :: int
  maxRepeatedStrategyFailures :: int

record recovery_request =
  rq_failure :: "(string \<times> json) list"
  rq_attempts :: "recovery_attempt list"
  rq_budget :: recovery_budget
  rq_capabilities :: "(string \<times> json) list"

record recovery_decision =
  dec_action :: recovery_action
  dec_reasonCode :: string
  dec_failureSignature :: string
  dec_decisionHash :: string

section \<open>Checks\<close>

definition reliability_invalid :: "string \<Rightarrow> 'a reliable" where
  "reliability_invalid message = Inl (InvalidInput message)"

text \<open>\<open>/^[A-Za-z0-9_][A-Za-z0-9._:/@-]{0,255}$/u\<close>.\<close>

definition identifier_head :: "char \<Rightarrow> bool" where
  "identifier_head c \<longleftrightarrow> lower_char c \<or> upper_char c \<or> digit_char c \<or> c = CHR ''_''"

definition identifier_tail :: "char \<Rightarrow> bool" where
  "identifier_tail c \<longleftrightarrow> identifier_head c \<or> c \<in> set ''.:/@-''"

definition identifier_pattern :: "string \<Rightarrow> bool" where
  "identifier_pattern s \<longleftrightarrow> s \<noteq> [] \<and> identifier_head (hd s) \<and> list_all identifier_tail (tl s) \<and> length (tl s) \<le> 255"

fun check_identifier :: "json option \<Rightarrow> string \<Rightarrow> string reliable" where
  "check_identifier (Some (JStr s)) label =
     (if identifier_pattern s then Inr s else reliability_invalid (label @ '' is malformed.''))"
| "check_identifier _ label = reliability_invalid (label @ '' is malformed.'')"

fun check_sha256 :: "json option \<Rightarrow> string \<Rightarrow> string reliable" where
  "check_sha256 (Some (JStr s)) label =
     (if sha256_pattern s then Inr s else reliability_invalid (label @ '' must be a lowercase SHA-256 digest.''))"
| "check_sha256 _ label = reliability_invalid (label @ '' must be a lowercase SHA-256 digest.'')"

fun bounded_integer :: "json option \<Rightarrow> string \<Rightarrow> int \<Rightarrow> int reliable" where
  "bounded_integer (Some (JNum q)) label maximum =
     (if num_is_safe_integer q \<and> 0 \<le> fst (quotient_of q) \<and> fst (quotient_of q) \<le> maximum then Inr (fst (quotient_of q))
      else reliability_invalid (label @ '' is outside its integer bounds.''))"
| "bounded_integer _ label maximum = reliability_invalid (label @ '' is outside its integer bounds.'')"

fun boolean_value :: "json option \<Rightarrow> string \<Rightarrow> bool reliable" where
  "boolean_value (Some (JBool b)) label = Inr b"
| "boolean_value _ label = reliability_invalid (label @ '' must be boolean.'')"

text \<open>The own properties of a value where \<open>in\<close> is applied to it: it throws on a primitive.\<close>

fun object_properties :: "json \<Rightarrow> (string \<times> json) list reliable" where
  "object_properties (JObj props) = Inr props"
| "object_properties (JArr xs) = Inr (zip (map nat_text [0..<length xs]) xs)"
| "object_properties _ = Inl NotAnObject_TypeError"

definition exact_properties :: "json \<Rightarrow> string list \<Rightarrow> string list \<Rightarrow> string \<Rightarrow> (string \<times> json) list reliable" where
  "exact_properties v required optional label =
     and_then (object_properties v) (\<lambda>props.
     and_then (for_each (\<lambda>k. ensure (js_in k props) (InvalidInput (label @ '' is missing '' @ k @ ''.''))) required) (\<lambda>_.
     and_then (for_each (\<lambda>k. ensure (k \<in> set (required @ optional)) (InvalidInput (label @ '' contains unknown field '' @ k @ ''.'')))
        (js_keys props)) (\<lambda>_. Inr props)))"

text \<open>\<open>hashJson\<close>: the keys of an object are sorted by \<open>localeCompare\<close>.\<close>

primrec locale_canonicalize :: "(string \<Rightarrow> string \<Rightarrow> int) \<Rightarrow> json \<Rightarrow> json" where
  "locale_canonicalize lc JNull = JNull"
| "locale_canonicalize lc (JBool b) = JBool b"
| "locale_canonicalize lc (JNum n) = JNum n"
| "locale_canonicalize lc (JStr s) = JStr s"
| "locale_canonicalize lc (JArr xs) = JArr (map (locale_canonicalize lc) xs)"
| "locale_canonicalize lc (JObj props) =
     JObj (from_entries (js_sort (\<lambda>a b. lc (fst a) (fst b)) (map (map_prod id (locale_canonicalize lc)) props)))"

definition hash_json :: "(string \<Rightarrow> string \<Rightarrow> int) \<Rightarrow> (json \<Rightarrow> string) \<Rightarrow> json \<Rightarrow> string" where
  "hash_json lc digest v = digest (locale_canonicalize lc v)"

section \<open>Classification\<close>

definition category_by_reason :: "string \<rightharpoonup> failure_category" where
  "category_by_reason = map_of
     [(''aborted'', Cancelled_Category), (''budget_exceeded'', Budget), (''cancelled'', Cancelled_Category),
      (''conflict'', Conflict), (''context_overflow'', Context), (''denied'', Policy), (''dependency_cycle'', Plan),
      (''invalid_input'', Plan), (''malformed_response'', Plan), (''network'', Transient), (''permission'', Policy),
      (''provider_timeout'', Transient), (''quality_gate_failed'', Verification), (''quota'', Budget),
      (''rate_limit'', Transient), (''retryable'', Transient), (''require_approval'', Policy),
      (''stale_preimage'', Conflict), (''timeout'', Transient), (''unavailable'', Transient),
      (''verification_contradiction'', Verification), (''verification_failed'', Verification)]"

text \<open>The category of a reason; \<open>Inherited\<close> is what the table inherits from \<open>Object.prototype\<close>.\<close>

definition classify_category :: "string \<Rightarrow> string \<Rightarrow> bool \<Rightarrow> failure_category js_property" where
  "classify_category source reasonCode contradictoryEvidence =
     (if contradictoryEvidence then Own Verification
      else (case js_get category_by_reason reasonCode of
          Own c \<Rightarrow> Own c
        | Inherited \<Rightarrow> Inherited
        | Absent \<Rightarrow>
            Own (if source = ''verification'' then Verification
                 else if source = ''planner'' then Plan
                 else if source = ''tool'' \<or> source = ''sandbox'' then Execution
                 else if source = ''persistence'' then Conflict
                 else Unknown)))"

text \<open>
  The category as a value to hash: an inherited method is a function, which \<open>hashJson\<close> refuses, and
  \<open>__proto__\<close> is \<open>Object.prototype\<close>, an object with no enumerable property.
\<close>

definition category_value :: "failure_category js_property \<Rightarrow> string \<Rightarrow> json reliable" where
  "category_value c reasonCode =
     (case c of
        Own k \<Rightarrow> Inr (JStr (category_text k))
      | _ \<Rightarrow> if reasonCode = ''__proto__'' then Inr (JObj [])
             else reliability_invalid ''Reliability data contains an unsupported value.'')"

fun optional_sha256 :: "json option \<Rightarrow> string \<Rightarrow> string option reliable" where
  "optional_sha256 None label = Inr None"
| "optional_sha256 v label = and_then (check_sha256 v label) (\<lambda>s. Inr (Some s))"

fun member_text :: "json option \<Rightarrow> string list \<Rightarrow> string \<Rightarrow> string reliable" where
  "member_text (Some (JStr s)) allowed message = (if s \<in> set allowed then Inr s else reliability_invalid message)"
| "member_text _ allowed message = reliability_invalid message"

definition optional_field :: "string \<Rightarrow> string option \<Rightarrow> (string \<times> json) list" where
  "optional_field k v = (case v of None \<Rightarrow> [] | Some s \<Rightarrow> [(k, JStr s)])"

definition failure_body :: "json \<Rightarrow> bool \<Rightarrow> string option \<Rightarrow> bool \<Rightarrow> string \<Rightarrow> string \<Rightarrow> string \<Rightarrow> bool \<Rightarrow> string option
    \<Rightarrow> string \<Rightarrow> string \<Rightarrow> string \<Rightarrow> (string \<times> json) list" where
  "failure_body category contradictory evidenceHash independently missionId phase reasonCode retryable rollbackHash sideEffect source taskId =
     [(''category'', category), (''contradictoryEvidence'', JBool contradictory)]
     @ optional_field ''evidenceHash'' evidenceHash
     @ [(''independentEvidence'', JBool independently), (''missionId'', JStr missionId), (''phase'', JStr phase),
        (''reasonCode'', JStr reasonCode), (''retryable'', JBool retryable)]
     @ optional_field ''rollbackEvidenceHash'' rollbackHash
     @ [(''sideEffect'', JStr sideEffect), (''source'', JStr source), (''taskId'', JStr taskId)]"

definition signed_failure :: "(string \<Rightarrow> string \<Rightarrow> int) \<Rightarrow> (json \<Rightarrow> string) \<Rightarrow> (string \<times> json) list \<Rightarrow> (string \<times> json) list" where
  "signed_failure lc digest body = body @ [(''signature'', JStr (hash_json lc digest (JObj body)))]"

definition classify_failure :: "(string \<Rightarrow> string \<Rightarrow> int) \<Rightarrow> (json \<Rightarrow> string) \<Rightarrow> json \<Rightarrow> (string \<times> json) list reliable" where
  "classify_failure lc digest signal =
     and_then (exact_properties signal [''missionId'', ''taskId'', ''source'', ''phase'', ''reasonCode'', ''retryable'',
        ''sideEffect'', ''independentEvidence'', ''contradictoryEvidence''] [''evidenceHash'', ''rollbackEvidenceHash''] ''failure signal'') (\<lambda>props.
     and_then (check_identifier (own_property props ''missionId'') ''missionId'') (\<lambda>missionId.
     and_then (check_identifier (own_property props ''taskId'') ''taskId'') (\<lambda>taskId.
     and_then (check_identifier (own_property props ''phase'') ''phase'') (\<lambda>phase.
     and_then (check_identifier (own_property props ''reasonCode'') ''reasonCode'') (\<lambda>reasonCode.
     and_then (member_text (own_property props ''source'') failure_sources ''failure source is unsupported.'') (\<lambda>source.
     and_then (member_text (own_property props ''sideEffect'') side_effects ''failure side effect is unsupported.'') (\<lambda>sideEffect.
     and_then (boolean_value (own_property props ''retryable'') ''retryable'') (\<lambda>retryable.
     and_then (boolean_value (own_property props ''independentEvidence'') ''independentEvidence'') (\<lambda>independently.
     and_then (boolean_value (own_property props ''contradictoryEvidence'') ''contradictoryEvidence'') (\<lambda>contradictory.
     and_then (optional_sha256 (own_property props ''evidenceHash'') ''evidenceHash'') (\<lambda>evidenceHash.
     and_then (optional_sha256 (own_property props ''rollbackEvidenceHash'') ''rollbackEvidenceHash'') (\<lambda>rollbackHash.
     and_then (ensure (independently \<longrightarrow> evidenceHash \<noteq> None)
        (InvalidInput ''Independent failure evidence requires evidenceHash.'')) (\<lambda>_.
     and_then (ensure (contradictory \<longrightarrow> independently)
        (InvalidInput ''Contradictory evidence must be independently produced.'')) (\<lambda>_.
     and_then (ensure (rollbackHash \<noteq> None \<longrightarrow> sideEffect = ''REVERSIBLE'')
        (InvalidInput ''Rollback evidence is valid only for reversible side effects.'')) (\<lambda>_.
     and_then (category_value (classify_category source reasonCode contradictory) reasonCode) (\<lambda>category.
     Inr (signed_failure lc digest (failure_body category contradictory evidenceHash independently missionId phase reasonCode
        retryable rollbackHash sideEffect source taskId))))))))))))))))))"

text \<open>\<open>classifyThrownFailure\<close>: what was thrown is a provider error, a tool error or anything else.\<close>

datatype thrown_failure = ThrownProvider string bool | ThrownTool string bool | ThrownOther

definition copied_fields :: "(string \<times> json) list \<Rightarrow> string list \<Rightarrow> (string \<times> json) list" where
  "copied_fields props ks = concat (map (\<lambda>k. case own_property props k of None \<Rightarrow> [] | Some v \<Rightarrow> [(k, v)]) ks)"

definition classify_thrown_failure :: "(string \<Rightarrow> string \<Rightarrow> int) \<Rightarrow> (json \<Rightarrow> string) \<Rightarrow> thrown_failure \<Rightarrow> json
    \<Rightarrow> (string \<times> json) list reliable" where
  "classify_thrown_failure lc digest thrown context =
     and_then (exact_properties context [''missionId'', ''taskId'', ''phase'', ''fallbackSource'', ''sideEffect'',
        ''independentEvidence'', ''contradictoryEvidence''] [''evidenceHash'', ''rollbackEvidenceHash''] ''thrown failure context'') (\<lambda>props.
     let shared = copied_fields props [''contradictoryEvidence'', ''evidenceHash'', ''independentEvidence'', ''missionId'',
           ''phase'', ''rollbackEvidenceHash'', ''sideEffect'', ''taskId''];
         classify = (\<lambda>reason retryable source. classify_failure lc digest (JObj (shared @
           [(''reasonCode'', JStr reason), (''retryable'', JBool retryable), (''source'', source)]))) in
     case thrown of
       ThrownProvider category retryable \<Rightarrow> classify category retryable (JStr ''provider'')
     | ThrownTool category retryable \<Rightarrow> classify category retryable (JStr ''tool'')
     | ThrownOther \<Rightarrow> classify ''unknown_failure'' False (case own_property props ''fallbackSource'' of None \<Rightarrow> JNull | Some v \<Rightarrow> v))"

section \<open>Requests\<close>

definition named_action :: "string \<Rightarrow> recovery_action option" where
  "named_action t = find (\<lambda>a. action_text a = t) recovery_actions"

definition named_outcome :: "string \<Rightarrow> recovery_outcome option" where
  "named_outcome t = find (\<lambda>a. outcome_text a = t) recovery_outcomes"

fun text_of :: "json option \<Rightarrow> string" where
  "text_of (Some (JStr s)) = s"
| "text_of _ = []"

definition normalize_attempt :: "json \<Rightarrow> recovery_attempt reliable" where
  "normalize_attempt v =
     and_then (exact_properties v [''failureSignature'', ''action'', ''outcome'', ''decisionHash''] [] ''attempt'') (\<lambda>props.
     and_then (check_sha256 (own_property props ''failureSignature'') ''attempt failureSignature'') (\<lambda>signature.
     and_then (check_sha256 (own_property props ''decisionHash'') ''attempt decisionHash'') (\<lambda>decisionHash.
     case named_action (text_of (own_property props ''action'')) of
       None \<Rightarrow> reliability_invalid ''attempt action is unsupported.''
     | Some action \<Rightarrow>
        (case named_outcome (text_of (own_property props ''outcome'')) of
           None \<Rightarrow> reliability_invalid ''attempt outcome is unsupported.''
         | Some outcome \<Rightarrow> Inr \<lparr>at_failureSignature = signature, at_action = action, at_outcome = outcome, at_decisionHash = decisionHash\<rparr>))))"

definition attempt_value :: "recovery_attempt \<Rightarrow> json" where
  "attempt_value a = JObj [(''action'', JStr (action_text (at_action a))), (''decisionHash'', JStr (at_decisionHash a)),
     (''failureSignature'', JStr (at_failureSignature a)), (''outcome'', JStr (outcome_text (at_outcome a)))]"

definition normalize_budget :: "json \<Rightarrow> recovery_budget reliable" where
  "normalize_budget v =
     and_then (exact_properties v [''retriesRemaining'', ''repairsRemaining'', ''alternativePlansRemaining'', ''rollbacksRemaining'',
        ''verifierEscalationsRemaining'', ''modelEscalationsRemaining'', ''maxRepeatedStrategyFailures''] [] ''recovery budget'') (\<lambda>props.
     and_then (bounded_integer (own_property props ''alternativePlansRemaining'') ''alternativePlansRemaining'' 1000) (\<lambda>plans.
     and_then (bounded_integer (own_property props ''maxRepeatedStrategyFailures'') ''maxRepeatedStrategyFailures'' 10) (\<lambda>repeated.
     and_then (bounded_integer (own_property props ''modelEscalationsRemaining'') ''modelEscalationsRemaining'' 1000) (\<lambda>models.
     and_then (bounded_integer (own_property props ''repairsRemaining'') ''repairsRemaining'' 1000) (\<lambda>repairs.
     and_then (bounded_integer (own_property props ''retriesRemaining'') ''retriesRemaining'' 1000) (\<lambda>retries.
     and_then (bounded_integer (own_property props ''rollbacksRemaining'') ''rollbacksRemaining'' 1000) (\<lambda>rollbacks.
     and_then (bounded_integer (own_property props ''verifierEscalationsRemaining'') ''verifierEscalationsRemaining'' 1000) (\<lambda>verifiers.
     Inr \<lparr>retriesRemaining = retries, repairsRemaining = repairs, alternativePlansRemaining = plans, rollbacksRemaining = rollbacks,
       verifierEscalationsRemaining = verifiers, modelEscalationsRemaining = models, maxRepeatedStrategyFailures = repeated\<rparr>))))))))"

definition budget_value :: "recovery_budget \<Rightarrow> json" where
  "budget_value b = JObj (map (\<lambda>(k, n). (k, JNum (of_int n)))
     [(''alternativePlansRemaining'', alternativePlansRemaining b), (''maxRepeatedStrategyFailures'', maxRepeatedStrategyFailures b),
      (''modelEscalationsRemaining'', modelEscalationsRemaining b), (''repairsRemaining'', repairsRemaining b),
      (''retriesRemaining'', retriesRemaining b), (''rollbacksRemaining'', rollbacksRemaining b),
      (''verifierEscalationsRemaining'', verifierEscalationsRemaining b)])"

fun is_boolean :: "json option \<Rightarrow> bool" where
  "is_boolean (Some (JBool b)) = True"
| "is_boolean _ = False"

definition normalize_capabilities :: "json \<Rightarrow> (string \<times> json) list reliable" where
  "normalize_capabilities v =
     and_then (exact_properties v [''contextReduction'', ''modelEscalation'', ''verifierEscalation''] [] ''recovery capabilities'') (\<lambda>props.
     if \<not> is_boolean (own_property props ''contextReduction'') \<or> \<not> is_boolean (own_property props ''modelEscalation'')
       \<or> \<not> is_boolean (own_property props ''verifierEscalation'')
     then reliability_invalid ''Recovery capabilities must be boolean.'' else Inr props)"

text \<open>The \<open>Map\<close> of attempts by decision hash: a later attempt with the same hash must hash the same and replaces the value.\<close>

primrec index_attempts :: "(recovery_attempt \<Rightarrow> string) \<Rightarrow> recovery_attempt list \<Rightarrow> recovery_attempt list \<Rightarrow> recovery_attempt list reliable" where
  "index_attempts h [] m = Inr m"
| "index_attempts h (a # as) m =
     (case find (\<lambda>p. at_decisionHash p = at_decisionHash a) m of
        None \<Rightarrow> index_attempts h as (m @ [a])
      | Some previous \<Rightarrow>
          if h previous \<noteq> h a
          then reliability_invalid ''One recovery decision hash cannot identify conflicting attempts.''
          else index_attempts h as (map (\<lambda>p. if at_decisionHash p = at_decisionHash a then a else p) m))"

definition by_decision_hash :: "(string \<Rightarrow> string \<Rightarrow> int) \<Rightarrow> recovery_attempt \<Rightarrow> recovery_attempt \<Rightarrow> int" where
  "by_decision_hash lc a b = lc (at_decisionHash a) (at_decisionHash b)"

text \<open>Reading a property of a value: \<open>null\<close> throws, a primitive or an array has none of the names read.\<close>

fun member :: "json \<Rightarrow> string \<Rightarrow> json option reliable" where
  "member JNull k = Inl NotAnObject_TypeError"
| "member (JObj props) k = Inr (own_property props k)"
| "member _ k = Inr None"

fun object_fields :: "json \<Rightarrow> (string \<times> json) list" where
  "object_fields (JObj props) = props"
| "object_fields _ = []"

definition check_attempts :: "(string \<Rightarrow> string \<Rightarrow> int) \<Rightarrow> (json \<Rightarrow> string) \<Rightarrow> json option \<Rightarrow> recovery_attempt list reliable" where
  "check_attempts lc digest v =
     (case v of
        Some (JArr xs) \<Rightarrow>
          if 100 < length xs then reliability_invalid ''Recovery attempts exceed their collection bound.''
          else and_then (traverse normalize_attempt xs) (\<lambda>attempts.
               and_then (index_attempts (\<lambda>a. hash_json lc digest (attempt_value a)) attempts []) (\<lambda>indexed.
               Inr (js_sort (by_decision_hash lc) indexed)))
      | _ \<Rightarrow> reliability_invalid ''Recovery attempts exceed their collection bound.'')"

definition normalize_request :: "(string \<Rightarrow> string \<Rightarrow> int) \<Rightarrow> (json \<Rightarrow> string) \<Rightarrow> json \<Rightarrow> recovery_request reliable" where
  "normalize_request lc digest v =
     and_then (exact_properties v [''failure'', ''attempts'', ''budget'', ''capabilities''] [] ''recovery request'') (\<lambda>props.
     let failure = (case own_property props ''failure'' of None \<Rightarrow> JNull | Some f \<Rightarrow> f) in
     and_then (member failure ''signature'') (\<lambda>given.
     and_then (check_sha256 given ''failure signature'') (\<lambda>signature.
     if hash_json lc digest (JObj (filter (\<lambda>kv. fst kv \<noteq> ''signature'') (object_fields failure))) \<noteq> signature
     then reliability_invalid ''Failure signature does not match its content.''
     else and_then (check_attempts lc digest (own_property props ''attempts'')) (\<lambda>attempts.
          and_then (normalize_budget (case own_property props ''budget'' of None \<Rightarrow> JNull | Some b \<Rightarrow> b)) (\<lambda>budget.
          if maxRepeatedStrategyFailures budget < 1
          then reliability_invalid ''maxRepeatedStrategyFailures must permit at least one strategy failure.''
          else and_then (normalize_capabilities (case own_property props ''capabilities'' of None \<Rightarrow> JNull | Some c \<Rightarrow> c)) (\<lambda>capabilities.
               Inr \<lparr>rq_failure = object_fields failure, rq_attempts = attempts, rq_budget = budget, rq_capabilities = capabilities\<rparr>))))))"

section \<open>The decision\<close>

definition failure_is :: "recovery_request \<Rightarrow> string \<Rightarrow> string \<Rightarrow> bool" where
  "failure_is q k t \<longleftrightarrow> own_property (rq_failure q) k = Some (JStr t)"

text \<open>A value used as a condition.\<close>

fun truthy :: "json option \<Rightarrow> bool" where
  "truthy None = False"
| "truthy (Some JNull) = False"
| "truthy (Some (JBool b)) = b"
| "truthy (Some (JNum n)) = (n \<noteq> 0)"
| "truthy (Some (JStr s)) = (s \<noteq> [])"
| "truthy (Some (JArr xs)) = True"
| "truthy (Some (JObj props)) = True"

definition can :: "recovery_request \<Rightarrow> string \<Rightarrow> bool" where
  "can q k \<longleftrightarrow> truthy (own_property (rq_capabilities q) k)"

definition option_when :: "bool \<Rightarrow> recovery_action \<Rightarrow> string \<Rightarrow> (recovery_action \<times> string) list" where
  "option_when b a reason = (if b then [(a, reason)] else [])"

definition candidates_for :: "recovery_request \<Rightarrow> (recovery_action \<times> string) list" where
  "candidates_for q =
     (let retryable = truthy (own_property (rq_failure q) ''retryable'');
          category = failure_is q ''category'';
          sideEffect = failure_is q ''sideEffect'' in
      if category ''CANCELLED'' then [(STOP_CANCELLED, ''cancelled'')]
      else if category ''POLICY'' \<or> category ''BUDGET'' then [(CHECKPOINT_AND_BLOCK, ''authority_or_budget_required'')]
      else if sideEffect ''IRREVERSIBLE_OR_UNKNOWN'' then [(CHECKPOINT_AND_BLOCK, ''unsafe_side_effect_state'')]
      else if sideEffect ''REVERSIBLE'' \<and> own_property (rq_failure q) ''rollbackEvidenceHash'' \<noteq> None
        then [(ROLLBACK, ''restore_runtime_attested_preimage''), (CHECKPOINT_AND_BLOCK, ''rollback_unavailable'')]
      else if category ''CONTEXT''
        then option_when (can q ''contextReduction'') REDUCE_CONTEXT ''reduce_context_preserving_invariants''
           @ option_when retryable TARGETED_RETRY ''retry_after_context_reduction''
           @ option_when (can q ''modelEscalation'') ESCALATE_MODEL ''context_reduction_unavailable''
      else if category ''TRANSIENT''
        then (if \<not> retryable \<or> sideEffect ''REVERSIBLE'' then [(CHECKPOINT_AND_BLOCK, ''transient_retry_not_safe'')]
              else [(TARGETED_RETRY, ''retry_typed_transient_failure'')]
                @ option_when (can q ''modelEscalation'') ESCALATE_MODEL ''transient_retry_exhausted'')
      else if category ''VERIFICATION''
        then (if truthy (own_property (rq_failure q) ''contradictoryEvidence'') \<and> can q ''verifierEscalation''
              then [(ESCALATE_VERIFIER, ''resolve_independent_evidence_conflict''), (CHECKPOINT_AND_BLOCK, ''verifier_escalation_exhausted'')]
              else [(TARGETED_REPAIR, ''repair_against_verification_evidence'')]
                @ option_when (can q ''verifierEscalation'') ESCALATE_VERIFIER ''repair_exhausted''
                @ option_when (can q ''modelEscalation'') ESCALATE_MODEL ''verification_repair_exhausted'')
      else if category ''PLAN'' \<or> category ''CONFLICT''
        then [(ALTERNATIVE_PLAN, ''replace_invalid_or_conflicting_plan'')]
          @ option_when (can q ''modelEscalation'') ESCALATE_MODEL ''alternative_plan_exhausted''
      else if can q ''modelEscalation''
        then [(ESCALATE_MODEL, ''unknown_failure_requires_stronger_diagnosis''), (CHECKPOINT_AND_BLOCK, ''model_escalation_exhausted'')]
      else [(CHECKPOINT_AND_BLOCK, ''unknown_failure_has_no_safe_recovery'')])"

fun remaining :: "recovery_action \<Rightarrow> recovery_budget \<Rightarrow> int option" where
  "remaining TARGETED_RETRY b = Some (retriesRemaining b)"
| "remaining TARGETED_REPAIR b = Some (repairsRemaining b)"
| "remaining ALTERNATIVE_PLAN b = Some (alternativePlansRemaining b)"
| "remaining ROLLBACK b = Some (rollbacksRemaining b)"
| "remaining ESCALATE_VERIFIER b = Some (verifierEscalationsRemaining b)"
| "remaining ESCALATE_MODEL b = Some (modelEscalationsRemaining b)"
| "remaining _ b = None"

definition is_exhausted :: "recovery_action \<Rightarrow> recovery_budget \<Rightarrow> bool" where
  "is_exhausted a b \<longleftrightarrow> remaining a b = Some 0"

definition strategy_failures :: "recovery_action \<Rightarrow> recovery_request \<Rightarrow> recovery_attempt list" where
  "strategy_failures a q = filter (\<lambda>t. own_property (rq_failure q) ''signature'' = Some (JStr (at_failureSignature t)) \<and>
     at_action t = a \<and> at_outcome t \<noteq> OutcomeSucceeded) (rq_attempts q)"

definition repeats_failed_strategy :: "recovery_action \<Rightarrow> recovery_request \<Rightarrow> bool" where
  "repeats_failed_strategy a q \<longleftrightarrow> maxRepeatedStrategyFailures (rq_budget q) \<le> int (length (strategy_failures a q))"

definition recovery_decision_of :: "(string \<Rightarrow> string \<Rightarrow> int) \<Rightarrow> (json \<Rightarrow> string) \<Rightarrow> recovery_action \<Rightarrow> string \<Rightarrow> recovery_request
    \<Rightarrow> recovery_decision reliable" where
  "recovery_decision_of lc digest action reasonCode q =
     and_then (check_identifier (Some (JStr reasonCode)) ''recovery reasonCode'') (\<lambda>_.
     let signature = text_of (own_property (rq_failure q) ''signature'') in
     Inr \<lparr>dec_action = action, dec_reasonCode = reasonCode, dec_failureSignature = signature,
       dec_decisionHash = hash_json lc digest (JObj [(''action'', JStr (action_text action)),
         (''attempts'', JArr (map attempt_value (rq_attempts q))), (''budget'', budget_value (rq_budget q)),
         (''capabilities'', JObj (rq_capabilities q)), (''failureSignature'', JStr signature), (''reasonCode'', JStr reasonCode)])\<rparr>)"

definition chosen_candidate :: "recovery_request \<Rightarrow> recovery_action \<times> string" where
  "chosen_candidate q =
     (case find (\<lambda>(a, reason). \<not> is_exhausted a (rq_budget q) \<and> \<not> repeats_failed_strategy a q) (candidates_for q) of
        Some c \<Rightarrow> c
      | None \<Rightarrow> if failure_is q ''category'' ''CANCELLED'' then (STOP_CANCELLED, ''cancelled'')
                else (CHECKPOINT_AND_BLOCK, ''no_safe_recovery_remaining''))"

definition decide :: "(string \<Rightarrow> string \<Rightarrow> int) \<Rightarrow> (json \<Rightarrow> string) \<Rightarrow> json \<Rightarrow> recovery_decision reliable" where
  "decide lc digest v =
     and_then (normalize_request lc digest v) (\<lambda>q.
     recovery_decision_of lc digest (fst (chosen_candidate q)) (snd (chosen_candidate q)) q)"

end
