(* ===== verification/ReliabilityProperties.thy ===== *)
theory ReliabilityProperties
  imports Reliability
begin

text \<open>
  The properties of failure recovery: what a decision may be, that it does not depend on the order of
  the recorded attempts, and what a classified failure looks like.
\<close>

section \<open>A concrete request\<close>

definition request_value :: "json \<Rightarrow> json list \<Rightarrow> json \<Rightarrow> json \<Rightarrow> json" where
  "request_value failure attempts budget capabilities =
     JObj [(''failure'', failure), (''attempts'', JArr attempts), (''budget'', budget), (''capabilities'', capabilities)]"

definition sample_signature :: string where
  "sample_signature = replicate 64 CHR ''a''"

definition sample_failure :: "(string \<times> json) list" where
  "sample_failure = [(''category'', JStr ''TRANSIENT''), (''retryable'', JBool True), (''sideEffect'', JStr ''NONE'')]"

definition sample_attempt :: "char \<Rightarrow> json" where
  "sample_attempt c = JObj [(''failureSignature'', JStr sample_signature), (''action'', JStr ''TARGETED_RETRY''),
     (''outcome'', JStr ''FAILED''), (''decisionHash'', JStr (replicate 64 c))]"

definition recorded_attempt :: "char \<Rightarrow> recovery_attempt" where
  "recorded_attempt c = \<lparr>at_failureSignature = sample_signature, at_action = TARGETED_RETRY, at_outcome = OutcomeFailed, at_decisionHash = replicate 64 c\<rparr>"

text \<open>A digest of 64 hexadecimal digits that gives the sample failure its signature and tells the two sample attempts apart.\<close>

definition sample_sha :: "json \<Rightarrow> string" where
  "sample_sha j = (if j = locale_canonicalize code_unit_compare (JObj sample_failure) then sample_signature
     else if j = locale_canonicalize code_unit_compare (attempt_value (recorded_attempt CHR ''b'')) then replicate 64 CHR ''b''
     else replicate 64 CHR ''c'')"

definition sample_budget :: json where
  "sample_budget = JObj [(''retriesRemaining'', JNum 3), (''repairsRemaining'', JNum 1), (''alternativePlansRemaining'', JNum 1),
     (''rollbacksRemaining'', JNum 1), (''verifierEscalationsRemaining'', JNum 1), (''modelEscalationsRemaining'', JNum 1),
     (''maxRepeatedStrategyFailures'', JNum 3)]"

definition sample_capabilities :: json where
  "sample_capabilities = JObj [(''contextReduction'', JBool True), (''modelEscalation'', JBool True), (''verifierEscalation'', JBool True)]"

abbreviation sample_request :: "json list \<Rightarrow> json" where
  "sample_request xs \<equiv> request_value (JObj (sample_failure @ [(''signature'', JStr sample_signature)])) xs sample_budget sample_capabilities"

lemma sample_hex [simp]: "sha256_pattern (replicate 64 c) \<longleftrightarrow> hex_char c" "sha256_pattern sample_signature"
  by (simp_all add: sha256_pattern_def list_all_iff sample_signature_def hex_char_def digit_char_def)

lemma hex_letters [simp]: "hex_char CHR ''b''" "hex_char CHR ''c''"
  by (simp_all add: hex_char_def)

lemma sample_order: "code_unit_compare (replicate 64 CHR ''b'') (replicate 64 CHR ''c'') \<le> 0"
  by code_simp

lemma sample_attempts: "hex_char c \<Longrightarrow> normalize_attempt (sample_attempt c) =
    Inr \<lparr>at_failureSignature = sample_signature, at_action = TARGETED_RETRY, at_outcome = OutcomeFailed, at_decisionHash = replicate 64 c\<rparr>"
  by (simp add: normalize_attempt_def sample_attempt_def exact_properties_def js_in_def js_keys_def own_property_def
    named_action_def named_outcome_def recovery_actions_def recovery_outcomes_def)

lemma sample_budget_normal: "normalize_budget sample_budget = Inr \<lparr>retriesRemaining = 3, repairsRemaining = 1, alternativePlansRemaining = 1,
    rollbacksRemaining = 1, verifierEscalationsRemaining = 1, modelEscalationsRemaining = 1, maxRepeatedStrategyFailures = 3\<rparr>"
  by (simp add: normalize_budget_def sample_budget_def exact_properties_def js_in_def js_keys_def own_property_def
    num_is_safe_integer_def num_is_integer_def safe_integer_def max_safe_integer_def)

lemma sample_can: "normalize_capabilities sample_capabilities =
    Inr [(''contextReduction'', JBool True), (''modelEscalation'', JBool True), (''verifierEscalation'', JBool True)]"
  by (simp add: normalize_capabilities_def sample_capabilities_def exact_properties_def js_in_def js_keys_def own_property_def)

lemma sample_decided: "\<exists>d. decide code_unit_compare sample_sha (sample_request [sample_attempt CHR ''b'', sample_attempt CHR ''c'']) = Inr d \<and>
    dec_action d = TARGETED_RETRY"
proof -
  let ?b = "\<lparr>at_failureSignature = sample_signature, at_action = TARGETED_RETRY, at_outcome = OutcomeFailed, at_decisionHash = replicate 64 CHR ''b''\<rparr>"
  let ?c = "\<lparr>at_failureSignature = sample_signature, at_action = TARGETED_RETRY, at_outcome = OutcomeFailed, at_decisionHash = replicate 64 CHR ''c''\<rparr>"
  have attempts: "check_attempts code_unit_compare sample_sha (Some (JArr [sample_attempt CHR ''b'', sample_attempt CHR ''c''])) = Inr [?b, ?c]"
    by (simp add: check_attempts_def sample_attempts by_decision_hash_def sample_order)
  have body: "filter (\<lambda>kv. fst kv \<noteq> ''signature'') (sample_failure @ [(''signature'', JStr sample_signature)]) = sample_failure"
    by (simp add: sample_failure_def)
  have request: "normalize_request code_unit_compare sample_sha (sample_request [sample_attempt CHR ''b'', sample_attempt CHR ''c'']) =
      Inr \<lparr>rq_failure = sample_failure @ [(''signature'', JStr sample_signature)], rq_attempts = [?b, ?c],
        rq_budget = \<lparr>retriesRemaining = 3, repairsRemaining = 1, alternativePlansRemaining = 1,
           rollbacksRemaining = 1, verifierEscalationsRemaining = 1, modelEscalationsRemaining = 1, maxRepeatedStrategyFailures = 3\<rparr>,
        rq_capabilities = [(''contextReduction'', JBool True), (''modelEscalation'', JBool True), (''verifierEscalation'', JBool True)]\<rparr>"
    by (simp add: normalize_request_def request_value_def exact_properties_def js_in_def js_keys_def own_property_def
      attempts sample_budget_normal sample_can body hash_json_def sample_sha_def Let_def del: filter_append)
       (simp add: sample_failure_def own_property_def attempts sample_budget_normal sample_can)
  have "chosen_candidate q = (TARGETED_RETRY, ''retry_typed_transient_failure'')"
    if "normalize_request code_unit_compare sample_sha (sample_request [sample_attempt CHR ''b'', sample_attempt CHR ''c'']) = Inr q" for q
    using that unfolding request
    by (auto simp: chosen_candidate_def candidates_for_def failure_is_def own_property_def sample_failure_def is_exhausted_def
      repeats_failed_strategy_def strategy_failures_def)
  moreover have "identifier_pattern ''retry_typed_transient_failure''"
    by (simp add: identifier_pattern_def identifier_head_def identifier_tail_def lower_char_def)
  ultimately show ?thesis
    by (simp add: decide_def request recovery_decision_of_def Let_def)
qed

section \<open>Candidates\<close>

lemma find_found: "find P xs = Some c \<Longrightarrow> c \<in> set xs \<and> P c"
  by (induction xs) (auto split: if_splits)

lemma chosen_cases:
  obtains "chosen_candidate q \<in> set (candidates_for q)" "\<not> is_exhausted (fst (chosen_candidate q)) (rq_budget q)"
      "\<not> repeats_failed_strategy (fst (chosen_candidate q)) q"
  | "chosen_candidate q = (STOP_CANCELLED, ''cancelled'')" "failure_is q ''category'' ''CANCELLED''"
  | "chosen_candidate q = (CHECKPOINT_AND_BLOCK, ''no_safe_recovery_remaining'')" "\<not> failure_is q ''category'' ''CANCELLED''"
proof (cases "find (\<lambda>(a, reason). \<not> is_exhausted a (rq_budget q) \<and> \<not> repeats_failed_strategy a q) (candidates_for q)")
  case None
  then show ?thesis using that(2,3) by (cases "failure_is q ''category'' ''CANCELLED''") (simp_all add: chosen_candidate_def)
next
  case (Some c)
  then have "chosen_candidate q = c" by (simp add: chosen_candidate_def)
  moreover have "c \<in> set (candidates_for q)" "\<not> is_exhausted (fst c) (rq_budget q)" "\<not> repeats_failed_strategy (fst c) q"
    using find_found [OF Some] by (auto split: prod.splits)
  ultimately show ?thesis using that(1) by simp
qed

lemma failure_is_other: "failure_is q k t \<Longrightarrow> failure_is q k u \<longleftrightarrow> u = t"
  by (auto simp: failure_is_def)

lemma candidates_safe:
  assumes "(a, reason) \<in> set (candidates_for q)"
  shows "(failure_is q ''category'' ''CANCELLED'' \<longleftrightarrow> a = STOP_CANCELLED) \<and>
    (failure_is q ''category'' ''POLICY'' \<or> failure_is q ''category'' ''BUDGET'' \<longrightarrow> a = CHECKPOINT_AND_BLOCK) \<and>
    (failure_is q ''sideEffect'' ''IRREVERSIBLE_OR_UNKNOWN'' \<longrightarrow> a = CHECKPOINT_AND_BLOCK \<or> a = STOP_CANCELLED) \<and>
    (a = ROLLBACK \<longrightarrow> failure_is q ''sideEffect'' ''REVERSIBLE'' \<and> own_property (rq_failure q) ''rollbackEvidenceHash'' \<noteq> None) \<and>
    (a = TARGETED_RETRY \<longrightarrow> truthy (own_property (rq_failure q) ''retryable'') \<and>
       (failure_is q ''category'' ''CONTEXT'' \<or> failure_is q ''category'' ''TRANSIENT'' \<and> \<not> failure_is q ''sideEffect'' ''REVERSIBLE''))"
  using assms
  by (auto simp: candidates_for_def Let_def option_when_def failure_is_other split: if_splits)

lemma decide_Inr:
  assumes "decide lc digest v = Inr d"
  obtains q where "normalize_request lc digest v = Inr q" "dec_action d = fst (chosen_candidate q)"
    "dec_reasonCode d = snd (chosen_candidate q)" "dec_failureSignature d = text_of (own_property (rq_failure q) ''signature'')"
  using assms by (auto simp: decide_def and_then_Inr recovery_decision_of_def Let_def)

text \<open>C33. Recovery is safe: whatever request is decided, a cancelled failure stops, a policy or budget failure blocks,
  and after an irreversible or unknown side effect nothing is done but stop or block. A rollback needs a
  reversible side effect with evidence, a retry a failure marked retryable whose category is transient
  (then not with a reversible side effect) or context. An action is taken only while its budget is
  not used up and it has failed for this failure fewer times than allowed.\<close>

theorem recovery_is_safe:
  assumes "decide lc digest v = Inr d"
  shows "\<exists>q. normalize_request lc digest v = Inr q \<and>
    (failure_is q ''category'' ''CANCELLED'' \<longleftrightarrow> dec_action d = STOP_CANCELLED) \<and>
    (failure_is q ''category'' ''POLICY'' \<or> failure_is q ''category'' ''BUDGET'' \<longrightarrow> dec_action d = CHECKPOINT_AND_BLOCK) \<and>
    (failure_is q ''sideEffect'' ''IRREVERSIBLE_OR_UNKNOWN'' \<longrightarrow> dec_action d = CHECKPOINT_AND_BLOCK \<or> dec_action d = STOP_CANCELLED) \<and>
    (dec_action d = ROLLBACK \<longrightarrow> failure_is q ''sideEffect'' ''REVERSIBLE'' \<and> own_property (rq_failure q) ''rollbackEvidenceHash'' \<noteq> None) \<and>
    (dec_action d = TARGETED_RETRY \<longrightarrow> truthy (own_property (rq_failure q) ''retryable'') \<and>
       (failure_is q ''category'' ''CONTEXT'' \<or> failure_is q ''category'' ''TRANSIENT'' \<and> \<not> failure_is q ''sideEffect'' ''REVERSIBLE'')) \<and>
    (dec_action d \<noteq> CHECKPOINT_AND_BLOCK \<and> dec_action d \<noteq> STOP_CANCELLED \<longrightarrow>
       remaining (dec_action d) (rq_budget q) \<noteq> Some 0 \<and>
       int (length (strategy_failures (dec_action d) q)) < maxRepeatedStrategyFailures (rq_budget q))"
proof -
  from assms obtain q where q: "normalize_request lc digest v = Inr q" "dec_action d = fst (chosen_candidate q)" by (rule decide_Inr)
  show ?thesis
  proof (cases q rule: chosen_cases)
    case 1
    obtain a reason where c: "chosen_candidate q = (a, reason)" by force
    from candidates_safe [of a reason q] 1 c q show ?thesis
      by (intro exI [of _ q]) (auto simp: is_exhausted_def repeats_failed_strategy_def)
  next
    case 2
    with q show ?thesis by (intro exI [of _ q]) (simp add: failure_is_other)
  next
    case 3
    with q show ?thesis by (intro exI [of _ q]) simp
  qed
qed

lemma recovery_is_safe_witness:
  "\<exists>q. normalize_request code_unit_compare sample_sha (sample_request [sample_attempt CHR ''b'', sample_attempt CHR ''c'']) = Inr q \<and>
     truthy (own_property (rq_failure q) ''retryable'') \<and> \<not> failure_is q ''category'' ''CANCELLED'' \<and>
     int (length (strategy_failures TARGETED_RETRY q)) < maxRepeatedStrategyFailures (rq_budget q)"
proof -
  obtain d where d: "decide code_unit_compare sample_sha (sample_request [sample_attempt CHR ''b'', sample_attempt CHR ''c'']) = Inr d"
    "dec_action d = TARGETED_RETRY" using sample_decided by blast
  from recovery_is_safe [OF d(1)] d(2) show ?thesis by auto
qed

section \<open>The order of the attempts\<close>

definition locale_order :: "(string \<Rightarrow> string \<Rightarrow> int) \<Rightarrow> bool" where
  "locale_order lc \<longleftrightarrow> comparator lc \<and> (\<forall>x y. sha256_pattern x \<longrightarrow> sha256_pattern y \<longrightarrow> lc x y = 0 \<longrightarrow> x = y)"

lemma find_hash:
  "find (\<lambda>p. at_decisionHash p = d) m = None \<longleftrightarrow> d \<notin> at_decisionHash ` set m"
  "find (\<lambda>p. at_decisionHash p = d) m = Some p \<Longrightarrow> p \<in> set m \<and> at_decisionHash p = d"
  by (auto simp: find_None_iff find_Some_iff)

lemma replace_same: "inj_on at_decisionHash (set m) \<Longrightarrow> a \<in> set m \<Longrightarrow> map (\<lambda>p. if at_decisionHash p = at_decisionHash a then a else p) m = m"
  by (rule map_idI) (auto simp: inj_on_def)

lemma index_attempts_Inr:
  "inj_on h (set m \<union> set as) \<Longrightarrow> inj_on at_decisionHash (set m) \<Longrightarrow> distinct (map at_decisionHash m) \<Longrightarrow> index_attempts h as m = Inr m' \<Longrightarrow>
    inj_on at_decisionHash (set m \<union> set as) \<and> set m' = set m \<union> set as \<and> distinct (map at_decisionHash m')"
proof (induction as arbitrary: m)
  case (Cons a as)
  show ?case
  proof (cases "find (\<lambda>p. at_decisionHash p = at_decisionHash a) m")
    case None
    have fresh: "at_decisionHash a \<notin> at_decisionHash ` set m" using None find_hash(1) by blast
    have "inj_on at_decisionHash (set (m @ [a]))" "distinct (map at_decisionHash (m @ [a]))"
      using Cons.prems(2,3) fresh by (auto simp: image_iff)
    moreover have "index_attempts h as (m @ [a]) = Inr m'" using Cons.prems(4) None by simp
    ultimately show ?thesis using Cons.IH [of "m @ [a]"] Cons.prems(1) by simp
  next
    case (Some p)
    with Cons.prems(4) have "h p = h a" by (auto simp: reliability_invalid_def split: if_splits)
    moreover have p: "p \<in> set m" using Some find_hash(2) by blast
    ultimately have "p = a" using inj_onD [OF Cons.prems(1), of p a] by simp
    with p have a: "a \<in> set m" by simp
    then show ?thesis using Cons.IH [OF _ Cons.prems(2,3)] Cons.prems(1,4) Some \<open>p = a\<close> replace_same [OF Cons.prems(2) a]
      by (simp add: insert_absorb)
  qed
qed simp

lemma index_attempts_total:
  "inj_on at_decisionHash (set m \<union> set as) \<Longrightarrow> \<exists>m'. index_attempts h as m = Inr m'"
proof (induction as arbitrary: m)
  case (Cons a as)
  show ?case
  proof (cases "find (\<lambda>p. at_decisionHash p = at_decisionHash a) m")
    case None
    then show ?thesis using Cons.IH [of "m @ [a]"] Cons.prems by simp
  next
    case (Some p)
    with find_hash(2) have p: "p \<in> set m" "at_decisionHash p = at_decisionHash a" by blast+
    with Cons.prems have "p = a" by (intro inj_onD [OF Cons.prems]) auto
    moreover have "inj_on at_decisionHash (set m)" using Cons.prems by (rule inj_on_subset) auto
    ultimately show ?thesis
      using Cons.IH [of m] Cons.prems Some p(1) replace_same [of m a] by (simp add: insert_absorb)
  qed
qed simp

lemma traverse_projr:
  "traverse f xs = Inr as \<longleftrightarrow> (\<forall>x \<in> set xs. \<exists>y. f x = Inr y) \<and> as = map (\<lambda>x. projr (f x)) xs"
  by (induction xs arbitrary: as) (auto simp: and_then_Inr)

lemma traverse_mset: "mset xs = mset ys \<Longrightarrow> traverse f xs = Inr as \<Longrightarrow> \<exists>bs. traverse f ys = Inr bs \<and> mset as = mset bs"
  by (auto simp: traverse_projr dest: mset_eq_setD)

lemma sorted_unique:
  assumes "sorted_wrt (\<lambda>a b. cmp a b \<le> 0) xs" and "sorted_wrt (\<lambda>a b. cmp a b \<le> 0) ys" and "mset xs = mset ys"
    and "\<And>a b. a \<in> set xs \<Longrightarrow> b \<in> set xs \<Longrightarrow> cmp a b \<le> (0 :: int) \<Longrightarrow> cmp b a \<le> 0 \<Longrightarrow> a = b"
  shows "xs = ys"
  using assms
proof (induction xs arbitrary: ys)
  case (Cons x xs)
  then obtain y ys' where ys: "ys = y # ys'" by (cases ys) auto
  have "x = y"
  proof (rule ccontr)
    assume ne: "x \<noteq> y"
    have mem: "x \<in> set ys'" "y \<in> set xs"
      using Cons.prems(3) ne ys by (metis list.set_intros(1) set_ConsD mset_eq_setD)+
    then have "cmp x y \<le> 0" "cmp y x \<le> 0" using Cons.prems(1,2) ys by auto
    with Cons.prems(4) [of x y] mem ne show False by simp
  qed
  with Cons.IH [of ys'] Cons.prems ys show ?case by auto
qed simp

lemma normalize_attempt_hash: "normalize_attempt v = Inr a \<Longrightarrow> sha256_pattern (at_decisionHash a)"
proof -
  have sha: "check_sha256 x label = Inr t \<Longrightarrow> sha256_pattern t" for x label t
    by (cases "(x, label)" rule: check_sha256.cases) (auto simp: reliability_invalid_def split: if_splits)
  assume "normalize_attempt v = Inr a"
  then obtain props d where "check_sha256 (own_property props ''decisionHash'') ''attempt decisionHash'' = Inr d" "at_decisionHash a = d"
    by (cases "\<exists>props. object_properties v = Inr props")
       (force simp: normalize_attempt_def and_then_Inr reliability_invalid_def split: option.splits)+
  then show ?thesis using sha by blast
qed

lemma check_attempts_mset:
  assumes "mset xs = mset ys" and inj: "inj_on (\<lambda>a. hash_json lc digest (attempt_value a)) {a. \<exists>x \<in> set xs. normalize_attempt x = Inr a}" and lc: "locale_order lc"
    and "check_attempts lc digest (Some (JArr xs)) = Inr out"
  shows "check_attempts lc digest (Some (JArr ys)) = Inr out"
proof -
  let ?h = "\<lambda>a. hash_json lc digest (attempt_value a)"
  from assms(4) obtain as m where few: "length xs \<le> 100" and as: "traverse normalize_attempt xs = Inr as"
    and m: "index_attempts ?h as [] = Inr m" and out: "out = js_sort (by_decision_hash lc) m"
    by (auto simp: check_attempts_def reliability_invalid_def and_then_Inr not_less split: if_splits)
  from traverse_mset [OF assms(1) as] obtain bs where bs: "traverse normalize_attempt ys = Inr bs" "mset as = mset bs" by blast
  have "set as = {a. \<exists>x \<in> set xs. normalize_attempt x = Inr a}"
    using as unfolding traverse_Inr by (force simp: list_all2_conv_all_nth in_set_conv_nth)
  then have inj_as: "inj_on ?h (set as)" using inj by simp
  note in_m = index_attempts_Inr [of ?h "[]" as m, simplified, OF inj_as m]
  have same: "set bs = set as" using bs(2) by (metis mset_eq_setD)
  with inj_as have inj_bs: "inj_on ?h (set bs)" by simp
  have "inj_on at_decisionHash (set [] \<union> set bs)" using in_m same by simp
  then obtain m' where m': "index_attempts ?h bs [] = Inr m'" using index_attempts_total by blast
  note in_m' = index_attempts_Inr [of ?h "[]" bs m', simplified, OF inj_bs m']
  have "mset m = mset m'"
    using in_m in_m' same by (simp add: set_eq_iff_mset_eq_distinct [symmetric] distinct_map)
  moreover have "sha256_pattern (at_decisionHash a)" if "a \<in> set m" for a
    using that in_m as normalize_attempt_hash by (auto simp: traverse_Inr list_all2_conv_all_nth in_set_conv_nth)
  moreover have "at_decisionHash a = at_decisionHash b \<Longrightarrow> a = b" if "a \<in> set m" "b \<in> set m" for a b
    using that in_m by (auto dest: inj_onD)
  moreover have "sorted_wrt (\<lambda>a b. by_decision_hash lc a b \<le> 0) (js_sort (by_decision_hash lc) n)" for n
    using lc by (intro comparator.sort_sorted) (simp add: locale_order_def comparator_def by_decision_hash_def)
  moreover have "lc x y = 0" if "lc x y \<le> 0" "lc y x \<le> 0" for x y
  proof -
    have "0 < lc y x \<longleftrightarrow> lc x y < 0" using lc unfolding locale_order_def comparator_def by blast
    with that show ?thesis by linarith
  qed
  ultimately have "js_sort (by_decision_hash lc) m = js_sort (by_decision_hash lc) m'"
    using lc by (intro sorted_unique [of "by_decision_hash lc"])
      (auto simp: by_decision_hash_def locale_order_def)
  moreover have "length ys \<le> 100" using few assms(1) by (metis size_mset)
  ultimately show ?thesis using bs m' out by (simp add: check_attempts_def)
qed

text \<open>C34. The order in which past attempts are listed does not matter: two requests that differ in that order alone get the same
  decision, its hash included, or both get none, when the locale order is consistent and the hash has no collision among the
  attempts of the request itself.\<close>

theorem decision_ignores_attempt_order:
  assumes "mset xs = mset ys" and "inj_on (\<lambda>a. hash_json lc digest (attempt_value a)) {a. \<exists>x \<in> set xs. normalize_attempt x = Inr a}" and "locale_order lc"
  shows "decide lc digest (request_value f xs b c) = Inr d \<longleftrightarrow> decide lc digest (request_value f ys b c) = Inr d"
proof -
  have keys: "exact_properties (request_value f zs b c) [''failure'', ''attempts'', ''budget'', ''capabilities''] [] label = Inr
      [(''failure'', f), (''attempts'', JArr zs), (''budget'', b), (''capabilities'', c)]" for zs label
    by (simp add: exact_properties_def request_value_def js_in_def js_keys_def)
  have same: "set ys = set xs" using assms(1) by (metis mset_eq_setD)
  have "check_attempts lc digest (Some (JArr xs)) = Inr out \<longleftrightarrow> check_attempts lc digest (Some (JArr ys)) = Inr out" for out
    using check_attempts_mset [OF assms(1) assms(2,3)] check_attempts_mset [OF assms(1) [symmetric] _ assms(3), unfolded same, OF assms(2)]
    by blast
  moreover have "(if p then reliability_invalid m else r) = Inr x \<longleftrightarrow> \<not> p \<and> r = Inr x" for p m r x
    by (simp add: reliability_invalid_def)
  ultimately show ?thesis
    by (simp add: decide_def normalize_request_def keys Let_def and_then_Inr own_property_def)
qed

lemma sample_attempts_differ:
  "inj_on (\<lambda>a. hash_json code_unit_compare sample_sha (attempt_value a)) {recorded_attempt CHR ''b'', recorded_attempt CHR ''c''}"
proof -
  have "hash_json code_unit_compare sample_sha (attempt_value (recorded_attempt CHR ''b'')) = replicate 64 CHR ''b''"
    "hash_json code_unit_compare sample_sha (attempt_value (recorded_attempt CHR ''c'')) = replicate 64 CHR ''c''"
    by (simp_all add: hash_json_def sample_sha_def attempt_value_def recorded_attempt_def sample_failure_def from_entries_def
      array_index_name_def digit_char_def)
  then show ?thesis by (auto simp: inj_on_def)
qed

lemma decision_ignores_attempt_order_witness:
  "\<exists>d. decide code_unit_compare sample_sha (sample_request [sample_attempt CHR ''b'', sample_attempt CHR ''c'']) = Inr d \<and>
     decide code_unit_compare sample_sha (sample_request [sample_attempt CHR ''c'', sample_attempt CHR ''b'']) = Inr d"
proof -
  have known: "{a. \<exists>x \<in> set [sample_attempt CHR ''b'', sample_attempt CHR ''c'']. normalize_attempt x = Inr a} =
      {recorded_attempt CHR ''b'', recorded_attempt CHR ''c''}"
    by (auto simp: sample_attempts recorded_attempt_def)
  have "locale_order code_unit_compare" by (simp add: locale_order_def code_units.comparator_axioms)
  from decision_ignores_attempt_order [where xs = "[sample_attempt CHR ''b'', sample_attempt CHR ''c'']" and
      ys = "[sample_attempt CHR ''c'', sample_attempt CHR ''b'']", OF _ sample_attempts_differ [folded known] this] sample_decided
  show ?thesis by (auto simp: add_mset_commute)
qed

section \<open>Classification\<close>

lemma check_Inr:
  "check_identifier v label = Inr t \<longleftrightarrow> v = Some (JStr t) \<and> identifier_pattern t"
  "check_sha256 v label = Inr t \<longleftrightarrow> v = Some (JStr t) \<and> sha256_pattern t"
  "boolean_value v label = Inr b \<longleftrightarrow> v = Some (JBool b)"
  "member_text v allowed label = Inr t \<longleftrightarrow> v = Some (JStr t) \<and> t \<in> set allowed"
  "optional_sha256 v label = Inr o' \<longleftrightarrow> v = map_option JStr o' \<and> (\<forall>t. o' = Some t \<longrightarrow> sha256_pattern t)"
proof -
  show 1: "check_sha256 v label = Inr t \<longleftrightarrow> v = Some (JStr t) \<and> sha256_pattern t" for v t label
    by (cases "(v, label)" rule: check_sha256.cases) (auto simp: reliability_invalid_def)
  show "check_identifier v label = Inr t \<longleftrightarrow> v = Some (JStr t) \<and> identifier_pattern t"
    by (cases "(v, label)" rule: check_identifier.cases) (auto simp: reliability_invalid_def)
  show "boolean_value v label = Inr b \<longleftrightarrow> v = Some (JBool b)"
    by (cases "(v, label)" rule: boolean_value.cases) (auto simp: reliability_invalid_def)
  show "member_text v allowed label = Inr t \<longleftrightarrow> v = Some (JStr t) \<and> t \<in> set allowed"
    by (cases "(v, allowed, label)" rule: member_text.cases) (auto simp: reliability_invalid_def)
  show "optional_sha256 v label = Inr o' \<longleftrightarrow> v = map_option JStr o' \<and> (\<forall>t. o' = Some t \<longrightarrow> sha256_pattern t)"
    by (cases v; cases o') (auto simp: 1 and_then_Inr)
qed

lemma signed_failure_fields:
  assumes "body = failure_body category contradictory evidence independently m phase reason retryable rollback sideEffect source task"
  shows "own_property (signed_failure lc digest body) k =
    (if k = ''category'' then Some category else if k = ''contradictoryEvidence'' then Some (JBool contradictory)
     else if k = ''evidenceHash'' then map_option JStr evidence else if k = ''independentEvidence'' then Some (JBool independently)
     else if k = ''missionId'' then Some (JStr m) else if k = ''phase'' then Some (JStr phase) else if k = ''reasonCode'' then Some (JStr reason)
     else if k = ''retryable'' then Some (JBool retryable) else if k = ''rollbackEvidenceHash'' then map_option JStr rollback
     else if k = ''sideEffect'' then Some (JStr sideEffect) else if k = ''source'' then Some (JStr source)
     else if k = ''taskId'' then Some (JStr task) else if k = ''signature'' then Some (JStr (hash_json lc digest (JObj body))) else None)"
    "distinct (map fst (signed_failure lc digest body))" "filter (\<lambda>kv. fst kv \<noteq> ''signature'') (signed_failure lc digest body) = body"
  using assms by (cases evidence; cases rollback; simp add: signed_failure_def failure_body_def optional_field_def own_property_def)+

lemma nat_text_digits: "c \<in> set (nat_text n) \<Longrightarrow> digit_char c"
  by (induction n rule: nat_text.induct) (subst (asm) nat_text.simps, auto simp: digit_char_def split: if_splits)

lemma array_has_no_name: "c \<in> set k \<Longrightarrow> \<not> digit_char c \<Longrightarrow> object_properties (JArr xs) = Inr props \<Longrightarrow> own_property props k = None"
  by (auto simp: own_property_def map_of_eq_None_iff dest!: set_zip_leftD nat_text_digits)

lemma classified_category:
  assumes "category_value (classify_category source reason contradictory) reason = Inr category"
  shows "category = (if contradictory then JStr ''VERIFICATION'' else if reason = ''__proto__'' then JObj []
    else case category_by_reason reason of
        Some k \<Rightarrow> JStr (category_text k)
      | None \<Rightarrow> JStr (if source = ''verification'' then ''VERIFICATION'' else if source = ''planner'' then ''PLAN''
          else if source = ''tool'' \<or> source = ''sandbox'' then ''EXECUTION'' else if source = ''persistence'' then ''CONFLICT'' else ''UNKNOWN''))"
proof (cases contradictory)
  case True
  then show ?thesis using assms by (simp add: category_value_def classify_category_def)
next
  case False
  have "category_by_reason ''__proto__'' = None" "''__proto__'' \<in> set object_prototype_keys"
    by (simp_all add: category_by_reason_def object_prototype_keys_def)
  then have proto: "js_get category_by_reason ''__proto__'' = Inherited" by (simp add: js_get_def)
  show ?thesis
  proof (cases "js_get category_by_reason reason")
    case (Own k)
    then have "category_by_reason reason = Some k" by (simp add: js_get_Own)
    moreover have "reason \<noteq> ''__proto__''" using Own proto by force
    ultimately show ?thesis using assms False Own by (simp add: category_value_def classify_category_def)
  next
    case Inherited
    then have "reason = ''__proto__''" using assms False
      by (simp add: category_value_def classify_category_def reliability_invalid_def split: if_splits)
    then show ?thesis using assms False proto by (simp add: category_value_def classify_category_def)
  next
    case Absent
    then have "category_by_reason reason = None" by (simp add: js_get_def split: option.splits if_splits)
    moreover have "reason \<noteq> ''__proto__''" using Absent proto by force
    ultimately show ?thesis using assms False Absent unfolding category_value_def classify_category_def
      by (auto split: if_splits)
  qed
qed

text \<open>C35. A classified failure is well formed: besides its category and its signature it has exactly the fields of the
  signal, with their values. These are identifiers, a known source and side effect, booleans and digests, independent evidence
  has a hash, contradictory evidence is independent, and rollback evidence occurs only with a reversible side effect. The
  category is a verification failure for contradictory evidence, else what the table says of the reason, else
  what the source is; a reason \<open>__proto__\<close> that does not contradict evidence gets an empty object instead. The signature is
  the hash of all other fields.\<close>

theorem classified_failure_is_well_formed:
  assumes "classify_failure lc digest signal = Inr f"
  shows "\<exists>props reason source contradictory. signal = JObj props \<and> own_property props ''reasonCode'' = Some (JStr reason) \<and>
    own_property props ''source'' = Some (JStr source) \<and> own_property props ''contradictoryEvidence'' = Some (JBool contradictory) \<and>
    distinct (map fst f) \<and> (\<forall>k. k \<noteq> ''category'' \<longrightarrow> k \<noteq> ''signature'' \<longrightarrow> own_property f k = own_property props k) \<and>
    own_property f ''category'' = Some (if contradictory then JStr ''VERIFICATION'' else if reason = ''__proto__'' then JObj []
      else case category_by_reason reason of
          Some k \<Rightarrow> JStr (category_text k)
        | None \<Rightarrow> JStr (if source = ''verification'' then ''VERIFICATION'' else if source = ''planner'' then ''PLAN''
            else if source = ''tool'' \<or> source = ''sandbox'' then ''EXECUTION'' else if source = ''persistence'' then ''CONFLICT'' else ''UNKNOWN'')) \<and>
    own_property f ''signature'' = Some (JStr (hash_json lc digest (JObj (filter (\<lambda>kv. fst kv \<noteq> ''signature'') f)))) \<and>
    (\<forall>k \<in> {''missionId'', ''taskId'', ''phase'', ''reasonCode''}. \<exists>t. own_property props k = Some (JStr t) \<and> identifier_pattern t) \<and>
    source \<in> set failure_sources \<and> (\<exists>t \<in> set side_effects. own_property props ''sideEffect'' = Some (JStr t)) \<and>
    (\<exists>b. own_property props ''retryable'' = Some (JBool b)) \<and> (\<exists>b. own_property props ''independentEvidence'' = Some (JBool b)) \<and>
    (\<forall>k \<in> {''evidenceHash'', ''rollbackEvidenceHash''}. \<forall>v. own_property props k = Some v \<longrightarrow> (\<exists>t. v = JStr t \<and> sha256_pattern t)) \<and>
    (own_property props ''independentEvidence'' = Some (JBool True) \<longrightarrow> own_property props ''evidenceHash'' \<noteq> None) \<and>
    (contradictory \<longrightarrow> own_property props ''independentEvidence'' = Some (JBool True)) \<and>
    (own_property props ''rollbackEvidenceHash'' \<noteq> None \<longrightarrow> own_property props ''sideEffect'' = Some (JStr ''REVERSIBLE''))"
proof -
  from assms obtain props m task phase reason source sideEffect retryable independently contradictory evidence rollback category where
    keys: "exact_properties signal [''missionId'', ''taskId'', ''source'', ''phase'', ''reasonCode'', ''retryable'',
        ''sideEffect'', ''independentEvidence'', ''contradictoryEvidence''] [''evidenceHash'', ''rollbackEvidenceHash''] ''failure signal'' = Inr props" and
    texts: "own_property props ''missionId'' = Some (JStr m)" "own_property props ''taskId'' = Some (JStr task)" "own_property props ''phase'' = Some (JStr phase)"
      "own_property props ''reasonCode'' = Some (JStr reason)" "own_property props ''source'' = Some (JStr source)"
      "own_property props ''sideEffect'' = Some (JStr sideEffect)" "identifier_pattern m" "identifier_pattern task" "identifier_pattern phase"
      "identifier_pattern reason" "source \<in> set failure_sources" "sideEffect \<in> set side_effects" and
    flags: "own_property props ''retryable'' = Some (JBool retryable)" "own_property props ''independentEvidence'' = Some (JBool independently)"
      "own_property props ''contradictoryEvidence'' = Some (JBool contradictory)" "own_property props ''evidenceHash'' = map_option JStr evidence"
      "own_property props ''rollbackEvidenceHash'' = map_option JStr rollback" "\<forall>t. evidence = Some t \<longrightarrow> sha256_pattern t"
      "\<forall>t. rollback = Some t \<longrightarrow> sha256_pattern t" and
    rules: "independently \<longrightarrow> evidence \<noteq> None" "contradictory \<longrightarrow> independently" "rollback \<noteq> None \<longrightarrow> sideEffect = ''REVERSIBLE''" and
    category: "category_value (classify_category source reason contradictory) reason = Inr category" and
    f: "f = signed_failure lc digest (failure_body category contradictory evidence independently m phase reason retryable rollback sideEffect source task)"
    unfolding classify_failure_def and_then_Inr check_Inr ensure_Inr by blast
  have object: "object_properties signal = Inr props" and
    known: "\<And>k. k \<in> fst ` set props \<Longrightarrow> k \<in> set [''missionId'', ''taskId'', ''source'', ''phase'', ''reasonCode'', ''retryable'',
        ''sideEffect'', ''independentEvidence'', ''contradictoryEvidence'', ''evidenceHash'', ''rollbackEvidenceHash'']"
    using keys unfolding exact_properties_def and_then_Inr for_each_Inr ensure_Inr js_keys_def by auto
  have signal: "signal = JObj props"
  proof (cases signal)
    case (JArr xs)
    have "\<not> digit_char CHR ''m''" by (simp add: digit_char_def)
    then have "own_property props ''missionId'' = None" using array_has_no_name [of "CHR ''m''" "''missionId''" xs props] object JArr by simp
    then show ?thesis using texts(1) by simp
  qed (use object in simp_all)
  note fields = signed_failure_fields [OF refl, of lc digest category contradictory evidence independently m phase reason retryable rollback sideEffect source task,
      folded f]
  have others: "own_property f k = own_property props k" if "k \<noteq> ''category''" "k \<noteq> ''signature''" for k
  proof (cases "k \<in> fst ` set props")
    case True
    from known [OF True] show ?thesis using that texts flags by (auto simp: fields(1))
  next
    case False
    then have none: "own_property props k = None" by (simp add: own_property_def map_of_eq_None_iff)
    show ?thesis
    proof (cases "k \<in> set [''missionId'', ''taskId'', ''source'', ''phase'', ''reasonCode'', ''retryable'',
        ''sideEffect'', ''independentEvidence'', ''contradictoryEvidence'', ''evidenceHash'', ''rollbackEvidenceHash'']")
      case True
      then show ?thesis using that texts flags by (auto simp: fields(1))
    next
      case False
      then show ?thesis using that none by (simp add: fields(1))
    qed
  qed
  have kind: "own_property f ''category'' = Some category" by (simp add: fields(1))
  have signed: "own_property f ''signature'' = Some (JStr (hash_json lc digest (JObj (filter (\<lambda>kv. fst kv \<noteq> ''signature'') f))))"
    unfolding fields(3) by (simp add: fields(1))
  have hashes: "\<forall>k \<in> {''evidenceHash'', ''rollbackEvidenceHash''}. \<forall>v. own_property props k = Some v \<longrightarrow> (\<exists>t. v = JStr t \<and> sha256_pattern t)"
    using flags by auto
  have "independently \<longrightarrow> own_property props ''evidenceHash'' \<noteq> None" "own_property props ''rollbackEvidenceHash'' \<noteq> None \<longrightarrow> rollback \<noteq> None"
    using flags rules by auto
  then show ?thesis
    by - (rule exI [of _ props], rule exI [of _ reason], rule exI [of _ source], rule exI [of _ contradictory],
      unfold classified_category [OF category, symmetric],
      use signal texts flags(1-3) rules others fields(2) kind signed hashes in \<open>simp del: not_None_eq\<close>)
qed

definition sample_signal :: "string \<Rightarrow> json" where
  "sample_signal reason = JObj [(''missionId'', JStr ''m''), (''taskId'', JStr ''t''), (''source'', JStr ''tool''), (''phase'', JStr ''run''),
     (''reasonCode'', JStr reason), (''retryable'', JBool False), (''sideEffect'', JStr ''NONE''),
     (''independentEvidence'', JBool False), (''contradictoryEvidence'', JBool False)]"

lemma classify_sample:
  assumes "identifier_pattern reason"
  shows "classify_failure lc digest (sample_signal reason) =
    and_then (category_value (classify_category ''tool'' reason False) reason) (\<lambda>category.
      Inr (signed_failure lc digest (failure_body category False None False ''m'' ''run'' reason False None ''NONE'' ''tool'' ''t'')))"
  using assms
  by (simp add: classify_failure_def sample_signal_def exact_properties_def js_in_def js_keys_def own_property_def failure_sources_def
    side_effects_def identifier_pattern_def identifier_head_def identifier_tail_def lower_char_def)

lemma classified_failure_is_well_formed_witness:
  "\<exists>f. classify_failure code_unit_compare sample_sha (sample_signal ''crashed'') = Inr f \<and> own_property f ''category'' = Some (JStr ''EXECUTION'') \<and>
     own_property f ''missionId'' = Some (JStr ''m'') \<and> own_property f ''taskId'' = Some (JStr ''t'') \<and> own_property f ''retryable'' = Some (JBool False)"
proof -
  have "identifier_pattern ''crashed''"
    by (simp add: identifier_pattern_def identifier_head_def identifier_tail_def lower_char_def)
  then obtain f where f: "classify_failure code_unit_compare sample_sha (sample_signal ''crashed'') = Inr f"
    by (auto simp: classify_sample category_value_def classify_category_def js_get_def category_by_reason_def
      object_prototype_keys_def)
  have unknown: "category_by_reason ''crashed'' = None" by (simp add: category_by_reason_def)
  from classified_failure_is_well_formed [OF f] obtain props reason source contradictory where
    signal: "sample_signal ''crashed'' = JObj props" "own_property props ''reasonCode'' = Some (JStr reason)" "own_property props ''source'' = Some (JStr source)"
      "own_property props ''contradictoryEvidence'' = Some (JBool contradictory)" and
    others: "\<forall>k. k \<noteq> ''category'' \<longrightarrow> k \<noteq> ''signature'' \<longrightarrow> own_property f k = own_property props k" and
    category: "own_property f ''category'' = Some (if contradictory then JStr ''VERIFICATION'' else if reason = ''__proto__'' then JObj []
      else case category_by_reason reason of
          Some k \<Rightarrow> JStr (category_text k)
        | None \<Rightarrow> JStr (if source = ''verification'' then ''VERIFICATION'' else if source = ''planner'' then ''PLAN''
            else if source = ''tool'' \<or> source = ''sandbox'' then ''EXECUTION'' else if source = ''persistence'' then ''CONFLICT'' else ''UNKNOWN''))"
    by (elim exE conjE) (rule that)
  have props: "props = (case sample_signal ''crashed'' of JObj ps \<Rightarrow> ps)" using signal(1) by simp
  have "reason = ''crashed''" "source = ''tool''" "\<not> contradictory"
    using signal(2-4) by (simp_all add: props sample_signal_def own_property_def)
  with category unknown have "own_property f ''category'' = Some (JStr ''EXECUTION'')" by simp
  moreover have "own_property f ''missionId'' = Some (JStr ''m'')" "own_property f ''taskId'' = Some (JStr ''t'')"
    "own_property f ''retryable'' = Some (JBool False)"
    using others by (simp_all add: props sample_signal_def own_property_def)
  ultimately show ?thesis using f by blast
qed

text \<open>A reason code named like a member of \<open>Object.prototype\<close> is not looked up as a reason: \<open>constructor\<close> makes the
  classification throw and \<open>__proto__\<close> yields a failure whose category is an empty object, where any
  other unknown reason from a tool is an execution failure.\<close>

theorem inherited_reason_is_not_unknown:
  "classify_failure lc digest (sample_signal ''constructor'') = Inl (InvalidInput ''Reliability data contains an unsupported value.'') \<and>
   (\<exists>f. classify_failure lc digest (sample_signal ''__proto__'') = Inr f \<and> own_property f ''category'' = Some (JObj [])) \<and>
   (\<exists>f. classify_failure lc digest (sample_signal ''crashed'') = Inr f \<and> own_property f ''category'' = Some (JStr ''EXECUTION''))"
proof -
  have "identifier_pattern ''constructor''" "identifier_pattern ''__proto__''" "identifier_pattern ''crashed''"
    by (simp_all add: identifier_pattern_def identifier_head_def identifier_tail_def lower_char_def)
  then show ?thesis
    by (simp add: classify_sample category_value_def classify_category_def js_get_def category_by_reason_def
      object_prototype_keys_def reliability_invalid_def own_property_def signed_failure_def failure_body_def)
qed

end
