(* ===== verification/Coordination.thy ===== *)
theory Coordination
  imports Mission Json IsoTime
begin

text \<open>
  What the coordination of specialists shares (\<open>src/coordination/internal.ts\<close>, \<open>ownership.ts\<close>, \<open>types.ts\<close>):
  the checks, the stable hash, ownership claims with their conflicts, and the records of leases,
  assignments and plans with the JSON values that are hashed. \<open>lc\<close> is \<open>localeCompare\<close> and \<open>digest\<close> the
  SHA-256 of the JSON text of a canonical value. What callers and workers hand over untyped is \<open>json\<close>.
\<close>

datatype coordination_error = CoordinationTypeError string | CoordinationError string

type_synonym 'a coordinated = "(coordination_error, 'a) result"

definition coordination_type_error :: "string \<Rightarrow> 'a coordinated" where
  "coordination_type_error message = Inl (CoordinationTypeError message)"

definition quoted :: "string \<Rightarrow> string" where
  "quoted s = CHR 0x27 # s @ [CHR 0x27]"

section \<open>Checks\<close>

definition coordination_text :: "json option \<Rightarrow> string \<Rightarrow> nat \<Rightarrow> string coordinated" where
  "coordination_text v name maximum =
     (case v of
        Some (JStr s) \<Rightarrow>
          if blank s \<or> maximum < length s
          then coordination_type_error (name @ '' must contain 1-'' @ nat_text maximum @ '' characters.'')
          else Inr s
      | _ \<Rightarrow> coordination_type_error (name @ '' must contain 1-'' @ nat_text maximum @ '' characters.''))"

text \<open>\<open>/^[a-zA-Z0-9][a-zA-Z0-9._:@/-]*$/u\<close>.\<close>

definition coordination_head :: "char \<Rightarrow> bool" where
  "coordination_head c \<longleftrightarrow> lower_char c \<or> upper_char c \<or> digit_char c"

definition coordination_pattern :: "string \<Rightarrow> bool" where
  "coordination_pattern s \<longleftrightarrow> s \<noteq> [] \<and> coordination_head (hd s) \<and>
     list_all (\<lambda>c. coordination_head c \<or> c \<in> set ''._:@/-'') (tl s)"

fun has_double_dot :: "string \<Rightarrow> bool" where
  "has_double_dot (a # b # s) = (a = CHR ''.'' \<and> b = CHR ''.'' \<or> has_double_dot (b # s))"
| "has_double_dot s = False"

definition coordination_identifier :: "json option \<Rightarrow> string \<Rightarrow> string coordinated" where
  "coordination_identifier v name =
     and_then (coordination_text v name 200) (\<lambda>s.
     if \<not> coordination_pattern s \<or> has_double_dot s
     then coordination_type_error (name @ '' contains unsupported characters.'') else Inr s)"

text \<open>\<open>/^[a-z][a-z0-9_]{0,63}$/u\<close>.\<close>

definition token_pattern :: "string \<Rightarrow> bool" where
  "token_pattern s \<longleftrightarrow> s \<noteq> [] \<and> lower_char (hd s) \<and>
     list_all (\<lambda>c. lower_char c \<or> digit_char c \<or> c = CHR ''_'') (tl s) \<and> length (tl s) \<le> 63"

definition coordination_token :: "json option \<Rightarrow> string \<Rightarrow> string coordinated" where
  "coordination_token v name =
     (case v of
        Some (JStr s) \<Rightarrow>
          if token_pattern s then Inr s else coordination_type_error (name @ '' must be a lowercase capability token.'')
      | _ \<Rightarrow> coordination_type_error (name @ '' must be a lowercase capability token.''))"

definition coordination_sha256 :: "json option \<Rightarrow> string \<Rightarrow> string coordinated" where
  "coordination_sha256 v name =
     (case v of
        Some (JStr s) \<Rightarrow>
          if sha256_pattern s then Inr s else coordination_type_error (name @ '' must be a lowercase SHA-256 digest.'')
      | _ \<Rightarrow> coordination_type_error (name @ '' must be a lowercase SHA-256 digest.''))"

text \<open>
  \<open>/^\d{4}-\d{2}-\d{2}T\d{2}:\d{2}:\d{2}\.\d{3}Z$/u\<close> and \<open>Date.parse\<close> of such a text. A field out of its range
  gives \<open>NaN\<close> there and some instant here; either way writing it back does not give the text.
\<close>

definition timestamp_pattern :: "string \<Rightarrow> bool" where
  "timestamp_pattern s \<longleftrightarrow> list_all2 (\<lambda>p c. if p = CHR ''d'' then digit_char c else c = p) ''dddd-dd-ddTdd:dd:dd.dddZ'' s"

definition civil_days :: "nat \<Rightarrow> nat \<Rightarrow> nat \<Rightarrow> int" where
  "civil_days y m d = 365 * int y + int ((y + 3) div 4) - int ((y + 99) div 100) + int ((y + 399) div 400)
     + int (sum_list (take (m - 1) (month_lengths y))) + int d - 1 - 719528"

definition field :: "nat \<Rightarrow> nat \<Rightarrow> string \<Rightarrow> nat" where
  "field start len s = digits_value (take len (drop start s))"

definition parse_timestamp :: "string \<Rightarrow> int" where
  "parse_timestamp s = 86400000 * civil_days (field 0 4 s) (field 5 2 s) (field 8 2 s)
     + 3600000 * int (field 11 2 s) + 60000 * int (field 14 2 s) + 1000 * int (field 17 2 s) + int (field 20 3 s)"

definition canonical_timestamp :: "string \<Rightarrow> string \<Rightarrow> int coordinated" where
  "canonical_timestamp s name =
     (if \<not> timestamp_pattern s then coordination_type_error (name @ '' must be a canonical UTC timestamp.'')
      else if iso_text (parse_timestamp s) \<noteq> s
        then coordination_type_error (name @ '' must be a valid canonical UTC timestamp.'')
      else Inr (parse_timestamp s))"

definition max_collection_items :: nat where
  "max_collection_items = 128"

definition limited_to :: "string \<Rightarrow> string" where
  "limited_to name = name @ '' is limited to '' @ nat_text max_collection_items @ '' entries.''"

definition normalize_unique_tokens :: "json list \<Rightarrow> string \<Rightarrow> string list coordinated" where
  "normalize_unique_tokens vs name =
     (if vs = [] \<or> max_collection_items < length vs
      then coordination_type_error (name @ '' must contain 1-'' @ nat_text max_collection_items @ '' entries.'')
      else and_then (traverse (\<lambda>v. coordination_token (Some v) name) vs) (\<lambda>tokens.
        if \<not> distinct tokens then coordination_type_error (name @ '' must not contain duplicates.'')
        else Inr (js_sort code_unit_compare tokens)))"

primrec split_on :: "char \<Rightarrow> string \<Rightarrow> string list" where
  "split_on d [] = [[]]"
| "split_on d (c # s) = (if c = d then [] # split_on d s else (c # hd (split_on d s)) # tl (split_on d s))"

definition relative_path :: "string \<Rightarrow> bool" where
  "relative_path s \<longleftrightarrow> \<not> (starts_with s ''/'' \<or> CHR 0x5C \<in> set s \<or> CHR 0x00 \<in> set s \<or>
     (s \<noteq> [] \<and> last s = CHR ''/'') \<or> list_ex (\<lambda>segment. segment \<in> {'''', ''.'', ''..''}) (split_on CHR ''/'' s))"

definition normalize_repository_path :: "json option \<Rightarrow> string \<Rightarrow> string coordinated" where
  "normalize_repository_path v name =
     and_then (coordination_text v name 1000) (\<lambda>s.
     if \<not> relative_path s then coordination_type_error (name @ '' must be a normalized workspace-relative path.'')
     else Inr s)"

definition coordination_hash :: "(json \<Rightarrow> string) \<Rightarrow> json \<Rightarrow> string" where
  "coordination_hash digest v = digest (canonicalize v)"

text \<open>\<open>Object.keys(value).sort()\<close> compared with the expected names.\<close>

definition exactly_keys :: "(string \<times> json) list \<Rightarrow> string list \<Rightarrow> bool" where
  "exactly_keys props ks \<longleftrightarrow> js_sort code_unit_compare (js_keys props) = js_sort code_unit_compare ks"

section \<open>Ownership claims\<close>

datatype ownership_namespace = Repository | Resource | StateNamespace
datatype ownership_access = ReadAccess | WriteAccess

primrec namespace_text :: "ownership_namespace \<Rightarrow> string" where
  "namespace_text Repository = ''repository''"
| "namespace_text Resource = ''resource''"
| "namespace_text StateNamespace = ''state''"

primrec access_text :: "ownership_access \<Rightarrow> string" where
  "access_text ReadAccess = ''read''"
| "access_text WriteAccess = ''write''"

record ownership_claim =
  claim_namespace :: ownership_namespace
  claim_key :: string
  claim_access :: ownership_access

definition named_namespace :: "json option \<Rightarrow> ownership_namespace option" where
  "named_namespace v = find (\<lambda>n. v = Some (JStr (namespace_text n))) [Repository, Resource, StateNamespace]"

definition named_access :: "json option \<Rightarrow> ownership_access option" where
  "named_access v = find (\<lambda>a. v = Some (JStr (access_text a))) [ReadAccess, WriteAccess]"

definition normalize_ownership_key :: "ownership_namespace \<Rightarrow> string \<Rightarrow> string \<Rightarrow> string coordinated" where
  "normalize_ownership_key ns s name =
     (if ns = Repository then normalize_repository_path (Some (JStr s)) name
      else and_then (coordination_text (Some (JStr s)) name 1000) (\<lambda>_. coordination_identifier (Some (JStr s)) name))"

definition normalize_claim :: "string \<Rightarrow> nat \<Rightarrow> json \<Rightarrow> ownership_claim coordinated" where
  "normalize_claim base i v =
     (let name = base @ ''['' @ nat_text i @ '']'' in
      case v of
        JObj props \<Rightarrow>
          if \<not> exactly_keys props [''access'', ''key'', ''namespace'']
          then coordination_type_error (name @ '' contains missing or unsupported fields.'')
          else (case named_namespace (own_property props ''namespace'') of
              None \<Rightarrow> coordination_type_error (name @ ''.namespace is not supported.'')
            | Some ns \<Rightarrow>
                (case named_access (own_property props ''access'') of
                   None \<Rightarrow> coordination_type_error (name @ ''.access is not supported.'')
                 | Some access \<Rightarrow>
                     (case own_property props ''key'' of
                        Some (JStr raw) \<Rightarrow>
                          and_then (normalize_ownership_key ns raw (name @ ''.key'')) (\<lambda>key.
                          Inr \<lparr>claim_namespace = ns, claim_key = key, claim_access = access\<rparr>)
                      | _ \<Rightarrow> coordination_type_error (name @ ''.key must be a string.''))))
      | _ \<Rightarrow> coordination_type_error (name @ '' must be an object.''))"

definition compare_claims :: "(string \<Rightarrow> string \<Rightarrow> int) \<Rightarrow> ownership_claim \<Rightarrow> ownership_claim \<Rightarrow> int" where
  "compare_claims lc a b =
     (let ns = lc (namespace_text (claim_namespace a)) (namespace_text (claim_namespace b));
          key = lc (claim_key a) (claim_key b) in
      if ns \<noteq> 0 then ns else if key \<noteq> 0 then key else lc (access_text (claim_access a)) (access_text (claim_access b)))"

fun adjacent_duplicate :: "'a list \<Rightarrow> bool" where
  "adjacent_duplicate (a # b # xs) = (a = b \<or> adjacent_duplicate (b # xs))"
| "adjacent_duplicate xs = False"

definition normalize_ownership_claims :: "(string \<Rightarrow> string \<Rightarrow> int) \<Rightarrow> json option \<Rightarrow> string \<Rightarrow> ownership_claim list coordinated" where
  "normalize_ownership_claims lc v name =
     (case v of
        Some (JArr vs) \<Rightarrow>
          if max_collection_items < length vs then coordination_type_error (limited_to name)
          else and_then (traverse (\<lambda>(i, c). normalize_claim name i c) (enumerate 0 vs)) (\<lambda>claims.
            let sorted = js_sort (compare_claims lc) claims in
            if adjacent_duplicate sorted then coordination_type_error (name @ '' must not contain duplicate claims.'')
            else Inr sorted)
      | _ \<Rightarrow> coordination_type_error (limited_to name))"

definition repository_keys_intersect :: "string \<Rightarrow> string \<Rightarrow> bool" where
  "repository_keys_intersect l r \<longleftrightarrow> l = r \<or> starts_with l (r @ ''/'') \<or> starts_with r (l @ ''/'')"

definition claims_conflict :: "ownership_claim \<Rightarrow> ownership_claim \<Rightarrow> bool" where
  "claims_conflict l r \<longleftrightarrow>
     (if claim_namespace l \<noteq> claim_namespace r then False
      else if claim_access l = ReadAccess \<and> claim_access r = ReadAccess then False
      else if claim_namespace l = Repository then repository_keys_intersect (claim_key l) (claim_key r)
      else claim_key l = claim_key r)"

definition path_is_owned_for_write :: "string \<Rightarrow> ownership_claim list \<Rightarrow> bool coordinated" where
  "path_is_owned_for_write path claims =
     and_then (normalize_repository_path (Some (JStr path)) ''filesChanged'') (\<lambda>normalized.
     Inr (list_ex (\<lambda>c. claim_namespace c = Repository \<and> claim_access c = WriteAccess \<and>
       (claim_key c = normalized \<or> starts_with normalized (claim_key c @ ''/''))) claims))"

section \<open>Leases, assignments and plans\<close>

record context_package =
  ctx_missionId :: string
  ctx_taskId :: string
  ctx_resultHash :: string
  ctx_sourceFingerprint :: string
  ctx_selectedIds :: "string list"

record task_spec =
  spec_taskId :: string
  spec_goal :: string
  spec_role :: string
  spec_requiredCapabilities :: "string list"
  spec_ownership :: "ownership_claim list"
  spec_context :: context_package

record ownership_lease =
  lease_id :: string
  lease_generation :: int
  lease_missionId :: string
  lease_taskId :: string
  lease_specialistId :: string
  lease_specialistVersion :: string
  lease_issuedAt :: string
  lease_expiresAt :: string
  lease_claims :: "ownership_claim list"

record specialist_assignment =
  as_id :: string
  as_missionId :: string
  as_missionVersion :: int
  as_taskId :: string
  as_title :: string
  as_goal :: string
  as_role :: string
  as_requiredCapabilities :: "string list"
  as_context :: context_package
  as_lease :: ownership_lease
  as_assignmentHash :: string

datatype deferral_reason = BatchLimit | DependencyBlocked | MissingSpecialist | MissingSpec | OwnershipConflict
  | RuntimeCapacity | TaskAlreadyLeased | SpecialistCapacity

primrec deferral_text :: "deferral_reason \<Rightarrow> string" where
  "deferral_text BatchLimit = ''batch_limit''"
| "deferral_text DependencyBlocked = ''dependency_blocked''"
| "deferral_text MissingSpecialist = ''missing_specialist''"
| "deferral_text MissingSpec = ''missing_spec''"
| "deferral_text OwnershipConflict = ''ownership_conflict''"
| "deferral_text RuntimeCapacity = ''runtime_capacity''"
| "deferral_text TaskAlreadyLeased = ''task_already_leased''"
| "deferral_text SpecialistCapacity = ''specialist_capacity''"

record coordination_deferral =
  df_taskId :: string
  df_reason :: deferral_reason
  df_conflictsWithTaskIds :: "string list"

record coordination_plan =
  plan_generation :: int
  plan_missionId :: string
  plan_missionVersion :: int
  plan_createdAt :: string
  plan_assignments :: "specialist_assignment list"
  plan_deferred :: "coordination_deferral list"
  plan_planHash :: string

text \<open>The values that are hashed.\<close>

abbreviation JInt :: "int \<Rightarrow> json" where
  "JInt n \<equiv> JNum (of_int n)"

abbreviation JTexts :: "string list \<Rightarrow> json" where
  "JTexts ts \<equiv> JArr (map JStr ts)"

definition claim_value :: "ownership_claim \<Rightarrow> json" where
  "claim_value c = JObj [(''access'', JStr (access_text (claim_access c))), (''key'', JStr (claim_key c)),
     (''namespace'', JStr (namespace_text (claim_namespace c)))]"

definition context_value :: "context_package \<Rightarrow> json" where
  "context_value c = JObj [(''missionId'', JStr (ctx_missionId c)), (''resultHash'', JStr (ctx_resultHash c)),
     (''selectedIds'', JTexts (ctx_selectedIds c)), (''sourceFingerprint'', JStr (ctx_sourceFingerprint c)),
     (''taskId'', JStr (ctx_taskId c))]"

definition lease_identity :: "int \<Rightarrow> string \<Rightarrow> string \<Rightarrow> string \<Rightarrow> string \<Rightarrow> string \<Rightarrow> (string \<times> json) list" where
  "lease_identity generation issued m specialist vers t =
     [(''generation'', JInt generation), (''issuedAt'', JStr issued), (''missionId'', JStr m),
      (''specialistId'', JStr specialist), (''specialistVersion'', JStr vers), (''taskId'', JStr t)]"

definition lease_value :: "ownership_lease \<Rightarrow> json" where
  "lease_value l = JObj ([(''claims'', JArr (map claim_value (lease_claims l))), (''expiresAt'', JStr (lease_expiresAt l))]
     @ lease_identity (lease_generation l) (lease_issuedAt l) (lease_missionId l) (lease_specialistId l)
         (lease_specialistVersion l) (lease_taskId l)
     @ [(''id'', JStr (lease_id l))])"

definition assignment_base :: "specialist_assignment \<Rightarrow> (string \<times> json) list" where
  "assignment_base a =
     [(''context'', context_value (as_context a)), (''goal'', JStr (as_goal a)), (''id'', JStr (as_id a)),
      (''lease'', lease_value (as_lease a)), (''missionId'', JStr (as_missionId a)),
      (''missionVersion'', JInt (as_missionVersion a)), (''requiredCapabilities'', JTexts (as_requiredCapabilities a)),
      (''role'', JStr (as_role a)), (''taskId'', JStr (as_taskId a)), (''title'', JStr (as_title a))]"

definition assignment_value :: "specialist_assignment \<Rightarrow> json" where
  "assignment_value a = JObj (assignment_base a @ [(''assignmentHash'', JStr (as_assignmentHash a))])"

definition deferral_value :: "coordination_deferral \<Rightarrow> json" where
  "deferral_value d = JObj [(''conflictsWithTaskIds'', JTexts (df_conflictsWithTaskIds d)),
     (''reason'', JStr (deferral_text (df_reason d))), (''taskId'', JStr (df_taskId d))]"

definition plan_base :: "coordination_plan \<Rightarrow> (string \<times> json) list" where
  "plan_base p =
     [(''assignments'', JArr (map assignment_value (plan_assignments p))), (''createdAt'', JStr (plan_createdAt p)),
      (''deferred'', JArr (map deferral_value (plan_deferred p))), (''generation'', JInt (plan_generation p)),
      (''missionId'', JStr (plan_missionId p)), (''missionVersion'', JInt (plan_missionVersion p)), (''schemaVersion'', JInt 1)]"

definition plan_value :: "coordination_plan \<Rightarrow> json" where
  "plan_value p = JObj (plan_base p @ [(''planHash'', JStr (plan_planHash p))])"

definition conflicting_task_ids :: "ownership_claim list \<Rightarrow> ownership_lease list \<Rightarrow> string list" where
  "conflicting_task_ids claims leases =
     js_sort code_unit_compare (remdups (map lease_taskId
       (filter (\<lambda>l. list_ex (\<lambda>c. list_ex (claims_conflict c) (lease_claims l)) claims) leases)))"

end
