(* ===== verification/Specialists.thy ===== *)
theory Specialists
  imports Coordination
begin

text \<open>
  The specialist registry (\<open>src/coordination/registry.ts\<close>) and the reconciliation of a worker's proposal
  (\<open>src/coordination/result.ts\<close>). A worker is code of the caller: what it hands back is a JSON value. The
  evidence authority is a parameter; \<open>None\<close> is an authority that throws.
\<close>

section \<open>Profiles\<close>

record specialist_profile =
  pf_id :: string
  pf_version :: string
  pf_description :: string
  pf_roles :: "string list"
  pf_capabilities :: "string list"
  pf_maxConcurrency :: int
  pf_trustClass :: string
  pf_source :: string
  pf_sourceVersion :: string
  pf_contentHash :: string

record specialist_summary =
  sm_id :: string
  sm_version :: string
  sm_roles :: "string list"
  sm_capabilities :: "string list"
  sm_maxConcurrency :: int
  sm_trustClass :: string
  sm_provenanceHash :: string

definition trust_classes :: "string list" where
  "trust_classes = [''test_fixture'', ''untrusted_worker'']"

abbreviation given :: "string \<Rightarrow> json option" where
  "given s \<equiv> Some (JStr s)"

definition normalize_profile :: "specialist_profile \<Rightarrow> specialist_profile coordinated" where
  "normalize_profile p =
     and_then (coordination_identifier (given (pf_id p)) ''profile.id'') (\<lambda>_.
     and_then (coordination_identifier (given (pf_version p)) ''profile.version'') (\<lambda>_.
     and_then (coordination_text (given (pf_description p)) ''profile.description'' 2000) (\<lambda>_.
     and_then (normalize_unique_tokens (map JStr (pf_roles p)) ''profile.roles'') (\<lambda>roles.
     and_then (normalize_unique_tokens (map JStr (pf_capabilities p)) ''profile.capabilities'') (\<lambda>capabilities.
     and_then (ensure (safe_integer (pf_maxConcurrency p) \<and> 1 \<le> pf_maxConcurrency p \<and> pf_maxConcurrency p \<le> 16)
        (CoordinationTypeError ''profile.maxConcurrency must be an integer from 1 to 16.'')) (\<lambda>_.
     and_then (ensure (pf_trustClass p \<in> set trust_classes) (CoordinationTypeError ''profile.trustClass is not supported.'')) (\<lambda>_.
     and_then (coordination_text (given (pf_source p)) ''profile.provenance.source'' 1000) (\<lambda>_.
     and_then (coordination_identifier (given (pf_sourceVersion p)) ''profile.provenance.version'') (\<lambda>_.
     and_then (coordination_sha256 (given (pf_contentHash p)) ''profile.provenance.contentHash'') (\<lambda>_.
     Inr (p\<lparr>pf_roles := roles, pf_capabilities := capabilities\<rparr>)))))))))))"

definition specialist_key :: "string \<Rightarrow> string \<Rightarrow> string" where
  "specialist_key i v = i @ CHR 0x00 # v"

definition profile_key :: "specialist_profile \<Rightarrow> string" where
  "profile_key p = specialist_key (pf_id p) (pf_version p)"

text \<open>The registrations in the order they were made; whether the worker has an \<open>execute\<close> is an argument.\<close>

definition register_specialist :: "specialist_profile list \<Rightarrow> specialist_profile \<Rightarrow> bool \<Rightarrow> specialist_profile list coordinated" where
  "register_specialist regs profile has_execute =
     and_then (normalize_profile profile) (\<lambda>p.
     if 128 \<le> length regs then coordination_type_error ''Specialist registry is limited to 128 entries.''
     else if list_ex (\<lambda>r. profile_key r = profile_key p) regs
       then coordination_type_error (''Duplicate specialist registration '' @ quoted (profile_key p) @ ''.'')
     else if \<not> has_execute then coordination_type_error ''Specialist worker must implement execute().''
     else Inr (regs @ [p]))"

definition compare_profiles :: "(string \<Rightarrow> string \<Rightarrow> int) \<Rightarrow> specialist_profile \<Rightarrow> specialist_profile \<Rightarrow> int" where
  "compare_profiles lc a b = (if lc (pf_id a) (pf_id b) \<noteq> 0 then lc (pf_id a) (pf_id b) else lc (pf_version a) (pf_version b))"

definition compare_summaries :: "(string \<Rightarrow> string \<Rightarrow> int) \<Rightarrow> specialist_summary \<Rightarrow> specialist_summary \<Rightarrow> int" where
  "compare_summaries lc a b = (if lc (sm_id a) (sm_id b) \<noteq> 0 then lc (sm_id a) (sm_id b) else lc (sm_version a) (sm_version b))"

definition summary_of :: "specialist_profile \<Rightarrow> specialist_summary" where
  "summary_of p = \<lparr>sm_id = pf_id p, sm_version = pf_version p, sm_roles = pf_roles p, sm_capabilities = pf_capabilities p,
     sm_maxConcurrency = pf_maxConcurrency p, sm_trustClass = pf_trustClass p, sm_provenanceHash = pf_contentHash p\<rparr>"

definition list_specialists :: "(string \<Rightarrow> string \<Rightarrow> int) \<Rightarrow> specialist_profile list \<Rightarrow> specialist_summary list" where
  "list_specialists lc regs = js_sort (compare_summaries lc) (map summary_of regs)"

definition normalize_required_capabilities :: "string list \<Rightarrow> string list coordinated" where
  "normalize_required_capabilities vs =
     (if max_collection_items < length vs then coordination_type_error (limited_to ''requiredCapabilities'')
      else if vs = [] then Inr [] else normalize_unique_tokens (map JStr vs) ''requiredCapabilities'')"

definition matching_specialists :: "(string \<Rightarrow> string \<Rightarrow> int) \<Rightarrow> specialist_profile list \<Rightarrow> string \<Rightarrow> string list
    \<Rightarrow> specialist_profile list coordinated" where
  "matching_specialists lc regs role required =
     and_then (coordination_token (given role) ''role'') (\<lambda>_.
     and_then (normalize_required_capabilities required) (\<lambda>capabilities.
     Inr (js_sort (compare_profiles lc)
       (filter (\<lambda>p. role \<in> set (pf_roles p) \<and> list_all (\<lambda>c. c \<in> set (pf_capabilities p)) capabilities) regs))))"

definition resolve_specialist :: "specialist_profile list \<Rightarrow> string \<Rightarrow> string \<Rightarrow> specialist_profile coordinated" where
  "resolve_specialist regs i v =
     and_then (coordination_identifier (given i) ''specialistId'') (\<lambda>_.
     and_then (coordination_identifier (given v) ''specialistVersion'') (\<lambda>_.
     case find (\<lambda>p. profile_key p = specialist_key i v) regs of
       None \<Rightarrow> coordination_type_error ''Unknown specialist registration.''
     | Some p \<Rightarrow> Inr p))"

section \<open>Results\<close>

datatype producer_class = IndependentTool | SpecialistProducer
datatype evidence_status = EvidenceFail | EvidencePass

primrec producer_text :: "producer_class \<Rightarrow> string" where
  "producer_text IndependentTool = ''independent_tool''"
| "producer_text SpecialistProducer = ''specialist''"

primrec evidence_text :: "evidence_status \<Rightarrow> string" where
  "evidence_text EvidenceFail = ''FAIL''"
| "evidence_text EvidencePass = ''PASS''"

record specialist_evidence =
  ev_id :: string
  ev_kind :: string
  ev_reference :: string
  ev_contentHash :: string
  ev_observedAt :: string
  ev_producerClass :: producer_class
  ev_status :: evidence_status

record specialist_artifact =
  art_id :: string
  art_type :: string
  art_reference :: string
  art_contentHash :: string

definition proposal_outcomes :: "string list" where
  "proposal_outcomes = [''BLOCKED'', ''FAILED'', ''SUCCESS'']"

definition verification_statuses :: "string list" where
  "verification_statuses = [''BLOCKED'', ''FAILED'', ''PARTIALLY_VERIFIED'', ''UNVERIFIED'', ''VERIFIED'']"

record specialist_result =
  rs_assignmentId :: string
  rs_missionId :: string
  rs_taskId :: string
  rs_specialistId :: string
  rs_specialistVersion :: string
  rs_startedAt :: string
  rs_completedAt :: string
  rs_outcome :: string
  rs_summary :: string
  rs_evidence :: "specialist_evidence list"
  rs_filesChanged :: "string list"
  rs_artifacts :: "specialist_artifact list"
  rs_assumptions :: "string list"
  rs_risks :: "string list"
  rs_remainingWork :: "string list"
  rs_verificationStatus :: string
  rs_resultHash :: string

datatype reconciliation_outcome = ReconcileAccepted | ReconcileBlocked | RetryRequired
datatype reconciliation_reason = FailedEvidence | InvalidResult | NotVerified | SpecialistBlocked | SpecialistFailed
  | WorkerFailed | WorkerTimeout

primrec reconciliation_text :: "reconciliation_outcome \<Rightarrow> string" where
  "reconciliation_text ReconcileAccepted = ''ACCEPTED''"
| "reconciliation_text ReconcileBlocked = ''BLOCKED''"
| "reconciliation_text RetryRequired = ''RETRY_REQUIRED''"

primrec reason_text :: "reconciliation_reason \<Rightarrow> string" where
  "reason_text FailedEvidence = ''failed_evidence''"
| "reason_text InvalidResult = ''invalid_result''"
| "reason_text NotVerified = ''not_verified''"
| "reason_text SpecialistBlocked = ''specialist_blocked''"
| "reason_text SpecialistFailed = ''specialist_failed''"
| "reason_text WorkerFailed = ''worker_failed''"
| "reason_text WorkerTimeout = ''worker_timeout''"

record task_reconciliation =
  rec_assignmentId :: string
  rec_missionId :: string
  rec_taskId :: string
  rec_specialistId :: string
  rec_outcome :: reconciliation_outcome
  rec_reasons :: "reconciliation_reason list"
  rec_attestedEvidenceIds :: "string list"
  rec_result :: "specialist_result option"
  rec_reconciliationHash :: string

definition evidence_value :: "specialist_evidence \<Rightarrow> json" where
  "evidence_value e = JObj [(''contentHash'', JStr (ev_contentHash e)), (''id'', JStr (ev_id e)), (''kind'', JStr (ev_kind e)),
     (''observedAt'', JStr (ev_observedAt e)), (''producerClass'', JStr (producer_text (ev_producerClass e))),
     (''reference'', JStr (ev_reference e)), (''status'', JStr (evidence_text (ev_status e)))]"

definition artifact_value :: "specialist_artifact \<Rightarrow> json" where
  "artifact_value a = JObj [(''contentHash'', JStr (art_contentHash a)), (''id'', JStr (art_id a)),
     (''reference'', JStr (art_reference a)), (''type'', JStr (art_type a))]"

definition proposal_base :: "specialist_result \<Rightarrow> (string \<times> json) list" where
  "proposal_base r =
     [(''artifacts'', JArr (map artifact_value (rs_artifacts r))), (''assignmentId'', JStr (rs_assignmentId r)),
      (''assumptions'', JTexts (rs_assumptions r)), (''completedAt'', JStr (rs_completedAt r)),
      (''evidence'', JArr (map evidence_value (rs_evidence r))), (''filesChanged'', JTexts (rs_filesChanged r)),
      (''missionId'', JStr (rs_missionId r)), (''outcome'', JStr (rs_outcome r)), (''remainingWork'', JTexts (rs_remainingWork r)),
      (''risks'', JTexts (rs_risks r)), (''specialistId'', JStr (rs_specialistId r)),
      (''specialistVersion'', JStr (rs_specialistVersion r)), (''startedAt'', JStr (rs_startedAt r)),
      (''summary'', JStr (rs_summary r)), (''taskId'', JStr (rs_taskId r)), (''verificationStatus'', JStr (rs_verificationStatus r))]"

definition result_value :: "specialist_result \<Rightarrow> json" where
  "result_value r = JObj (proposal_base r @ [(''resultHash'', JStr (rs_resultHash r))])"

section \<open>Checking a proposal\<close>

definition proposal_keys :: "string list" where
  "proposal_keys = [''artifacts'', ''assignmentId'', ''assumptions'', ''completedAt'', ''evidence'', ''filesChanged'', ''missionId'',
     ''outcome'', ''remainingWork'', ''risks'', ''specialistId'', ''specialistVersion'', ''startedAt'', ''summary'', ''taskId'',
     ''verificationStatus'']"

definition evidence_keys :: "string list" where
  "evidence_keys = [''contentHash'', ''id'', ''kind'', ''observedAt'', ''producerClass'', ''reference'', ''status'']"

definition artifact_keys :: "string list" where
  "artifact_keys = [''contentHash'', ''id'', ''reference'', ''type'']"

definition require_record :: "json \<Rightarrow> string list \<Rightarrow> string \<Rightarrow> (string \<times> json) list coordinated" where
  "require_record v ks name =
     (case v of
        JObj props \<Rightarrow>
          if exactly_keys props ks then Inr props
          else coordination_type_error (name @ '' contains missing or unsupported fields.'')
      | _ \<Rightarrow> coordination_type_error (name @ '' must be an object.''))"

definition require_string :: "(string \<times> json) list \<Rightarrow> string \<Rightarrow> string coordinated" where
  "require_string props k =
     (case own_property props k of Some (JStr s) \<Rightarrow> Inr s | _ \<Rightarrow> coordination_type_error (k @ '' must be a string.''))"

definition require_array :: "(string \<times> json) list \<Rightarrow> string \<Rightarrow> json list coordinated" where
  "require_array props k =
     (case own_property props k of Some (JArr xs) \<Rightarrow> Inr xs | _ \<Rightarrow> coordination_type_error (k @ '' must be an array.''))"

definition bounded_collection :: "json list \<Rightarrow> string \<Rightarrow> unit coordinated" where
  "bounded_collection vs name = ensure (length vs \<le> max_collection_items) (CoordinationTypeError (limited_to name))"

definition unique_strings :: "string list \<Rightarrow> string \<Rightarrow> unit coordinated" where
  "unique_strings ts name = ensure (distinct ts) (CoordinationTypeError (name @ '' must not contain duplicates.''))"

definition normalize_evidence_item :: "int \<Rightarrow> int \<Rightarrow> nat \<times> json \<Rightarrow> specialist_evidence coordinated" where
  "normalize_evidence_item startedMs completedMs iv =
     and_then (require_record (snd iv) evidence_keys (''proposal.evidence['' @ nat_text (fst iv) @ '']'')) (\<lambda>item.
     and_then (require_string item ''id'') (\<lambda>i.
     and_then (require_string item ''kind'') (\<lambda>kind.
     and_then (require_string item ''reference'') (\<lambda>reference.
     and_then (require_string item ''contentHash'') (\<lambda>contentHash.
     and_then (require_string item ''observedAt'') (\<lambda>observedAt.
     and_then (require_string item ''producerClass'') (\<lambda>producer.
     and_then (require_string item ''status'') (\<lambda>stat.
     and_then (coordination_identifier (given i) ''evidence.id'') (\<lambda>_.
     and_then (coordination_token (given kind) ''evidence.kind'') (\<lambda>_.
     and_then (coordination_text (given reference) ''evidence.reference'' 1000) (\<lambda>_.
     and_then (coordination_sha256 (given contentHash) ''evidence.contentHash'') (\<lambda>_.
     and_then (canonical_timestamp observedAt ''evidence.observedAt'') (\<lambda>observedMs.
     if observedMs < startedMs \<or> completedMs < observedMs
     then coordination_type_error ''Evidence timestamp falls outside proposal execution.''
     else (case find (\<lambda>p. producer_text p = producer) [IndependentTool, SpecialistProducer] of
         None \<Rightarrow> coordination_type_error ''Evidence producer class is unsupported.''
       | Some p \<Rightarrow> (case find (\<lambda>e. evidence_text e = stat) [EvidenceFail, EvidencePass] of
            None \<Rightarrow> coordination_type_error ''Evidence status is unsupported.''
          | Some e \<Rightarrow> Inr \<lparr>ev_id = i, ev_kind = kind, ev_reference = reference, ev_contentHash = contentHash,
              ev_observedAt = observedAt, ev_producerClass = p, ev_status = e\<rparr>)))))))))))))))"

definition normalize_evidence :: "(string \<Rightarrow> string \<Rightarrow> int) \<Rightarrow> json list \<Rightarrow> int \<Rightarrow> int \<Rightarrow> specialist_evidence list coordinated" where
  "normalize_evidence lc vs startedMs completedMs =
     and_then (bounded_collection vs ''proposal.evidence'') (\<lambda>_.
     and_then (traverse (normalize_evidence_item startedMs completedMs) (enumerate 0 vs)) (\<lambda>evidence.
     and_then (unique_strings (map ev_id evidence) ''evidence ids'') (\<lambda>_.
     Inr (js_sort (\<lambda>a b. lc (ev_id a) (ev_id b)) evidence))))"

definition normalize_artifact_item :: "nat \<times> json \<Rightarrow> specialist_artifact coordinated" where
  "normalize_artifact_item iv =
     and_then (require_record (snd iv) artifact_keys (''proposal.artifacts['' @ nat_text (fst iv) @ '']'')) (\<lambda>item.
     and_then (require_string item ''id'') (\<lambda>i.
     and_then (require_string item ''type'') (\<lambda>type.
     and_then (require_string item ''reference'') (\<lambda>reference.
     and_then (require_string item ''contentHash'') (\<lambda>contentHash.
     and_then (coordination_identifier (given i) ''artifact.id'') (\<lambda>_.
     and_then (coordination_token (given type) ''artifact.type'') (\<lambda>_.
     and_then (coordination_text (given reference) ''artifact.reference'' 1000) (\<lambda>_.
     and_then (coordination_sha256 (given contentHash) ''artifact.contentHash'') (\<lambda>_.
     Inr \<lparr>art_id = i, art_type = type, art_reference = reference, art_contentHash = contentHash\<rparr>)))))))))"

definition normalize_artifacts :: "(string \<Rightarrow> string \<Rightarrow> int) \<Rightarrow> json list \<Rightarrow> specialist_artifact list coordinated" where
  "normalize_artifacts lc vs =
     and_then (bounded_collection vs ''proposal.artifacts'') (\<lambda>_.
     and_then (traverse normalize_artifact_item (enumerate 0 vs)) (\<lambda>artifacts.
     and_then (unique_strings (map art_id artifacts) ''artifacts ids'') (\<lambda>_.
     Inr (js_sort (\<lambda>a b. lc (art_id a) (art_id b)) artifacts))))"

definition normalize_file_changed :: "specialist_assignment \<Rightarrow> json \<Rightarrow> string coordinated" where
  "normalize_file_changed a v =
     (case v of
        JStr s \<Rightarrow>
          and_then (normalize_repository_path (given s) ''filesChanged'') (\<lambda>path.
          and_then (path_is_owned_for_write path (lease_claims (as_lease a))) (\<lambda>owned.
          if owned then Inr path else coordination_type_error ''A changed file falls outside reserved write ownership.''))
      | _ \<Rightarrow> coordination_type_error ''filesChanged entries must be strings.'')"

definition normalize_files_changed :: "specialist_assignment \<Rightarrow> json list \<Rightarrow> string list coordinated" where
  "normalize_files_changed a vs =
     and_then (bounded_collection vs ''proposal.filesChanged'') (\<lambda>_.
     and_then (traverse (normalize_file_changed a) vs) (\<lambda>files.
     and_then (unique_strings files ''filesChanged'') (\<lambda>_.
     Inr (js_sort code_unit_compare files))))"

definition normalize_text_entry :: "string \<Rightarrow> json \<Rightarrow> string coordinated" where
  "normalize_text_entry name v =
     (case v of
        JStr s \<Rightarrow> coordination_text (given s) (''proposal.'' @ name) 1000
      | _ \<Rightarrow> coordination_type_error (name @ '' entries must be strings.''))"

definition normalize_text_list :: "json list \<Rightarrow> string \<Rightarrow> string list coordinated" where
  "normalize_text_list vs name =
     and_then (bounded_collection vs (''proposal.'' @ name)) (\<lambda>_.
     and_then (traverse (normalize_text_entry name) vs) (\<lambda>texts.
     and_then (unique_strings texts name) (\<lambda>_.
     Inr (js_sort code_unit_compare texts))))"

definition contradictory_outcome :: "string \<Rightarrow> string \<Rightarrow> bool" where
  "contradictory_outcome outc stat \<longleftrightarrow>
     (outc = ''BLOCKED'' \<and> stat \<noteq> ''BLOCKED'') \<or> (outc = ''FAILED'' \<and> stat \<noteq> ''FAILED'') \<or>
     (outc = ''SUCCESS'' \<and> (stat = ''BLOCKED'' \<or> stat = ''FAILED''))"

definition validate_proposal :: "(string \<Rightarrow> string \<Rightarrow> int) \<Rightarrow> (json \<Rightarrow> string) \<Rightarrow> specialist_assignment \<Rightarrow> json \<Rightarrow> int
    \<Rightarrow> specialist_result coordinated" where
  "validate_proposal lc digest a v receivedAtMs =
     and_then (require_record v proposal_keys ''proposal'') (\<lambda>p.
     and_then (require_string p ''assignmentId'') (\<lambda>assignmentId.
     and_then (require_string p ''missionId'') (\<lambda>m.
     and_then (require_string p ''specialistId'') (\<lambda>specialist.
     and_then (require_string p ''specialistVersion'') (\<lambda>vers.
     and_then (require_string p ''taskId'') (\<lambda>t.
     and_then (ensure (assignmentId = as_id a \<and> m = as_missionId a \<and> t = as_taskId a \<and>
         specialist = lease_specialistId (as_lease a) \<and> vers = lease_specialistVersion (as_lease a))
       (CoordinationTypeError ''Proposal identity does not match its assignment.'')) (\<lambda>_.
     and_then (require_string p ''startedAt'') (\<lambda>startedAt.
     and_then (require_string p ''completedAt'') (\<lambda>completedAt.
     and_then (canonical_timestamp startedAt ''proposal.startedAt'') (\<lambda>startedMs.
     and_then (canonical_timestamp completedAt ''proposal.completedAt'') (\<lambda>completedMs.
     and_then (canonical_timestamp (lease_issuedAt (as_lease a)) ''lease.issuedAt'') (\<lambda>issuedMs.
     and_then (canonical_timestamp (lease_expiresAt (as_lease a)) ''lease.expiresAt'') (\<lambda>expiresMs.
     and_then (ensure (\<not> (startedMs < issuedMs \<or> completedMs < startedMs \<or> receivedAtMs < completedMs \<or> expiresMs \<le> receivedAtMs))
       (CoordinationTypeError ''Proposal timestamps fall outside the active assignment lease.'')) (\<lambda>_.
     and_then (require_string p ''outcome'') (\<lambda>outc.
     and_then (require_string p ''verificationStatus'') (\<lambda>stat.
     and_then (ensure (outc \<in> set proposal_outcomes \<and> stat \<in> set verification_statuses)
       (CoordinationTypeError ''Proposal outcome or verification status is unsupported.'')) (\<lambda>_.
     and_then (ensure (\<not> contradictory_outcome outc stat)
       (CoordinationTypeError ''Proposal outcome and verification status contradict each other.'')) (\<lambda>_.
     and_then (require_string p ''summary'') (\<lambda>summary.
     and_then (coordination_text (given summary) ''proposal.summary'' 2000) (\<lambda>_.
     and_then (and_then (require_array p ''evidence'') (\<lambda>xs. normalize_evidence lc xs startedMs completedMs)) (\<lambda>evidence.
     and_then (and_then (require_array p ''artifacts'') (normalize_artifacts lc)) (\<lambda>artifacts.
     and_then (and_then (require_array p ''filesChanged'') (normalize_files_changed a)) (\<lambda>files.
     and_then (and_then (require_array p ''assumptions'') (\<lambda>xs. normalize_text_list xs ''assumptions'')) (\<lambda>assumptions.
     and_then (and_then (require_array p ''risks'') (\<lambda>xs. normalize_text_list xs ''risks'')) (\<lambda>risks.
     and_then (and_then (require_array p ''remainingWork'') (\<lambda>xs. normalize_text_list xs ''remainingWork'')) (\<lambda>work.
     let r = \<lparr>rs_assignmentId = assignmentId, rs_missionId = m, rs_taskId = t, rs_specialistId = specialist,
           rs_specialistVersion = vers, rs_startedAt = startedAt, rs_completedAt = completedAt, rs_outcome = outc,
           rs_summary = summary, rs_evidence = evidence, rs_filesChanged = files, rs_artifacts = artifacts,
           rs_assumptions = assumptions, rs_risks = risks, rs_remainingWork = work, rs_verificationStatus = stat, rs_resultHash = []\<rparr> in
     Inr (r\<lparr>rs_resultHash := coordination_hash digest (JObj (proposal_base r))\<rparr>)))))))))))))))))))))))))))"

section \<open>Reconciliation\<close>

definition reconciliation_base :: "task_reconciliation \<Rightarrow> (string \<times> json) list" where
  "reconciliation_base r =
     [(''assignmentId'', JStr (rec_assignmentId r)), (''attestedEvidenceIds'', JTexts (rec_attestedEvidenceIds r)),
      (''missionId'', JStr (rec_missionId r)), (''outcome'', JStr (reconciliation_text (rec_outcome r))),
      (''reasons'', JTexts (map reason_text (rec_reasons r))), (''specialistId'', JStr (rec_specialistId r)),
      (''taskId'', JStr (rec_taskId r))]
     @ (case rec_result r of None \<Rightarrow> [] | Some x \<Rightarrow> [(''result'', result_value x)])"

definition create_reconciliation :: "(json \<Rightarrow> string) \<Rightarrow> specialist_assignment \<Rightarrow> reconciliation_outcome
    \<Rightarrow> reconciliation_reason list \<Rightarrow> string list \<Rightarrow> specialist_result option \<Rightarrow> task_reconciliation" where
  "create_reconciliation digest a outc reasons attested result =
     (let r = \<lparr>rec_assignmentId = as_id a, rec_missionId = as_missionId a, rec_taskId = as_taskId a,
          rec_specialistId = lease_specialistId (as_lease a), rec_outcome = outc, rec_reasons = reasons,
          rec_attestedEvidenceIds = attested, rec_result = result, rec_reconciliationHash = []\<rparr> in
      r\<lparr>rec_reconciliationHash := coordination_hash digest (JObj (reconciliation_base r))\<rparr>)"

type_synonym evidence_authority = "specialist_assignment \<Rightarrow> specialist_evidence \<Rightarrow> bool option"

definition safely_attested :: "evidence_authority \<Rightarrow> specialist_assignment \<Rightarrow> specialist_evidence \<Rightarrow> bool" where
  "safely_attested authority a e \<longleftrightarrow> authority a e = Some True"

definition attested_ids :: "evidence_authority \<Rightarrow> specialist_assignment \<Rightarrow> specialist_result \<Rightarrow> string list" where
  "attested_ids authority a r = js_sort code_unit_compare (map ev_id (filter (\<lambda>e. ev_producerClass e = IndependentTool \<and>
     ev_status e = EvidencePass \<and> safely_attested authority a e) (rs_evidence r)))"

definition retry_reasons :: "specialist_result \<Rightarrow> string list \<Rightarrow> reconciliation_reason list" where
  "retry_reasons r attested =
     (if list_ex (\<lambda>e. ev_status e = EvidenceFail) (rs_evidence r) then [FailedEvidence] else [])
     @ (if rs_verificationStatus r \<noteq> ''VERIFIED'' \<or> attested = [] then [NotVerified] else [])"

definition reconcile_proposal :: "(string \<Rightarrow> string \<Rightarrow> int) \<Rightarrow> (json \<Rightarrow> string) \<Rightarrow> specialist_assignment \<Rightarrow> json \<Rightarrow> int
    \<Rightarrow> evidence_authority \<Rightarrow> task_reconciliation" where
  "reconcile_proposal lc digest a v receivedAtMs authority =
     (case validate_proposal lc digest a v receivedAtMs of
        Inl e \<Rightarrow> create_reconciliation digest a ReconcileBlocked [InvalidResult] [] None
      | Inr r \<Rightarrow>
          if rs_outcome r = ''BLOCKED'' then create_reconciliation digest a ReconcileBlocked [SpecialistBlocked] [] (Some r)
          else if rs_outcome r = ''FAILED'' then create_reconciliation digest a RetryRequired [SpecialistFailed] [] (Some r)
          else (let attested = attested_ids authority a r; reasons = retry_reasons r attested in
                if reasons \<noteq> [] then create_reconciliation digest a RetryRequired reasons attested (Some r)
                else create_reconciliation digest a ReconcileAccepted [] attested (Some r)))"

definition execution_failure_reconciliation :: "(json \<Rightarrow> string) \<Rightarrow> specialist_assignment \<Rightarrow> reconciliation_reason \<Rightarrow> task_reconciliation" where
  "execution_failure_reconciliation digest a reason = create_reconciliation digest a RetryRequired [reason] [] None"

end
