(* ===== verification/Coordinator.thy ===== *)
theory Coordinator
  imports Specialists
begin

text \<open>
  The coordinator (\<open>src/coordination/coordinator.ts\<close>): it reserves leases for the runnable tasks of a mission,
  runs the workers of a plan and reconciles their answers, and releases what expired. An operation gives
  the coordinator it leaves behind and its result. An execution is a sequence of events: it begins, each
  worker answers, fails or runs out of time, and it ends when every assignment is settled; other
  operations may come in between.
\<close>

section \<open>State\<close>

record coordinator_options =
  maxBatchSize :: int
  maxActiveAssignments :: int
  leaseDurationMs :: int
  executionTimeoutMs :: int
  maxPlanRecords :: "int option"
  evidenceAuthority :: "evidence_authority option"

datatype plan_state = PlanExecuting | PlanReleased | PlanReserved

text \<open>\<open>pr_controllers\<close> are the positions of the assignments whose abort controllers are registered.\<close>

record plan_record =
  pr_plan :: coordination_plan
  pr_controllers :: "nat list"
  pr_expiresAtMs :: int
  pr_state :: plan_state

record plan_execution =
  ex_plan :: coordination_plan
  ex_outcomes :: "task_reconciliation option list"

text \<open>
  The maps of plan records and leases are lists in insertion order; \<open>aborted\<close> are the signals that fired,
  by plan hash and position, and \<open>executions\<close> the running calls of \<open>execute\<close>.
\<close>

record coordinator =
  specialists :: "specialist_profile list"
  plans :: "plan_record list"
  leases :: "ownership_lease list"
  planGeneration :: int
  leaseGeneration :: int
  lastClockMs :: "int option"
  executions :: "plan_execution list"
  aborted :: "(string \<times> nat) list"

type_synonym 'a coordinating = "coordinator \<times> 'a coordinated"

definition new_coordinator :: "specialist_profile list \<Rightarrow> coordinator" where
  "new_coordinator regs = \<lparr>specialists = regs, plans = [], leases = [], planGeneration = 0, leaseGeneration = 0,
     lastClockMs = None, executions = [], aborted = []\<rparr>"

definition coordinator_bounded :: "int \<Rightarrow> string \<Rightarrow> int \<Rightarrow> unit coordinated" where
  "coordinator_bounded v name maximum =
     ensure (safe_integer v \<and> 1 \<le> v \<and> v \<le> maximum) (CoordinationTypeError (name @ '' must be an integer from 1 to '' @ nat_text (nat maximum) @ ''.''))"

definition planRecords_of :: "coordinator_options \<Rightarrow> int" where
  "planRecords_of c = (case maxPlanRecords c of None \<Rightarrow> 256 | Some n \<Rightarrow> n)"

definition authority_of :: "coordinator_options \<Rightarrow> evidence_authority" where
  "authority_of c = (case evidenceAuthority c of None \<Rightarrow> (\<lambda>_ _. Some False) | Some f \<Rightarrow> f)"

definition check_options :: "coordinator_options \<Rightarrow> unit coordinated" where
  "check_options c =
     and_then (coordinator_bounded (maxBatchSize c) ''maxBatchSize'' 64) (\<lambda>_.
     and_then (coordinator_bounded (maxActiveAssignments c) ''maxActiveAssignments'' 64) (\<lambda>_.
     and_then (coordinator_bounded (leaseDurationMs c) ''leaseDurationMs'' 3600000) (\<lambda>_.
     and_then (coordinator_bounded (executionTimeoutMs c) ''executionTimeoutMs'' (leaseDurationMs c)) (\<lambda>_.
     coordinator_bounded (planRecords_of c) ''maxPlanRecords'' 1024))))"

section \<open>Plan records and leases\<close>

definition record_hash :: "plan_record \<Rightarrow> string" where
  "record_hash r = plan_planHash (pr_plan r)"

definition find_record :: "coordinator \<Rightarrow> string \<Rightarrow> plan_record option" where
  "find_record s h = find (\<lambda>r. record_hash r = h) (plans s)"

definition update_record :: "string \<Rightarrow> (plan_record \<Rightarrow> plan_record) \<Rightarrow> coordinator \<Rightarrow> coordinator" where
  "update_record h f s = s\<lparr>plans := map (\<lambda>r. if record_hash r = h then f r else r) (plans s)\<rparr>"

definition find_lease :: "ownership_lease list \<Rightarrow> string \<Rightarrow> ownership_lease option" where
  "find_lease ls i = find (\<lambda>l. lease_id l = i) ls"

text \<open>\<open>Map.set\<close>.\<close>

definition set_lease :: "ownership_lease \<Rightarrow> ownership_lease list \<Rightarrow> ownership_lease list" where
  "set_lease l ls = (if find_lease ls (lease_id l) = None then ls @ [l]
     else map (\<lambda>x. if lease_id x = lease_id l then l else x) ls)"

definition set_record :: "plan_record \<Rightarrow> plan_record list \<Rightarrow> plan_record list" where
  "set_record r rs = (if list_ex (\<lambda>x. record_hash x = record_hash r) rs
     then map (\<lambda>x. if record_hash x = record_hash r then r else x) rs else rs @ [r])"

definition compare_leases :: "(string \<Rightarrow> string \<Rightarrow> int) \<Rightarrow> ownership_lease \<Rightarrow> ownership_lease \<Rightarrow> int" where
  "compare_leases lc a b =
     (if lc (lease_taskId a) (lease_taskId b) \<noteq> 0 then lc (lease_taskId a) (lease_taskId b) else lc (lease_id a) (lease_id b))"

definition active_leases_sorted :: "(string \<Rightarrow> string \<Rightarrow> int) \<Rightarrow> coordinator \<Rightarrow> ownership_lease list" where
  "active_leases_sorted lc s = js_sort (compare_leases lc) (leases s)"

definition active_task_lease :: "(string \<Rightarrow> string \<Rightarrow> int) \<Rightarrow> coordinator \<Rightarrow> string \<Rightarrow> string \<Rightarrow> ownership_lease option" where
  "active_task_lease lc s m t = find (\<lambda>l. lease_missionId l = m \<and> lease_taskId l = t) (active_leases_sorted lc s)"

definition active_specialist_count :: "coordinator \<Rightarrow> specialist_profile \<Rightarrow> int" where
  "active_specialist_count s p = int (length (filter (\<lambda>l. lease_specialistId l = pf_id p \<and>
     lease_specialistVersion l = pf_version p) (leases s)))"

text \<open>The leases of a plan are deleted where the active lease still hashes like the plan's.\<close>

definition delete_lease :: "(json \<Rightarrow> string) \<Rightarrow> specialist_assignment \<Rightarrow> ownership_lease list \<Rightarrow> ownership_lease list" where
  "delete_lease digest a ls =
     (case find_lease ls (lease_id (as_lease a)) of
        None \<Rightarrow> ls
      | Some active \<Rightarrow>
          if coordination_hash digest (lease_value active) = coordination_hash digest (lease_value (as_lease a))
          then filter (\<lambda>l. lease_id l \<noteq> lease_id (as_lease a)) ls else ls)"

text \<open>A record that was pruned from the map is a released one; releasing it again changes nothing.\<close>

definition release_record :: "(json \<Rightarrow> string) \<Rightarrow> string \<Rightarrow> coordinator \<Rightarrow> coordinator" where
  "release_record digest h s =
     (case find_record s h of
        None \<Rightarrow> s
      | Some r \<Rightarrow>
          if pr_state r = PlanReleased then s
          else update_record h (\<lambda>x. x\<lparr>pr_controllers := [], pr_state := PlanReleased\<rparr>)
            (s\<lparr>aborted := aborted s @ map (Pair h) (pr_controllers r),
               leases := fold (delete_lease digest) (plan_assignments (pr_plan r)) (leases s)\<rparr>))"

definition expire_plans :: "(json \<Rightarrow> string) \<Rightarrow> int \<Rightarrow> coordinator \<Rightarrow> coordinator" where
  "expire_plans digest nowMs s = fold (\<lambda>r t. if pr_state r \<noteq> PlanReleased \<and> pr_expiresAtMs r \<le> nowMs
     then release_record digest (record_hash r) t else t) (plans s) s"

text \<open>The records are visited in order, released ones deleted, until the map is below its bound.\<close>

fun prune_records :: "nat \<Rightarrow> plan_record list \<Rightarrow> plan_record list \<Rightarrow> plan_record list \<times> bool" where
  "prune_records maximum kept [] = (kept, False)"
| "prune_records maximum kept (r # rs) =
     (let kept' = (if pr_state r = PlanReleased then kept else kept @ [r]) in
      if length kept' + length rs < maximum then (kept' @ rs, True) else prune_records maximum kept' rs)"

definition prune_plan_records :: "coordinator_options \<Rightarrow> coordinator \<Rightarrow> unit coordinating" where
  "prune_plan_records c s =
     (if int (length (plans s)) < planRecords_of c then (s, Inr ())
      else (let (kept, ok) = prune_records (nat (planRecords_of c)) [] (plans s) in
        (s\<lparr>plans := kept\<rparr>,
         if ok then Inr () else Inl (CoordinationError ''Coordination plan record capacity is exhausted.''))))"

definition read_clock :: "string \<Rightarrow> coordinator \<Rightarrow> int coordinating" where
  "read_clock timestamp s =
     (case canonical_timestamp timestamp ''coordination clock'' of
        Inl e \<Rightarrow> (s, Inl e)
      | Inr ms \<Rightarrow>
          if (case lastClockMs s of None \<Rightarrow> False | Some before \<Rightarrow> ms < before)
          then (s, Inl (CoordinationError ''Coordination clock cannot move backwards.''))
          else (s\<lparr>lastClockMs := Some ms\<rparr>, Inr ms))"

text \<open>A step that fails keeps what the state became; the next one starts there.\<close>

definition then_do :: "'a coordinating \<Rightarrow> (coordinator \<Rightarrow> 'a \<Rightarrow> 'b coordinating) \<Rightarrow> 'b coordinating" where
  "then_do r f = (case r of (s, Inl e) \<Rightarrow> (s, Inl e) | (s, Inr x) \<Rightarrow> f s x)"

definition check_first :: "'a coordinated \<Rightarrow> coordinator \<Rightarrow> 'a coordinating" where
  "check_first r s = (s, r)"

section \<open>Task specifications\<close>

definition normalize_capability_list :: "json option \<Rightarrow> string list coordinated" where
  "normalize_capability_list v =
     (case v of
        Some (JArr vs) \<Rightarrow>
          if max_collection_items < length vs then coordination_type_error (limited_to ''requiredCapabilities'')
          else if vs = [] then Inr [] else normalize_unique_tokens vs ''requiredCapabilities''
      | _ \<Rightarrow> coordination_type_error (limited_to ''requiredCapabilities''))"

definition normalize_context :: "json option \<Rightarrow> string \<Rightarrow> string \<Rightarrow> context_package coordinated" where
  "normalize_context v m t =
     (case v of
        Some (JObj props) \<Rightarrow>
          and_then (ensure (exactly_keys props [''missionId'', ''resultHash'', ''selectedIds'', ''sourceFingerprint'', ''taskId''])
            (CoordinationTypeError ''taskSpec.context contains missing or unsupported fields.'')) (\<lambda>_.
          and_then (ensure (own_property props ''missionId'' = Some (JStr m) \<and> own_property props ''taskId'' = Some (JStr t))
            (CoordinationTypeError ''Context package is foreign to its mission or task.'')) (\<lambda>_.
          and_then (coordination_sha256 (own_property props ''resultHash'') ''context.resultHash'') (\<lambda>resultHash.
          and_then (coordination_sha256 (own_property props ''sourceFingerprint'') ''context.sourceFingerprint'') (\<lambda>fingerprint.
          case own_property props ''selectedIds'' of
            Some (JArr vs) \<Rightarrow>
              if max_collection_items < length vs then coordination_type_error (limited_to ''context.selectedIds'')
              else and_then (traverse (\<lambda>i. coordination_identifier (Some i) ''context.selectedIds'') vs) (\<lambda>ids.
                if \<not> distinct ids then coordination_type_error ''context.selectedIds must not contain duplicates.''
                else Inr \<lparr>ctx_missionId = m, ctx_taskId = t, ctx_resultHash = resultHash, ctx_sourceFingerprint = fingerprint,
                       ctx_selectedIds = js_sort code_unit_compare ids\<rparr>)
          | _ \<Rightarrow> coordination_type_error (limited_to ''context.selectedIds'')))))
      | _ \<Rightarrow> coordination_type_error ''taskSpec.context must be an object.'')"

text \<open>One candidate, given the task ids of the mission and those that already have a specification.\<close>

definition normalize_task_spec :: "(string \<Rightarrow> string \<Rightarrow> int) \<Rightarrow> string \<Rightarrow> string list \<Rightarrow> string list \<Rightarrow> json \<Rightarrow> task_spec coordinated" where
  "normalize_task_spec lc m taskIds seen v =
     (case v of
        JObj props \<Rightarrow>
          and_then (ensure (exactly_keys props [''context'', ''goal'', ''ownership'', ''requiredCapabilities'', ''role'', ''taskId''])
            (CoordinationTypeError ''taskSpec contains missing or unsupported fields.'')) (\<lambda>_.
          and_then (coordination_identifier (own_property props ''taskId'') ''taskSpec.taskId'') (\<lambda>t.
          and_then (ensure (t \<in> set taskIds) (CoordinationTypeError (''Task specification references unknown task '' @ quoted t @ ''.''))) (\<lambda>_.
          and_then (ensure (t \<notin> set seen) (CoordinationTypeError (''Duplicate task specification '' @ quoted t @ ''.''))) (\<lambda>_.
          and_then (coordination_text (own_property props ''goal'') ''taskSpec.goal'' 2000) (\<lambda>goal.
          and_then (coordination_token (own_property props ''role'') ''taskSpec.role'') (\<lambda>role.
          and_then (normalize_capability_list (own_property props ''requiredCapabilities'')) (\<lambda>capabilities.
          and_then (normalize_ownership_claims lc (own_property props ''ownership'') ''taskSpec.ownership'') (\<lambda>ownership.
          and_then (normalize_context (own_property props ''context'') m t) (\<lambda>context.
          Inr \<lparr>spec_taskId = t, spec_goal = goal, spec_role = role, spec_requiredCapabilities = capabilities,
            spec_ownership = ownership, spec_context = context\<rparr>)))))))))
      | _ \<Rightarrow> coordination_type_error ''Task specification must be an object.'')"

primrec normalize_specs :: "(string \<Rightarrow> string \<Rightarrow> int) \<Rightarrow> string \<Rightarrow> string list \<Rightarrow> task_spec list \<Rightarrow> json list \<Rightarrow> task_spec list coordinated" where
  "normalize_specs lc m taskIds specs [] = Inr specs"
| "normalize_specs lc m taskIds specs (v # vs) =
     and_then (normalize_task_spec lc m taskIds (map spec_taskId specs) v) (\<lambda>x. normalize_specs lc m taskIds (specs @ [x]) vs)"

definition normalize_task_specs :: "(string \<Rightarrow> string \<Rightarrow> int) \<Rightarrow> mission_snapshot \<Rightarrow> json list \<Rightarrow> task_spec list coordinated" where
  "normalize_task_specs lc snapshot vs =
     and_then (ensure (length vs \<le> max_collection_items) (CoordinationTypeError (limited_to ''taskSpecs''))) (\<lambda>_.
     and_then (ensure (distinct (map task_id (tasks snapshot))) (CoordinationTypeError ''Mission snapshot contains duplicate task IDs.'')) (\<lambda>_.
     and_then (for_each (\<lambda>t. and_then (coordination_identifier (given (task_id t)) ''mission.task.id'') (\<lambda>_.
        and_then (coordination_text (given (task_title t)) ''mission.task.title'' 2000) (\<lambda>_. Inr ()))) (tasks snapshot)) (\<lambda>_.
     normalize_specs lc (snap_id snapshot) (map task_id (tasks snapshot)) [] vs)))"

section \<open>Planning\<close>

definition deferral :: "string \<Rightarrow> deferral_reason \<Rightarrow> string list \<Rightarrow> coordination_deferral" where
  "deferral t reason conflicts = \<lparr>df_taskId = t, df_reason = reason,
     df_conflictsWithTaskIds = js_sort code_unit_compare conflicts\<rparr>"

definition make_lease :: "coordinator_options \<Rightarrow> (json \<Rightarrow> string) \<Rightarrow> string \<Rightarrow> task_spec \<Rightarrow> specialist_profile \<Rightarrow> string \<Rightarrow> int
    \<Rightarrow> ownership_lease" where
  "make_lease c digest m spec specialist issued generation =
     \<lparr>lease_id = ''lease:'' @ coordination_hash digest (JObj (lease_identity generation issued m (pf_id specialist) (pf_version specialist) (spec_taskId spec))),
      lease_generation = generation, lease_missionId = m, lease_taskId = spec_taskId spec,
      lease_specialistId = pf_id specialist, lease_specialistVersion = pf_version specialist, lease_issuedAt = issued,
      lease_expiresAt = iso_text (parse_timestamp issued + leaseDurationMs c), lease_claims = spec_ownership spec\<rparr>"

definition assignment_identity :: "int \<Rightarrow> string \<Rightarrow> string \<Rightarrow> int \<Rightarrow> string \<Rightarrow> string \<Rightarrow> string \<Rightarrow> json" where
  "assignment_identity generation leaseId m vers specialist specialistVers t =
     JObj [(''generation'', JInt generation), (''leaseId'', JStr leaseId), (''missionId'', JStr m), (''missionVersion'', JInt vers),
       (''specialistId'', JStr specialist), (''specialistVersion'', JStr specialistVers), (''taskId'', JStr t)]"

definition make_assignment :: "(json \<Rightarrow> string) \<Rightarrow> mission_snapshot \<Rightarrow> string \<Rightarrow> task_spec \<Rightarrow> ownership_lease \<Rightarrow> specialist_assignment" where
  "make_assignment digest snapshot title spec l =
     (let a = \<lparr>as_id = ''assignment:'' @ coordination_hash digest (assignment_identity (lease_generation l) (lease_id l) (snap_id snapshot)
              (version snapshot) (lease_specialistId l) (lease_specialistVersion l) (spec_taskId spec)),
            as_missionId = snap_id snapshot, as_missionVersion = version snapshot, as_taskId = spec_taskId spec, as_title = title,
            as_goal = spec_goal spec, as_role = spec_role spec, as_requiredCapabilities = spec_requiredCapabilities spec,
            as_context = spec_context spec, as_lease = l, as_assignmentHash = []\<rparr> in
      a\<lparr>as_assignmentHash := coordination_hash digest (JObj (assignment_base a))\<rparr>)"

definition reserve_assignment :: "coordinator_options \<Rightarrow> (json \<Rightarrow> string) \<Rightarrow> mission_snapshot \<Rightarrow> string \<Rightarrow> task_spec
    \<Rightarrow> specialist_profile \<Rightarrow> string \<Rightarrow> coordinator \<Rightarrow> coordinator \<times> specialist_assignment" where
  "reserve_assignment c digest snapshot title spec specialist issued s =
     (let generation = leaseGeneration s + 1;
          l = make_lease c digest (snap_id snapshot) spec specialist issued generation;
          a = make_assignment digest snapshot title spec l in
      (s\<lparr>leaseGeneration := generation, leases := set_lease l (leases s)\<rparr>, a))"

text \<open>What the loop of \<open>plan\<close> does with one pending task: defer it, or assign it to a specialist.\<close>

datatype task_choice = DeferTask deferral_reason "string list" | AssignTask task_spec specialist_profile

definition choose_for_task :: "coordinator_options \<Rightarrow> (string \<Rightarrow> string \<Rightarrow> int) \<Rightarrow> mission_snapshot \<Rightarrow> task_spec list \<Rightarrow> nat
    \<Rightarrow> coordinator \<Rightarrow> mission_task \<Rightarrow> task_choice coordinated" where
  "choose_for_task c lc snapshot specs assigned s t =
     (if task_id t \<notin> task_id ` set (runnable_tasks lc snapshot) then Inr (DeferTask DependencyBlocked [])
      else (case find (\<lambda>x. spec_taskId x = task_id t) specs of
          None \<Rightarrow> Inr (DeferTask MissingSpec [])
        | Some spec \<Rightarrow>
        (case active_task_lease lc s (snap_id snapshot) (task_id t) of
          Some l \<Rightarrow> Inr (DeferTask TaskAlreadyLeased [lease_taskId l])
        | None \<Rightarrow>
            if maxBatchSize c \<le> int assigned then Inr (DeferTask BatchLimit [])
            else if maxActiveAssignments c \<le> int (length (leases s)) then Inr (DeferTask RuntimeCapacity [])
            else and_then (matching_specialists lc (specialists s) (spec_role spec) (spec_requiredCapabilities spec)) (\<lambda>candidates.
              if candidates = [] then Inr (DeferTask MissingSpecialist [])
              else (case find (\<lambda>p. active_specialist_count s p < pf_maxConcurrency p) candidates of
                  None \<Rightarrow> Inr (DeferTask SpecialistCapacity [])
                | Some p \<Rightarrow>
                    (let conflicts = conflicting_task_ids (spec_ownership spec) (active_leases_sorted lc s) in
                     if conflicts \<noteq> [] then Inr (DeferTask OwnershipConflict conflicts) else Inr (AssignTask spec p)))))))"

primrec plan_tasks :: "coordinator_options \<Rightarrow> (string \<Rightarrow> string \<Rightarrow> int) \<Rightarrow> (json \<Rightarrow> string) \<Rightarrow> mission_snapshot \<Rightarrow> task_spec list
    \<Rightarrow> string \<Rightarrow> mission_task list \<Rightarrow> coordinator \<Rightarrow> specialist_assignment list \<Rightarrow> coordination_deferral list
    \<Rightarrow> (specialist_assignment list \<times> coordination_deferral list) coordinating" where
  "plan_tasks c lc digest snapshot specs createdAt [] s assignments deferred = (s, Inr (assignments, deferred))"
| "plan_tasks c lc digest snapshot specs createdAt (t # ts) s assignments deferred =
     (case choose_for_task c lc snapshot specs (length assignments) s t of
        Inl e \<Rightarrow> (s, Inl e)
      | Inr (DeferTask reason conflicts) \<Rightarrow>
          plan_tasks c lc digest snapshot specs createdAt ts s assignments (deferred @ [deferral (task_id t) reason conflicts])
      | Inr (AssignTask spec p) \<Rightarrow>
          (let (s', a) = reserve_assignment c digest snapshot (task_title t) spec p createdAt s in
           plan_tasks c lc digest snapshot specs createdAt ts s' (assignments @ [a]) deferred))"

definition pending_tasks :: "(string \<Rightarrow> string \<Rightarrow> int) \<Rightarrow> mission_snapshot \<Rightarrow> mission_task list" where
  "pending_tasks lc snapshot = js_sort (runnable_compare lc)
     (filter (\<lambda>t. js_get (taskStatuses snapshot) (task_id t) = Own PENDING) (tasks snapshot))"

definition make_plan :: "(json \<Rightarrow> string) \<Rightarrow> int \<Rightarrow> mission_snapshot \<Rightarrow> string \<Rightarrow> specialist_assignment list \<Rightarrow> coordination_deferral list
    \<Rightarrow> coordination_plan" where
  "make_plan digest generation snapshot createdAt assignments deferred =
     (let p = \<lparr>plan_generation = generation, plan_missionId = snap_id snapshot, plan_missionVersion = version snapshot,
            plan_createdAt = createdAt, plan_assignments = assignments, plan_deferred = deferred, plan_planHash = []\<rparr> in
      p\<lparr>plan_planHash := coordination_hash digest (JObj (plan_base p))\<rparr>)"

definition finish_plan :: "coordinator_options \<Rightarrow> (json \<Rightarrow> string) \<Rightarrow> mission_snapshot \<Rightarrow> string \<Rightarrow> int
    \<Rightarrow> specialist_assignment list \<Rightarrow> coordination_deferral list \<Rightarrow> coordinator \<Rightarrow> coordinator \<times> coordination_plan" where
  "finish_plan c digest snapshot createdAt nowMs assignments deferred s =
     (let generation = planGeneration s + 1;
          p = make_plan digest generation snapshot createdAt assignments deferred;
          r = \<lparr>pr_plan = p, pr_controllers = [], pr_expiresAtMs = nowMs + leaseDurationMs c, pr_state = PlanReserved\<rparr> in
      (s\<lparr>planGeneration := generation, plans := set_record r (plans s)\<rparr>, p))"

definition plan_batch :: "coordinator_options \<Rightarrow> (string \<Rightarrow> string \<Rightarrow> int) \<Rightarrow> (json \<Rightarrow> string) \<Rightarrow> string \<Rightarrow> mission_snapshot
    \<Rightarrow> json list \<Rightarrow> coordinator \<Rightarrow> coordination_plan coordinating" where
  "plan_batch c lc digest clock snapshot taskSpecs s0 =
     then_do (check_first (ensure (mstate snapshot = EXECUTING)
        (CoordinationError ''Specialist work may only be planned while a mission is EXECUTING.'')) s0) (\<lambda>s _.
     then_do (check_first (coordination_identifier (given (snap_id snapshot)) ''mission.id'') s) (\<lambda>s _.
     then_do (check_first (ensure (safe_integer (version snapshot) \<and> 1 \<le> version snapshot)
        (CoordinationError ''Mission version must be a positive safe integer.'')) s) (\<lambda>s _.
     then_do (read_clock clock s) (\<lambda>s nowMs.
     then_do (prune_plan_records c (expire_plans digest nowMs s)) (\<lambda>s _.
     then_do (check_first (ensure (planGeneration s \<noteq> max_safe_integer)
        (CoordinationError ''Coordination plan generation is exhausted.'')) s) (\<lambda>s _.
     then_do (check_first (ensure (length (tasks snapshot) \<le> max_collection_items)
        (CoordinationError ''Mission task coordination is limited to 128 tasks.'')) s) (\<lambda>s _.
     then_do (check_first (normalize_task_specs lc snapshot taskSpecs) s) (\<lambda>s specs.
     then_do (check_first (ensure (leaseGeneration s \<le> max_safe_integer - min (maxBatchSize c) (int (length (pending_tasks lc snapshot))))
        (CoordinationError ''Specialist lease generation is exhausted.'')) s) (\<lambda>s _.
     then_do (plan_tasks c lc digest snapshot specs clock (pending_tasks lc snapshot) s [] []) (\<lambda>s planned.
     let (s', p) = finish_plan c digest snapshot clock nowMs (fst planned) (snd planned) s in (s', Inr p)))))))))))"

section \<open>Execution\<close>

fun check_assignments :: "(json \<Rightarrow> string) \<Rightarrow> coordination_plan \<Rightarrow> ownership_lease list \<Rightarrow> int \<Rightarrow> string list \<Rightarrow> string list
    \<Rightarrow> specialist_assignment list \<Rightarrow> unit coordinated" where
  "check_assignments digest p ls nowMs assignmentIds leaseIds [] = Inr ()"
| "check_assignments digest p ls nowMs assignmentIds leaseIds (a # as) =
     and_then (ensure (coordination_hash digest (JObj (assignment_base a)) = as_assignmentHash a)
       (CoordinationError ''Specialist assignment failed integrity validation.'')) (\<lambda>_.
     and_then (ensure (as_id a \<notin> set assignmentIds \<and> lease_id (as_lease a) \<notin> set leaseIds)
       (CoordinationError ''Coordination plan contains duplicate assignments or leases.'')) (\<lambda>_.
     and_then (ensure (case find_lease ls (lease_id (as_lease a)) of None \<Rightarrow> False
         | Some active \<Rightarrow> coordination_hash digest (lease_value active) = coordination_hash digest (lease_value (as_lease a)))
       (CoordinationError ''Specialist assignment lease is missing or no longer active.'')) (\<lambda>_.
     and_then (canonical_timestamp (lease_expiresAt (as_lease a)) ''lease.expiresAt'') (\<lambda>expiresMs.
     and_then (ensure (nowMs < expiresMs) (CoordinationError ''Specialist assignment lease has expired.'')) (\<lambda>_.
     and_then (ensure (as_missionId a = plan_missionId p \<and> as_missionVersion a = plan_missionVersion p \<and>
         as_taskId a = lease_taskId (as_lease a) \<and> as_missionId a = lease_missionId (as_lease a))
       (CoordinationError ''Specialist assignment binding is invalid.'')) (\<lambda>_.
     check_assignments digest p ls nowMs (as_id a # assignmentIds) (lease_id (as_lease a) # leaseIds) as))))))"

definition assert_authentic_plan :: "(json \<Rightarrow> string) \<Rightarrow> coordination_plan \<Rightarrow> plan_record \<Rightarrow> ownership_lease list \<Rightarrow> int \<Rightarrow> unit coordinated" where
  "assert_authentic_plan digest p r ls nowMs =
     and_then (coordination_sha256 (given (plan_planHash p)) ''plan.planHash'') (\<lambda>_.
     and_then (ensure (coordination_hash digest (JObj (plan_base p)) = plan_planHash p \<and>
         coordination_hash digest (plan_value p) = coordination_hash digest (plan_value (pr_plan r)) \<and>
         plan_missionId p = plan_missionId (pr_plan r) \<and> plan_missionVersion p = plan_missionVersion (pr_plan r))
       (CoordinationError ''Coordination plan failed integrity validation.'')) (\<lambda>_.
     check_assignments digest p ls nowMs [] [] (plan_assignments p)))"

text \<open>
  The first, synchronous part of \<open>executeAssignment\<close>: the controller is registered, and removed again when the
  registry has no such worker, which settles the assignment as failed.
\<close>

definition start_assignment :: "(json \<Rightarrow> string) \<Rightarrow> specialist_profile list \<Rightarrow> specialist_assignment \<Rightarrow> task_reconciliation option" where
  "start_assignment digest regs a =
     (case resolve_specialist regs (lease_specialistId (as_lease a)) (lease_specialistVersion (as_lease a)) of
        Inl e \<Rightarrow> Some (execution_failure_reconciliation digest a WorkerFailed)
      | Inr p \<Rightarrow> None)"

definition unsettled :: "'a option list \<Rightarrow> nat list" where
  "unsettled xs = filter (\<lambda>i. xs ! i = None) [0..<length xs]"

definition begin_execution :: "(json \<Rightarrow> string) \<Rightarrow> string \<Rightarrow> coordination_plan \<Rightarrow> coordinator \<Rightarrow> unit coordinating" where
  "begin_execution digest clock p s0 =
     then_do (read_clock clock s0) (\<lambda>s1 nowMs.
     let s = expire_plans digest nowMs s1 in
     case find_record s (plan_planHash p) of
       None \<Rightarrow> (s, Inl (CoordinationError ''Unknown or foreign coordination plan.''))
     | Some r \<Rightarrow>
         if pr_state r \<noteq> PlanReserved
         then (s, Inl (CoordinationError ''Coordination plan was already released, executed, or replayed.''))
         else (case assert_authentic_plan digest p r (leases s) nowMs of
             Inl e \<Rightarrow> (release_record digest (record_hash r) s, Inl e)
           | Inr _ \<Rightarrow>
               (let started = map (start_assignment digest (specialists s)) (plan_assignments (pr_plan r)) in
                (update_record (record_hash r) (\<lambda>x. x\<lparr>pr_state := PlanExecuting, pr_controllers := unsettled started\<rparr>)
                   (s\<lparr>executions := executions s @ [\<lparr>ex_plan = pr_plan r, ex_outcomes = started\<rparr>]\<rparr>), Inr ()))))"

datatype worker_outcome = WorkerReplied json string | WorkerRejected | WorkerTimedOut

text \<open>The answer of the worker of the \<open>i\<close>th assignment, with the clock read when it arrives.\<close>

definition settle_assignment :: "coordinator_options \<Rightarrow> (string \<Rightarrow> string \<Rightarrow> int) \<Rightarrow> (json \<Rightarrow> string) \<Rightarrow> specialist_assignment
    \<Rightarrow> worker_outcome \<Rightarrow> coordinator \<Rightarrow> coordinator \<times> task_reconciliation" where
  "settle_assignment c lc digest a outc s =
     (case outc of
        WorkerReplied proposal clock \<Rightarrow>
          (case read_clock clock s of
             (s', Inl e) \<Rightarrow> (s', execution_failure_reconciliation digest a WorkerFailed)
           | (s', Inr receivedAtMs) \<Rightarrow> (s', reconcile_proposal lc digest a proposal receivedAtMs (authority_of c)))
      | WorkerRejected \<Rightarrow> (s, execution_failure_reconciliation digest a WorkerFailed)
      | WorkerTimedOut \<Rightarrow> (s, execution_failure_reconciliation digest a WorkerTimeout))"

definition worker_answers :: "coordinator_options \<Rightarrow> (string \<Rightarrow> string \<Rightarrow> int) \<Rightarrow> (json \<Rightarrow> string) \<Rightarrow> string \<Rightarrow> nat \<Rightarrow> worker_outcome
    \<Rightarrow> coordinator \<Rightarrow> coordinator" where
  "worker_answers c lc digest h i outc s =
     (case find (\<lambda>e. plan_planHash (ex_plan e) = h) (executions s) of
        None \<Rightarrow> s
      | Some e \<Rightarrow>
          if i < length (ex_outcomes e) \<and> i < length (plan_assignments (ex_plan e)) \<and> ex_outcomes e ! i = None
          then (let (s', r) = settle_assignment c lc digest (plan_assignments (ex_plan e) ! i) outc s in
                update_record h (\<lambda>x. x\<lparr>pr_controllers := filter (\<lambda>j. j \<noteq> i) (pr_controllers x)\<rparr>)
                  (s'\<lparr>executions := map (\<lambda>x. if plan_planHash (ex_plan x) = h then x\<lparr>ex_outcomes := (ex_outcomes x)[i := Some r]\<rparr> else x) (executions s'),
                      aborted := (if outc = WorkerTimedOut then aborted s' @ [(h, i)] else aborted s')\<rparr>))
          else s)"

record batch_result =
  br_missionId :: string
  br_planHash :: string
  br_completedAt :: string
  br_reconciliations :: "task_reconciliation list"
  br_acceptedTaskIds :: "string list"
  br_retryTaskIds :: "string list"
  br_blockedTaskIds :: "string list"
  br_resultHash :: string

definition reconciliation_value :: "task_reconciliation \<Rightarrow> json" where
  "reconciliation_value r = JObj (reconciliation_base r @ [(''reconciliationHash'', JStr (rec_reconciliationHash r))])"

definition task_ids_for_outcome :: "task_reconciliation list \<Rightarrow> reconciliation_outcome \<Rightarrow> string list" where
  "task_ids_for_outcome rs outc = map rec_taskId (filter (\<lambda>r. rec_outcome r = outc) rs)"

definition batch_base :: "batch_result \<Rightarrow> (string \<times> json) list" where
  "batch_base b =
     [(''acceptedTaskIds'', JTexts (br_acceptedTaskIds b)), (''blockedTaskIds'', JTexts (br_blockedTaskIds b)),
      (''completedAt'', JStr (br_completedAt b)), (''missionId'', JStr (br_missionId b)), (''planHash'', JStr (br_planHash b)),
      (''reconciliations'', JArr (map reconciliation_value (br_reconciliations b))),
      (''retryTaskIds'', JTexts (br_retryTaskIds b)), (''schemaVersion'', JInt 1)]"

definition create_batch_result :: "(json \<Rightarrow> string) \<Rightarrow> coordination_plan \<Rightarrow> string \<Rightarrow> task_reconciliation list \<Rightarrow> batch_result" where
  "create_batch_result digest p completedAt rs =
     (let b = \<lparr>br_missionId = plan_missionId p, br_planHash = plan_planHash p, br_completedAt = completedAt, br_reconciliations = rs,
            br_acceptedTaskIds = task_ids_for_outcome rs ReconcileAccepted, br_retryTaskIds = task_ids_for_outcome rs RetryRequired,
            br_blockedTaskIds = task_ids_for_outcome rs ReconcileBlocked, br_resultHash = []\<rparr> in
      b\<lparr>br_resultHash := coordination_hash digest (JObj (batch_base b))\<rparr>)"

text \<open>The rest of \<open>execute\<close> once every assignment is settled; \<open>None\<close> while one is not.\<close>

definition finish_execution :: "(json \<Rightarrow> string) \<Rightarrow> string \<Rightarrow> string \<Rightarrow> coordinator \<Rightarrow> (coordinator \<times> batch_result coordinated) option" where
  "finish_execution digest h clock s =
     (case find (\<lambda>e. plan_planHash (ex_plan e) = h) (executions s) of
        None \<Rightarrow> None
      | Some e \<Rightarrow>
          if None \<in> set (ex_outcomes e) then None
          else (let s1 = s\<lparr>executions := filter (\<lambda>x. plan_planHash (ex_plan x) \<noteq> h) (executions s)\<rparr> in
            if (case find_record s h of None \<Rightarrow> True | Some r \<Rightarrow> pr_state r \<noteq> PlanExecuting)
            then Some (release_record digest h s1, Inl (CoordinationError ''Coordination plan was released during execution.''))
            else (case read_clock clock s1 of
                (s2, Inl err) \<Rightarrow> Some (release_record digest h s2, Inl err)
              | (s2, Inr _) \<Rightarrow> Some (release_record digest h s2, Inr (create_batch_result digest (ex_plan e) clock (map the (ex_outcomes e)))))))"

definition release_plan :: "(json \<Rightarrow> string) \<Rightarrow> string \<Rightarrow> coordinator \<Rightarrow> bool coordinating" where
  "release_plan digest h s =
     then_do (check_first (coordination_sha256 (given h) ''planHash'') s) (\<lambda>s _.
     case find_record s h of
       None \<Rightarrow> (s, Inr False)
     | Some r \<Rightarrow> if pr_state r = PlanReleased then (s, Inr False) else (release_record digest h s, Inr True))"

definition active_leases :: "(string \<Rightarrow> string \<Rightarrow> int) \<Rightarrow> (json \<Rightarrow> string) \<Rightarrow> string \<Rightarrow> coordinator \<Rightarrow> ownership_lease list coordinating" where
  "active_leases lc digest clock s0 =
     then_do (read_clock clock s0) (\<lambda>s nowMs.
     (expire_plans digest nowMs s, Inr (active_leases_sorted lc (expire_plans digest nowMs s))))"

definition register_worker :: "specialist_profile \<Rightarrow> bool \<Rightarrow> coordinator \<Rightarrow> unit coordinating" where
  "register_worker profile has_execute s =
     (case register_specialist (specialists s) profile has_execute of
        Inl e \<Rightarrow> (s, Inl e)
      | Inr regs \<Rightarrow> (s\<lparr>specialists := regs\<rparr>, Inr ()))"

end
