(* ===== verification/CoordinationFacts.thy ===== *)
theory CoordinationFacts
  imports Coordinator
begin

text \<open>
  Facts about claims, checks and proposals that the invariants and properties of the coordinator share.
\<close>

section \<open>Claims\<close>

lemma starts_with_iff: "starts_with s p \<longleftrightarrow> (\<exists>rest. s = p @ rest)"
  by (metis append_eq_conv_conj append_take_drop_id starts_with_def)

lemma claims_conflict_sym: "claims_conflict a b \<Longrightarrow> claims_conflict b a"
  by (auto simp: claims_conflict_def repository_keys_intersect_def split: if_splits)

lemma keys_above_one_path:
  assumes "path = k \<or> starts_with path (k @ ''/'')" and "path = k' \<or> starts_with path (k' @ ''/'')"
  shows "repository_keys_intersect k k'"
proof -
  have ext: "\<exists>rest. path @ ''/'' = k @ ''/'' @ rest" if "path = k \<or> starts_with path (k @ ''/'')" for k
    using that by (auto simp: starts_with_iff)
  from ext [OF assms(1)] ext [OF assms(2)] obtain x y where "k @ ''/'' @ x = k' @ ''/'' @ y" by metis
  then obtain us where us: "k @ ''/'' = k' @ ''/'' @ us \<or> k' @ ''/'' = k @ ''/'' @ us"
    by (metis append_assoc append_eq_append_conv2)
  have step: "l = l' \<or> starts_with l (l' @ ''/'')" if "l @ ''/'' = l' @ ''/'' @ us" for l l'
  proof (cases us rule: rev_cases)
    case Nil
    with that show ?thesis by simp
  next
    case (snoc vs v)
    with that have "l = l' @ ''/'' @ vs" by simp
    then show ?thesis by (auto simp: starts_with_iff)
  qed
  from us step [of k k'] step [of k' k] show ?thesis by (auto simp: repository_keys_intersect_def)
qed

definition owns_path :: "ownership_claim list \<Rightarrow> string \<Rightarrow> bool" where
  "owns_path claims path \<longleftrightarrow> (\<exists>c \<in> set claims. claim_namespace c = Repository \<and> claim_access c = WriteAccess \<and>
     (path = claim_key c \<or> starts_with path (claim_key c @ ''/'')))"

definition lease_conflict :: "ownership_lease \<Rightarrow> ownership_lease \<Rightarrow> bool" where
  "lease_conflict l l' \<longleftrightarrow> (\<exists>c \<in> set (lease_claims l). \<exists>d \<in> set (lease_claims l'). claims_conflict c d)"

lemma lease_conflict_sym: "lease_conflict l l' \<longleftrightarrow> lease_conflict l' l"
  unfolding lease_conflict_def using claims_conflict_sym by blast

lemma owners_conflict:
  assumes "owns_path (lease_claims l) path" and "owns_path (lease_claims l') path"
  shows "lease_conflict l l'"
proof -
  from assms obtain c d where "c \<in> set (lease_claims l)" "d \<in> set (lease_claims l')" "claims_conflict c d"
    unfolding owns_path_def claims_conflict_def by (metis keys_above_one_path ownership_access.distinct(1))
  then show ?thesis by (auto simp: lease_conflict_def)
qed

lemma conflicting_task_ids_Nil:
  "conflicting_task_ids claims ls = [] \<longleftrightarrow> (\<forall>l \<in> set ls. \<forall>c \<in> set claims. \<forall>d \<in> set (lease_claims l). \<not> claims_conflict c d)"
proof -
  have "js_sort code_unit_compare xs = [] \<longleftrightarrow> xs = []" for xs :: "string list"
    by (metis length_0_conv length_js_sort)
  then show ?thesis by (auto simp: conflicting_task_ids_def filter_empty_conv list_ex_iff)
qed

section \<open>Checks\<close>

lemma coordination_text_Inr [result_simps]:
  "coordination_text v name n = Inr s \<longleftrightarrow> v = Some (JStr s) \<and> \<not> blank s \<and> length s \<le> n"
  by (auto simp: coordination_text_def coordination_type_error_def split: option.splits json.splits)

lemma coordination_identifier_Inr [result_simps]:
  "coordination_identifier v name = Inr s \<longleftrightarrow> v = Some (JStr s) \<and> \<not> blank s \<and> length s \<le> 200 \<and> coordination_pattern s \<and> \<not> has_double_dot s"
  by (auto simp: coordination_identifier_def coordination_type_error_def and_then_Inr coordination_text_Inr)

lemma coordination_token_Inr [result_simps]:
  "coordination_token v name = Inr s \<longleftrightarrow> v = Some (JStr s) \<and> token_pattern s"
  by (auto simp: coordination_token_def coordination_type_error_def split: option.splits json.splits)

lemma coordination_sha256_Inr [result_simps]:
  "coordination_sha256 v name = Inr s \<longleftrightarrow> v = Some (JStr s) \<and> sha256_pattern s"
  by (auto simp: coordination_sha256_def coordination_type_error_def split: option.splits json.splits)

lemma canonical_timestamp_Inr [result_simps]:
  "canonical_timestamp s name = Inr ms \<longleftrightarrow> timestamp_pattern s \<and> iso_text (parse_timestamp s) = s \<and> ms = parse_timestamp s"
  by (auto simp: canonical_timestamp_def coordination_type_error_def)

lemma normalize_repository_path_Inr [result_simps]:
  "normalize_repository_path v name = Inr s \<longleftrightarrow> v = Some (JStr s) \<and> \<not> blank s \<and> length s \<le> 1000 \<and> relative_path s"
  by (auto simp: normalize_repository_path_def coordination_type_error_def and_then_Inr coordination_text_Inr)

lemma traverse_tokens:
  "traverse (\<lambda>v. coordination_token (Some v) name) (map JStr ts) = Inr us \<longleftrightarrow> us = ts \<and> list_all token_pattern ts"
  by (induction ts arbitrary: us) (auto simp: and_then_Inr coordination_token_Inr)

lemma normalize_unique_tokens_Inr:
  "normalize_unique_tokens vs name = Inr ts \<Longrightarrow>
     list_all token_pattern ts \<and> distinct ts \<and> ts \<noteq> [] \<and> length ts \<le> max_collection_items \<and> mset (map JStr ts) = mset vs"
proof -
  assume a: "normalize_unique_tokens vs name = Inr ts"
  then obtain us where us: "traverse (\<lambda>v. coordination_token (Some v) name) vs = Inr us" "distinct us"
      "ts = js_sort code_unit_compare us" "vs \<noteq> []" "length vs \<le> max_collection_items"
    by (auto simp: normalize_unique_tokens_def coordination_type_error_def and_then_Inr split: if_splits)
  have vs: "vs = map JStr us \<and> list_all token_pattern us"
    using us(1) by (induction vs arbitrary: us) (auto simp: and_then_Inr coordination_token_Inr)
  have m: "mset ts = mset us" using us(3) by simp
  then have "distinct ts" using us(2) mset_eq_imp_distinct_iff by blast
  moreover have "list_all token_pattern ts" using vs us(3) by (simp add: list_all_iff)
  moreover have "length ts = length vs" using vs us(3) by simp
  moreover have "mset (map JStr ts) = mset vs" using vs m by (metis mset_map)
  ultimately show ?thesis using us(4,5) by auto
qed

lemma normalize_unique_tokens_again:
  "list_all token_pattern ts \<Longrightarrow> distinct ts \<Longrightarrow> ts \<noteq> [] \<Longrightarrow> length ts \<le> max_collection_items \<Longrightarrow>
     normalize_unique_tokens (map JStr ts) name = Inr (js_sort code_unit_compare ts)"
proof -
  assume a: "list_all token_pattern ts" "distinct ts" "ts \<noteq> []" "length ts \<le> max_collection_items"
  then have "traverse (\<lambda>v. coordination_token (Some v) name) (map JStr ts) = Inr ts" by (simp add: traverse_tokens)
  with a show ?thesis by (simp add: normalize_unique_tokens_def)
qed

section \<open>Proposals\<close>

lemma normalize_file_changed_Inr:
  "normalize_file_changed a v = Inr f \<Longrightarrow> owns_path (lease_claims (as_lease a)) f"
  by (cases v) (auto simp: normalize_file_changed_def path_is_owned_for_write_def coordination_type_error_def and_then_Inr
    normalize_repository_path_Inr owns_path_def list_ex_iff split: if_splits)

lemma normalize_files_changed_Inr:
  assumes "normalize_files_changed a vs = Inr fs" and "f \<in> set fs"
  shows "owns_path (lease_claims (as_lease a)) f"
proof -
  from assms obtain files where files: "traverse (normalize_file_changed a) vs = Inr files" "f \<in> set files"
    by (auto simp: normalize_files_changed_def and_then_Inr)
  then have "\<exists>v. normalize_file_changed a v = Inr f"
    by (auto simp: traverse_Inr list_all2_conv_all_nth in_set_conv_nth)
  then show ?thesis using normalize_file_changed_Inr by blast
qed

definition proposal_accepted :: "specialist_assignment \<Rightarrow> int \<Rightarrow> specialist_result \<Rightarrow> bool" where
  "proposal_accepted a receivedAtMs r \<longleftrightarrow>
     rs_assignmentId r = as_id a \<and> rs_missionId r = as_missionId a \<and> rs_taskId r = as_taskId a \<and>
     rs_specialistId r = lease_specialistId (as_lease a) \<and> rs_specialistVersion r = lease_specialistVersion (as_lease a) \<and>
     parse_timestamp (lease_issuedAt (as_lease a)) \<le> parse_timestamp (rs_startedAt r) \<and>
     parse_timestamp (rs_startedAt r) \<le> parse_timestamp (rs_completedAt r) \<and>
     parse_timestamp (rs_completedAt r) \<le> receivedAtMs \<and> receivedAtMs < parse_timestamp (lease_expiresAt (as_lease a)) \<and>
     \<not> contradictory_outcome (rs_outcome r) (rs_verificationStatus r) \<and> rs_outcome r \<in> set proposal_outcomes \<and>
     (\<forall>f \<in> set (rs_filesChanged r). owns_path (lease_claims (as_lease a)) f)"

lemma validate_proposal_Inr:
  assumes "validate_proposal lc digest a v receivedAtMs = Inr r"
  shows "proposal_accepted a receivedAtMs r"
  using assms
  by (auto simp: validate_proposal_def and_then_Inr ensure_Inr Let_def canonical_timestamp_Inr proposal_accepted_def not_less
    not_le dest: normalize_files_changed_Inr)

end
