(* ===== verification/CoordinationMachine.thy ===== *)
theory CoordinationMachine
  imports CoordinationFacts "HOL-Library.Sublist"
begin

text \<open>
  The coordinator as a machine: any interleaving of its operations from the empty coordinator, with the set
  of values whose hashes it has put into lease and plan identities on the way. The invariant: the active
  leases are exactly those of the plans not released, in the order they were issued, no two of them
  conflict or belong to the same task, and no bound is exceeded.
\<close>

section \<open>Runs\<close>

datatype coordination_event =
    EvRegister specialist_profile bool
  | EvPlan string mission_snapshot "json list"
  | EvBegin string coordination_plan
  | EvAnswer string nat worker_outcome
  | EvFinish string string
  | EvRelease string
  | EvLeases string

primrec coordination_step :: "coordinator_options \<Rightarrow> (string \<Rightarrow> string \<Rightarrow> int) \<Rightarrow> (json \<Rightarrow> string) \<Rightarrow> coordination_event
    \<Rightarrow> coordinator \<Rightarrow> coordinator" where
  "coordination_step c lc digest (EvRegister profile has_execute) s = fst (register_worker profile has_execute s)"
| "coordination_step c lc digest (EvPlan clock snapshot specs) s = fst (plan_batch c lc digest clock snapshot specs s)"
| "coordination_step c lc digest (EvBegin clock p) s = fst (begin_execution digest clock p s)"
| "coordination_step c lc digest (EvAnswer h i outc) s = worker_answers c lc digest h i outc s"
| "coordination_step c lc digest (EvFinish h clock) s = (case finish_execution digest h clock s of None \<Rightarrow> s | Some (s', _) \<Rightarrow> s')"
| "coordination_step c lc digest (EvRelease h) s = fst (release_plan digest h s)"
| "coordination_step c lc digest (EvLeases clock) s = fst (active_leases lc digest clock s)"

definition lease_hashed :: "ownership_lease \<Rightarrow> json" where
  "lease_hashed l = canonicalize (JObj (lease_identity (lease_generation l) (lease_issuedAt l) (lease_missionId l)
     (lease_specialistId l) (lease_specialistVersion l) (lease_taskId l)))"

definition plan_hashed :: "coordination_plan \<Rightarrow> json" where
  "plan_hashed p = canonicalize (JObj (plan_base p))"

definition assignment_hashed :: "specialist_assignment \<Rightarrow> json" where
  "assignment_hashed a = canonicalize (assignment_identity (lease_generation (as_lease a)) (lease_id (as_lease a)) (as_missionId a)
     (as_missionVersion a) (lease_specialistId (as_lease a)) (lease_specialistVersion (as_lease a)) (as_taskId a))"

definition plan_values :: "coordination_plan \<Rightarrow> json set" where
  "plan_values p = insert (plan_hashed p) (lease_hashed ` as_lease ` set (plan_assignments p) \<union>
     assignment_hashed ` set (plan_assignments p))"

definition state_values :: "coordinator \<Rightarrow> json set" where
  "state_values s = (\<Union>p \<in> set (map pr_plan (plans s)). plan_values p)"

text \<open>From a coordinator and the values hashed so far to a later one and the values hashed by then.\<close>

inductive coordinator_steps :: "coordinator_options \<Rightarrow> (string \<Rightarrow> string \<Rightarrow> int) \<Rightarrow> (json \<Rightarrow> string) \<Rightarrow> coordinator \<Rightarrow> json set
    \<Rightarrow> coordinator \<Rightarrow> json set \<Rightarrow> bool"
  for c lc digest s H where
  refl: "coordinator_steps c lc digest s H s H"
| step: "coordinator_steps c lc digest s H t V \<Longrightarrow>
    coordinator_steps c lc digest s H (coordination_step c lc digest ev t) (V \<union> state_values (coordination_step c lc digest ev t))"

abbreviation coordinator_run :: "coordinator_options \<Rightarrow> (string \<Rightarrow> string \<Rightarrow> int) \<Rightarrow> (json \<Rightarrow> string) \<Rightarrow> coordinator \<Rightarrow> json set \<Rightarrow> bool" where
  "coordinator_run c lc digest \<equiv> coordinator_steps c lc digest (new_coordinator []) {}"

section \<open>The invariant\<close>

definition separate :: "ownership_lease \<Rightarrow> ownership_lease \<Rightarrow> bool" where
  "separate l l' \<longleftrightarrow> \<not> lease_conflict l l' \<and> (lease_missionId l, lease_taskId l) \<noteq> (lease_missionId l', lease_taskId l') \<and>
     lease_generation l < lease_generation l'"

definition leases_ok :: "coordinator_options \<Rightarrow> (json \<Rightarrow> string) \<Rightarrow> coordinator \<Rightarrow> bool" where
  "leases_ok c digest s \<longleftrightarrow>
     sorted_wrt separate (leases s) \<and> int (length (leases s)) \<le> maxActiveAssignments c \<and>
     (\<forall>p \<in> set (specialists s). active_specialist_count s p \<le> pf_maxConcurrency p) \<and>
     (\<forall>l \<in> set (leases s).
        (\<exists>p \<in> set (specialists s). lease_specialistId l = pf_id p \<and> lease_specialistVersion l = pf_version p) \<and>
        lease_generation l \<le> leaseGeneration s \<and> lease_id l = ''lease:'' @ digest (lease_hashed l))"

definition unreleased :: "plan_record \<Rightarrow> bool" where
  "unreleased r \<longleftrightarrow> pr_state r \<noteq> PlanReleased"

definition held :: "plan_record list \<Rightarrow> specialist_assignment list" where
  "held rs = concat (map (plan_assignments \<circ> pr_plan) (filter unreleased rs))"

definition held_assignments :: "coordinator \<Rightarrow> specialist_assignment list" where
  "held_assignments s = held (plans s)"

definition older_plan :: "coordination_plan \<Rightarrow> coordination_plan \<Rightarrow> bool" where
  "older_plan p q \<longleftrightarrow> plan_generation p < plan_generation q"

definition plans_ok :: "(json \<Rightarrow> string) \<Rightarrow> int \<Rightarrow> coordination_plan list \<Rightarrow> bool" where
  "plans_ok digest generation ps \<longleftrightarrow> sorted_wrt older_plan ps \<and> distinct (map plan_planHash ps) \<and>
     (\<forall>p \<in> set ps. plan_generation p \<le> generation \<and> plan_planHash p = digest (plan_hashed p))"

definition coordinator_ok :: "coordinator_options \<Rightarrow> (json \<Rightarrow> string) \<Rightarrow> coordinator \<Rightarrow> bool" where
  "coordinator_ok c digest s \<longleftrightarrow> leases_ok c digest s \<and>
     plans_ok digest (planGeneration s) (map pr_plan (plans s)) \<and>
     mset (map as_lease (held_assignments s)) = mset (leases s) \<and> distinct (map profile_key (specialists s))"

text \<open>The generation can be read off the hashed values.\<close>

lemma lease_hashed_generation: "lease_hashed l = lease_hashed l' \<Longrightarrow> lease_generation l = lease_generation l'"
  by (simp add: lease_hashed_def lease_identity_def key_compare_def from_entries_def array_index_name_def digit_char_def)

lemma assignment_hashed_generation:
  "assignment_hashed a = assignment_hashed b \<Longrightarrow> lease_generation (as_lease a) = lease_generation (as_lease b)"
  by (simp add: assignment_hashed_def assignment_identity_def key_compare_def from_entries_def array_index_name_def digit_char_def)

lemma plan_hashed_generation: "plan_hashed p = plan_hashed q \<Longrightarrow> plan_generation p = plan_generation q"
  by (simp add: plan_hashed_def plan_base_def key_compare_def from_entries_def array_index_name_def digit_char_def)

lemma held_simps [simp]:
  "held [] = []" "held (r # rs) = (if unreleased r then plan_assignments (pr_plan r) else []) @ held rs"
  "held (rs @ rs') = held rs @ held rs'"
  by (simp_all add: held_def)

lemma set_held: "a \<in> set (held rs) \<longleftrightarrow> (\<exists>r \<in> set rs. unreleased r \<and> a \<in> set (plan_assignments (pr_plan r)))"
  by (auto simp: held_def)

section \<open>Release and expiry\<close>

lemma held_values: "a \<in> set (held_assignments s) \<Longrightarrow> lease_hashed (as_lease a) \<in> state_values s"
  by (auto simp: held_assignments_def set_held state_values_def plan_values_def)

lemma ok_lease_values:
  assumes "coordinator_ok c digest s" and "l \<in> set (leases s)"
  shows "lease_hashed l \<in> state_values s"
proof -
  have "set (map as_lease (held_assignments s)) = set (leases s)"
    using assms(1) by (metis coordinator_ok_def mset_eq_setD)
  then obtain a where "a \<in> set (held_assignments s)" "l = as_lease a" using assms(2) by auto
  then show ?thesis using held_values by blast
qed

lemma sorted_wrt_distinct_map:
  assumes "sorted_wrt R xs" and "\<And>x y. x \<in> set xs \<Longrightarrow> y \<in> set xs \<Longrightarrow> R x y \<Longrightarrow> f x \<noteq> f y"
  shows "distinct (map f xs)"
  using assms by (induction xs) (auto simp: image_iff)

lemma ok_lease_ids:
  assumes "coordinator_ok c digest s" and "state_values s \<subseteq> V" and "inj_on digest V"
  shows "distinct (map lease_id (leases s))"
proof (rule sorted_wrt_distinct_map)
  show "sorted_wrt separate (leases s)" using assms(1) by (simp add: coordinator_ok_def leases_ok_def)
  fix l l' assume l: "l \<in> set (leases s)" "l' \<in> set (leases s)" "separate l l'"
  then have ids: "lease_id l = ''lease:'' @ digest (lease_hashed l)" "lease_id l' = ''lease:'' @ digest (lease_hashed l')"
    using assms(1) by (simp_all add: coordinator_ok_def leases_ok_def)
  have "lease_hashed l \<noteq> lease_hashed l'" using l(3) lease_hashed_generation [of l l'] by (auto simp: separate_def)
  moreover have "lease_hashed l \<in> V" "lease_hashed l' \<in> V" using ok_lease_values [OF assms(1)] l assms(2) by blast+
  ultimately show "lease_id l \<noteq> lease_id l'" using ids assms(3) by (auto dest: inj_onD)
qed

lemma find_lease_None: "find_lease ls i = None \<longleftrightarrow> i \<notin> lease_id ` set ls"
  by (auto simp: find_lease_def find_None_iff)

lemma find_lease_Some: "find_lease ls i = Some l \<Longrightarrow> l \<in> set ls \<and> lease_id l = i"
  by (auto simp: find_lease_def find_Some_iff)

lemma find_lease_member: "distinct (map lease_id ls) \<Longrightarrow> l \<in> set ls \<Longrightarrow> find_lease ls (lease_id l) = Some l"
  by (induction ls) (auto simp: find_lease_def image_iff)

lemma delete_leases:
  assumes "\<forall>a \<in> set as. \<forall>l \<in> set ls. lease_id l = lease_id (as_lease a) \<longrightarrow> l = as_lease a"
  shows "fold (delete_lease digest) as ls = filter (\<lambda>l. lease_id l \<notin> lease_id ` as_lease ` set as) ls"
  using assms
proof (induction as arbitrary: ls)
  case (Cons a as)
  have "delete_lease digest a ls = filter (\<lambda>l. lease_id l \<noteq> lease_id (as_lease a)) ls"
  proof (cases "find_lease ls (lease_id (as_lease a))")
    case None
    then have "filter (\<lambda>l. lease_id l \<noteq> lease_id (as_lease a)) ls = ls"
      unfolding find_lease_None by (intro filter_True) (metis image_eqI)
    with None show ?thesis by (simp add: delete_lease_def)
  next
    case (Some l)
    then have "l = as_lease a" using find_lease_Some [OF Some] Cons.prems by simp
    with Some show ?thesis by (simp add: delete_lease_def)
  qed
  moreover have "fold (delete_lease digest) as (filter (\<lambda>l. lease_id l \<noteq> lease_id (as_lease a)) ls) =
      filter (\<lambda>l. lease_id l \<notin> lease_id ` as_lease ` set as) (filter (\<lambda>l. lease_id l \<noteq> lease_id (as_lease a)) ls)"
    using Cons.prems by (intro Cons.IH) simp
  ultimately show ?case by (simp add: conj_commute)
qed simp

lemma ok_record_hashes: "coordinator_ok c digest s \<Longrightarrow> distinct (map record_hash (plans s))"
proof -
  have "map record_hash rs = map plan_planHash (map pr_plan rs)" for rs by (simp add: record_hash_def)
  then show "coordinator_ok c digest s \<Longrightarrow> distinct (map record_hash (plans s))"
    unfolding coordinator_ok_def plans_ok_def by metis
qed

lemma find_record_split:
  assumes "find_record s h = Some r" and "distinct (map record_hash (plans s))"
  obtains rs rs' where "plans s = rs @ r # rs'" "record_hash r = h"
    "\<forall>x \<in> set rs \<union> set rs'. record_hash x \<noteq> h"
proof -
  from assms(1) have "r \<in> set (plans s)" "record_hash r = h"
    by (auto simp: find_record_def find_Some_iff)
  moreover from split_list [OF this(1)] obtain rs rs' where parts: "plans s = rs @ r # rs'" by blast
  moreover have "\<forall>x \<in> set rs \<union> set rs'. record_hash x \<noteq> record_hash r"
    using assms(2) unfolding parts by (auto simp: image_iff)
  ultimately show ?thesis using that parts by blast
qed

lemma leases_ok_subset:
  assumes "leases_ok c digest s" and "leases s' = filter P (leases s)" and "specialists s' = specialists s"
    and "leaseGeneration s' = leaseGeneration s"
  shows "leases_ok c digest s'"
proof -
  have fewer: "active_specialist_count s' p \<le> active_specialist_count s p" for p
  proof -
    have swap: "filter Q (filter P ls) = filter P (filter Q ls)" for Q and ls :: "ownership_lease list"
      by (simp add: conj_commute)
    show ?thesis unfolding active_specialist_count_def assms(2) swap by (simp only: of_nat_le_iff length_filter_le)
  qed
  have "int (length (filter P (leases s))) \<le> int (length (leases s))" by simp
  then have "int (length (filter P (leases s))) \<le> maxActiveAssignments c" using assms(1) unfolding leases_ok_def by linarith
  moreover have "sorted_wrt separate (leases s')" using assms(1,2) by (simp add: leases_ok_def sorted_wrt_filter)
  ultimately show ?thesis
    using assms(1,3,4) order_trans [OF fewer] by (auto simp: leases_ok_def assms(2))
qed

text \<open>The record of a hash replaced by its released version.\<close>

lemma release_record_ok:
  assumes ok: "coordinator_ok c digest s" and hashed: "state_values s \<subseteq> V" and inj: "inj_on digest V"
  shows "coordinator_ok c digest (release_record digest h s) \<and> state_values (release_record digest h s) = state_values s"
proof (cases "\<exists>r. find_record s h = Some r \<and> unreleased r")
  case False
  then show ?thesis using ok by (auto simp: release_record_def unreleased_def split: option.splits)
next
  case True
  then obtain r where r: "find_record s h = Some r" "unreleased r" by blast
  have distinct: "distinct (map record_hash (plans s))" by (rule ok_record_hashes [OF ok])
  from find_record_split [OF r(1) distinct] obtain rs rs' where
    split: "plans s = rs @ r # rs'" "record_hash r = h" "\<forall>x \<in> set rs \<union> set rs'. record_hash x \<noteq> h" .
  let ?r = "r\<lparr>pr_controllers := [], pr_state := PlanReleased\<rparr>" and ?s = "release_record digest h s"
  let ?as = "plan_assignments (pr_plan r)" and ?ids = "lease_id ` as_lease ` set (plan_assignments (pr_plan r))"
  have same: "map (\<lambda>x. if record_hash x = h then f x else x) xs = xs" if "\<forall>x \<in> set xs. record_hash x \<noteq> h" for xs and f :: "plan_record \<Rightarrow> plan_record"
    using that by (intro map_idI) auto
  have plans: "plans ?s = rs @ ?r # rs'"
    using r split by (simp add: release_record_def update_record_def unreleased_def same)
  have held: "mset (leases s) = mset (map as_lease (held rs)) + mset (map as_lease ?as) + mset (map as_lease (held rs'))"
    using ok r(2) by (simp add: coordinator_ok_def held_assignments_def split(1) add.assoc)
  have ids: "distinct (map lease_id (map as_lease (held rs) @ map as_lease ?as @ map as_lease (held rs')))"
  proof -
    have "mset (map lease_id (map as_lease (held rs) @ map as_lease ?as @ map as_lease (held rs'))) = mset (map lease_id (leases s))"
      unfolding mset_map [of lease_id] held by simp
    with ok_lease_ids [OF assms] show ?thesis using mset_eq_imp_distinct_iff by blast
  qed
  have mine: "\<forall>a \<in> set ?as. \<forall>l \<in> set (leases s). lease_id l = lease_id (as_lease a) \<longrightarrow> l = as_lease a"
  proof (intro ballI impI)
    fix a l assume a: "a \<in> set ?as" "l \<in> set (leases s)" "lease_id l = lease_id (as_lease a)"
    have "as_lease a \<in># mset (leases s)" using a(1) by (simp add: held)
    then have "as_lease a \<in> set (leases s)" by simp
    with a(2,3) ok_lease_ids [OF assms] show "l = as_lease a" by (metis find_lease_member option.inject)
  qed
  have leases: "leases ?s = filter (\<lambda>l. lease_id l \<notin> ?ids) (leases s)"
    using r by (simp add: release_record_def update_record_def unreleased_def delete_leases [OF mine])
  have "mset (leases ?s) = mset (filter (\<lambda>l. lease_id l \<notin> ?ids) (map as_lease (held rs) @ map as_lease ?as @ map as_lease (held rs')))"
    unfolding leases mset_filter by (simp add: held add.assoc)
  also have "\<dots> = mset (map as_lease (held rs)) + mset (map as_lease (held rs'))"
  proof -
    have apart: "lease_id (as_lease x) \<notin> ?ids" if "x \<in> set (held rs) \<union> set (held rs')" for x
      using that ids by (auto simp: disjoint_iff)
    have keep: "filter (\<lambda>l. lease_id l \<notin> ?ids) (map as_lease xs) = map as_lease xs" if "set xs \<subseteq> set (held rs) \<union> set (held rs')" for xs
      using that apart by (intro filter_True) auto
    have drop: "filter (\<lambda>l. lease_id l \<notin> ?ids) (map as_lease ?as) = []" by (auto simp: filter_empty_conv)
    show ?thesis unfolding filter_append drop keep [OF Un_upper1] keep [OF Un_upper2] by simp
  qed
  finally have "mset (map as_lease (held_assignments ?s)) = mset (leases ?s)"
    using r(2) by (simp add: held_assignments_def plans unreleased_def)
  moreover have "leases_ok c digest ?s"
    using ok r by (intro leases_ok_subset [OF _ leases]) (simp_all add: coordinator_ok_def release_record_def update_record_def unreleased_def)
  moreover have "map pr_plan (plans ?s) = map pr_plan (plans s)" by (simp add: plans split(1))
  moreover have "specialists ?s = specialists s" "planGeneration ?s = planGeneration s"
    using r by (simp_all add: release_record_def update_record_def)
  ultimately show ?thesis using ok by (simp add: coordinator_ok_def state_values_def)
qed

text \<open>What the steps before a plan is made preserve.\<close>

definition coordinator_at :: "coordinator_options \<Rightarrow> (json \<Rightarrow> string) \<Rightarrow> json set \<Rightarrow> coordinator \<Rightarrow> bool" where
  "coordinator_at c digest V s \<longleftrightarrow> coordinator_ok c digest s \<and> state_values s \<subseteq> V"

lemma coordinator_at_release: "inj_on digest V \<Longrightarrow> coordinator_at c digest V s \<Longrightarrow> coordinator_at c digest V (release_record digest h s)"
  unfolding coordinator_at_def by (metis release_record_ok)

lemma coordinator_at_expire: "inj_on digest V \<Longrightarrow> coordinator_at c digest V s \<Longrightarrow> coordinator_at c digest V (expire_plans digest now s)"
proof -
  assume inj: "inj_on digest V"
  have "coordinator_at c digest V s \<Longrightarrow> coordinator_at c digest V (fold (\<lambda>r t. if pr_state r \<noteq> PlanReleased \<and> pr_expiresAtMs r \<le> now
      then release_record digest (record_hash r) t else t) rs s)" for rs s
    by (induction rs arbitrary: s) (simp_all add: coordinator_at_release [OF inj])
  then show "coordinator_at c digest V s \<Longrightarrow> coordinator_at c digest V (expire_plans digest now s)" by (simp add: expire_plans_def)
qed

text \<open>Changes outside the leases and plans.\<close>

lemma coordinator_ok_same:
  assumes "coordinator_ok c digest s" and "leases t = leases s" and "specialists t = specialists s"
    and "leaseGeneration t = leaseGeneration s" and "planGeneration t = planGeneration s"
    and "map pr_plan (plans t) = map pr_plan (plans s)" and "held_assignments t = held_assignments s"
  shows "coordinator_ok c digest t \<and> state_values t = state_values s"
  using assms by (simp add: coordinator_ok_def leases_ok_def active_specialist_count_def state_values_def)

lemma coordinator_at_same:
  assumes "coordinator_at c digest V s" and "leases t = leases s" and "specialists t = specialists s"
    and "leaseGeneration t = leaseGeneration s" and "planGeneration t = planGeneration s"
    and "map pr_plan (plans t) = map pr_plan (plans s)" and "held_assignments t = held_assignments s"
  shows "coordinator_at c digest V t"
  using assms coordinator_ok_same [of c digest s t] by (simp add: coordinator_at_def)

lemma coordinator_at_clock: "coordinator_at c digest V s \<Longrightarrow> coordinator_at c digest V (fst (read_clock clock s))"
  by (rule coordinator_at_same [of c digest V s]) (auto simp: read_clock_def held_assignments_def split: sum.splits)

text \<open>An update of one record that keeps its plan and does not release it or bring it back.\<close>

lemma update_record_fields [simp]:
  "leases (update_record h f s) = leases s" "specialists (update_record h f s) = specialists s"
  "leaseGeneration (update_record h f s) = leaseGeneration s" "planGeneration (update_record h f s) = planGeneration s"
  "plans (update_record h f s) = map (\<lambda>r. if record_hash r = h then f r else r) (plans s)"
  "executions (update_record h f s) = executions s" "lastClockMs (update_record h f s) = lastClockMs s"
  by (simp_all add: update_record_def)

lemma held_map:
  assumes "\<forall>r \<in> set rs. unreleased (f r) = unreleased r \<and> pr_plan (f r) = pr_plan r"
  shows "held (map f rs) = held rs"
  using assms by (induction rs) simp_all

lemma coordinator_at_update:
  assumes "coordinator_at c digest V s" and "\<forall>r \<in> set (plans s). record_hash r = h \<longrightarrow> pr_plan (f r) = pr_plan r \<and> unreleased (f r) = unreleased r"
  shows "coordinator_at c digest V (update_record h f s)"
proof (rule coordinator_at_same [OF assms(1)])
  have "unreleased (if record_hash r = h then f r else r) = unreleased r \<and> pr_plan (if record_hash r = h then f r else r) = pr_plan r"
    if "r \<in> set (plans s)" for r
    using that assms(2) by simp
  then show "held_assignments (update_record h f s) = held_assignments s" "map pr_plan (plans (update_record h f s)) = map pr_plan (plans s)"
    by (simp_all add: held_assignments_def held_map)
qed simp_all

lemma prune_records_held:
  assumes "prune_records maximum kept rs = (rs', ok)"
  shows "held rs' = held (kept @ rs) \<and> subseq rs' (kept @ rs)"
  using assms
proof (induction rs arbitrary: kept)
  case (Cons r rs)
  let ?kept = "if pr_state r = PlanReleased then kept else kept @ [r]"
  have same: "held (?kept @ rs) = held (kept @ r # rs)" "subseq (?kept @ rs) (kept @ r # rs)"
    by (auto simp: unreleased_def intro: list_emb_append_mono)
  show ?case
  proof (cases "length ?kept + length rs < maximum")
    case True
    with Cons.prems same show ?thesis by (simp add: Let_def)
  next
    case False
    with Cons.prems have "prune_records maximum ?kept rs = (rs', ok)" by (simp add: Let_def)
    from Cons.IH [OF this] same show ?thesis by (metis subseq_order.trans)
  qed
qed simp

lemma subseq_set: "subseq xs ys \<Longrightarrow> set xs \<subseteq> set ys"
  by (induction rule: list_emb.induct) auto

lemma subseq_wrt:
  "subseq xs ys \<Longrightarrow> sorted_wrt R ys \<Longrightarrow> sorted_wrt R xs" "subseq xs ys \<Longrightarrow> distinct ys \<Longrightarrow> distinct xs"
  by (induction rule: list_emb.induct) (auto dest: subseq_set)

lemma coordinator_at_prune: "coordinator_at c digest V s \<Longrightarrow> coordinator_at c digest V (fst (prune_plan_records o' s))"
proof (cases "int (length (plans s)) < planRecords_of o'")
  case False
  assume s: "coordinator_at c digest V s"
  obtain rs ok where rs: "prune_records (nat (planRecords_of o')) [] (plans s) = (rs, ok)" by force
  from prune_records_held [OF this] have held: "held rs = held (plans s)" and sub: "subseq rs (plans s)" by simp_all
  have sub': "subseq (map pr_plan rs) (map pr_plan (plans s))" using sub by (rule subseq_map)
  have "fst (prune_plan_records o' s) = s\<lparr>plans := rs\<rparr>" using False rs by (simp add: prune_plan_records_def)
  moreover have "plans_ok digest (planGeneration s) (map pr_plan rs)"
    using s subseq_wrt(1) [OF sub', of older_plan] subseq_wrt(2) [OF subseq_map [OF sub', of plan_planHash]] subseq_set [OF sub']
    unfolding coordinator_at_def coordinator_ok_def plans_ok_def by blast
  moreover have "state_values (s\<lparr>plans := rs\<rparr>) \<subseteq> V"
    using s subseq_set [OF sub] by (auto simp: coordinator_at_def state_values_def)
  ultimately show ?thesis using s held
    by (simp add: coordinator_at_def coordinator_ok_def leases_ok_def active_specialist_count_def held_assignments_def)
qed (simp add: prune_plan_records_def)

end
