(* ===== verification/CoordinationPlanning.thy ===== *)
theory CoordinationPlanning
  imports CoordinationMachine
begin

text \<open>
  What \<open>plan\<close> does to the coordinator: every pending task is assigned or deferred once, an assignment gets a
  fresh lease that is separate from all active ones, and the plan that is stored holds exactly the new leases.
\<close>

section \<open>Specifications\<close>

lemma token_list_again:
  "list_all token_pattern ts \<Longrightarrow> distinct ts \<Longrightarrow> length ts \<le> max_collection_items \<Longrightarrow>
     \<exists>us. normalize_required_capabilities ts = Inr us \<and> set us = set ts"
proof -
  assume ts: "list_all token_pattern ts" "distinct ts" "length ts \<le> max_collection_items"
  show ?thesis
  proof (cases "ts = []")
    case False
    from normalize_unique_tokens_again [OF ts(1,2) this ts(3)] False ts(3) show ?thesis
      by (simp add: normalize_required_capabilities_def)
  qed (simp add: normalize_required_capabilities_def)
qed

definition spec_ok :: "task_spec \<Rightarrow> bool" where
  "spec_ok x \<longleftrightarrow> token_pattern (spec_role x) \<and> list_all token_pattern (spec_requiredCapabilities x) \<and>
     distinct (spec_requiredCapabilities x) \<and> length (spec_requiredCapabilities x) \<le> max_collection_items"

lemma normalize_capability_list_Inr:
  "normalize_capability_list v = Inr ts \<Longrightarrow> list_all token_pattern ts \<and> distinct ts \<and> length ts \<le> max_collection_items"
  by (auto simp: normalize_capability_list_def coordination_type_error_def split: option.splits json.splits if_splits
    dest: normalize_unique_tokens_Inr)

lemma normalize_task_spec_ok: "normalize_task_spec lc m ids seen v = Inr x \<Longrightarrow> spec_ok x"
  by (cases v) (auto simp: normalize_task_spec_def coordination_type_error_def and_then_Inr coordination_token_Inr spec_ok_def
    dest: normalize_capability_list_Inr)

lemma normalize_specs_ok:
  "normalize_specs lc m ids xs vs = Inr ys \<Longrightarrow> list_all spec_ok xs \<Longrightarrow> list_all spec_ok ys"
  by (induction vs arbitrary: xs) (auto simp: and_then_Inr dest: normalize_task_spec_ok)

lemma normalize_task_specs_ok: "normalize_task_specs lc snapshot vs = Inr ys \<Longrightarrow> list_all spec_ok ys"
  by (auto simp: normalize_task_specs_def and_then_Inr dest: normalize_specs_ok)

lemma matching_specialists_ok:
  assumes "spec_ok x"
  shows "\<exists>ps. matching_specialists lc regs (spec_role x) (spec_requiredCapabilities x) = Inr ps \<and>
    set ps = {p \<in> set regs. spec_role x \<in> set (pf_roles p) \<and> set (spec_requiredCapabilities x) \<subseteq> set (pf_capabilities p)}"
proof -
  from assms obtain us where us: "normalize_required_capabilities (spec_requiredCapabilities x) = Inr us"
      "set us = set (spec_requiredCapabilities x)"
    unfolding spec_ok_def using token_list_again by blast
  have "coordination_token (given (spec_role x)) ''role'' = Inr (spec_role x)"
    using assms by (simp add: spec_ok_def coordination_token_Inr)
  with us show ?thesis by (auto simp: matching_specialists_def list_all_iff)
qed

section \<open>One task\<close>

definition may_assign :: "coordinator_options \<Rightarrow> (string \<Rightarrow> string \<Rightarrow> int) \<Rightarrow> mission_snapshot \<Rightarrow> task_spec list \<Rightarrow> nat \<Rightarrow> coordinator
    \<Rightarrow> mission_task \<Rightarrow> task_spec \<Rightarrow> specialist_profile \<Rightarrow> bool" where
  "may_assign c lc snapshot specs assigned s t x p \<longleftrightarrow>
     x \<in> set specs \<and> spec_taskId x = task_id t \<and> task_id t \<in> task_id ` set (runnable_tasks lc snapshot) \<and>
     (\<forall>l \<in> set (leases s). (lease_missionId l, lease_taskId l) \<noteq> (snap_id snapshot, task_id t)) \<and>
     int assigned < maxBatchSize c \<and> int (length (leases s)) < maxActiveAssignments c \<and>
     p \<in> set (specialists s) \<and> spec_role x \<in> set (pf_roles p) \<and> set (spec_requiredCapabilities x) \<subseteq> set (pf_capabilities p) \<and>
     active_specialist_count s p < pf_maxConcurrency p \<and>
     (\<forall>l \<in> set (leases s). \<forall>d \<in> set (spec_ownership x). \<forall>e \<in> set (lease_claims l). \<not> claims_conflict d e)"

lemma choose_for_task_cases:
  assumes "list_all spec_ok specs"
  obtains reason ids where "choose_for_task c lc snapshot specs assigned s t = Inr (DeferTask reason ids)"
  | x p where "choose_for_task c lc snapshot specs assigned s t = Inr (AssignTask x p)" "may_assign c lc snapshot specs assigned s t x p"
proof (cases "task_id t \<in> task_id ` set (runnable_tasks lc snapshot) \<and> find (\<lambda>x. spec_taskId x = task_id t) specs \<noteq> None \<and>
    active_task_lease lc s (snap_id snapshot) (task_id t) = None \<and> int assigned < maxBatchSize c \<and>
    int (length (leases s)) < maxActiveAssignments c")
  case False
  then have "\<exists>reason ids. choose_for_task c lc snapshot specs assigned s t = Inr (DeferTask reason ids)"
    by (simp add: choose_for_task_def not_less split: option.split) auto
  then show ?thesis using that(1) by blast
next
  case True
  then obtain x where x: "find (\<lambda>x. spec_taskId x = task_id t) specs = Some x" by blast
  then have found: "x \<in> set specs" "spec_taskId x = task_id t" by (auto simp: find_Some_iff)
  with assms have "spec_ok x" by (simp add: list_all_iff)
  then obtain ps where ps: "matching_specialists lc (specialists s) (spec_role x) (spec_requiredCapabilities x) = Inr ps"
      "set ps = {p \<in> set (specialists s). spec_role x \<in> set (pf_roles p) \<and> set (spec_requiredCapabilities x) \<subseteq> set (pf_capabilities p)}"
    using matching_specialists_ok by blast
  have step: "choose_for_task c lc snapshot specs assigned s t =
      (if ps = [] then Inr (DeferTask MissingSpecialist [])
       else (case find (\<lambda>p. active_specialist_count s p < pf_maxConcurrency p) ps of
           None \<Rightarrow> Inr (DeferTask SpecialistCapacity [])
         | Some p \<Rightarrow>
             (let conflicts = conflicting_task_ids (spec_ownership x) (active_leases_sorted lc s) in
              if conflicts \<noteq> [] then Inr (DeferTask OwnershipConflict conflicts) else Inr (AssignTask x p))))"
    using True x ps(1) by (simp add: choose_for_task_def)
  show ?thesis
  proof (cases "\<exists>p. ps \<noteq> [] \<and> find (\<lambda>p. active_specialist_count s p < pf_maxConcurrency p) ps = Some p \<and>
      conflicting_task_ids (spec_ownership x) (active_leases_sorted lc s) = []")
    case False
    then have "\<exists>reason ids. choose_for_task c lc snapshot specs assigned s t = Inr (DeferTask reason ids)"
      unfolding step by (cases "find (\<lambda>p. active_specialist_count s p < pf_maxConcurrency p) ps") (auto simp: Let_def)
    then show ?thesis using that(1) by blast
  next
    case found_all: True
    then obtain p where p: "ps \<noteq> []" "find (\<lambda>p. active_specialist_count s p < pf_maxConcurrency p) ps = Some p"
        "conflicting_task_ids (spec_ownership x) (active_leases_sorted lc s) = []" by blast
    then have "p \<in> set ps" "active_specialist_count s p < pf_maxConcurrency p" by (auto simp: find_Some_iff)
    moreover have "\<forall>l \<in> set (leases s). (lease_missionId l, lease_taskId l) \<noteq> (snap_id snapshot, task_id t)"
      using True by (auto simp: active_task_lease_def find_None_iff active_leases_sorted_def)
    moreover have "\<forall>l \<in> set (leases s). \<forall>d \<in> set (spec_ownership x). \<forall>e \<in> set (lease_claims l). \<not> claims_conflict d e"
      using p(3) by (simp add: conflicting_task_ids_Nil active_leases_sorted_def)
    ultimately have "may_assign c lc snapshot specs assigned s t x p"
      using found True ps(2) unfolding may_assign_def by blast
    moreover have "choose_for_task c lc snapshot specs assigned s t = Inr (AssignTask x p)"
      unfolding step using p by simp
    ultimately show ?thesis using that(2) by blast
  qed
qed

section \<open>The loop\<close>

text \<open>The assignment made for a task, and the state after it, when its lease identity is fresh.\<close>

definition assignment_for :: "coordinator_options \<Rightarrow> (string \<Rightarrow> string \<Rightarrow> int) \<Rightarrow> (json \<Rightarrow> string) \<Rightarrow> mission_snapshot \<Rightarrow> task_spec list \<Rightarrow> string
    \<Rightarrow> specialist_profile list \<Rightarrow> specialist_assignment \<Rightarrow> bool" where
  "assignment_for c lc digest snapshot specs createdAt regs a \<longleftrightarrow>
     (\<exists>x p t generation. x \<in> set specs \<and> t \<in> set (runnable_tasks lc snapshot) \<and> spec_taskId x = task_id t \<and> p \<in> set regs \<and>
        spec_role x \<in> set (pf_roles p) \<and> set (spec_requiredCapabilities x) \<subseteq> set (pf_capabilities p) \<and>
        a = make_assignment digest snapshot (as_title a) x (make_lease c digest (snap_id snapshot) x p createdAt generation))"

lemma make_assignment_fields [simp]:
  "as_lease (make_assignment digest snapshot title x l) = l" "as_taskId (make_assignment digest snapshot title x l) = spec_taskId x"
  "as_title (make_assignment digest snapshot title x l) = title"
  "as_missionId (make_assignment digest snapshot title x l) = snap_id snapshot"
  "as_missionVersion (make_assignment digest snapshot title x l) = version snapshot"
  by (simp_all add: make_assignment_def Let_def)

lemma make_lease_fields [simp]:
  "lease_generation (make_lease c digest m x p issued g) = g" "lease_missionId (make_lease c digest m x p issued g) = m"
  "lease_taskId (make_lease c digest m x p issued g) = spec_taskId x" "lease_claims (make_lease c digest m x p issued g) = spec_ownership x"
  "lease_specialistId (make_lease c digest m x p issued g) = pf_id p" "lease_issuedAt (make_lease c digest m x p issued g) = issued"
  "lease_specialistVersion (make_lease c digest m x p issued g) = pf_version p"
  "lease_expiresAt (make_lease c digest m x p issued g) = iso_text (parse_timestamp issued + leaseDurationMs c)"
  by (simp_all add: make_lease_def)

lemma make_lease_id:
  "lease_id (make_lease c digest m x p issued g) = ''lease:'' @ digest (lease_hashed (make_lease c digest m x p issued g))"
  by (simp add: make_lease_def lease_hashed_def coordination_hash_def)

lemma plan_tasks_covers:
  assumes "plan_tasks c lc digest snapshot specs createdAt ts s as ds = (s', Inr (as', ds'))" and "list_all spec_ok specs"
  shows "\<exists>new ds2. as' = as @ new \<and> ds' = ds @ ds2 \<and> mset (map as_taskId new @ map df_taskId ds2) = mset (map task_id ts) \<and>
    (\<forall>a \<in> set new. assignment_for c lc digest snapshot specs createdAt (specialists s) a) \<and>
    s' = s\<lparr>leaseGeneration := leaseGeneration s + int (length new), leases := fold set_lease (map as_lease new) (leases s)\<rparr> \<and>
    (int (length as) \<le> maxBatchSize c \<longrightarrow> int (length as') \<le> maxBatchSize c)"
  using assms(1)
proof (induction ts arbitrary: s as ds)
  case Nil
  then show ?case by simp
next
  case (Cons t ts)
  show ?case
  proof (cases rule: choose_for_task_cases [OF assms(2), of c lc snapshot "length as" s t])
    case (1 reason ids)
    with Cons.prems have rest: "plan_tasks c lc digest snapshot specs createdAt ts s as (ds @ [deferral (task_id t) reason ids]) = (s', Inr (as', ds'))"
      by simp
    have "df_taskId (deferral (task_id t) reason ids) = task_id t" by (simp add: deferral_def)
    with Cons.IH [OF rest] show ?thesis by fastforce
  next
    case (2 x p)
    let ?l = "make_lease c digest (snap_id snapshot) x p createdAt (leaseGeneration s + 1)"
    let ?a = "make_assignment digest snapshot (task_title t) x ?l"
    let ?s = "s\<lparr>leaseGeneration := leaseGeneration s + 1, leases := set_lease ?l (leases s)\<rparr>"
    from 2 Cons.prems have rest: "plan_tasks c lc digest snapshot specs createdAt ts ?s (as @ [?a]) ds = (s', Inr (as', ds'))"
      by (simp add: reserve_assignment_def Let_def)
    from Cons.IH [OF rest] obtain new ds2 where new: "as' = (as @ [?a]) @ new" "ds' = ds @ ds2"
        "mset (map as_taskId new @ map df_taskId ds2) = mset (map task_id ts)"
        "\<forall>a \<in> set new. assignment_for c lc digest snapshot specs createdAt (specialists ?s) a"
        "s' = ?s\<lparr>leaseGeneration := leaseGeneration ?s + int (length new), leases := fold set_lease (map as_lease new) (leases ?s)\<rparr>"
        "int (length (as @ [?a])) \<le> maxBatchSize c \<longrightarrow> int (length as') \<le> maxBatchSize c" by blast
    have id: "spec_taskId x = task_id t" using 2(2) by (simp add: may_assign_def)
    obtain u where u: "u \<in> set (runnable_tasks lc snapshot)" "task_id u = task_id t" using 2(2) by (auto simp: may_assign_def)
    have "assignment_for c lc digest snapshot specs createdAt (specialists s) ?a"
      unfolding assignment_for_def
      by (rule exI [of _ x], rule exI [of _ p], rule exI [of _ u], rule exI [of _ "leaseGeneration s + 1"])
         (use 2(2) u in \<open>simp add: may_assign_def\<close>)
    moreover have "mset (map as_taskId (?a # new) @ map df_taskId ds2) = mset (map task_id (t # ts))"
      using new(3) id by simp
    moreover have "int (length as) \<le> maxBatchSize c \<longrightarrow> int (length as') \<le> maxBatchSize c"
      using new(6) 2(2) by (simp add: may_assign_def)
    moreover have "s' = s\<lparr>leaseGeneration := leaseGeneration s + int (length (?a # new)),
        leases := fold set_lease (map as_lease (?a # new)) (leases s)\<rparr>"
      using new(5) by simp
    ultimately show ?thesis using new(1,2,4) by (intro exI [of _ "?a # new"] exI [of _ ds2]) simp
  qed
qed

lemma plan_tasks_total:
  assumes "list_all spec_ok specs"
  shows "\<exists>s' as' ds'. plan_tasks c lc digest snapshot specs createdAt ts s as ds = (s', Inr (as', ds'))"
proof (induction ts arbitrary: s as ds)
  case (Cons t ts)
  show ?case
    by (cases rule: choose_for_task_cases [OF assms, of c lc snapshot "length as" s t])
       (simp_all add: Cons.IH reserve_assignment_def Let_def)
qed simp

section \<open>The leases of the loop\<close>

lemma set_lease_fresh: "find_lease ls (lease_id l) = None \<Longrightarrow> set_lease l ls = ls @ [l]"
  by (simp add: set_lease_def)

lemma reserve_ok:
  assumes ok: "leases_ok c digest s" and may: "may_assign c lc snapshot specs n s t x p"
    and keys: "distinct (map profile_key (specialists s))"
    and l: "l = make_lease c digest (snap_id snapshot) x p createdAt (leaseGeneration s + 1)"
    and inj: "inj_on digest V" and old: "\<forall>k \<in> set (leases s). lease_hashed k \<in> V" and new: "lease_hashed l \<in> V"
  shows "set_lease l (leases s) = leases s @ [l]"
    and "leases_ok c digest (s\<lparr>leaseGeneration := leaseGeneration s + 1, leases := leases s @ [l]\<rparr>)"
proof -
  have other: "lease_id k \<noteq> lease_id l" if "k \<in> set (leases s)" for k
  proof
    assume "lease_id k = lease_id l"
    moreover have "lease_id k = ''lease:'' @ digest (lease_hashed k)" "lease_generation k \<le> leaseGeneration s"
      using ok that by (simp_all add: leases_ok_def)
    ultimately have "digest (lease_hashed k) = digest (lease_hashed l)" using make_lease_id l by simp
    then have "lease_hashed k = lease_hashed l" using inj old new that by (auto dest: inj_onD)
    then have "lease_generation k = lease_generation l" by (rule lease_hashed_generation)
    with \<open>lease_generation k \<le> leaseGeneration s\<close> l show False by simp
  qed
  then have "lease_id l \<notin> lease_id ` set (leases s)" by (metis imageE)
  then show "set_lease l (leases s) = leases s @ [l]" by (intro set_lease_fresh) (simp only: find_lease_None not_False_eq_True)
  let ?s = "s\<lparr>leaseGeneration := leaseGeneration s + 1, leases := leases s @ [l]\<rparr>"
  have "separate k l" if "k \<in> set (leases s)" for k
  proof -
    have "\<not> lease_conflict k l"
      using may that claims_conflict_sym unfolding may_assign_def lease_conflict_def l by (metis make_lease_fields(4))
    moreover have "lease_generation k \<le> leaseGeneration s" using ok that by (simp add: leases_ok_def)
    moreover have "(lease_missionId k, lease_taskId k) \<noteq> (lease_missionId l, lease_taskId l)"
      using may that by (auto simp: may_assign_def l)
    ultimately show ?thesis by (simp add: separate_def l)
  qed
  then have "sorted_wrt separate (leases ?s)" using ok by (simp add: leases_ok_def sorted_wrt_append)
  moreover have "active_specialist_count ?s q \<le> pf_maxConcurrency q" if q: "q \<in> set (specialists s)" for q
  proof (cases "pf_id p = pf_id q \<and> pf_version p = pf_version q")
    case True
    then have "profile_key p = profile_key q" by (simp add: profile_key_def)
    with q may keys have "p = q" by (auto simp: may_assign_def distinct_map dest: inj_onD)
    then show ?thesis using may by (simp add: may_assign_def active_specialist_count_def l)
  next
    case False
    then have "active_specialist_count ?s q = active_specialist_count s q" by (auto simp: active_specialist_count_def l)
    then show ?thesis using ok q by (simp add: leases_ok_def)
  qed
  moreover have "int (length (leases ?s)) \<le> maxActiveAssignments c" using may by (simp add: may_assign_def)
  moreover have "\<exists>q \<in> set (specialists s). lease_specialistId l = pf_id q \<and> lease_specialistVersion l = pf_version q"
    using may by (auto simp: may_assign_def l)
  moreover have "lease_id l = ''lease:'' @ digest (lease_hashed l)" using make_lease_id l by simp
  ultimately show "leases_ok c digest ?s"
    using ok unfolding leases_ok_def by (auto simp: l)
qed

lemma plan_tasks_leases:
  assumes "plan_tasks c lc digest snapshot specs createdAt ts s as ds = (s', Inr (as', ds'))" and specs: "list_all spec_ok specs"
    and "leases_ok c digest s" and "distinct (map profile_key (specialists s))" and inj: "inj_on digest V"
    and "\<forall>l \<in> set (leases s). lease_hashed l \<in> V" and "\<forall>a \<in> set as'. lease_hashed (as_lease a) \<in> V"
  shows "leases_ok c digest s' \<and> (\<exists>new. as' = as @ new \<and> leases s' = leases s @ map as_lease new)"
  using assms(1,3,4,6,7)
proof (induction ts arbitrary: s as ds)
  case (Cons t ts)
  show ?case
  proof (cases rule: choose_for_task_cases [OF specs, of c lc snapshot "length as" s t])
    case 1
    with Cons show ?thesis by simp
  next
    case (2 x p)
    define l where "l = make_lease c digest (snap_id snapshot) x p createdAt (leaseGeneration s + 1)"
    define a where "a = make_assignment digest snapshot (task_title t) x l"
    let ?s = "s\<lparr>leaseGeneration := leaseGeneration s + 1, leases := set_lease l (leases s)\<rparr>"
    from 2 Cons.prems(1) have rest: "plan_tasks c lc digest snapshot specs createdAt ts ?s (as @ [a]) ds = (s', Inr (as', ds'))"
      by (simp add: reserve_assignment_def Let_def l_def a_def)
    from plan_tasks_covers [OF this specs] obtain new where "as' = (as @ [a]) @ new" by blast
    then have "lease_hashed l \<in> V" using Cons.prems(5) by (simp add: a_def)
    note step = reserve_ok [OF Cons.prems(2) 2(2) Cons.prems(3) l_def inj Cons.prems(4) this]
    have "leases_ok c digest ?s" using step by simp
    moreover have "\<forall>k \<in> set (leases ?s). lease_hashed k \<in> V" using step(1) Cons.prems(4) \<open>lease_hashed l \<in> V\<close> by simp
    ultimately have "leases_ok c digest s' \<and> (\<exists>new. as' = (as @ [a]) @ new \<and> leases s' = leases ?s @ map as_lease new)"
      using Cons.prems(3,5) by (intro Cons.IH [OF rest]) simp_all
    then show ?thesis using step(1) by (auto simp: a_def)
  qed
qed simp

section \<open>The whole operation\<close>

lemma then_do_Inr:
  "then_do r f = (s', Inr y) \<longleftrightarrow> (\<exists>s x. r = (s, Inr x) \<and> f s x = (s', Inr y))"
  by (cases r; cases "snd r") (auto simp: then_do_def)

lemma then_do_keeps:
  assumes "Q (fst r)" and "\<And>s. Q s \<Longrightarrow> P s" and "\<And>s x. r = (s, Inr x) \<Longrightarrow> Q s \<Longrightarrow> P (fst (f s x))"
  shows "P (fst (then_do r f))"
  using assms by (cases r; cases "snd r") (auto simp: then_do_def)

lemma check_first_simps [simp]: "fst (check_first r s) = s" "check_first r s = (s', Inr x) \<longleftrightarrow> s' = s \<and> r = Inr x"
  by (auto simp: check_first_def)

lemma make_plan_fields [simp]:
  "plan_generation (make_plan digest g snapshot createdAt as ds) = g" "plan_assignments (make_plan digest g snapshot createdAt as ds) = as"
  "plan_deferred (make_plan digest g snapshot createdAt as ds) = ds" "plan_missionId (make_plan digest g snapshot createdAt as ds) = snap_id snapshot"
  "plan_missionVersion (make_plan digest g snapshot createdAt as ds) = version snapshot"
  "plan_createdAt (make_plan digest g snapshot createdAt as ds) = createdAt"
  by (simp_all add: make_plan_def Let_def)

lemma make_plan_hash:
  "plan_planHash (make_plan digest g snapshot createdAt as ds) = digest (plan_hashed (make_plan digest g snapshot createdAt as ds))"
  by (simp add: make_plan_def plan_hashed_def coordination_hash_def Let_def plan_base_def)

definition new_record :: "coordinator_options \<Rightarrow> int \<Rightarrow> coordination_plan \<Rightarrow> plan_record" where
  "new_record c nowMs p = \<lparr>pr_plan = p, pr_controllers = [], pr_expiresAtMs = nowMs + leaseDurationMs c, pr_state = PlanReserved\<rparr>"

lemma finish_plan_values:
  assumes "finish_plan c digest snapshot createdAt nowMs as ds s = (s', p)"
  shows "plan_values p \<subseteq> state_values s'"
proof -
  let ?r = "new_record c nowMs p"
  have s': "s' = s\<lparr>planGeneration := planGeneration s + 1, plans := set_record ?r (plans s)\<rparr>"
    using assms by (auto simp: finish_plan_def Let_def new_record_def)
  have "p \<in> set (map pr_plan (set_record ?r (plans s)))"
  proof (cases "list_ex (\<lambda>x. record_hash x = record_hash ?r) (plans s)")
    case True
    then obtain x where "x \<in> set (plans s)" "record_hash x = record_hash ?r" by (auto simp: list_ex_iff)
    then have "?r \<in> set (set_record ?r (plans s))" using True by (force simp: set_record_def)
    then show ?thesis by (force simp: new_record_def)
  qed (simp add: set_record_def new_record_def)
  then show ?thesis unfolding s' state_values_def by simp blast
qed

lemma finish_plan_ok:
  assumes ok: "leases_ok c digest s" and plans: "plans_ok digest (planGeneration s) (map pr_plan (plans s))"
    and keys: "distinct (map profile_key (specialists s))"
    and held: "mset (map as_lease (held_assignments s)) + mset (map as_lease as) = mset (leases s)"
    and fin: "finish_plan c digest snapshot createdAt nowMs as ds s = (s', p)"
    and inj: "inj_on digest V" and old: "state_values s \<subseteq> V" and new: "state_values s' \<subseteq> V"
  shows "coordinator_at c digest V s' \<and> plans s' = plans s @ [new_record c nowMs p] \<and> leases s' = leases s \<and>
    plan_planHash p \<notin> record_hash ` set (plans s)"
proof -
  let ?r = "new_record c nowMs p"
  have p: "p = make_plan digest (planGeneration s + 1) snapshot createdAt as ds"
    and s': "s' = s\<lparr>planGeneration := planGeneration s + 1, plans := set_record ?r (plans s)\<rparr>"
    using fin by (auto simp: finish_plan_def Let_def new_record_def)
  have "plan_values p \<subseteq> V" using new finish_plan_values [OF fin] by blast
  then have "plan_hashed p \<in> V" by (simp add: plan_values_def)
  have fresh: "record_hash r \<noteq> plan_planHash p" if "r \<in> set (plans s)" for r
  proof
    assume "record_hash r = plan_planHash p"
    moreover have "record_hash r = digest (plan_hashed (pr_plan r))" "plan_generation (pr_plan r) \<le> planGeneration s"
      using plans that by (simp_all add: plans_ok_def record_hash_def)
    moreover have "plan_hashed (pr_plan r) \<in> V" using old that by (auto simp: state_values_def plan_values_def)
    ultimately have "plan_hashed (pr_plan r) = plan_hashed p"
      using inj \<open>plan_hashed p \<in> V\<close> make_plan_hash [of digest "planGeneration s + 1" snapshot createdAt as ds] p by (auto dest: inj_onD)
    then have "plan_generation (pr_plan r) = plan_generation p" by (rule plan_hashed_generation)
    with \<open>plan_generation (pr_plan r) \<le> planGeneration s\<close> p show False by simp
  qed
  then have at_end: "set_record ?r (plans s) = plans s @ [?r]"
    by (auto simp: set_record_def list_ex_iff new_record_def record_hash_def)
  have "plans_ok digest (planGeneration s + 1) (map pr_plan (plans s) @ [p])"
    using plans fresh p make_plan_hash [of digest "planGeneration s + 1" snapshot createdAt as ds]
    by (force simp: plans_ok_def sorted_wrt_append older_plan_def record_hash_def)
  moreover have r: "unreleased ?r" "pr_plan ?r = p" by (simp_all add: new_record_def unreleased_def)
  moreover have after: "plans s' = plans s @ [?r]" unfolding s' at_end by simp
  then have "mset (map as_lease (held_assignments s')) = mset (leases s)"
    using held r by (simp add: held_assignments_def p)
  moreover have "leases_ok c digest s'"
    using ok by (simp add: s' leases_ok_def active_specialist_count_def)
  ultimately have "coordinator_ok c digest s'"
    using keys after r by (simp add: coordinator_ok_def) (simp add: s')
  moreover have "plan_planHash p \<notin> record_hash ` set (plans s)" using fresh by (metis imageE)
  ultimately show ?thesis using new after by (simp add: coordinator_at_def) (simp add: s')
qed

lemma plan_rest_keeps:
  assumes inj: "inj_on digest V" and s: "coordinator_at c digest V s" and specs: "list_all spec_ok specs"
    and tasks: "plan_tasks c lc digest snapshot specs clock ts s [] [] = (t, Inr (as, ds))"
    and fin: "finish_plan c digest snapshot clock nowMs as ds t = (u, p)" and new: "state_values u \<subseteq> V"
  shows "coordinator_at c digest V u \<and> plans u = plans s @ [new_record c nowMs p] \<and> leases u = leases s @ map as_lease as \<and>
    plan_planHash p \<notin> record_hash ` set (plans s)"
proof -
  have ok: "coordinator_ok c digest s" "state_values s \<subseteq> V" using s by (simp_all add: coordinator_at_def)
  have t: "t = s\<lparr>leaseGeneration := leaseGeneration s + int (length as), leases := fold set_lease (map as_lease as) (leases s)\<rparr>"
    using plan_tasks_covers [OF tasks specs] by auto
  have p: "plan_assignments p = as" using fin by (auto simp: finish_plan_def Let_def)
  have "lease_hashed (as_lease a) \<in> V" if "a \<in> set as" for a
    using that finish_plan_values [OF fin] new p by (auto simp: plan_values_def)
  moreover have "lease_hashed l \<in> V" if "l \<in> set (leases s)" for l using ok_lease_values [OF ok(1) that] ok(2) by blast
  moreover have "leases_ok c digest s" "distinct (map profile_key (specialists s))" using ok(1) by (simp_all add: coordinator_ok_def)
  ultimately have leases: "leases_ok c digest t" "leases t = leases s @ map as_lease as"
    using plan_tasks_leases [OF tasks specs _ _ inj] by auto
  have same: "plans t = plans s" "specialists t = specialists s" "planGeneration t = planGeneration s"
    "held_assignments t = held_assignments s" "state_values t = state_values s"
    by (simp_all add: t held_assignments_def state_values_def)
  have "mset (map as_lease (held_assignments t)) + mset (map as_lease as) = mset (leases t)"
    using ok(1) by (simp add: same leases(2) coordinator_ok_def)
  from finish_plan_ok [OF leases(1) _ _ this fin inj _ new] ok same leases(2) show ?thesis
    by (simp add: coordinator_ok_def)
qed

text \<open>What holds after each stage of \<open>plan\<close> holds after it.\<close>

lemma plan_batch_rule:
  assumes start: "Q s" and clock: "\<And>t. Q t \<Longrightarrow> Q (fst (read_clock clock t))" and expire: "\<And>t now. Q t \<Longrightarrow> Q (expire_plans digest now t)"
    and prune: "\<And>t. Q t \<Longrightarrow> Q (fst (prune_plan_records c t))" and weaken: "\<And>t. Q t \<Longrightarrow> P t"
    and final: "\<And>t specs ts now u as ds v p. Q t \<Longrightarrow> list_all spec_ok specs \<Longrightarrow>
      plan_tasks c lc digest snapshot specs clock ts t [] [] = (u, Inr (as, ds)) \<Longrightarrow>
      finish_plan c digest snapshot clock now as ds u = (v, p) \<Longrightarrow> P v"
  shows "P (fst (plan_batch c lc digest clock snapshot taskSpecs s))"
proof -
  have last: "P (fst (then_do (plan_tasks c lc digest snapshot specs clock ts t [] []) (\<lambda>s planned.
      let (s', p) = finish_plan c digest snapshot clock now (fst planned) (snd planned) s in (s', Inr p))))"
    if t: "Q t" and specs: "list_all spec_ok specs" for t specs ts now
  proof -
    from plan_tasks_total [OF specs] obtain u as ds where tasks: "plan_tasks c lc digest snapshot specs clock ts t [] [] = (u, Inr (as, ds))"
      by blast
    obtain v p where fin: "finish_plan c digest snapshot clock now as ds u = (v, p)" by force
    from final [OF t specs tasks fin] show ?thesis by (simp add: tasks then_do_def fin)
  qed
  have clock': "Q u" if "read_clock clock t = (u, r)" "Q t" for t u r
    using clock [OF that(2)] that(1) by simp
  have prune': "Q u" if "prune_plan_records c (expire_plans digest now t) = (u, r)" "Q t" for t u r now
    using prune [OF expire [OF that(2)], of now] that(1) by simp
  show ?thesis
    unfolding plan_batch_def
    apply (rule then_do_keeps [where Q = Q], simp add: start, erule weaken)
    apply (rule then_do_keeps [where Q = Q], simp, erule weaken)
    apply (rule then_do_keeps [where Q = Q], simp, erule weaken)
    apply (rule then_do_keeps [where Q = Q], simp add: clock, erule weaken)
    apply (rule then_do_keeps [where Q = Q], simp add: prune expire clock', erule weaken)
    apply (rule then_do_keeps [where Q = Q], simp add: prune', erule weaken)
    apply (rule then_do_keeps [where Q = Q], simp, erule weaken)
    apply (rule then_do_keeps [where Q = Q], simp, erule weaken)
    apply (rule then_do_keeps [where Q = Q], simp, erule weaken)
    apply (rule last, simp, simp add: normalize_task_specs_ok)
    done
qed

lemma plan_batch_keeps:
  assumes inj: "inj_on digest V" and s: "coordinator_at c digest V s"
    and new: "state_values (fst (plan_batch c lc digest clock snapshot taskSpecs s)) \<subseteq> V"
  shows "coordinator_at c digest V (fst (plan_batch c lc digest clock snapshot taskSpecs s))"
proof -
  have "state_values (fst (plan_batch c lc digest clock snapshot taskSpecs s)) \<subseteq> V \<longrightarrow>
      coordinator_at c digest V (fst (plan_batch c lc digest clock snapshot taskSpecs s))"
  proof (rule plan_batch_rule [where Q = "coordinator_at c digest V", OF s])
    fix t specs ts now u as ds v p
    assume "coordinator_at c digest V t" "list_all spec_ok specs" "plan_tasks c lc digest snapshot specs clock ts t [] [] = (u, Inr (as, ds))"
      "finish_plan c digest snapshot clock now as ds u = (v, p)"
    from plan_rest_keeps [OF inj this] show "state_values v \<subseteq> V \<longrightarrow> coordinator_at c digest V v" by blast
  qed (simp_all add: coordinator_at_clock coordinator_at_expire [OF inj] coordinator_at_prune)
  with new show ?thesis by blast
qed

end
