(* ===== verification/CoordinationRuns.thy ===== *)
theory CoordinationRuns
  imports CoordinationPlanning
begin

text \<open>
  Every run keeps the invariant, and a plan that was executed or released never becomes executable again, as
  long as the hashes put into the identities of the run do not collide.
\<close>

section \<open>Every step keeps the invariant\<close>

lemma coordinator_at_register:
  assumes "coordinator_at c digest V s"
  shows "coordinator_at c digest V (fst (register_worker profile has_execute s))"
proof (cases "register_specialist (specialists s) profile has_execute")
  case (Inr regs)
  then obtain p where p: "normalize_profile profile = Inr p" "regs = specialists s @ [p]"
      "\<forall>r \<in> set (specialists s). profile_key r \<noteq> profile_key p"
    by (auto simp: register_specialist_def coordination_type_error_def and_then_Inr list_ex_iff split: if_splits)
  have "1 \<le> pf_maxConcurrency p" using p(1) by (auto simp: normalize_profile_def and_then_Inr ensure_Inr)
  moreover have "active_specialist_count s p = 0"
  proof -
    have "\<not> (lease_specialistId l = pf_id p \<and> lease_specialistVersion l = pf_version p)" if "l \<in> set (leases s)" for l
      using assms that p(3) by (force simp: coordinator_at_def coordinator_ok_def leases_ok_def profile_key_def)
    then show ?thesis by (simp add: active_specialist_count_def filter_empty_conv)
  qed
  ultimately have "leases_ok c digest (s\<lparr>specialists := regs\<rparr>)"
    using assms unfolding p(2) coordinator_at_def coordinator_ok_def leases_ok_def by (auto simp: active_specialist_count_def)
  with assms Inr p show ?thesis
    by (auto simp: register_worker_def coordinator_at_def coordinator_ok_def held_assignments_def state_values_def)
qed (simp add: register_worker_def assms)

lemma find_record_unique:
  "coordinator_ok c digest s \<Longrightarrow> find_record s h = Some r \<Longrightarrow> r' \<in> set (plans s) \<Longrightarrow> record_hash r' = h \<Longrightarrow> r' = r"
proof -
  assume ok: "coordinator_ok c digest s" and r: "find_record s h = Some r" and r': "r' \<in> set (plans s)" "record_hash r' = h"
  have "r \<in> set (plans s)" "record_hash r = h" using r by (auto simp: find_record_def find_Some_iff)
  with r' ok_record_hashes [OF ok] show "r' = r" by (auto simp: distinct_map dest: inj_onD)
qed

lemma coordinator_at_begin:
  assumes inj: "inj_on digest V" and s: "coordinator_at c digest V s"
  shows "coordinator_at c digest V (fst (begin_execution digest clock p s))"
  unfolding begin_execution_def
proof (rule then_do_keeps [where Q = "coordinator_at c digest V"])
  show "coordinator_at c digest V (fst (read_clock clock s))" by (rule coordinator_at_clock [OF s])
next
  fix u ms
  assume u: "read_clock clock s = (u, Inr ms)" "coordinator_at c digest V u"
  let ?t = "expire_plans digest ms u"
  have t: "coordinator_at c digest V ?t" by (rule coordinator_at_expire [OF inj u(2)])
  let ?begun = "\<lambda>r started. update_record (record_hash r) (\<lambda>x. x\<lparr>pr_state := PlanExecuting, pr_controllers := unsettled started\<rparr>)
      (?t\<lparr>executions := executions ?t @ [\<lparr>ex_plan = pr_plan r, ex_outcomes = started\<rparr>]\<rparr>)"
  have "coordinator_at c digest V (?begun r started)" if r: "find_record ?t (plan_planHash p) = Some r" "pr_state r = PlanReserved" for r started
  proof (rule coordinator_at_update)
    show "coordinator_at c digest V (?t\<lparr>executions := executions ?t @ [\<lparr>ex_plan = pr_plan r, ex_outcomes = started\<rparr>]\<rparr>)"
      by (rule coordinator_at_same [OF t]) (simp_all add: held_assignments_def)
    have "record_hash r = plan_planHash p" using r(1) by (auto simp: find_record_def find_Some_iff)
    moreover have "coordinator_ok c digest ?t" using t by (simp add: coordinator_at_def)
    ultimately have "r' = r" if "r' \<in> set (plans ?t)" "record_hash r' = record_hash r" for r'
      using find_record_unique r(1) that by metis
    then have "pr_state x = PlanReserved" if "x \<in> set (plans ?t)" "record_hash x = record_hash r" for x
      using that r(2) by blast
    then show "\<forall>x \<in> set (plans (?t\<lparr>executions := executions ?t @ [\<lparr>ex_plan = pr_plan r, ex_outcomes = started\<rparr>]\<rparr>)).
        record_hash x = record_hash r \<longrightarrow> pr_plan (x\<lparr>pr_state := PlanExecuting, pr_controllers := unsettled started\<rparr>) = pr_plan x \<and>
        unreleased (x\<lparr>pr_state := PlanExecuting, pr_controllers := unsettled started\<rparr>) = unreleased x"
      by (auto simp: unreleased_def)
  qed
  with t show "coordinator_at c digest V (fst (let s = ?t in case find_record s (plan_planHash p) of
      None \<Rightarrow> (s, Inl (CoordinationError ''Unknown or foreign coordination plan.''))
    | Some r \<Rightarrow> if pr_state r \<noteq> PlanReserved
        then (s, Inl (CoordinationError ''Coordination plan was already released, executed, or replayed.''))
        else (case assert_authentic_plan digest p r (leases s) ms of
            Inl e \<Rightarrow> (release_record digest (record_hash r) s, Inl e)
          | Inr _ \<Rightarrow> (let started = map (start_assignment digest (specialists s)) (plan_assignments (pr_plan r)) in
               (update_record (record_hash r) (\<lambda>x. x\<lparr>pr_state := PlanExecuting, pr_controllers := unsettled started\<rparr>)
                  (s\<lparr>executions := executions s @ [\<lparr>ex_plan = pr_plan r, ex_outcomes = started\<rparr>]\<rparr>), Inr ())))))"
    by (auto simp: Let_def coordinator_at_release [OF inj] split: option.split sum.split)
qed simp

lemma coordinator_at_answers:
  assumes s: "coordinator_at c digest V s"
  shows "coordinator_at c digest V (worker_answers o' lc digest h i outc s)"
proof (cases "find (\<lambda>e. plan_planHash (ex_plan e) = h) (executions s)")
  case (Some e)
  obtain t r where settle: "settle_assignment o' lc digest (plan_assignments (ex_plan e) ! i) outc s = (t, r)" by force
  have t: "coordinator_at c digest V t"
  proof (cases outc)
    case (WorkerReplied v clock)
    with settle coordinator_at_clock [OF s, of clock] show ?thesis
      by (auto simp: settle_assignment_def split: prod.splits sum.splits)
  qed (use settle s in \<open>auto simp: settle_assignment_def\<close>)
  have "coordinator_at c digest V (t\<lparr>executions := es, aborted := as\<rparr>)" for es as
    by (rule coordinator_at_same [OF t]) (simp_all add: held_assignments_def)
  then have "coordinator_at c digest V (update_record h (\<lambda>x. x\<lparr>pr_controllers := filter (\<lambda>j. j \<noteq> i) (pr_controllers x)\<rparr>)
      (t\<lparr>executions := es, aborted := as\<rparr>))" for es as
    by (rule coordinator_at_update) (simp add: unreleased_def)
  then show ?thesis using s by (simp add: worker_answers_def Some settle)
qed (simp add: worker_answers_def s)

lemma coordinator_at_finish:
  assumes inj: "inj_on digest V" and s: "coordinator_at c digest V s" and fin: "finish_execution digest h clock s = Some (t, r)"
  shows "coordinator_at c digest V t"
proof -
  have "coordinator_at c digest V (s\<lparr>executions := es\<rparr>)" for es
    by (rule coordinator_at_same [OF s]) (simp_all add: held_assignments_def)
  note start = this coordinator_at_clock [OF this, of clock]
  have "coordinator_at c digest V u" if "read_clock clock (s\<lparr>executions := es\<rparr>) = (u, x)" for es u x
    using start(2) [of es] that by simp
  with fin start coordinator_at_release [OF inj] show ?thesis
    by (auto simp: finish_execution_def Let_def split: option.splits if_splits prod.splits sum.splits)
qed

lemma coordinator_at_step:
  assumes "inj_on digest V" and "coordinator_at c digest V s" and "state_values (coordination_step c lc digest ev s) \<subseteq> V"
  shows "coordinator_at c digest V (coordination_step c lc digest ev s)"
proof (cases ev)
  case (EvRegister profile has_execute)
  then show ?thesis using coordinator_at_register assms(2) by simp
next
  case (EvPlan clock snapshot specs)
  then show ?thesis using plan_batch_keeps assms by simp
next
  case (EvBegin clock p)
  then show ?thesis using coordinator_at_begin assms by simp
next
  case (EvAnswer h i outc)
  then show ?thesis using coordinator_at_answers assms by simp
next
  case (EvFinish h clock)
  then show ?thesis using coordinator_at_finish assms by (auto split: option.split)
next
  case (EvRelease h)
  then show ?thesis using coordinator_at_release assms
    by (auto simp: release_plan_def then_do_def check_first_def split: sum.split option.split)
next
  case (EvLeases clock)
  have "coordinator_at c digest V u" if "read_clock clock s = (u, x)" for u x
    using coordinator_at_clock [OF assms(2), of clock] that by simp
  then show ?thesis using EvLeases coordinator_at_expire [OF assms(1)]
    by (auto simp: active_leases_def then_do_def split: prod.split sum.split)
qed

lemma coordinator_at_mono: "coordinator_at c digest V s \<Longrightarrow> V \<subseteq> W \<Longrightarrow> coordinator_at c digest W s"
  by (auto simp: coordinator_at_def)

lemma steps_values: "coordinator_steps c lc digest s H t V \<Longrightarrow> H \<subseteq> V"
  by (induction rule: coordinator_steps.induct) auto

lemma coordinator_at_steps:
  assumes "coordinator_steps c lc digest s H t V" and "inj_on digest V" and "coordinator_at c digest H s"
  shows "coordinator_at c digest V t"
  using assms
proof (induction rule: coordinator_steps.induct)
  case (step t V ev)
  let ?t = "coordination_step c lc digest ev t"
  have "coordinator_at c digest V t" using step by (metis inj_on_Un)
  then have "coordinator_at c digest (V \<union> state_values ?t) t" by (rule coordinator_at_mono) simp
  then show ?case by (intro coordinator_at_step step.prems(1)) simp_all
qed

lemma coordinator_at_start: "check_options c = Inr () \<Longrightarrow> coordinator_at c digest {} (new_coordinator [])"
  by (auto simp: check_options_def coordinator_bounded_def and_then_Inr ensure_Inr coordinator_at_def coordinator_ok_def leases_ok_def
    plans_ok_def held_assignments_def state_values_def new_coordinator_def)

section \<open>No way back to reserved\<close>

text \<open>Only \<open>plan\<close> adds records, and none of the other steps makes one reserved.\<close>

definition advanced :: "coordinator \<Rightarrow> coordinator \<Rightarrow> bool" where
  "advanced s t \<longleftrightarrow> planGeneration t = planGeneration s \<and>
     (\<forall>r' \<in> set (plans t). pr_state r' = PlanReserved \<longrightarrow>
        (\<exists>r \<in> set (plans s). record_hash r = record_hash r' \<and> pr_state r = PlanReserved))"

lemma advanced_same [simp]: "plans t = plans s \<Longrightarrow> planGeneration t = planGeneration s \<Longrightarrow> advanced s t"
  by (auto simp: advanced_def)

lemma advanced_trans: "advanced s t \<Longrightarrow> advanced t u \<Longrightarrow> advanced s u"
  unfolding advanced_def by metis

lemma advanced_update:
  assumes "\<And>r. pr_state (f r) = PlanReserved \<Longrightarrow> pr_state r = PlanReserved" and "\<And>r. pr_plan (f r) = pr_plan r"
  shows "advanced s (update_record h f s)"
  using assms by (fastforce simp: advanced_def record_hash_def)

lemma advanced_release: "advanced s (release_record digest h s)"
proof -
  have "advanced s (update_record h (\<lambda>x. x\<lparr>pr_controllers := [], pr_state := PlanReleased\<rparr>) (s\<lparr>aborted := as, leases := ls\<rparr>))" for as ls
    by (rule advanced_trans [OF advanced_same advanced_update]) simp_all
  then show ?thesis by (simp add: release_record_def split: option.split)
qed

lemma advanced_expire: "advanced s (expire_plans digest now s)"
proof -
  have "advanced s (fold (\<lambda>r t. if pr_state r \<noteq> PlanReleased \<and> pr_expiresAtMs r \<le> now
      then release_record digest (record_hash r) t else t) rs s)" for rs
  proof (induction rs arbitrary: s)
    case (Cons r rs)
    show ?case using advanced_trans [OF advanced_release Cons.IH] Cons.IH by simp
  qed simp
  then show ?thesis by (simp add: expire_plans_def)
qed

lemma advanced_clock: "read_clock clock s = (t, r) \<Longrightarrow> advanced s t"
  by (auto simp: read_clock_def split: sum.splits if_splits)

lemma advanced_prune: "advanced s (fst (prune_plan_records c s))"
proof (cases "int (length (plans s)) < planRecords_of c")
  case False
  obtain rs ok where rs: "prune_records (nat (planRecords_of c)) [] (plans s) = (rs, ok)" by force
  then have "set rs \<subseteq> set (plans s)" using prune_records_held subseq_set by fastforce
  with False rs show ?thesis by (auto simp: prune_plan_records_def advanced_def)
qed (simp add: prune_plan_records_def)

lemma advanced_begin: "advanced s (fst (begin_execution digest clock p s))"
  unfolding begin_execution_def
proof (rule then_do_keeps [where Q = "advanced s"])
  show "advanced s (fst (read_clock clock s))" using advanced_clock [of clock s] by (cases "read_clock clock s") simp
next
  fix u ms
  assume "read_clock clock s = (u, Inr ms)" "advanced s u"
  then have t: "advanced s (expire_plans digest ms u)" using advanced_trans advanced_expire by blast
  let ?t = "expire_plans digest ms u"
  have "advanced s (update_record h (\<lambda>x. x\<lparr>pr_state := PlanExecuting, pr_controllers := cs\<rparr>) (?t\<lparr>executions := es\<rparr>))" for h cs es
    by (rule advanced_trans [OF t advanced_trans [OF advanced_same advanced_update]]) simp_all
  moreover have "advanced s (release_record digest h ?t)" for h by (rule advanced_trans [OF t advanced_release])
  ultimately show "advanced s (fst (let s = ?t in case find_record s (plan_planHash p) of
      None \<Rightarrow> (s, Inl (CoordinationError ''Unknown or foreign coordination plan.''))
    | Some r \<Rightarrow> if pr_state r \<noteq> PlanReserved
        then (s, Inl (CoordinationError ''Coordination plan was already released, executed, or replayed.''))
        else (case assert_authentic_plan digest p r (leases s) ms of
            Inl e \<Rightarrow> (release_record digest (record_hash r) s, Inl e)
          | Inr _ \<Rightarrow> (let started = map (start_assignment digest (specialists s)) (plan_assignments (pr_plan r)) in
               (update_record (record_hash r) (\<lambda>x. x\<lparr>pr_state := PlanExecuting, pr_controllers := unsettled started\<rparr>)
                  (s\<lparr>executions := executions s @ [\<lparr>ex_plan = pr_plan r, ex_outcomes = started\<rparr>]\<rparr>), Inr ())))))"
    using t by (auto simp: Let_def split: option.split sum.split)
qed simp

lemma advanced_answers: "advanced s (worker_answers c lc digest h i outc s)"
proof (cases "find (\<lambda>e. plan_planHash (ex_plan e) = h) (executions s)")
  case (Some e)
  obtain t r where settle: "settle_assignment c lc digest (plan_assignments (ex_plan e) ! i) outc s = (t, r)" by force
  then have "advanced s t"
    by (cases outc) (auto simp: settle_assignment_def dest: advanced_clock split: prod.splits sum.splits)
  moreover have "advanced t (update_record h (\<lambda>x. x\<lparr>pr_controllers := filter (\<lambda>j. j \<noteq> i) (pr_controllers x)\<rparr>)
      (t\<lparr>executions := es, aborted := as\<rparr>))" for es as
    by (rule advanced_trans [OF advanced_same advanced_update]) simp_all
  ultimately have "advanced s (update_record h (\<lambda>x. x\<lparr>pr_controllers := filter (\<lambda>j. j \<noteq> i) (pr_controllers x)\<rparr>)
      (t\<lparr>executions := es, aborted := as\<rparr>))" for es as
    by (rule advanced_trans)
  then show ?thesis by (simp add: worker_answers_def Some settle)
qed (simp add: worker_answers_def)

lemma advanced_finish: "finish_execution digest h clock s = Some (t, r) \<Longrightarrow> advanced s t"
proof -
  assume fin: "finish_execution digest h clock s = Some (t, r)"
  have "advanced s u" if "read_clock clock (s\<lparr>executions := es\<rparr>) = (u, x)" for es u x
    by (rule advanced_trans [OF advanced_same advanced_clock [OF that]]) simp_all
  moreover have "advanced s (s\<lparr>executions := es\<rparr>)" for es by simp
  ultimately show ?thesis
    using fin advanced_trans [OF _ advanced_release]
    by (auto simp: finish_execution_def Let_def split: option.splits if_splits prod.splits sum.splits)
qed

lemma advanced_release_plan: "advanced s (fst (release_plan digest h s))"
  using advanced_release by (auto simp: release_plan_def then_do_def check_first_def split: sum.split option.split)

text \<open>A plan whose record is not reserved, and whose hash no other plan can get.\<close>

definition spent :: "coordinator_options \<Rightarrow> (json \<Rightarrow> string) \<Rightarrow> json set \<Rightarrow> coordination_plan \<Rightarrow> coordinator \<Rightarrow> bool" where
  "spent c digest V q s \<longleftrightarrow> coordinator_at c digest V s \<and> plan_hashed q \<in> V \<and> digest (plan_hashed q) = plan_planHash q \<and>
     plan_generation q \<le> planGeneration s \<and> (\<forall>r \<in> set (plans s). record_hash r = plan_planHash q \<longrightarrow> pr_state r \<noteq> PlanReserved)"

lemma spent_advanced: "spent c digest V q s \<Longrightarrow> advanced s t \<Longrightarrow> coordinator_at c digest V t \<Longrightarrow> spent c digest V q t"
  unfolding spent_def advanced_def by metis

lemma spent_plan:
  assumes inj: "inj_on digest V" and s: "spent c digest V q s"
    and new: "state_values (fst (plan_batch c lc digest clock snapshot taskSpecs s)) \<subseteq> V"
  shows "spent c digest V q (fst (plan_batch c lc digest clock snapshot taskSpecs s))"
proof -
  have "state_values (fst (plan_batch c lc digest clock snapshot taskSpecs s)) \<subseteq> V \<longrightarrow>
      spent c digest V q (fst (plan_batch c lc digest clock snapshot taskSpecs s))"
  proof (rule plan_batch_rule [where Q = "spent c digest V q", OF s])
    fix t specs ts now u as ds v p
    assume t: "spent c digest V q t" and specs: "list_all spec_ok specs"
      and tasks: "plan_tasks c lc digest snapshot specs clock ts t [] [] = (u, Inr (as, ds))"
      and fin: "finish_plan c digest snapshot clock now as ds u = (v, p)"
    have u: "planGeneration u = planGeneration t" using plan_tasks_covers [OF tasks specs] by auto
    have p: "p = make_plan digest (planGeneration t + 1) snapshot clock as ds" "planGeneration v = planGeneration t + 1"
      using fin u by (auto simp: finish_plan_def Let_def)
    show "state_values v \<subseteq> V \<longrightarrow> spent c digest V q v"
    proof
      assume v: "state_values v \<subseteq> V"
      have run: "coordinator_at c digest V t" using t by (simp add: spent_def)
      note rest = plan_rest_keeps [OF inj run specs tasks fin v]
      have "plan_hashed p \<in> V" using finish_plan_values [OF fin] v by (auto simp: plan_values_def)
      moreover have "plan_hashed p \<noteq> plan_hashed q"
        using plan_hashed_generation [of p q] t p(1) by (auto simp: spent_def)
      moreover have "plan_planHash p = digest (plan_hashed p)" using p(1) make_plan_hash by simp
      ultimately have "plan_planHash p \<noteq> plan_planHash q" using t inj unfolding spent_def by (metis inj_onD)
      then have "record_hash (new_record c now p) \<noteq> plan_planHash q" by (simp add: record_hash_def new_record_def)
      then show "spent c digest V q v" using t rest p(2) by (auto simp: spent_def)
    qed
  next
    fix t assume t: "spent c digest V q t"
    then have run: "coordinator_at c digest V t" by (simp add: spent_def)
    have "advanced t (fst (read_clock clock t))" using advanced_clock [of clock t] by (cases "read_clock clock t") simp
    then show "spent c digest V q (fst (read_clock clock t))" using spent_advanced [OF t] coordinator_at_clock [OF run] by blast
    show "spent c digest V q (fst (prune_plan_records c t))" using spent_advanced [OF t advanced_prune] coordinator_at_prune [OF run] by blast
    show "spent c digest V q (expire_plans digest now t)" for now
      using spent_advanced [OF t advanced_expire] coordinator_at_expire [OF inj run] by blast
    show "state_values t \<subseteq> V \<longrightarrow> spent c digest V q t" using t by simp
  qed
  with new show ?thesis by blast
qed

lemma spent_step:
  assumes inj: "inj_on digest V" and s: "spent c digest V q s" and new: "state_values (coordination_step c lc digest ev s) \<subseteq> V"
  shows "spent c digest V q (coordination_step c lc digest ev s)"
proof (cases "\<exists>clock snapshot specs. ev = EvPlan clock snapshot specs")
  case True
  then show ?thesis using spent_plan [OF inj s] new by auto
next
  case False
  have "advanced s (coordination_step c lc digest ev s)"
  proof (cases ev)
    case (EvLeases clock)
    have "advanced s u" if "read_clock clock s = (u, x)" for u x using advanced_clock [OF that] .
    then show ?thesis using EvLeases advanced_trans [OF _ advanced_expire]
      by (auto simp: active_leases_def then_do_def split: prod.split sum.split)
  qed (use False in \<open>auto simp: register_worker_def advanced_begin advanced_answers advanced_release_plan
      dest: advanced_finish split: sum.split option.split\<close>)
  moreover have "coordinator_at c digest V (coordination_step c lc digest ev s)"
    using coordinator_at_step [OF inj _ new] s by (simp add: spent_def)
  ultimately show ?thesis using spent_advanced [OF s] by blast
qed

lemma spent_steps:
  assumes "coordinator_steps c lc digest s H t V" and "inj_on digest V" and "spent c digest H q s"
  shows "spent c digest V q t"
  using assms
proof (induction rule: coordinator_steps.induct)
  case (step t V ev)
  let ?t = "coordination_step c lc digest ev t"
  have "spent c digest V q t" using step by (metis inj_on_Un)
  then have "spent c digest (V \<union> state_values ?t) q t" using coordinator_at_mono by (auto simp: spent_def)
  then show ?case by (intro spent_step step.prems(1)) simp_all
qed

lemma spent_refused:
  assumes inj: "inj_on digest V" and s: "spent c digest V q s" and p: "plan_planHash p = plan_planHash q"
  shows "\<exists>e. snd (begin_execution digest clock p s) = Inl e"
proof (cases "read_clock clock s")
  case (Pair u r)
  show ?thesis
  proof (cases r)
    case (Inr now)
    have "coordinator_at c digest V u" using coordinator_at_clock [of c digest V s clock] s Pair by (simp add: spent_def)
    then have "spent c digest V q (expire_plans digest now u)"
      using s advanced_trans [OF advanced_clock [OF Pair] advanced_expire] coordinator_at_expire [OF inj]
      by (intro spent_advanced [OF s]) blast+
    then have "pr_state r \<noteq> PlanReserved" if "find_record (expire_plans digest now u) (plan_planHash p) = Some r" for r
      using that p by (auto simp: spent_def find_record_def find_Some_iff)
    then show ?thesis using Pair Inr by (auto simp: begin_execution_def then_do_def Let_def split: option.split)
  qed (simp add: begin_execution_def then_do_def Pair)
qed

end
