(* ===== verification/TimestampText.thy ===== *)
theory TimestampText
  imports CoordinationFacts
begin

text \<open>
  The instants of the years 0 to 9999 survive being written and read back: what \<open>toISOString\<close> writes is
  accepted as a canonical timestamp and parsed to the same instant.
\<close>

section \<open>Digits\<close>

lemma digits_value_snoc: "digits_value (s @ [c]) = 10 * digits_value s + (of_char c - 48)"
  by (simp add: digits_value_def)

lemma digits_value_padded [simp]: "digits_value (padded w n) = n mod 10 ^ w"
proof (induction w arbitrary: n)
  case (Suc w)
  have "10 * (n div 10 mod 10 ^ w) + n mod 10 = n mod (10 * 10 ^ w)"
    using mod_mult2_eq [of n 10 "10 ^ w"] by simp
  then show ?case using Suc by (simp add: digits_value_snoc)
qed (simp add: digits_value_def)

lemma padded_digits: "list_all digit_char (padded w n)"
  by (induction w arbitrary: n) (simp_all add: digit_char_def)

lemma padded_matches: "list_all2 (\<lambda>p c. if p = CHR ''d'' then digit_char c else c = p) (replicate w (CHR ''d'')) (padded w n)"
  using padded_digits [of w n] by (simp add: list_all2_conv_all_nth list_all_length)

section \<open>The calendar backwards\<close>

lemma year_of_sum: "year_of y d = (y', d') \<Longrightarrow> y \<le> y' \<and> d = sum_list (map year_length [y..<y']) + d'"
proof (induction y d rule: year_of.induct)
  case (1 y d)
  show ?case
  proof (cases "d < year_length y")
    case True
    with 1 show ?thesis by (simp add: year_of.simps)
  next
    case False
    with 1 have "Suc y \<le> y'" "d - year_length y = sum_list (map year_length [Suc y..<y']) + d'"
      by (simp_all add: year_of.simps [of y d])
    then show ?thesis using False by (simp add: upt_conv_Cons)
  qed
qed

lemma month_of_sum: "month_of ls k d = (m, r) \<Longrightarrow> k \<le> m \<and> d = sum_list (take (m - k) ls) + r"
proof (induction ls arbitrary: k d)
  case (Cons l ls)
  show ?case
  proof (cases "d < l")
    case False
    with Cons have "Suc k \<le> m" "d - l = sum_list (take (m - Suc k) ls) + r" by force+
    moreover have "m - k = Suc (m - Suc k)" using calculation(1) by simp
    ultimately show ?thesis using False by simp
  qed (use Cons.prems in simp)
qed simp

lemma leap_year_cycle: "leap_year (y mod 400) = leap_year y"
proof -
  have "k dvd y mod 400 \<longleftrightarrow> k dvd y" if "k dvd 400" for k :: nat
    using that dvd_mod_iff by blast
  then show ?thesis by (simp add: leap_year_def)
qed

lemma civil_days_cycle: "civil_days (400 * q + n) m d = 146097 * int q + civil_days n m d"
proof -
  have "(400 * q + n + 3) div 4 = 100 * q + (n + 3) div 4" "(400 * q + n + 99) div 100 = 4 * q + (n + 99) div 100"
    "(400 * q + n + 399) div 400 = q + (n + 399) div 400"
    by (simp_all add: add.assoc div_mult2_eq flip: div_mult_self1)
  moreover have "month_lengths (400 * q + n) = month_lengths n"
    using leap_year_cycle [of "400 * q + n"] leap_year_cycle [of n] by (simp add: month_lengths_def)
  ultimately show ?thesis by (simp add: civil_days_def)
qed

lemma civil_days_of_date:
  assumes "civil_year days = (y, d)" and "civil_month y d = (m, e)" and "0 \<le> y"
  shows "civil_days (nat y) m (Suc e) = days"
proof -
  let ?z = "days + 719528"
  have less: "nat (?z mod 146097) < 146097" by (simp add: nat_less_iff)
  obtain n r where n: "year_of 0 (nat (?z mod 146097)) = (n, r)" by force
  then have y: "y = 400 * (?z div 146097) + int n" and r: "d = r" using assms(1) by (auto simp: civil_year_def Let_def)
  from year_of_bound [of "nat (?z mod 146097)" 0 400] less n have "n < 400"
    by (simp_all only: cycle_days add_0 fst_conv snd_conv)
  have "0 \<le> ?z div 146097" using assms(3) y \<open>n < 400\<close> by linarith
  then obtain q where q: "?z div 146097 = int q" by (metis nonneg_int_cases)
  have "y mod 400 = int n" unfolding y using \<open>n < 400\<close> by simp
  then have months: "month_of (month_lengths n) 1 d = (m, e)" using assms(2) by (simp add: civil_month_def)
  have "nat (?z mod 146097) = sum_list (map year_length [0..<n]) + d" using year_of_sum [OF n] r by simp
  moreover have "int (nat (?z mod 146097)) = ?z mod 146097" by simp
  moreover have "d = sum_list (take (m - 1) (month_lengths n)) + e" using month_of_sum [OF months] by simp
  ultimately have "civil_days n m (Suc e) = ?z mod 146097 - 719528"
    using days_before [of n] by (simp add: civil_days_def)
  moreover have "nat y = 400 * q + n" unfolding y q by simp
  moreover have "146097 * int q + ?z mod 146097 = ?z" using q by (metis mult_div_mod_eq)
  ultimately show ?thesis by (simp add: civil_days_cycle)
qed

section \<open>Reading back\<close>

lemma time_fields:
  fixes t :: nat
  assumes "t < 86400000"
  shows "t div 1000 div 60 div 60 < 100"
    and "3600000 * (t div 1000 div 60 div 60) + 60000 * (t div 1000 div 60 mod 60) + 1000 * (t div 1000 mod 60) + t mod 1000 = t"
proof -
  show "t div 1000 div 60 div 60 < 100" using assms by (simp add: div_mult2_eq [symmetric] less_mult_imp_div_less)
  have "60 * (t div 1000 div 60 div 60) + t div 1000 div 60 mod 60 = t div 1000 div 60"
    "60 * (t div 1000 div 60) + t div 1000 mod 60 = t div 1000" "1000 * (t div 1000) + t mod 1000 = t"
    by (rule mult_div_mod_eq)+
  then show "3600000 * (t div 1000 div 60 div 60) + 60000 * (t div 1000 div 60 mod 60) + 1000 * (t div 1000 mod 60) + t mod 1000 = t"
    by linarith
qed

lemma iso_text_parts:
  assumes "four_digit_year ms"
  obtains y m e t where "iso_text ms = padded 4 y @ CHR ''-'' # padded 2 m @ CHR ''-'' # padded 2 (Suc e) @ CHR ''T'' #
      padded 2 (t div 1000 div 60 div 60) @ CHR '':'' # padded 2 (t div 1000 div 60 mod 60) @ CHR '':'' #
      padded 2 (t div 1000 mod 60) @ CHR ''.'' # padded 3 (t mod 1000) @ [CHR ''Z'']"
    "y \<le> 9999" "m \<le> 12" "e < 31" "t < 86400000" "86400000 * civil_days y m (Suc e) + int t = ms"
proof -
  let ?days = "ms div 86400000" let ?t = "nat (ms mod 86400000)"
  have range: "- 719528 \<le> ?days" "?days < 2932897"
    using int_div_range [of "- 719528" 86400000 ms 2932897] assms unfolding four_digit_year_def by simp_all
  obtain y d where yd: "civil_year ?days = (y, d)" by force
  obtain m e where me: "civil_month y d = (m, e)" by force
  have y: "0 \<le> y" "y \<le> 9999" using four_digit_civil [OF yd range] by simp_all
  have "e < 31" "m \<le> 12" using civil_month_bound [OF civil_year_bound(1) [OF yd]] me by simp_all
  moreover have "?t < 86400000" by (simp add: nat_less_iff)
  moreover have "86400000 * civil_days (nat y) m (Suc e) + int ?t = ms"
    using civil_days_of_date [OF yd me y(1)] by simp
  moreover have "iso_text ms = padded 4 (nat y) @ CHR ''-'' # padded 2 m @ CHR ''-'' # padded 2 (Suc e) @ CHR ''T'' #
      padded 2 (?t div 1000 div 60 div 60) @ CHR '':'' # padded 2 (?t div 1000 div 60 mod 60) @ CHR '':'' #
      padded 2 (?t div 1000 mod 60) @ CHR ''.'' # padded 3 (?t mod 1000) @ [CHR ''Z'']"
    using y yd me by (simp add: iso_text_def date_text_def time_text_def year_text_def del: padded.simps)
  moreover have "nat y \<le> 9999" using y by simp
  ultimately show ?thesis by (intro that [of "nat y" m e ?t])
qed

lemma field_parts:
  "s = pre @ padded w n @ post \<Longrightarrow> length pre = start \<Longrightarrow> n < 10 ^ w \<Longrightarrow> field start w s = n"
  by (simp add: field_def)

lemma timestamp_fields:
  assumes "s = padded 4 y @ c1 # padded 2 m @ c2 # padded 2 d @ c3 # padded 2 h @ c4 # padded 2 i @ c5 # padded 2 sec @ c6 # padded 3 ms @ post"
    and "y < 10 ^ 4" "m < 10 ^ 2" "d < 10 ^ 2" "h < 10 ^ 2" "i < 10 ^ 2" "sec < 10 ^ 2" "ms < 10 ^ 3"
  shows "field 0 4 s = y" "field 5 2 s = m" "field 8 2 s = d" "field 11 2 s = h" "field 14 2 s = i" "field 17 2 s = sec" "field 20 3 s = ms"
proof -
  show "field 0 4 s = y" by (rule field_parts [where pre = "[]"]) (use assms in simp_all)
  show "field 5 2 s = m" by (rule field_parts [where pre = "padded 4 y @ [c1]"]) (use assms in simp_all)
  show "field 8 2 s = d" by (rule field_parts [where pre = "padded 4 y @ c1 # padded 2 m @ [c2]"]) (use assms in simp_all)
  show "field 11 2 s = h" by (rule field_parts [where pre = "padded 4 y @ c1 # padded 2 m @ c2 # padded 2 d @ [c3]"]) (use assms in simp_all)
  show "field 14 2 s = i"
    by (rule field_parts [where pre = "padded 4 y @ c1 # padded 2 m @ c2 # padded 2 d @ c3 # padded 2 h @ [c4]"]) (use assms in simp_all)
  show "field 17 2 s = sec"
    by (rule field_parts [where pre = "padded 4 y @ c1 # padded 2 m @ c2 # padded 2 d @ c3 # padded 2 h @ c4 # padded 2 i @ [c5]"]) (use assms in simp_all)
  show "field 20 3 s = ms"
    by (rule field_parts [where pre = "padded 4 y @ c1 # padded 2 m @ c2 # padded 2 d @ c3 # padded 2 h @ c4 # padded 2 i @ c5 # padded 2 sec @ [c6]"])
       (use assms in simp_all)
qed

lemma canonical_iso_text:
  assumes "four_digit_year ms"
  shows "canonical_timestamp (iso_text ms) name = Inr ms"
proof -
  from iso_text_parts [OF assms] obtain y m e t where written: "iso_text ms = padded 4 y @ CHR ''-'' # padded 2 m @ CHR ''-'' # padded 2 (Suc e) @ CHR ''T'' #
      padded 2 (t div 1000 div 60 div 60) @ CHR '':'' # padded 2 (t div 1000 div 60 mod 60) @ CHR '':'' #
      padded 2 (t div 1000 mod 60) @ CHR ''.'' # padded 3 (t mod 1000) @ [CHR ''Z'']"
    and bounds: "y \<le> 9999" "m \<le> 12" "e < 31" "t < 86400000" and ms: "86400000 * civil_days y m (Suc e) + int t = ms" .
  have pattern: "''dddd-dd-ddTdd:dd:dd.dddZ'' = replicate 4 CHR ''d'' @ CHR ''-'' # replicate 2 CHR ''d'' @ CHR ''-'' # replicate 2 CHR ''d'' @
      CHR ''T'' # replicate 2 CHR ''d'' @ CHR '':'' # replicate 2 CHR ''d'' @ CHR '':'' # replicate 2 CHR ''d'' @ CHR ''.'' #
      replicate 3 CHR ''d'' @ [CHR ''Z'']"
    by (simp add: numeral_eq_Suc)
  have "timestamp_pattern (iso_text ms)"
    unfolding timestamp_pattern_def pattern written
    by (simp add: list_all2_append padded_matches del: padded.simps replicate.simps)
  moreover have "parse_timestamp (iso_text ms) = ms"
  proof -
    have small: "y < 10 ^ 4" "m < 10 ^ 2" "Suc e < 10 ^ 2" using bounds by simp_all
    have "n mod 60 < 10 ^ 2" for n :: nat by (rule order_less_trans [of _ 60]) simp_all
    moreover have "t mod 1000 < 10 ^ 3" by simp
    moreover have "t div 1000 div 60 div 60 < 10 ^ 2" using time_fields(1) [OF bounds(4)] by (simp only: power2_eq_square)
    ultimately have wide: "t div 1000 div 60 div 60 < 10 ^ 2" "t div 1000 div 60 mod 60 < 10 ^ 2" "t div 1000 mod 60 < 10 ^ 2" "t mod 1000 < 10 ^ 3"
      by blast+
    note fields = timestamp_fields [OF written small wide]
    have "3600000 * int (t div 1000 div 60 div 60) + 60000 * int (t div 1000 div 60 mod 60) + 1000 * int (t div 1000 mod 60) + int (t mod 1000) = int t"
      using arg_cong [OF time_fields(2) [OF bounds(4)], of int] by (simp only: of_nat_add of_nat_mult of_nat_numeral)
    then show ?thesis using ms unfolding parse_timestamp_def fields by linarith
  qed
  ultimately show ?thesis by (simp add: canonical_timestamp_Inr)
qed

end
