(* ===== verification/CoordinationProperties.thy ===== *)
theory CoordinationProperties
  imports CoordinationRuns TimestampText
begin

text \<open>
  The properties of the coordination of specialists. A run is any sequence of registrations, plans,
  executions, answers of workers, releases and lease queries from the empty coordinator; its hash is
  assumed not to collide on the finitely many identities the run has hashed.
\<close>

section \<open>Concurrent work\<close>

lemma run_ok:
  assumes "check_options c = Inr ()" and "coordinator_run c lc digest s V" and "inj_on digest V"
  shows "coordinator_at c digest V s"
  using coordinator_at_steps [OF assms(2,3) coordinator_at_start [OF assms(1)]] .

lemma separate_positions:
  assumes "sorted_wrt separate ls" and "mset ks = mset ls" and "i < length ks" and "j < length ks" and "i \<noteq> j"
  shows "separate (ks ! i) (ks ! j) \<or> separate (ks ! j) (ks ! i)"
proof -
  have "distinct (map lease_generation ls)"
    by (rule sorted_wrt_distinct_map [OF assms(1)]) (simp add: separate_def)
  then have "distinct ks" using assms(2) by (metis distinct_map mset_eq_imp_distinct_iff)
  with assms have "ks ! i \<noteq> ks ! j" "ks ! i \<in> set ls" "ks ! j \<in> set ls"
    by (metis nth_eq_iff_index_eq nth_mem mset_eq_setD)+
  with assms(1) show ?thesis by (metis in_set_conv_nth linorder_neqE_nat sorted_wrt_iff_nth_less)
qed

text \<open>C16. Specialists never work on the same thing: in every run the assignments of the plans not yet released hold
  active leases that are pairwise free of conflicting claims and of the same task, and no file can be
  changed by accepted results of two of them.\<close>

theorem concurrent_assignments_are_separate:
  assumes "check_options c = Inr ()" and "coordinator_run c lc digest s V" and "inj_on digest V"
    and "i < length (held_assignments s)" and "j < length (held_assignments s)" and "i \<noteq> j"
    and "a = held_assignments s ! i" and "b = held_assignments s ! j"
  shows "as_lease a \<in> set (leases s) \<and>
    (\<forall>d \<in> set (lease_claims (as_lease a)). \<forall>e \<in> set (lease_claims (as_lease b)). \<not> claims_conflict d e) \<and>
    (lease_missionId (as_lease a), lease_taskId (as_lease a)) \<noteq> (lease_missionId (as_lease b), lease_taskId (as_lease b)) \<and>
    (validate_proposal lc digest a v now = Inr r \<and> validate_proposal lc digest b v' now' = Inr r' \<longrightarrow>
       set (rs_filesChanged r) \<inter> set (rs_filesChanged r') = {})"
proof -
  have ok: "coordinator_ok c digest s" using run_ok [OF assms(1-3)] by (simp add: coordinator_at_def)
  then have held: "mset (map as_lease (held_assignments s)) = mset (leases s)" and sorted: "sorted_wrt separate (leases s)"
    by (simp_all add: coordinator_ok_def leases_ok_def)
  from separate_positions [OF sorted held, of i j] assms(4-8) have "separate (as_lease a) (as_lease b) \<or> separate (as_lease b) (as_lease a)"
    by simp
  then have apart: "\<not> lease_conflict (as_lease a) (as_lease b)"
      "(lease_missionId (as_lease a), lease_taskId (as_lease a)) \<noteq> (lease_missionId (as_lease b), lease_taskId (as_lease b))"
    by (auto simp: separate_def lease_conflict_sym)
  have "as_lease a \<in> set (map as_lease (held_assignments s))" using assms(4,7) by simp
  then have "as_lease a \<in> set (leases s)" using held by (metis mset_eq_setD)
  moreover have "set (rs_filesChanged r) \<inter> set (rs_filesChanged r') = {}"
    if "validate_proposal lc digest a v now = Inr r" "validate_proposal lc digest b v' now' = Inr r'"
    using validate_proposal_Inr [OF that(1)] validate_proposal_Inr [OF that(2)] apart(1)
    by (auto simp: proposal_accepted_def dest: owners_conflict)
  ultimately show ?thesis using apart by (auto simp: lease_conflict_def)
qed

text \<open>C19. The bounds of the coordinator hold in every run: the active leases are exactly those of the plans not
  released, at most as many as configured, and no specialist has more than its concurrency allows.\<close>

theorem coordination_stays_bounded:
  assumes "check_options c = Inr ()" and "coordinator_run c lc digest s V" and "inj_on digest V"
  shows "mset (map as_lease (held_assignments s)) = mset (leases s) \<and> int (length (leases s)) \<le> maxActiveAssignments c \<and>
    (\<forall>p \<in> set (specialists s). active_specialist_count s p \<le> pf_maxConcurrency p)"
  using run_ok [OF assms] by (simp add: coordinator_at_def coordinator_ok_def leases_ok_def)

section \<open>Replay\<close>

lemma begun_spent:
  assumes inj: "inj_on digest V" and s: "coordinator_at c digest V s" and "begin_execution digest clock p s = (t, Inr ())"
  shows "\<exists>q. spent c digest V q t \<and> plan_planHash q = plan_planHash p"
proof -
  from assms(3) obtain u now where u: "read_clock clock s = (u, Inr now)"
    and rest: "(let s = expire_plans digest now u in case find_record s (plan_planHash p) of
      None \<Rightarrow> (s, Inl (CoordinationError ''Unknown or foreign coordination plan.''))
    | Some r \<Rightarrow> if pr_state r \<noteq> PlanReserved
        then (s, Inl (CoordinationError ''Coordination plan was already released, executed, or replayed.''))
        else (case assert_authentic_plan digest p r (leases s) now of
            Inl e \<Rightarrow> (release_record digest (record_hash r) s, Inl e)
          | Inr _ \<Rightarrow> (let started = map (start_assignment digest (specialists s)) (plan_assignments (pr_plan r)) in
               (update_record (record_hash r) (\<lambda>x. x\<lparr>pr_state := PlanExecuting, pr_controllers := unsettled started\<rparr>)
                  (s\<lparr>executions := executions s @ [\<lparr>ex_plan = pr_plan r, ex_outcomes = started\<rparr>]\<rparr>), Inr ())))) = (t, Inr ())"
    unfolding begin_execution_def then_do_Inr by blast
  obtain r where r: "find_record (expire_plans digest now u) (plan_planHash p) = Some r"
    using rest by (cases "find_record (expire_plans digest now u) (plan_planHash p)") (simp_all add: Let_def)
  let ?started = "map (start_assignment digest (specialists (expire_plans digest now u))) (plan_assignments (pr_plan r))"
  have t: "t = update_record (record_hash r) (\<lambda>x. x\<lparr>pr_state := PlanExecuting, pr_controllers := unsettled ?started\<rparr>)
        ((expire_plans digest now u)\<lparr>executions := executions (expire_plans digest now u) @ [\<lparr>ex_plan = pr_plan r, ex_outcomes = ?started\<rparr>]\<rparr>)"
    using rest r by (auto simp: Let_def split: if_splits sum.splits)
  let ?e = "expire_plans digest now u"
  have "coordinator_at c digest V u" using coordinator_at_clock [OF s, of clock] u by simp
  then have e: "coordinator_at c digest V ?e" by (rule coordinator_at_expire [OF inj])
  have "record_hash r = plan_planHash p" "r \<in> set (plans ?e)" using r by (auto simp: find_record_def find_Some_iff)
  moreover have "plan_hashed (pr_plan r) \<in> V" "plan_generation (pr_plan r) \<le> planGeneration ?e"
      "digest (plan_hashed (pr_plan r)) = plan_planHash (pr_plan r)"
    using e calculation(2) by (auto simp: coordinator_at_def state_values_def plan_values_def coordinator_ok_def plans_ok_def)
  moreover have "coordinator_at c digest V t" using coordinator_at_begin [OF inj s, of clock p] assms(3) by simp
  ultimately have "spent c digest V (pr_plan r) t" using t by (auto simp: spent_def record_hash_def)
  with \<open>record_hash r = plan_planHash p\<close> show ?thesis by (auto simp: record_hash_def)
qed

lemma released_spent:
  assumes inj: "inj_on digest V" and s: "coordinator_at c digest V s" and "release_plan digest h s = (t, Inr True)"
  shows "\<exists>q. spent c digest V q t \<and> plan_planHash q = h"
proof -
  from assms(3) obtain r where r: "find_record s h = Some r" "t = release_record digest h s" "pr_state r \<noteq> PlanReleased"
    by (auto simp: release_plan_def then_do_Inr split: option.splits if_splits)
  have "record_hash r = h" "r \<in> set (plans s)" using r(1) by (auto simp: find_record_def find_Some_iff)
  moreover have "plan_hashed (pr_plan r) \<in> V" "plan_generation (pr_plan r) \<le> planGeneration s"
      "digest (plan_hashed (pr_plan r)) = plan_planHash (pr_plan r)"
    using s calculation(2) by (auto simp: coordinator_at_def state_values_def plan_values_def coordinator_ok_def plans_ok_def)
  moreover have "coordinator_at c digest V t" using coordinator_at_release [OF inj s] r(2) by simp
  ultimately have "spent c digest V (pr_plan r) t" using r by (auto simp: spent_def record_hash_def release_record_def)
  with \<open>record_hash r = h\<close> show ?thesis by (auto simp: record_hash_def)
qed

text \<open>C17. A plan runs at most once: after its execution began or it was released, every later attempt to execute a plan
  with its hash is refused, whatever happens in between.\<close>

theorem executed_plan_never_runs_again:
  assumes "check_options c = Inr ()" and "coordinator_run c lc digest s H"
    and "begin_execution digest clock p s = (t, Inr ()) \<or> release_plan digest (plan_planHash p) s = (t, Inr True)"
    and "coordinator_steps c lc digest t (H \<union> state_values t) u V" and "inj_on digest V" and "plan_planHash q = plan_planHash p"
  shows "\<exists>e. snd (begin_execution digest later q u) = Inl e"
proof -
  have inj: "inj_on digest (H \<union> state_values t)" using assms(5) steps_values [OF assms(4)] by (rule inj_on_subset)
  then have s: "coordinator_at c digest H s" using run_ok [OF assms(1,2)] by (metis inj_on_Un)
  then have "coordinator_at c digest (H \<union> state_values t) s" by (rule coordinator_at_mono) simp
  from begun_spent [OF inj this] released_spent [OF inj this] assms(3)
  obtain r where "spent c digest (H \<union> state_values t) r t" "plan_planHash r = plan_planHash p" by blast
  from spent_refused [OF assms(5) spent_steps [OF assms(4,5) this(1)]] this(2) assms(6) show ?thesis by metis
qed

section \<open>Acceptance\<close>

text \<open>C18. A result is accepted only as verified: the proposal was checked against its assignment, reports success and
  verification inside the lease, changes only files the lease may write, no piece of its evidence failed, and
  at least one was produced independently and attested by the evidence authority.\<close>

theorem accepted_needs_attested_evidence:
  assumes "rec_outcome (reconcile_proposal lc digest a v receivedAtMs authority) = ReconcileAccepted"
  shows "\<exists>r. rec_result (reconcile_proposal lc digest a v receivedAtMs authority) = Some r \<and>
    validate_proposal lc digest a v receivedAtMs = Inr r \<and> rs_outcome r = ''SUCCESS'' \<and> rs_verificationStatus r = ''VERIFIED'' \<and>
    parse_timestamp (lease_issuedAt (as_lease a)) \<le> parse_timestamp (rs_startedAt r) \<and>
    parse_timestamp (rs_completedAt r) \<le> receivedAtMs \<and> receivedAtMs < parse_timestamp (lease_expiresAt (as_lease a)) \<and>
    (\<forall>f \<in> set (rs_filesChanged r). owns_path (lease_claims (as_lease a)) f) \<and>
    (\<forall>e \<in> set (rs_evidence r). ev_status e = EvidencePass) \<and>
    (\<exists>e \<in> set (rs_evidence r). ev_producerClass e = IndependentTool \<and> ev_status e = EvidencePass \<and> authority a e = Some True)"
proof -
  have outcome: "rec_outcome (create_reconciliation digest a k reasons ids x) = k"
      "rec_result (create_reconciliation digest a k reasons ids x) = x" for k reasons ids x
    by (simp_all add: create_reconciliation_def Let_def)
  from assms obtain r where r: "validate_proposal lc digest a v receivedAtMs = Inr r" "rs_outcome r \<noteq> ''BLOCKED''" "rs_outcome r \<noteq> ''FAILED''"
      "retry_reasons r (attested_ids authority a r) = []"
      "rec_result (reconcile_proposal lc digest a v receivedAtMs authority) = Some r"
    by (auto simp: reconcile_proposal_def outcome Let_def split: sum.splits if_splits)
  from validate_proposal_Inr [OF r(1)] r(2,3) have p: "proposal_accepted a receivedAtMs r" "rs_outcome r = ''SUCCESS''"
    by (auto simp: proposal_accepted_def proposal_outcomes_def)
  from r(4) have e: "\<forall>e \<in> set (rs_evidence r). ev_status e \<noteq> EvidenceFail" "rs_verificationStatus r = ''VERIFIED''"
      "attested_ids authority a r \<noteq> []"
    by (auto simp: retry_reasons_def list_ex_iff split: if_splits)
  have "js_sort code_unit_compare xs = [] \<longleftrightarrow> xs = []" for xs :: "string list" by (metis length_0_conv length_js_sort)
  with e(3) have "\<exists>e \<in> set (rs_evidence r). ev_producerClass e = IndependentTool \<and> ev_status e = EvidencePass \<and> authority a e = Some True"
    by (auto simp: attested_ids_def filter_empty_conv safely_attested_def)
  moreover have "\<forall>e \<in> set (rs_evidence r). ev_status e = EvidencePass" using e(1) by (metis evidence_status.exhaust)
  ultimately show ?thesis using r(1,5) p e(2) unfolding proposal_accepted_def by blast
qed

section \<open>Planning\<close>

lemma release_specialists [simp]: "specialists (release_record digest h x) = specialists x"
  by (simp add: release_record_def split: option.split)

lemma expire_specialists [simp]: "specialists (expire_plans digest now s) = specialists s"
proof -
  have "specialists (fold (\<lambda>r t. if pr_state r \<noteq> PlanReleased \<and> pr_expiresAtMs r \<le> now
      then release_record digest (record_hash r) t else t) rs x) = specialists x" for rs x
    by (induction rs arbitrary: x) simp_all
  then show ?thesis by (simp add: expire_plans_def)
qed

lemma prune_fields: "prune_plan_records c s = (t, r) \<Longrightarrow> specialists t = specialists s \<and> leases t = leases s"
  by (auto simp: prune_plan_records_def split: prod.splits if_splits)

lemma clock_fields: "read_clock clock s = (t, r) \<Longrightarrow> specialists t = specialists s \<and> leases t = leases s"
  by (auto simp: read_clock_def split: sum.splits if_splits)

lemma plan_batch_Inr:
  assumes "plan_batch c lc digest clock snapshot taskSpecs s = (t, Inr p)"
  obtains u now v specs w as ds where "read_clock clock s = (u, Inr now)"
    "prune_plan_records c (expire_plans digest now u) = (v, Inr ())" "normalize_task_specs lc snapshot taskSpecs = Inr specs"
    "plan_tasks c lc digest snapshot specs clock (pending_tasks lc snapshot) v [] [] = (w, Inr (as, ds))"
    "finish_plan c digest snapshot clock now as ds w = (t, p)"
  using assms unfolding plan_batch_def then_do_Inr check_first_simps
  by (elim exE conjE) (auto split: prod.splits intro: that)

lemma finish_plan_fields:
  "finish_plan c digest snapshot clock now as ds w = (t, p) \<Longrightarrow> plan_assignments p = as \<and> plan_deferred p = ds \<and>
     plan_missionId p = snap_id snapshot \<and> plan_missionVersion p = version snapshot"
  by (auto simp: finish_plan_def Let_def)

text \<open>C36. A plan decides about every pending task exactly once, assigning it or deferring it, and about no other task. It
  assigns at most a batch, only runnable tasks that have a specification, each to a registered specialist
  with the role and all capabilities asked for.\<close>

theorem plan_covers_pending_tasks:
  assumes "check_options c = Inr ()" and "plan_batch c lc digest clock snapshot taskSpecs s = (t, Inr p)"
  shows "mset (map as_taskId (plan_assignments p) @ map df_taskId (plan_deferred p)) =
      mset (map task_id (filter (\<lambda>k. taskStatuses snapshot (task_id k) = Some PENDING) (tasks snapshot))) \<and>
    int (length (plan_assignments p)) \<le> maxBatchSize c \<and>
    (\<exists>specs. normalize_task_specs lc snapshot taskSpecs = Inr specs \<and>
      (\<forall>a \<in> set (plan_assignments p). \<exists>x \<in> set specs. \<exists>k \<in> set (runnable_tasks lc snapshot). \<exists>q \<in> set (specialists s).
         as_taskId a = task_id k \<and> spec_taskId x = task_id k \<and> lease_claims (as_lease a) = spec_ownership x \<and>
         lease_specialistId (as_lease a) = pf_id q \<and> lease_specialistVersion (as_lease a) = pf_version q \<and>
         spec_role x \<in> set (pf_roles q) \<and> set (spec_requiredCapabilities x) \<subseteq> set (pf_capabilities q)))"
proof -
  from plan_batch_Inr [OF assms(2)] obtain u now v specs w as ds where parts: "read_clock clock s = (u, Inr now)"
    "prune_plan_records c (expire_plans digest now u) = (v, Inr ())" "normalize_task_specs lc snapshot taskSpecs = Inr specs"
    "plan_tasks c lc digest snapshot specs clock (pending_tasks lc snapshot) v [] [] = (w, Inr (as, ds))"
    "finish_plan c digest snapshot clock now as ds w = (t, p)" .
  have p: "plan_assignments p = as" "plan_deferred p = ds" using finish_plan_fields [OF parts(5)] by simp_all
  from plan_tasks_covers [OF parts(4) normalize_task_specs_ok [OF parts(3)]]
  have covers: "mset (map as_taskId as @ map df_taskId ds) = mset (map task_id (pending_tasks lc snapshot))"
    and each: "\<forall>a \<in> set as. assignment_for c lc digest snapshot specs clock (specialists v) a"
    and batch: "0 \<le> maxBatchSize c \<longrightarrow> int (length as) \<le> maxBatchSize c" by auto
  have "specialists v = specialists s" using clock_fields [OF parts(1)] prune_fields [OF parts(2)] by simp
  then have each': "\<exists>x \<in> set specs. \<exists>k \<in> set (runnable_tasks lc snapshot). \<exists>q \<in> set (specialists s).
       as_taskId a = task_id k \<and> spec_taskId x = task_id k \<and> lease_claims (as_lease a) = spec_ownership x \<and>
       lease_specialistId (as_lease a) = pf_id q \<and> lease_specialistVersion (as_lease a) = pf_version q \<and>
       spec_role x \<in> set (pf_roles q) \<and> set (spec_requiredCapabilities x) \<subseteq> set (pf_capabilities q)" if "a \<in> set as" for a
    using that each unfolding assignment_for_def by (metis make_assignment_fields(1,2) make_lease_fields(4,5,7))
  have pending: "mset (map task_id (pending_tasks lc snapshot)) =
      mset (map task_id (filter (\<lambda>k. taskStatuses snapshot (task_id k) = Some PENDING) (tasks snapshot)))"
    by (simp add: pending_tasks_def js_get_Own)
  have "0 \<le> maxBatchSize c" using assms(1) by (simp add: check_options_def coordinator_bounded_def and_then_Inr ensure_Inr)
  then show ?thesis
    unfolding p pending [symmetric]
    by (intro conjI exI [of _ specs] ballI) (rule covers, rule mp [OF batch], assumption, rule parts(3), rule each')
qed

lemma plan_tasks_idle:
  assumes "plan_tasks c lc digest snapshot specs clock ts s as ds = (s', Inr (as, ds'))" and "list_all spec_ok specs" and "k \<in> set ts"
  shows "\<exists>reason ids. choose_for_task c lc snapshot specs (length as) s k = Inr (DeferTask reason ids)"
  using assms(1,3)
proof (induction ts arbitrary: ds)
  case (Cons t ts)
  show ?case
  proof (cases rule: choose_for_task_cases [OF assms(2), of c lc snapshot "length as" s t])
    case (1 reason ids)
    with Cons show ?thesis by (cases "k = t") auto
  next
    case (2 x q)
    with Cons.prems(1) obtain u a where "plan_tasks c lc digest snapshot specs clock ts u (as @ [a]) ds = (s', Inr (as, ds'))"
      by (auto simp: Let_def split: prod.splits)
    from plan_tasks_covers [OF this assms(2)] show ?thesis by auto
  qed
qed simp

lemma normalize_specs_distinct:
  "normalize_specs lc m ids xs vs = Inr ys \<Longrightarrow> distinct (map spec_taskId xs) \<Longrightarrow> distinct (map spec_taskId ys)"
proof (induction vs arbitrary: xs)
  case (Cons v vs)
  from Cons.prems(1) obtain x where x: "normalize_task_spec lc m ids (map spec_taskId xs) v = Inr x" "normalize_specs lc m ids (xs @ [x]) vs = Inr ys"
    by (auto simp: and_then_Inr)
  then have "spec_taskId x \<notin> set (map spec_taskId xs)"
    by (cases v) (auto simp: normalize_task_spec_def coordination_type_error_def and_then_Inr ensure_Inr)
  with Cons.IH [OF x(2)] Cons.prems(2) show ?case by simp
qed simp

lemma release_no_leases: "leases s = [] \<Longrightarrow> leases (release_record digest h s) = []"
proof -
  have "fold (delete_lease digest) as [] = []" for as
    by (induction as) (simp_all add: delete_lease_def find_lease_def)
  then show "leases s = [] \<Longrightarrow> leases (release_record digest h s) = []" by (simp add: release_record_def split: option.split)
qed

lemma expire_no_leases: "leases s = [] \<Longrightarrow> leases (expire_plans digest now s) = []"
proof -
  have "leases s = [] \<Longrightarrow> leases (fold (\<lambda>r t. if pr_state r \<noteq> PlanReleased \<and> pr_expiresAtMs r \<le> now
        then release_record digest (record_hash r) t else t) rs s) = []" for rs s
    by (induction rs arbitrary: s) (simp_all add: release_no_leases)
  then show "leases s = [] \<Longrightarrow> leases (expire_plans digest now s) = []" by (simp add: expire_plans_def)
qed

text \<open>An idle coordinator starts work: when no lease is active and some runnable task has a specification that a
  registered specialist matches, a plan assigns at least one task.\<close>

theorem idle_coordinator_assigns_work:
  assumes "check_options c = Inr ()" and "plan_batch c lc digest clock snapshot taskSpecs s = (t, Inr p)" and "leases s = []"
    and "normalize_task_specs lc snapshot taskSpecs = Inr specs" and "x \<in> set specs" and "k \<in> set (runnable_tasks lc snapshot)"
    and "spec_taskId x = task_id k" and "q \<in> set (specialists s)" and "1 \<le> pf_maxConcurrency q"
    and "spec_role x \<in> set (pf_roles q)" and "set (spec_requiredCapabilities x) \<subseteq> set (pf_capabilities q)"
  shows "plan_assignments p \<noteq> []"
proof
  assume none: "plan_assignments p = []"
  from plan_batch_Inr [OF assms(2)] assms(4) obtain u now v w as ds where parts: "read_clock clock s = (u, Inr now)"
    "prune_plan_records c (expire_plans digest now u) = (v, Inr ())"
    "plan_tasks c lc digest snapshot specs clock (pending_tasks lc snapshot) v [] [] = (w, Inr (as, ds))"
    "finish_plan c digest snapshot clock now as ds w = (t, p)" by (metis Inr_inject)
  have as: "as = []" using finish_plan_fields [OF parts(4)] none by simp
  have specs: "list_all spec_ok specs" using normalize_task_specs_ok [OF assms(4)] .
  have v: "leases v = []" "specialists v = specialists s"
    using clock_fields [OF parts(1)] prune_fields [OF parts(2)] expire_no_leases assms(3) by simp_all
  have "k \<in> set (pending_tasks lc snapshot)"
    using assms(6) by (auto simp: runnable_tasks_def pending_tasks_def is_runnable_def)
  from plan_tasks_idle [OF parts(3) [unfolded as] specs this]
  obtain reason ids where deferred: "choose_for_task c lc snapshot specs 0 v k = Inr (DeferTask reason ids)" by auto
  have "distinct (map spec_taskId specs)"
    using assms(4) normalize_specs_distinct by (auto simp: normalize_task_specs_def and_then_Inr)
  then have found: "find (\<lambda>x. spec_taskId x = task_id k) specs = Some x"
    using assms(5,7) by (induction specs) (auto simp: image_iff)
  from matching_specialists_ok [of x lc "specialists s"] specs assms(5) obtain ps where
    ps: "matching_specialists lc (specialists s) (spec_role x) (spec_requiredCapabilities x) = Inr ps"
      "set ps = {p \<in> set (specialists s). spec_role x \<in> set (pf_roles p) \<and> set (spec_requiredCapabilities x) \<subseteq> set (pf_capabilities p)}"
    by (auto simp: list_all_iff)
  then have q: "q \<in> set ps" using assms(8,10,11) by simp
  have "active_specialist_count v q < pf_maxConcurrency q" using v assms(9) by (simp add: active_specialist_count_def)
  with q obtain q' where sel: "find (\<lambda>p. active_specialist_count v p < pf_maxConcurrency p) ps = Some q'"
    by (cases "find (\<lambda>p. active_specialist_count v p < pf_maxConcurrency p) ps") (auto simp: find_None_iff)
  have limits: "1 \<le> maxBatchSize c" "1 \<le> maxActiveAssignments c"
    using assms(1) by (auto simp: check_options_def coordinator_bounded_def and_then_Inr ensure_Inr)
  have "choose_for_task c lc snapshot specs 0 v k = Inr (AssignTask x q')"
    using assms(6) found ps(1) sel q limits v
    by (auto simp: choose_for_task_def active_task_lease_def active_leases_sorted_def conflicting_task_ids_def Let_def)
  with deferred show False by simp
qed

section \<open>A plan can be executed\<close>

lemma release_keeps: "r \<in> set (plans s) \<Longrightarrow> record_hash r \<noteq> h \<Longrightarrow> r \<in> set (plans (release_record digest h s))"
  by (auto simp: release_record_def image_iff split: option.split)

lemma expire_keeps:
  assumes "coordinator_ok c digest s" and "r \<in> set (plans s)" and "now < pr_expiresAtMs r"
  shows "r \<in> set (plans (expire_plans digest now s))"
proof -
  have "r \<in> set (plans (fold (\<lambda>r t. if pr_state r \<noteq> PlanReleased \<and> pr_expiresAtMs r \<le> now
      then release_record digest (record_hash r) t else t) rs t))" if "set rs \<subseteq> set (plans s)" "r \<in> set (plans t)" for rs t
    using that
  proof (induction rs arbitrary: t)
    case (Cons x rs)
    show ?case
    proof (cases "x = r")
      case True
      then show ?thesis using Cons assms(3) by simp
    next
      case False
      then have "record_hash r \<noteq> record_hash x"
        using Cons.prems(1) assms(2) ok_record_hashes [OF assms(1)] by (auto simp: distinct_map dest: inj_onD)
      then show ?thesis using Cons release_keeps by simp
    qed
  qed simp
  then show ?thesis using assms(2) by (simp add: expire_plans_def)
qed

lemma check_assignments_Inr:
  assumes "distinct (map as_id as)" and "distinct (map (lease_id \<circ> as_lease) as)"
    and "set (map as_id as) \<inter> set ids = {}" and "set (map (lease_id \<circ> as_lease) as) \<inter> set leaseIds = {}"
    and "\<And>a. a \<in> set as \<Longrightarrow> coordination_hash digest (JObj (assignment_base a)) = as_assignmentHash a \<and>
      find_lease ls (lease_id (as_lease a)) = Some (as_lease a) \<and>
      (\<exists>ms. canonical_timestamp (lease_expiresAt (as_lease a)) ''lease.expiresAt'' = Inr ms \<and> now < ms) \<and>
      as_missionId a = plan_missionId p \<and> as_missionVersion a = plan_missionVersion p \<and>
      as_taskId a = lease_taskId (as_lease a) \<and> lease_missionId (as_lease a) = plan_missionId p"
  shows "check_assignments digest p ls now ids leaseIds as = Inr ()"
  using assms
proof (induction as arbitrary: ids leaseIds)
  case (Cons a as)
  have "check_assignments digest p ls now (as_id a # ids) (lease_id (as_lease a) # leaseIds) as = Inr ()"
  proof (rule Cons.IH)
    show "distinct (map as_id as)" "distinct (map (lease_id \<circ> as_lease) as)" "set (map as_id as) \<inter> set (as_id a # ids) = {}"
      "set (map (lease_id \<circ> as_lease) as) \<inter> set (lease_id (as_lease a) # leaseIds) = {}"
      using Cons.prems(1-4) by (auto simp: comp_def)
  qed (rule Cons.prems(5), simp)
  moreover obtain ms where "canonical_timestamp (lease_expiresAt (as_lease a)) ''lease.expiresAt'' = Inr ms" "now < ms"
    using Cons.prems(5) by force
  moreover have "as_id a \<notin> set ids" "lease_id (as_lease a) \<notin> set leaseIds" using Cons.prems(3,4) by auto
  ultimately show ?case using Cons.prems(5) [of a] by simp
qed simp

lemma make_assignment_ids:
  "as_id (make_assignment digest snapshot title x l) =
     ''assignment:'' @ digest (canonicalize (assignment_identity (lease_generation l) (lease_id l) (snap_id snapshot)
       (version snapshot) (lease_specialistId l) (lease_specialistVersion l) (spec_taskId x)))"
  "as_assignmentHash (make_assignment digest snapshot title x l) =
     coordination_hash digest (JObj (assignment_base (make_assignment digest snapshot title x l)))"
  by (simp_all add: make_assignment_def coordination_hash_def Let_def assignment_base_def)

lemma read_clock_Inr:
  "read_clock clock s = (t, Inr ms) \<longleftrightarrow> canonical_timestamp clock ''coordination clock'' = Inr ms \<and>
     (\<forall>before. lastClockMs s = Some before \<longrightarrow> before \<le> ms) \<and> t = s\<lparr>lastClockMs := Some ms\<rparr>"
  by (auto simp: read_clock_def split: sum.splits option.splits)

lemma release_clock [simp]: "lastClockMs (release_record digest h x) = lastClockMs x"
  by (simp add: release_record_def split: option.split)

lemma expire_clock [simp]: "lastClockMs (expire_plans digest now s) = lastClockMs s"
proof -
  have "lastClockMs (fold (\<lambda>r t. if pr_state r \<noteq> PlanReleased \<and> pr_expiresAtMs r \<le> now
      then release_record digest (record_hash r) t else t) rs x) = lastClockMs x" for rs x
    by (induction rs arbitrary: x) simp_all
  then show ?thesis by (simp add: expire_plans_def)
qed

text \<open>What a successful plan leaves behind.\<close>

lemma plan_batch_made:
  assumes "check_options c = Inr ()" and "coordinator_run c lc digest s H" and "inj_on digest (H \<union> state_values t)"
    and "plan_batch c lc digest clock snapshot taskSpecs s = (t, Inr p)"
  shows "coordinator_at c digest (H \<union> state_values t) t \<and> lastClockMs t = Some (parse_timestamp clock) \<and>
    new_record c (parse_timestamp clock) p \<in> set (plans t) \<and> plan_planHash p = digest (plan_hashed p) \<and>
    (\<exists>ls. leases t = ls @ map as_lease (plan_assignments p)) \<and>
    (\<forall>a \<in> set (plan_assignments p). \<exists>x q g title. a = make_assignment digest snapshot title x (make_lease c digest (snap_id snapshot) x q clock g)) \<and>
    plan_missionId p = snap_id snapshot \<and> plan_missionVersion p = version snapshot"
proof -
  let ?V = "H \<union> state_values t"
  have "inj_on digest H" using assms(3) by (rule inj_on_subset) simp
  from run_ok [OF assms(1,2) this] have s: "coordinator_at c digest ?V s" by (rule coordinator_at_mono) simp
  from plan_batch_Inr [OF assms(4)] obtain u now v specs w as ds where parts: "read_clock clock s = (u, Inr now)"
    "prune_plan_records c (expire_plans digest now u) = (v, Inr ())" "normalize_task_specs lc snapshot taskSpecs = Inr specs"
    "plan_tasks c lc digest snapshot specs clock (pending_tasks lc snapshot) v [] [] = (w, Inr (as, ds))"
    "finish_plan c digest snapshot clock now as ds w = (t, p)" .
  have now: "now = parse_timestamp clock" "lastClockMs u = Some now"
    using parts(1) by (auto simp: read_clock_Inr canonical_timestamp_Inr)
  have "coordinator_at c digest ?V u" using coordinator_at_clock [OF s, of clock] parts(1) by simp
  then have v: "coordinator_at c digest ?V v"
    using coordinator_at_prune [OF coordinator_at_expire [OF assms(3)], of c u c now] parts(2) by simp
  have specs: "list_all spec_ok specs" using normalize_task_specs_ok [OF parts(3)] .
  from plan_rest_keeps [OF assms(3) v specs parts(4,5)]
  have made: "coordinator_at c digest ?V t" "plans t = plans v @ [new_record c now p]" "leases t = leases v @ map as_lease as" by simp_all
  have p: "p = make_plan digest (planGeneration w + 1) snapshot clock as ds" "lastClockMs t = lastClockMs w"
    using parts(5) by (auto simp: finish_plan_def Let_def)
  have "lastClockMs w = lastClockMs v" using plan_tasks_covers [OF parts(4) specs] by auto
  moreover have "lastClockMs v = lastClockMs u" using parts(2) by (auto simp: prune_plan_records_def split: prod.splits if_splits)
  moreover have "\<exists>x q g title. a = make_assignment digest snapshot title x (make_lease c digest (snap_id snapshot) x q clock g)" if "a \<in> set as" for a
    using that plan_tasks_covers [OF parts(4) specs] unfolding assignment_for_def by fastforce
  ultimately show ?thesis using made now p make_plan_hash by simp
qed

text \<open>A plan can be executed until it expires: in every run, the plan just made passes all checks of an execution that
  begins before its leases end, as long as the hashes of the run are SHA-256 texts that do not collide.\<close>

theorem fresh_plan_executes:
  assumes "check_options c = Inr ()" and "coordinator_run c lc digest s H"
    and "plan_batch c lc digest clock snapshot taskSpecs s = (t, Inr p)"
    and "inj_on digest (H \<union> state_values t)" and "sha256_pattern (plan_planHash p)"
    and "canonical_timestamp later name = Inr now" and "parse_timestamp clock \<le> now" and "now < parse_timestamp clock + leaseDurationMs c"
    and "four_digit_year (parse_timestamp clock + leaseDurationMs c)"
  shows "snd (begin_execution digest later p t) = Inr ()"
proof -
  let ?V = "H \<union> state_values t" and ?r = "new_record c (parse_timestamp clock) p" and ?as = "plan_assignments p"
  from plan_batch_made [OF assms(1,2,4,3)] obtain ls where t: "coordinator_at c digest ?V t" "lastClockMs t = Some (parse_timestamp clock)"
    "?r \<in> set (plans t)" "plan_planHash p = digest (plan_hashed p)" "leases t = ls @ map as_lease ?as"
    and each: "\<forall>a \<in> set ?as. \<exists>x q g title. a = make_assignment digest snapshot title x (make_lease c digest (snap_id snapshot) x q clock g)"
    and ids: "plan_missionId p = snap_id snapshot" "plan_missionVersion p = version snapshot" by blast
  let ?t = "t\<lparr>lastClockMs := Some now\<rparr>"
  let ?e = "expire_plans digest now ?t"
  have clock: "read_clock later t = (?t, Inr now)" using assms(6,7) t(2) by (simp add: read_clock_Inr canonical_timestamp_Inr)
  then have t': "coordinator_at c digest ?V ?t" using coordinator_at_clock [OF t(1), of later] by simp
  then have e: "coordinator_at c digest ?V ?e" by (rule coordinator_at_expire [OF assms(4)])
  have r: "record_hash ?r = plan_planHash p" "pr_plan ?r = p" "pr_state ?r = PlanReserved" "unreleased ?r"
    by (simp_all add: new_record_def record_hash_def unreleased_def)
  have "?r \<in> set (plans ?e)"
    using expire_keeps [of c digest ?t ?r now] t' t(3) assms(8) by (simp add: coordinator_at_def new_record_def)
  moreover from this obtain r' where "find_record ?e (plan_planHash p) = Some r'"
    using r(1) by (cases "find_record ?e (plan_planHash p)") (auto simp: find_record_def find_None_iff)
  ultimately have found: "find_record ?e (plan_planHash p) = Some ?r"
    using find_record_unique [of c digest ?e "plan_planHash p" r' ?r] e r(1) by (simp add: coordinator_at_def)
  have "as_lease a \<in> set (leases ?e)" if "a \<in> set ?as" for a
  proof -
    have "a \<in> set (held_assignments ?e)" using that \<open>?r \<in> set (plans ?e)\<close> r by (auto simp: held_assignments_def set_held)
    then have "as_lease a \<in># mset (map as_lease (held_assignments ?e))" by simp
    with e show ?thesis by (simp add: coordinator_at_def coordinator_ok_def)
  qed
  then have active: "find_lease (leases ?e) (lease_id (as_lease a)) = Some (as_lease a)" if "a \<in> set ?as" for a
    using that e ok_lease_ids [of c digest ?e ?V] assms(4) by (simp add: coordinator_at_def find_lease_member)
  have made: "coordination_hash digest (JObj (assignment_base a)) = as_assignmentHash a \<and>
      (\<exists>ms. canonical_timestamp (lease_expiresAt (as_lease a)) ''lease.expiresAt'' = Inr ms \<and> now < ms) \<and>
      as_missionId a = plan_missionId p \<and> as_missionVersion a = plan_missionVersion p \<and>
      as_taskId a = lease_taskId (as_lease a) \<and> lease_missionId (as_lease a) = plan_missionId p \<and>
      as_id a = ''assignment:'' @ digest (assignment_hashed a)" if "a \<in> set ?as" for a
    using each that canonical_iso_text [OF assms(9)] assms(8) ids
    by (auto simp: make_assignment_ids assignment_hashed_def)
  have sorted: "sorted_wrt (\<lambda>a b. separate (as_lease a) (as_lease b)) ?as"
    using t(1,5) by (simp add: coordinator_at_def coordinator_ok_def leases_ok_def sorted_wrt_append sorted_wrt_map)
  have "distinct (map as_id ?as)"
  proof (rule sorted_wrt_distinct_map [OF sorted])
    fix a b assume ab: "a \<in> set ?as" "b \<in> set ?as" "separate (as_lease a) (as_lease b)"
    then have "assignment_hashed a \<noteq> assignment_hashed b" using assignment_hashed_generation [of a b] by (auto simp: separate_def)
    moreover have "plan_values p \<subseteq> ?V" using t(3) r(2) by (force simp: state_values_def)
    ultimately have "digest (assignment_hashed a) \<noteq> digest (assignment_hashed b)"
      using ab(1,2) assms(4) by (auto simp: plan_values_def dest: inj_onD)
    then show "as_id a \<noteq> as_id b" using made ab(1,2) by simp
  qed
  moreover have "distinct (map (lease_id \<circ> as_lease) ?as)"
    using ok_lease_ids [of c digest t ?V] t(1,5) assms(4) by (simp add: coordinator_at_def)
  ultimately have "check_assignments digest p (leases ?e) now [] [] ?as = Inr ()"
    using active made by (intro check_assignments_Inr) simp_all
  moreover have "coordination_hash digest (JObj (plan_base p)) = plan_planHash p" using t(4) by (simp add: coordination_hash_def plan_hashed_def)
  ultimately have "assert_authentic_plan digest p ?r (leases ?e) now = Inr ()"
    using assms(5) r(2) by (simp add: assert_authentic_plan_def coordination_sha256_def)
  with clock found r(3) show ?thesis by (simp add: begin_execution_def then_do_def Let_def)
qed

section \<open>A concrete run\<close>

text \<open>Two tasks, one specialist, a digest table without collisions on the values of the run: the witnesses evaluate here.\<close>

definition demo_digest :: "json \<Rightarrow> string" where
  "demo_digest v = (case v of
     JObj ((k, x) # (k2, y) # kvs) \<Rightarrow>
       if k = ''assignments'' then replicate 64 CHR ''a''
       else if k2 = ''issuedAt'' then (if x = JNum 1 then ''b'' else ''c'')
       else if k2 = ''leaseId'' then (if x = JNum 1 then ''d'' else ''e'') else ''f''
   | _ \<Rightarrow> ''f'')"

definition demo_options :: coordinator_options where
  "demo_options = \<lparr>maxBatchSize = 2, maxActiveAssignments = 2, leaseDurationMs = 5, executionTimeoutMs = 5, maxPlanRecords = None,
     evidenceAuthority = Some (\<lambda>_ _. Some True)\<rparr>"

definition demo_clock :: "char \<Rightarrow> string" where
  "demo_clock c = ''0000-01-01T00:00:00.00'' @ [c, CHR ''Z'']"

definition demo_profile :: specialist_profile where
  "demo_profile = \<lparr>pf_id = ''w'', pf_version = ''1'', pf_description = ''d'', pf_roles = [''r''], pf_capabilities = [''c''],
     pf_maxConcurrency = 2, pf_trustClass = ''test_fixture'', pf_source = ''s'', pf_sourceVersion = ''1'', pf_contentHash = replicate 64 CHR ''0''\<rparr>"

definition demo_task :: "string \<Rightarrow> mission_task" where
  "demo_task i = \<lparr>task_id = i, task_title = ''T'', dependsOn = [], definitionOfDone = [''d''], priority = 0\<rparr>"

definition demo_snapshot :: mission_snapshot where
  "demo_snapshot = \<lparr>snap_id = ''m'', objective = ''o'', focus = Routine, mstate = EXECUTING, resumeState = None, version = 1,
     tasks = [demo_task ''t'', demo_task ''u''], taskStatuses = [''t'' \<mapsto> PENDING, ''u'' \<mapsto> PENDING], budgetLimits = zero_counters,
     budgetUsage = zero_counters, failureCounts = Map.empty\<rparr>"

definition demo_spec :: "string \<Rightarrow> json" where
  "demo_spec i = JObj [(''context'', JObj [(''missionId'', JStr ''m''), (''resultHash'', JStr (replicate 64 CHR ''1'')), (''selectedIds'', JArr []),
       (''sourceFingerprint'', JStr (replicate 64 CHR ''2'')), (''taskId'', JStr i)]),
     (''goal'', JStr ''g''), (''ownership'', JArr [JObj [(''access'', JStr ''write''), (''key'', JStr i), (''namespace'', JStr ''repository'')]]),
     (''requiredCapabilities'', JArr [JStr ''c'']), (''role'', JStr ''r''), (''taskId'', JStr i)]"

definition demo_start :: coordinator where
  "demo_start = coordination_step demo_options code_unit_compare demo_digest (EvRegister demo_profile True) (new_coordinator [])"

definition demo_planned :: "coordination_plan coordinating" where
  "demo_planned = plan_batch demo_options code_unit_compare demo_digest (demo_clock CHR ''0'') demo_snapshot [demo_spec ''t'', demo_spec ''u''] demo_start"

definition demo_assignment :: "int \<Rightarrow> string \<Rightarrow> char \<Rightarrow> char \<Rightarrow> specialist_assignment" where
  "demo_assignment g i c d = \<lparr>as_id = ''assignment:'' @ [d], as_missionId = ''m'', as_missionVersion = 1, as_taskId = i, as_title = ''T'',
     as_goal = ''g'', as_role = ''r'', as_requiredCapabilities = [''c''],
     as_context = \<lparr>ctx_missionId = ''m'', ctx_taskId = i, ctx_resultHash = replicate 64 CHR ''1'', ctx_sourceFingerprint = replicate 64 CHR ''2'', ctx_selectedIds = []\<rparr>,
     as_lease = \<lparr>lease_id = ''lease:'' @ [c], lease_generation = g, lease_missionId = ''m'', lease_taskId = i, lease_specialistId = ''w'',
       lease_specialistVersion = ''1'', lease_issuedAt = demo_clock CHR ''0'', lease_expiresAt = demo_clock CHR ''5'',
       lease_claims = [\<lparr>claim_namespace = Repository, claim_key = i, claim_access = WriteAccess\<rparr>]\<rparr>,
     as_assignmentHash = ''f''\<rparr>"

definition demo_plan :: coordination_plan where
  "demo_plan = \<lparr>plan_generation = 1, plan_missionId = ''m'', plan_missionVersion = 1, plan_createdAt = demo_clock CHR ''0'',
     plan_assignments = [demo_assignment 1 ''t'' CHR ''b'' CHR ''d'', demo_assignment 2 ''u'' CHR ''c'' CHR ''e''], plan_deferred = [],
     plan_planHash = replicate 64 CHR ''a''\<rparr>"

definition demo_state :: coordinator where
  "demo_state = \<lparr>specialists = [demo_profile],
     plans = [\<lparr>pr_plan = demo_plan, pr_controllers = [], pr_expiresAtMs = -62167219199995, pr_state = PlanReserved\<rparr>],
     leases = map as_lease (plan_assignments demo_plan), planGeneration = 1, leaseGeneration = 2, lastClockMs = Some (-62167219200000),
     executions = [], aborted = []\<rparr>"

lemma demo_planned: "demo_planned = (demo_state, Inr demo_plan)"
  by code_simp

lemma demo_hashes:
  "demo_digest (plan_hashed demo_plan) = replicate 64 CHR ''a''"
  "map (demo_digest \<circ> lease_hashed \<circ> as_lease) (plan_assignments demo_plan) = [''b'', ''c'']"
  "map (demo_digest \<circ> assignment_hashed) (plan_assignments demo_plan) = [''d'', ''e'']"
  by code_simp+

definition demo_proposal :: "specialist_assignment \<Rightarrow> json" where
  "demo_proposal a = JObj [(''artifacts'', JArr []), (''assignmentId'', JStr (as_id a)), (''assumptions'', JArr []),
     (''completedAt'', JStr (demo_clock CHR ''2'')),
     (''evidence'', JArr [JObj [(''contentHash'', JStr (replicate 64 CHR ''3'')), (''id'', JStr ''e''), (''kind'', JStr ''k''),
        (''observedAt'', JStr (demo_clock CHR ''2'')), (''producerClass'', JStr ''independent_tool''), (''reference'', JStr ''r''), (''status'', JStr ''PASS'')]]),
     (''filesChanged'', JArr [JStr (as_taskId a)]), (''missionId'', JStr ''m''), (''outcome'', JStr ''SUCCESS''), (''remainingWork'', JArr []),
     (''risks'', JArr []), (''specialistId'', JStr ''w''), (''specialistVersion'', JStr ''1''), (''startedAt'', JStr (demo_clock CHR ''1'')),
     (''summary'', JStr ''s''), (''taskId'', JStr (as_taskId a)), (''verificationStatus'', JStr ''VERIFIED'')]"

lemma demo_accepted: "list_all (\<lambda>a. rec_outcome (reconcile_proposal code_unit_compare demo_digest a (demo_proposal a) (-62167219199997) (\<lambda>_ _. Some True)) = ReconcileAccepted)
    (plan_assignments demo_plan)"
  by code_simp

lemma demo_released: "snd (release_plan demo_digest (plan_planHash demo_plan) demo_state) = Inr True \<and>
    map pr_plan (plans (fst (release_plan demo_digest (plan_planHash demo_plan) demo_state))) = [demo_plan]"
proof -
  have "coordination_sha256 (given (plan_planHash demo_plan)) ''planHash'' = Inr (plan_planHash demo_plan)" by code_simp
  moreover have "plans demo_state = [\<lparr>pr_plan = demo_plan, pr_controllers = [], pr_expiresAtMs = -62167219199995, pr_state = PlanReserved\<rparr>]"
    by (simp add: demo_state_def)
  ultimately show ?thesis
    by (simp add: release_plan_def then_do_def check_first_def find_record_def release_record_def update_record_def record_hash_def)
qed

lemma demo_valid: "check_options demo_options = Inr ()"
  by (simp add: check_options_def demo_options_def coordinator_bounded_def planRecords_of_def safe_integer_def max_safe_integer_def)

lemma demo_values: "state_values demo_state = plan_values demo_plan"
  by (simp add: state_values_def demo_state_def)

lemma demo_inj: "inj_on demo_digest (plan_values demo_plan)"
proof -
  have as: "plan_assignments demo_plan = [demo_assignment 1 ''t'' CHR ''b'' CHR ''d'', demo_assignment 2 ''u'' CHR ''c'' CHR ''e'']"
    by (simp add: demo_plan_def)
  have long: "replicate 64 c \<noteq> [d]" for c d :: char by (auto dest: arg_cong [of _ _ length])
  show ?thesis using demo_hashes unfolding plan_values_def as by (auto simp: inj_on_def long long [symmetric])
qed

lemma demo_run: "coordinator_run demo_options code_unit_compare demo_digest demo_start {}"
  "coordinator_run demo_options code_unit_compare demo_digest demo_state (plan_values demo_plan)"
proof -
  have "state_values demo_start = {}"
  proof -
    have "plans demo_start = []" by code_simp
    then show ?thesis by (simp add: state_values_def)
  qed
  then show start: "coordinator_run demo_options code_unit_compare demo_digest demo_start {}"
    using coordinator_steps.step [OF coordinator_steps.refl, of demo_options code_unit_compare demo_digest "new_coordinator []" "{}" "EvRegister demo_profile True"]
    by (simp add: demo_start_def)
  have "coordination_step demo_options code_unit_compare demo_digest (EvPlan (demo_clock CHR ''0'') demo_snapshot [demo_spec ''t'', demo_spec ''u'']) demo_start = demo_state"
    using demo_planned by (simp add: demo_planned_def)
  with coordinator_steps.step [OF start, of "EvPlan (demo_clock CHR ''0'') demo_snapshot [demo_spec ''t'', demo_spec ''u'']"]
  show "coordinator_run demo_options code_unit_compare demo_digest demo_state (plan_values demo_plan)"
    by (simp add: demo_values)
qed

lemma demo_held: "held_assignments demo_state = plan_assignments demo_plan" "length (plan_assignments demo_plan) = 2"
  by (simp_all add: held_assignments_def demo_state_def unreleased_def) (simp add: demo_plan_def)

lemma demo_validated:
  "a \<in> set (plan_assignments demo_plan) \<Longrightarrow>
     \<exists>r. validate_proposal code_unit_compare demo_digest a (demo_proposal a) (-62167219199997) = Inr r"
proof -
  assume "a \<in> set (plan_assignments demo_plan)"
  with demo_accepted have "rec_outcome (reconcile_proposal code_unit_compare demo_digest a (demo_proposal a) (-62167219199997) (\<lambda>_ _. Some True)) = ReconcileAccepted"
    by (simp add: list_all_iff)
  then show ?thesis by (cases "validate_proposal code_unit_compare demo_digest a (demo_proposal a) (-62167219199997)")
    (auto simp: reconcile_proposal_def create_reconciliation_def Let_def)
qed

lemma concurrent_assignments_are_separate_witness:
  "\<exists>a b r r'. a \<in> set (held_assignments demo_state) \<and> b \<in> set (held_assignments demo_state) \<and> as_lease a \<in> set (leases demo_state) \<and>
     validate_proposal code_unit_compare demo_digest a (demo_proposal a) (-62167219199997) = Inr r \<and>
     validate_proposal code_unit_compare demo_digest b (demo_proposal b) (-62167219199997) = Inr r' \<and>
     set (rs_filesChanged r) \<inter> set (rs_filesChanged r') = {}"
proof -
  let ?a = "held_assignments demo_state ! 0" and ?b = "held_assignments demo_state ! 1"
  have mem: "?a \<in> set (held_assignments demo_state)" "?b \<in> set (held_assignments demo_state)" by (simp_all add: demo_held)
  then obtain r r' where r: "validate_proposal code_unit_compare demo_digest ?a (demo_proposal ?a) (-62167219199997) = Inr r"
      "validate_proposal code_unit_compare demo_digest ?b (demo_proposal ?b) (-62167219199997) = Inr r'"
    using demo_validated unfolding demo_held by blast
  have "0 < length (held_assignments demo_state)" "1 < length (held_assignments demo_state)" "0 \<noteq> (1 :: nat)" by (simp_all add: demo_held)
  from concurrent_assignments_are_separate [OF demo_valid demo_run(2) demo_inj this HOL.refl HOL.refl,
      of "demo_proposal ?a" "-62167219199997" r "demo_proposal ?b" "-62167219199997" r'] r mem
  show ?thesis by blast
qed

lemma coordination_stays_bounded_witness:
  "mset (map as_lease (held_assignments demo_state)) = mset (leases demo_state) \<and> length (leases demo_state) = 2"
  using coordination_stays_bounded [OF demo_valid demo_run(2) demo_inj] by (simp add: demo_state_def demo_plan_def)

lemma executed_plan_never_runs_again_witness:
  "\<exists>e. snd (begin_execution demo_digest (demo_clock CHR ''1'') demo_plan (fst (release_plan demo_digest (plan_planHash demo_plan) demo_state))) = Inl e"
proof -
  let ?t = "fst (release_plan demo_digest (plan_planHash demo_plan) demo_state)"
  have released: "release_plan demo_digest (plan_planHash demo_plan) demo_state = (?t, Inr True)"
    using demo_released by (metis prod.collapse)
  have "state_values ?t = plan_values demo_plan" using demo_released by (simp add: state_values_def)
  then have inj: "inj_on demo_digest (plan_values demo_plan \<union> state_values ?t)" using demo_inj by simp
  show ?thesis
    by (rule executed_plan_never_runs_again [OF demo_valid demo_run(2) disjI2 [OF released] coordinator_steps.refl inj HOL.refl])
qed

lemma accepted_needs_attested_evidence_witness:
  "\<exists>r. validate_proposal code_unit_compare demo_digest (hd (plan_assignments demo_plan)) (demo_proposal (hd (plan_assignments demo_plan))) (-62167219199997) = Inr r \<and>
     rs_verificationStatus r = ''VERIFIED''"
proof -
  have "rec_outcome (reconcile_proposal code_unit_compare demo_digest (hd (plan_assignments demo_plan)) (demo_proposal (hd (plan_assignments demo_plan)))
      (-62167219199997) (\<lambda>_ _. Some True)) = ReconcileAccepted"
    using demo_accepted by (simp add: demo_plan_def)
  from accepted_needs_attested_evidence [OF this] show ?thesis by blast
qed

lemma demo_batch: "plan_batch demo_options code_unit_compare demo_digest (demo_clock CHR ''0'') demo_snapshot [demo_spec ''t'', demo_spec ''u''] demo_start =
    (demo_state, Inr demo_plan)"
  using demo_planned by (simp add: demo_planned_def)

lemma plan_covers_pending_tasks_witness:
  "mset (map as_taskId (plan_assignments demo_plan)) = {#''t'', ''u''#} \<and> int (length (plan_assignments demo_plan)) \<le> maxBatchSize demo_options"
proof -
  have "plan_deferred demo_plan = []" by (simp add: demo_plan_def)
  with plan_covers_pending_tasks [OF demo_valid demo_batch] show ?thesis
    by (simp add: demo_snapshot_def demo_task_def)
qed

lemma demo_specs: "\<exists>specs x. normalize_task_specs code_unit_compare demo_snapshot [demo_spec ''t'', demo_spec ''u''] = Inr specs \<and> x \<in> set specs \<and>
    spec_taskId x = ''t'' \<and> spec_role x = ''r'' \<and> spec_requiredCapabilities x = [''c'']"
proof -
  have "case normalize_task_specs code_unit_compare demo_snapshot [demo_spec ''t'', demo_spec ''u''] of Inl e \<Rightarrow> False
    | Inr specs \<Rightarrow> specs \<noteq> [] \<and> spec_taskId (hd specs) = ''t'' \<and> spec_role (hd specs) = ''r'' \<and> spec_requiredCapabilities (hd specs) = [''c'']"
    by code_simp
  then show ?thesis by (auto split: sum.splits intro: list.set_sel(1))
qed

lemma idle_coordinator_assigns_work_witness: "plan_assignments demo_plan \<noteq> []"
proof -
  from demo_specs obtain specs x where x: "normalize_task_specs code_unit_compare demo_snapshot [demo_spec ''t'', demo_spec ''u''] = Inr specs"
    "x \<in> set specs" "spec_taskId x = ''t''" "spec_role x = ''r''" "spec_requiredCapabilities x = [''c'']" by blast
  have "leases demo_start = []" "specialists demo_start = [demo_profile]" by code_simp+
  moreover have "demo_task ''t'' \<in> set (runnable_tasks code_unit_compare demo_snapshot)"
    by (simp add: runnable_tasks_def is_runnable_def demo_snapshot_def demo_task_def js_get_def)
  ultimately show ?thesis
    using idle_coordinator_assigns_work [OF demo_valid demo_batch _ x(1,2), of "demo_task ''t''" demo_profile] x(3-5)
    by (simp add: demo_task_def demo_profile_def)
qed

lemma fresh_plan_executes_witness: "snd (begin_execution demo_digest (demo_clock CHR ''1'') demo_plan demo_state) = Inr ()"
proof -
  have "inj_on demo_digest ({} \<union> state_values demo_state)" using demo_inj by (simp add: demo_values)
  moreover have "sha256_pattern (plan_planHash demo_plan)" by code_simp
  moreover have "canonical_timestamp (demo_clock CHR ''1'') ''clock'' = Inr (-62167219199999)" by code_simp
  moreover have "parse_timestamp (demo_clock CHR ''0'') = -62167219200000" by code_simp
  ultimately show ?thesis
    using fresh_plan_executes [OF demo_valid demo_run(1) demo_batch] by (simp add: demo_options_def four_digit_year_def)
qed

end
