(* ===== verification/Verification.thy ===== *)
theory Verification
  imports Coordination
begin

text \<open>
  The independent verification engine (\<open>src/verification/\<close>): a request binds evidence to the claims of a
  mission, \<open>verify_claims\<close> checks every claim against its evidence, a reviewer looks at the result, and the
  gate opens, asks for repair or blocks. Requests have their declared types, so the source's tests of
  those types hold of them; kinds, classes, statuses, codes and verdicts are strings, as their membership is
  tested at run time. \<open>lc\<close> is \<open>localeCompare\<close>, \<open>digest\<close> the SHA-256 of the JSON text of a canonical value.
\<close>

section \<open>Types\<close>

record v_claim =
  vc_id :: string
  vc_missionId :: string
  vc_taskId :: string
  vc_definitionOfDone :: string
  vc_requiredEvidenceKinds :: "string list"
  vc_requiredAfter :: string

record v_evidence =
  ve_id :: string
  ve_missionId :: string
  ve_taskId :: string
  ve_kind :: string
  ve_subject :: string
  ve_producerId :: string
  ve_producerClass :: string
  ve_observedAt :: string
  ve_contentHash :: string
  ve_status :: string

record v_binding =
  vb_claimId :: string
  vb_evidenceIds :: "string list"

record v_request =
  vq_missionId :: string
  vq_evaluatedAt :: string
  vq_claims :: "v_claim list"
  vq_evidence :: "v_evidence list"
  vq_bindings :: "v_binding list"

record v_finding =
  vf_code :: string
  vf_severity :: string
  vf_claimId :: "string option"
  vf_evidenceIds :: "string list"
  vf_reason :: string

record v_result =
  vr_missionId :: string
  vr_evaluatedAt :: string
  vr_verdict :: string
  vr_findings :: "v_finding list"
  vr_satisfiedClaimIds :: "string list"
  vr_resultHash :: string

record repair_request =
  rr_claimIds :: "string list"
  rr_reasonCodes :: "string list"
  rr_instruction :: string

record v_review =
  rv_missionId :: string
  rv_verificationResultHash :: string
  rv_verdict :: string
  rv_findings :: "v_finding list"
  rv_repairRequest :: "repair_request option"
  rv_resultHash :: string

record v_gate =
  vg_verification :: v_result
  vg_review :: v_review
  vg_outcome :: string
  vg_resultHash :: string

type_synonym 'a verified = "(string, 'a) result"

section \<open>Checks\<close>

definition evidence_kinds :: "string list" where
  "evidence_kinds = [''audit'', ''changed_file'', ''quality_gate'', ''review'', ''test'']"

definition producer_classes :: "string list" where
  "producer_classes = [''external'', ''independent_tool'', ''planner'', ''runtime'']"

definition evidence_statuses :: "string list" where
  "evidence_statuses = [''FAIL'', ''PASS'']"

definition finding_codes :: "string list" where
  "finding_codes = [''claim_missing_evidence'', ''claim_duplicate_binding'', ''claim_foreign_scope'', ''claim_invalid'',
     ''evidence_conflict'', ''evidence_duplicate'', ''evidence_failed'', ''evidence_foreign_scope'', ''evidence_future'',
     ''evidence_invalid'', ''evidence_kind_mismatch'', ''evidence_missing'', ''evidence_reused'', ''evidence_self_authored'',
     ''evidence_stale'', ''evidence_too_early'', ''evidence_weak_provenance'', ''review_invalid'']"

definition max_repair_items :: nat where
  "max_repair_items = 32"

definition max_verification_items :: nat where
  "max_verification_items = 256"

definition max_evidence_per_binding :: nat where
  "max_evidence_per_binding = 32"

definition bounded_text :: "string \<Rightarrow> nat \<Rightarrow> bool" where
  "bounded_text s maximum \<longleftrightarrow> \<not> blank s \<and> length s \<le> maximum"

definition canonical_instant :: "string \<Rightarrow> int option" where
  "canonical_instant s =
     (if timestamp_pattern s \<and> iso_text (parse_timestamp s) = s then Some (parse_timestamp s) else None)"

text \<open>\<open>text || undefined\<close>.\<close>

definition text_or_none :: "string \<Rightarrow> string option" where
  "text_or_none s = (if s = [] then None else Some s)"

text \<open>\<open>[...new Set(values)]\<close>.\<close>

definition js_unique :: "'a list \<Rightarrow> 'a list" where
  "js_unique xs = rev (remdups (rev xs))"

section \<open>Findings\<close>

definition finding :: "string \<Rightarrow> string \<Rightarrow> string option \<Rightarrow> string list \<Rightarrow> string \<Rightarrow> v_finding" where
  "finding code severity claimId evidenceIds reason =
     \<lparr>vf_code = code, vf_severity = severity, vf_claimId = claimId,
      vf_evidenceIds = js_sort code_unit_compare evidenceIds, vf_reason = reason\<rparr>"

abbreviation blocking :: "string \<Rightarrow> string option \<Rightarrow> string list \<Rightarrow> string \<Rightarrow> v_finding" where
  "blocking code \<equiv> finding code ''BLOCKING''"

primrec nul_joined :: "string list \<Rightarrow> string" where
  "nul_joined [] = []"
| "nul_joined (s # ss) = (if ss = [] then s else s @ CHR 0x00 # nul_joined ss)"

definition claim_text :: "v_finding \<Rightarrow> string" where
  "claim_text f = (case vf_claimId f of None \<Rightarrow> [] | Some c \<Rightarrow> c)"

text \<open>\<open>a || b\<close> of comparison results.\<close>

definition or_else :: "('a \<Rightarrow> 'a \<Rightarrow> int) \<Rightarrow> ('a \<Rightarrow> 'a \<Rightarrow> int) \<Rightarrow> 'a \<Rightarrow> 'a \<Rightarrow> int" where
  "or_else f g a b = (if f a b \<noteq> 0 then f a b else g a b)"

definition on_field :: "('a \<Rightarrow> 'b) \<Rightarrow> ('b \<Rightarrow> 'b \<Rightarrow> int) \<Rightarrow> 'a \<Rightarrow> 'a \<Rightarrow> int" where
  "on_field h cmp a b = cmp (h a) (h b)"

definition compare_findings :: "(string \<Rightarrow> string \<Rightarrow> int) \<Rightarrow> v_finding \<Rightarrow> v_finding \<Rightarrow> int" where
  "compare_findings lc =
     or_else (on_field vf_code lc) (or_else (on_field claim_text lc)
       (or_else (on_field (\<lambda>f. nul_joined (vf_evidenceIds f)) lc) (or_else (on_field vf_reason lc) (on_field vf_severity lc))))"

definition sort_findings :: "(string \<Rightarrow> string \<Rightarrow> int) \<Rightarrow> v_finding list \<Rightarrow> v_finding list" where
  "sort_findings lc fs = js_sort (compare_findings lc) fs"

section \<open>Hashed values\<close>

definition texts_value :: "string list \<Rightarrow> json" where
  "texts_value xs = JArr (map JStr xs)"

definition finding_value :: "v_finding \<Rightarrow> json" where
  "finding_value f = JObj ([(''code'', JStr (vf_code f)), (''evidenceIds'', texts_value (vf_evidenceIds f))]
     @ (case vf_claimId f of None \<Rightarrow> [] | Some c \<Rightarrow> [(''claimId'', JStr c)])
     @ [(''reason'', JStr (vf_reason f)), (''severity'', JStr (vf_severity f))])"

definition v_result_base :: "v_result \<Rightarrow> (string \<times> json) list" where
  "v_result_base r = [(''evaluatedAt'', JStr (vr_evaluatedAt r)), (''findings'', JArr (map finding_value (vr_findings r))),
     (''missionId'', JStr (vr_missionId r)), (''satisfiedClaimIds'', texts_value (vr_satisfiedClaimIds r)), (''verdict'', JStr (vr_verdict r))]"

definition repair_value :: "repair_request \<Rightarrow> json" where
  "repair_value q = JObj [(''claimIds'', texts_value (rr_claimIds q)), (''instruction'', JStr (rr_instruction q)),
     (''reasonCodes'', texts_value (rr_reasonCodes q))]"

definition review_base :: "v_review \<Rightarrow> (string \<times> json) list" where
  "review_base v = [(''findings'', JArr (map finding_value (rv_findings v))), (''missionId'', JStr (rv_missionId v))]
     @ (case rv_repairRequest v of None \<Rightarrow> [] | Some q \<Rightarrow> [(''repairRequest'', repair_value q)])
     @ [(''verificationResultHash'', JStr (rv_verificationResultHash v)), (''verdict'', JStr (rv_verdict v))]"

definition with_hash :: "(string \<times> json) list \<Rightarrow> string \<Rightarrow> json" where
  "with_hash kvs h = JObj (kvs @ [(''resultHash'', JStr h)])"

definition gate_base :: "v_gate \<Rightarrow> (string \<times> json) list" where
  "gate_base g = [(''outcome'', JStr (vg_outcome g)), (''review'', with_hash (review_base (vg_review g)) (rv_resultHash (vg_review g))),
     (''verification'', with_hash (v_result_base (vg_verification g)) (vr_resultHash (vg_verification g)))]"

definition verification_hash :: "(json \<Rightarrow> string) \<Rightarrow> (string \<times> json) list \<Rightarrow> string" where
  "verification_hash digest kvs = digest (canonicalize (JObj kvs))"

section \<open>Indexes\<close>

text \<open>\<open>indexUnique\<close>: the items whose key occurs once, and the keys that occur again, in the order noticed.\<close>

definition index_step :: "('a \<Rightarrow> string) \<Rightarrow> 'a \<Rightarrow> string list \<times> (string \<rightharpoonup> 'a) \<Rightarrow> string list \<times> (string \<rightharpoonup> 'a)" where
  "index_step key x st =
     (let (duplicates, found) = st in
      if key x \<in> dom found \<or> key x \<in> set duplicates
      then (if key x \<in> set duplicates then duplicates else duplicates @ [key x], found(key x := None))
      else (duplicates, found(key x \<mapsto> x)))"

definition index_unique :: "('a \<Rightarrow> string) \<Rightarrow> 'a list \<Rightarrow> string list \<times> (string \<rightharpoonup> 'a)" where
  "index_unique key xs = fold (index_step key) xs ([], Map.empty)"

primrec group_insert :: "'k \<Rightarrow> 'a \<Rightarrow> ('k \<times> 'a list) list \<Rightarrow> ('k \<times> 'a list) list" where
  "group_insert k x [] = [(k, [x])]"
| "group_insert k x (g # gs) = (if fst g = k then (k, snd g @ [x]) # gs else g # group_insert k x gs)"

text \<open>A \<open>Map\<close> from keys to the items that have them, in insertion order.\<close>

definition group_by :: "('a \<Rightarrow> 'k) \<Rightarrow> 'a list \<Rightarrow> ('k \<times> 'a list) list" where
  "group_by key xs = fold (\<lambda>x. group_insert (key x) x) xs []"

definition scope_key :: "v_evidence \<Rightarrow> string" where
  "scope_key e = nul_joined [ve_missionId e, ve_taskId e, ve_kind e, ve_subject e]"

definition scoped_evidence :: "v_evidence \<Rightarrow> bool" where
  "scoped_evidence e \<longleftrightarrow> bounded_text (ve_missionId e) 128 \<and> bounded_text (ve_taskId e) 128 \<and> ve_kind e \<in> set evidence_kinds \<and>
     bounded_text (ve_subject e) 500 \<and> ve_status e \<in> set evidence_statuses"

text \<open>\<open>contradictoryEvidence\<close>: the ids in conflict, per group, and one finding each.\<close>

definition conflicting_groups :: "v_evidence list \<Rightarrow> v_evidence list list" where
  "conflicting_groups es =
     filter (\<lambda>g. 1 < length (js_unique (map ve_status g))) (map snd (group_by scope_key (filter scoped_evidence es)))"

definition conflict_ids :: "v_evidence list \<Rightarrow> string list" where
  "conflict_ids g = js_sort code_unit_compare (filter (\<lambda>i. i \<noteq> []) (map ve_id g))"

definition contradictory_evidence :: "v_evidence list \<Rightarrow> string list \<times> v_finding list" where
  "contradictory_evidence es =
     (concat (map conflict_ids (conflicting_groups es)),
      map (\<lambda>g. blocking ''evidence_conflict'' None (conflict_ids g) ''Conflicting pass and fail evidence exists for the same scoped subject.'')
        (conflicting_groups es))"

text \<open>\<open>indexBindings\<close>.\<close>

definition malformed_binding :: "v_binding \<Rightarrow> bool" where
  "malformed_binding b \<longleftrightarrow> \<not> bounded_text (vb_claimId b) 128 \<or> vb_evidenceIds b = [] \<or>
     list_ex (\<lambda>i. \<not> bounded_text i 128) (vb_evidenceIds b) \<or> \<not> distinct (vb_evidenceIds b)"

definition binding_step :: "v_binding \<Rightarrow> string set \<times> (string \<rightharpoonup> v_binding) \<times> v_finding list
    \<Rightarrow> string set \<times> (string \<rightharpoonup> v_binding) \<times> v_finding list" where
  "binding_step b st =
     (let (invalid, found, fs) = st; c = vb_claimId b in
      if c \<in> dom found \<or> c \<in> invalid
      then (insert c invalid, found(c := None),
        fs @ [blocking ''claim_duplicate_binding'' (text_or_none c) (vb_evidenceIds b) ''Claim has more than one binding record.''])
      else if malformed_binding b
      then (insert c invalid, found,
        fs @ [blocking ''claim_duplicate_binding'' (text_or_none c) (vb_evidenceIds b)
          ''Claim binding is empty, malformed, or contains duplicate evidence IDs.''])
      else (invalid, found(c \<mapsto> b\<lparr>vb_evidenceIds := js_sort code_unit_compare (vb_evidenceIds b)\<rparr>), fs))"

definition index_bindings :: "v_binding list \<Rightarrow> string set \<times> (string \<rightharpoonup> v_binding) \<times> v_finding list" where
  "index_bindings bs = fold binding_step bs ({}, Map.empty, [])"

section \<open>Claims and evidence\<close>

text \<open>A check: whether it passed, and the findings it pushed.\<close>

definition v_check :: "bool \<Rightarrow> v_finding \<Rightarrow> v_finding list" where
  "v_check failed f = (if failed then [f] else [])"

definition malformed_claim :: "v_claim \<Rightarrow> bool" where
  "malformed_claim c \<longleftrightarrow> \<not> bounded_text (vc_id c) 128 \<or> \<not> bounded_text (vc_taskId c) 128 \<or> \<not> bounded_text (vc_definitionOfDone c) 1000 \<or>
     vc_requiredEvidenceKinds c = [] \<or> 5 < length (vc_requiredEvidenceKinds c) \<or>
     list_ex (\<lambda>k. k \<notin> set evidence_kinds) (vc_requiredEvidenceKinds c) \<or> \<not> distinct (vc_requiredEvidenceKinds c) \<or>
     canonical_instant (vc_requiredAfter c) = None"

text \<open>\<open>a !== null && b !== null && a > b\<close>.\<close>

definition instant_after :: "int option \<Rightarrow> int option \<Rightarrow> bool" where
  "instant_after a b = (case (a, b) of (Some x, Some y) \<Rightarrow> y < x | _ \<Rightarrow> False)"

definition validate_claim :: "v_request \<Rightarrow> v_claim \<Rightarrow> v_finding list" where
  "validate_claim q c =
     v_check (malformed_claim c)
       (blocking ''claim_invalid'' (text_or_none (vc_id c)) [] ''Verification claim metadata or required evidence kinds are malformed.'')
     @ v_check (vc_missionId c \<noteq> vq_missionId q)
       (blocking ''claim_foreign_scope'' (text_or_none (vc_id c)) [] ''Verification claim belongs to another mission.'')
     @ v_check (instant_after (canonical_instant (vc_requiredAfter c)) (canonical_instant (vq_evaluatedAt q)))
       (blocking ''claim_invalid'' (text_or_none (vc_id c)) [] ''Claim required-after timestamp is later than verification time.'')"

definition malformed_evidence :: "v_evidence \<Rightarrow> bool" where
  "malformed_evidence e \<longleftrightarrow> \<not> bounded_text (ve_id e) 128 \<or> \<not> bounded_text (ve_taskId e) 128 \<or> \<not> bounded_text (ve_subject e) 500 \<or>
     \<not> bounded_text (ve_producerId e) 128 \<or> ve_producerClass e \<notin> set producer_classes \<or> ve_kind e \<notin> set evidence_kinds \<or>
     ve_status e \<notin> set evidence_statuses \<or> \<not> sha256_pattern (ve_contentHash e) \<or> canonical_instant (ve_observedAt e) = None"

definition stale_at :: "int \<Rightarrow> int option \<Rightarrow> int option \<Rightarrow> bool" where
  "stale_at maxAge observed evaluated =
     (case (observed, evaluated) of (Some o', Some t) \<Rightarrow> o' \<le> t \<and> maxAge < t - o' | _ \<Rightarrow> False)"

definition validate_evidence_envelope :: "int \<Rightarrow> v_request \<Rightarrow> v_evidence \<Rightarrow> v_finding list" where
  "validate_evidence_envelope maxAge q e =
     (let ids = (if ve_id e = [] then [] else [ve_id e]);
          observed = canonical_instant (ve_observedAt e); evaluated = canonical_instant (vq_evaluatedAt q) in
      v_check (malformed_evidence e)
        (blocking ''evidence_invalid'' None ids ''Evidence metadata, kind, provenance, hash, status, or timestamp is malformed.'')
      @ v_check (ve_missionId e \<noteq> vq_missionId q)
        (blocking ''evidence_foreign_scope'' None ids ''Evidence belongs to another mission.'')
      @ v_check (ve_status e \<in> set evidence_statuses \<and> ve_status e \<noteq> ''PASS'')
        (blocking ''evidence_failed'' None ids ''Supplied evidence reports a failing status.'')
      @ v_check (instant_after observed evaluated)
        (blocking ''evidence_future'' None ids ''Evidence observation timestamp is in the future.'')
      @ v_check (stale_at maxAge observed evaluated)
        (blocking ''evidence_stale'' None ids ''Evidence exceeds the configured freshness bound.''))"

definition validate_evidence_for_claim :: "v_claim \<Rightarrow> v_evidence \<Rightarrow> v_finding list" where
  "validate_evidence_for_claim c e =
     v_check (ve_taskId e \<noteq> vc_taskId c \<or> ve_missionId e \<noteq> vc_missionId c)
       (blocking ''evidence_foreign_scope'' (text_or_none (vc_id c)) [ve_id e] ''Evidence mission/task scope does not match the bound claim.'')
     @ v_check (ve_kind e \<notin> set evidence_kinds \<or> ve_kind e \<notin> set (vc_requiredEvidenceKinds c))
       (blocking ''evidence_kind_mismatch'' (text_or_none (vc_id c)) [ve_id e] ''Evidence kind is not accepted by the bound claim.'')
     @ v_check (instant_after (canonical_instant (vc_requiredAfter c)) (canonical_instant (ve_observedAt e)))
       (blocking ''evidence_too_early'' (text_or_none (vc_id c)) [ve_id e] ''Evidence predates the claim's required-after boundary.'')"

end
