(* ===== verification/VerificationEngine.thy ===== *)
theory VerificationEngine
  imports Verification
begin

text \<open>
  The verification of claims, the built-in reviewer and the gate (\<open>src/verification/engine.ts\<close>,
  \<open>review.ts\<close>). A reviewer is a function that answers or throws (\<open>None\<close>).
\<close>

section \<open>Verification\<close>

text \<open>The evidence that may support a claim: well-formed, unique and not in conflict, by id.\<close>

definition evidence_validity :: "int \<Rightarrow> v_request \<Rightarrow> string \<rightharpoonup> bool" where
  "evidence_validity maxAge q =
     fold (\<lambda>e valid. valid(ve_id e \<mapsto> validate_evidence_envelope maxAge q e = [] \<and>
         ve_id e \<notin> set (fst (index_unique ve_id (vq_evidence q))) \<and>
         ve_id e \<notin> set (fst (contradictory_evidence (vq_evidence q)))))
       (vq_evidence q) Map.empty"

text \<open>One piece of evidence bound to a claim: the findings, and its kind where it is accepted.\<close>

definition check_bound_evidence :: "int \<Rightarrow> v_request \<Rightarrow> v_claim \<Rightarrow> string \<Rightarrow> v_finding list \<times> string option" where
  "check_bound_evidence maxAge q c i =
     (case snd (index_unique ve_id (vq_evidence q)) i of
        None \<Rightarrow> ([blocking ''evidence_missing'' (text_or_none (vc_id c)) [i] ''Binding references evidence that does not exist or is duplicated.''], None)
      | Some e \<Rightarrow>
          if evidence_validity maxAge q i \<noteq> Some True then ([], None)
          else (let fs = validate_evidence_for_claim c e in (fs, if fs = [] then Some (ve_kind e) else None)))"

definition missing_kinds :: "v_claim \<Rightarrow> string list \<Rightarrow> string option list \<Rightarrow> v_finding list" where
  "missing_kinds c ids accepted =
     map (\<lambda>k. blocking ''evidence_kind_mismatch'' (text_or_none (vc_id c)) ids (''Claim is missing required evidence kind '' @ k @ ''.''))
       (filter (\<lambda>k. Some k \<notin> set accepted) (vc_requiredEvidenceKinds c))"

text \<open>One claim: the findings, and whether it is satisfied.\<close>

definition check_claim :: "int \<Rightarrow> v_request \<Rightarrow> v_claim \<Rightarrow> v_finding list \<times> bool" where
  "check_claim maxAge q c =
     (let own = validate_claim q c; (invalid, found, _) = index_bindings (vq_bindings q) in
      case found (vc_id c) of
        None \<Rightarrow> (own @ [blocking ''claim_missing_evidence'' (text_or_none (vc_id c)) [] ''Required claim has no valid bound evidence.''], False)
      | Some b \<Rightarrow>
          if vb_evidenceIds b = []
          then (own @ [blocking ''claim_missing_evidence'' (text_or_none (vc_id c)) [] ''Required claim has no valid bound evidence.''], False)
          else (let checks = map (check_bound_evidence maxAge q c) (vb_evidenceIds b);
                    missing = missing_kinds c (vb_evidenceIds b) (map snd checks) in
                (own @ concat (map fst checks) @ missing,
                 own = [] \<and> vc_id c \<notin> set (fst (index_unique vc_id (vq_claims q))) \<and> vc_id c \<notin> invalid \<and>
                 None \<notin> set (map snd checks) \<and> missing = [])))"

definition unknown_bindings :: "v_request \<Rightarrow> v_finding list" where
  "unknown_bindings q =
     map (\<lambda>b. blocking ''claim_invalid'' (text_or_none (vb_claimId b)) (vb_evidenceIds b) ''Evidence binding references an unknown or duplicated claim.'')
       (filter (\<lambda>b. snd (index_unique vc_id (vq_claims q)) (vb_claimId b) = None) (vq_bindings q))"

definition verification_findings :: "int \<Rightarrow> v_request \<Rightarrow> v_finding list" where
  "verification_findings maxAge q =
     v_check (\<not> bounded_text (vq_missionId q) 128 \<or> canonical_instant (vq_evaluatedAt q) = None)
       (blocking ''claim_invalid'' None [] ''Verification request mission or canonical evaluation timestamp is invalid.'')
     @ v_check (vq_claims q = [])
       (blocking ''claim_invalid'' None [] ''Verification requires at least one definition-of-done claim.'')
     @ map (\<lambda>i. blocking ''claim_invalid'' (text_or_none i) [] ''Verification claim IDs must be unique.'')
         (fst (index_unique vc_id (vq_claims q)))
     @ map (\<lambda>i. blocking ''evidence_duplicate'' None (if i = [] then [] else [i]) ''Verification evidence IDs must be unique.'')
         (fst (index_unique ve_id (vq_evidence q)))
     @ snd (contradictory_evidence (vq_evidence q))
     @ concat (map (validate_evidence_envelope maxAge q) (vq_evidence q))
     @ snd (snd (index_bindings (vq_bindings q)))
     @ concat (map (fst \<circ> check_claim maxAge q) (vq_claims q))
     @ unknown_bindings q"

definition satisfied_claims :: "int \<Rightarrow> v_request \<Rightarrow> string list" where
  "satisfied_claims maxAge q =
     js_sort code_unit_compare (js_unique (map vc_id (filter (snd \<circ> check_claim maxAge q) (vq_claims q))))"

definition verify_claims :: "(string \<Rightarrow> string \<Rightarrow> int) \<Rightarrow> (json \<Rightarrow> string) \<Rightarrow> int \<Rightarrow> v_request \<Rightarrow> v_result" where
  "verify_claims lc digest maxAge q =
     (let sorted = sort_findings lc (verification_findings maxAge q);
          r = \<lparr>vr_missionId = vq_missionId q, vr_evaluatedAt = vq_evaluatedAt q,
            vr_verdict = (if list_ex (\<lambda>f. vf_severity f = ''BLOCKING'') sorted then ''FAIL'' else ''PASS''),
            vr_findings = sorted, vr_satisfiedClaimIds = satisfied_claims maxAge q, vr_resultHash = []\<rparr> in
      r\<lparr>vr_resultHash := verification_hash digest (v_result_base r)\<rparr>)"

section \<open>The built-in reviewer\<close>

text \<open>\<open>claimsByEvidence\<close> and \<open>claimById\<close>.\<close>

definition claims_by_evidence :: "v_request \<Rightarrow> (string \<times> string list) list" where
  "claims_by_evidence q =
     map (map_prod id (map snd))
       (group_by fst (concat (map (\<lambda>b. map (\<lambda>i. (i, vb_claimId b)) (vb_evidenceIds b)) (vq_bindings q))))"

definition claim_by_id :: "v_request \<Rightarrow> string \<Rightarrow> v_claim option" where
  "claim_by_id q i = find (\<lambda>c. vc_id c = i) (rev (vq_claims q))"

definition unique_sorted :: "string list \<Rightarrow> string list" where
  "unique_sorted xs = js_sort code_unit_compare (js_unique xs)"

definition tasks_of_claims :: "v_request \<Rightarrow> string list \<Rightarrow> string list" where
  "tasks_of_claims q ids =
     js_unique (filter (\<lambda>t. t \<noteq> []) (concat (map (\<lambda>i. case claim_by_id q i of None \<Rightarrow> [] | Some c \<Rightarrow> [vc_taskId c]) ids)))"

definition reused_evidence :: "v_request \<Rightarrow> v_finding list" where
  "reused_evidence q =
     concat (map (\<lambda>(i, claimIds).
         let ids = unique_sorted claimIds in
         if 1 < length (tasks_of_claims q ids)
         then map (\<lambda>c. finding ''evidence_reused'' ''WARNING'' (Some c) [i] ''One evidence item is reused across claims owned by different tasks.'') ids
         else [])
       (claims_by_evidence q))"

definition review_conflicts :: "v_request \<Rightarrow> v_finding list" where
  "review_conflicts q =
     map (\<lambda>g. blocking ''evidence_conflict'' None (map ve_id g) ''Contradictory pass and fail evidence exists for the same scoped subject.'')
       (filter (\<lambda>g. 1 < length (js_unique (map ve_status g))) (map snd (group_by scope_key (vq_evidence q))))"

definition bound_claims :: "v_request \<Rightarrow> v_evidence \<Rightarrow> string list" where
  "bound_claims q e = unique_sorted (case map_of (claims_by_evidence q) (ve_id e) of None \<Rightarrow> [] | Some ids \<Rightarrow> ids)"

definition primary_claim :: "v_request \<Rightarrow> v_evidence \<Rightarrow> string option" where
  "primary_claim q e = (case bound_claims q e of [] \<Rightarrow> None | c # cs \<Rightarrow> Some c)"

definition review_evidence :: "int \<Rightarrow> v_request \<Rightarrow> v_evidence \<Rightarrow> v_finding list" where
  "review_evidence maxAge q e =
     (let primary = primary_claim q e; observed = canonical_instant (ve_observedAt e) in
      (if ve_producerClass e = ''planner'' \<or> ve_producerClass e = ''runtime''
       then [finding ''evidence_self_authored'' ''WARNING'' primary [ve_id e]
         ''Evidence is self-authored by planning/runtime code rather than an independent source.'']
       else if ve_producerClass e = ''external''
       then [finding ''evidence_weak_provenance'' ''WARNING'' primary [ve_id e]
         ''External evidence lacks an independent deterministic tool attestation.'']
       else [])
      @ v_check (case (canonical_instant (vq_evaluatedAt q), observed) of (Some t, Some o') \<Rightarrow> maxAge < t - o' | _ \<Rightarrow> False)
        (finding ''evidence_stale'' ''WARNING'' primary [ve_id e] ''Evidence is older than the configured adversarial freshness bound.'')
      @ concat (map (\<lambda>i. case claim_by_id q i of None \<Rightarrow> []
            | Some c \<Rightarrow> v_check (instant_after (canonical_instant (vc_requiredAfter c)) observed)
                (finding ''evidence_too_early'' ''WARNING'' (Some i) [ve_id e] ''Evidence was observed before the claim's required-after boundary.''))
          (bound_claims q e)))"

definition review_findings :: "int \<Rightarrow> v_request \<Rightarrow> v_finding list" where
  "review_findings maxAge q =
     reused_evidence q @ review_conflicts q @ concat (map (review_evidence maxAge q) (vq_evidence q))"

definition build_repair_request :: "v_finding list \<Rightarrow> repair_request" where
  "build_repair_request fs =
     \<lparr>rr_claimIds = take max_repair_items (unique_sorted (concat (map (\<lambda>f. case vf_claimId f of None \<Rightarrow> [] | Some c \<Rightarrow> [c]) fs))),
      rr_reasonCodes = take max_repair_items (unique_sorted (map vf_code fs)),
      rr_instruction = ''Collect fresh independent evidence for the referenced claims before retrying verification.''\<rparr>"

definition signed_review :: "(json \<Rightarrow> string) \<Rightarrow> v_review \<Rightarrow> v_review" where
  "signed_review digest v = v\<lparr>rv_resultHash := verification_hash digest (review_base v)\<rparr>"

definition built_in_review :: "(string \<Rightarrow> string \<Rightarrow> int) \<Rightarrow> (json \<Rightarrow> string) \<Rightarrow> int \<Rightarrow> v_request \<Rightarrow> v_result \<Rightarrow> v_review option" where
  "built_in_review lc digest maxAge q r =
     (let sorted = sort_findings lc (review_findings maxAge q);
          verdict = (if vr_verdict r = ''FAIL'' \<or> list_ex (\<lambda>f. vf_severity f = ''BLOCKING'') sorted then ''BLOCK''
            else if list_ex (\<lambda>f. vf_severity f = ''WARNING'') sorted then ''REPAIR_REQUIRED'' else ''ACCEPT'') in
      Some (signed_review digest \<lparr>rv_missionId = vq_missionId q, rv_verificationResultHash = vr_resultHash r, rv_verdict = verdict,
        rv_findings = sorted, rv_repairRequest = (if verdict = ''REPAIR_REQUIRED'' then Some (build_repair_request sorted) else None),
        rv_resultHash = []\<rparr>))"

section \<open>The gate\<close>

definition valid_finding :: "v_finding \<Rightarrow> bool" where
  "valid_finding f \<longleftrightarrow> vf_code f \<in> set finding_codes \<and> (vf_severity f = ''BLOCKING'' \<or> vf_severity f = ''WARNING'') \<and>
     length (vf_evidenceIds f) \<le> max_evidence_per_binding \<and> list_all (\<lambda>i. bounded_text i 128) (vf_evidenceIds f) \<and>
     bounded_text (vf_reason f) 500 \<and> (case vf_claimId f of None \<Rightarrow> True | Some c \<Rightarrow> bounded_text c 128)"

definition normalize_repair_request :: "v_request \<Rightarrow> repair_request option \<Rightarrow> repair_request option verified" where
  "normalize_repair_request q repair =
     (case repair of
        None \<Rightarrow> Inr None
      | Some p \<Rightarrow>
          and_then (ensure (rr_claimIds p \<noteq> [] \<and> length (rr_claimIds p) \<le> max_repair_items \<and>
              rr_reasonCodes p \<noteq> [] \<and> length (rr_reasonCodes p) \<le> max_repair_items \<and> bounded_text (rr_instruction p) 500)
            ''Reviewer repair request is malformed or unbounded.'') (\<lambda>_.
          and_then (ensure (list_all (\<lambda>i. bounded_text i 128 \<and> i \<in> vc_id ` set (vq_claims q)) (rr_claimIds p) \<and> distinct (rr_claimIds p) \<and>
              list_all (\<lambda>k. k \<in> set finding_codes) (rr_reasonCodes p) \<and> distinct (rr_reasonCodes p))
            ''Reviewer repair request references invalid claims or reasons.'') (\<lambda>_.
          Inr (Some (p\<lparr>rr_claimIds := js_sort code_unit_compare (rr_claimIds p), rr_reasonCodes := js_sort code_unit_compare (rr_reasonCodes p)\<rparr>)))))"

definition inconsistent_review :: "v_review \<Rightarrow> bool" where
  "inconsistent_review v \<longleftrightarrow>
     (let hasBlocking = list_ex (\<lambda>f. vf_severity f = ''BLOCKING'') (rv_findings v);
          hasWarning = list_ex (\<lambda>f. vf_severity f = ''WARNING'') (rv_findings v) in
      rv_verdict v = ''ACCEPT'' \<and> (rv_findings v \<noteq> [] \<or> rv_repairRequest v \<noteq> None) \<or>
      rv_verdict v = ''REPAIR_REQUIRED'' \<and> (\<not> hasWarning \<or> hasBlocking \<or> rv_repairRequest v = None) \<or>
      rv_verdict v = ''BLOCK'' \<and> rv_repairRequest v \<noteq> None)"

definition normalize_review :: "(string \<Rightarrow> string \<Rightarrow> int) \<Rightarrow> (json \<Rightarrow> string) \<Rightarrow> v_request \<Rightarrow> v_result \<Rightarrow> v_review \<Rightarrow> v_review verified" where
  "normalize_review lc digest q r v =
     and_then (ensure (rv_missionId v = vq_missionId q) ''Reviewer mission scope is invalid.'') (\<lambda>_.
     and_then (ensure (length (rv_findings v) \<le> max_verification_items) ''Reviewer findings are invalid.'') (\<lambda>_.
     and_then (ensure (list_all valid_finding (rv_findings v)) ''Reviewer finding contract is invalid.'') (\<lambda>_.
     and_then (ensure (rv_verdict v \<in> {''ACCEPT'', ''BLOCK'', ''REPAIR_REQUIRED''}) ''Reviewer verdict is invalid.'') (\<lambda>_.
     and_then (ensure (rv_verificationResultHash v = vr_resultHash r)
       ''Reviewer result is not bound to the current verification result.'') (\<lambda>_.
     and_then (normalize_repair_request q (rv_repairRequest v)) (\<lambda>repair.
     let u = v\<lparr>rv_findings := sort_findings lc (rv_findings v), rv_repairRequest := repair\<rparr> in
     and_then (ensure (\<not> inconsistent_review u) ''Reviewer verdict and findings are inconsistent.'') (\<lambda>_.
     and_then (ensure (sha256_pattern (rv_resultHash v) \<and> rv_resultHash v = verification_hash digest (review_base u))
       ''Reviewer result hash is invalid.'') (\<lambda>_.
     Inr u))))))))"

definition invalid_review :: "(json \<Rightarrow> string) \<Rightarrow> string \<Rightarrow> string \<Rightarrow> v_review" where
  "invalid_review digest m h =
     signed_review digest \<lparr>rv_missionId = m, rv_verificationResultHash = h, rv_verdict = ''BLOCK'',
       rv_findings = [blocking ''review_invalid'' None [] ''Adversarial reviewer failed or returned an invalid result contract.''],
       rv_repairRequest = None, rv_resultHash = []\<rparr>"

definition check_request_collections :: "v_request \<Rightarrow> unit verified" where
  "check_request_collections q =
     and_then (ensure (length (vq_claims q) \<le> max_verification_items \<and> length (vq_evidence q) \<le> max_verification_items \<and>
         length (vq_bindings q) \<le> max_verification_items) ''Verification collections must be arrays of at most 256 items.'') (\<lambda>_.
     ensure (list_all (\<lambda>b. length (vb_evidenceIds b) \<le> max_evidence_per_binding) (vq_bindings q))
       ''Verification claim, evidence, or binding structure is malformed.'')"

definition gate_outcome :: "v_result \<Rightarrow> v_review \<Rightarrow> string" where
  "gate_outcome r v = (if vr_verdict r = ''FAIL'' \<or> rv_verdict v = ''BLOCK'' then ''BLOCK''
     else if rv_verdict v = ''REPAIR_REQUIRED'' then ''REPAIR_REQUIRED'' else ''PASS'')"

definition verify_request :: "(string \<Rightarrow> string \<Rightarrow> int) \<Rightarrow> (json \<Rightarrow> string) \<Rightarrow> int \<Rightarrow> (v_request \<Rightarrow> v_result \<Rightarrow> v_review option)
    \<Rightarrow> v_request \<Rightarrow> v_gate verified" where
  "verify_request lc digest maxAge reviewer q =
     and_then (check_request_collections q) (\<lambda>_.
     let r = verify_claims lc digest maxAge q;
         v = (case reviewer q r of
             None \<Rightarrow> invalid_review digest (vq_missionId q) (vr_resultHash r)
           | Some answer \<Rightarrow>
               (case normalize_review lc digest q r answer of
                  Inl e \<Rightarrow> invalid_review digest (vq_missionId q) (vr_resultHash r)
                | Inr v \<Rightarrow> v));
         g = \<lparr>vg_verification = r, vg_review = v, vg_outcome = gate_outcome r v, vg_resultHash = []\<rparr> in
     Inr (g\<lparr>vg_resultHash := verification_hash digest (gate_base g)\<rparr>))"

text \<open>The constructors of engine and reviewer.\<close>

definition check_engine_options :: "int \<Rightarrow> unit verified" where
  "check_engine_options maxAge =
     ensure (safe_integer maxAge \<and> 0 \<le> maxAge) ''maxEvidenceAgeMs must be a non-negative safe integer.''"

end
