(* ===== verification/VerificationFacts.thy ===== *)
theory VerificationFacts
  imports VerificationEngine
begin

text \<open>
  What the indexes of the verification engine hold, in terms of the lists they are built from, and when a
  check leaves no finding.
\<close>

section \<open>Sets, indexes and groups\<close>

lemma set_js_unique [simp]: "set (js_unique xs) = set xs"
  by (simp add: js_unique_def)

lemma distinct_js_unique [simp]: "distinct (js_unique xs)"
  by (simp add: js_unique_def)

lemma js_unique_distinct: "distinct xs \<Longrightarrow> js_unique xs = xs"
  by (simp add: js_unique_def distinct_remdups_id)

lemma several_unique: "1 < length (js_unique xs) \<longleftrightarrow> (\<exists>x \<in> set xs. \<exists>y \<in> set xs. x \<noteq> y)"
proof
  assume several: "1 < length (js_unique xs)"
  then obtain a b us where "js_unique xs = a # b # us" by (cases "js_unique xs" rule: remdups_adj.cases) auto
  then show "\<exists>x \<in> set xs. \<exists>y \<in> set xs. x \<noteq> y"
    using distinct_js_unique [of xs] set_js_unique [of xs] by (metis distinct_length_2_or_more list.set_intros(1,2))
next
  assume "\<exists>x \<in> set xs. \<exists>y \<in> set xs. x \<noteq> y"
  then obtain x y where xy: "x \<in> set (js_unique xs)" "y \<in> set (js_unique xs)" "x \<noteq> y" by auto
  then show "1 < length (js_unique xs)" by (cases "js_unique xs" rule: remdups_adj.cases) auto
qed

lemma index_unique_snoc: "index_unique key (xs @ [x]) = index_step key x (index_unique key xs)"
  by (simp add: index_unique_def)

lemma index_unique_holds:
  "(k \<in> set (fst (index_unique key xs)) \<longleftrightarrow> 1 < length (filter (\<lambda>x. key x = k) xs)) \<and>
   snd (index_unique key xs) k = (case filter (\<lambda>x. key x = k) xs of [x] \<Rightarrow> Some x | _ \<Rightarrow> None)"
proof (induction xs arbitrary: k rule: rev_induct)
  case Nil
  then show ?case by (simp add: index_unique_def)
next
  case (snoc x xs)
  obtain ds m where st: "index_unique key xs = (ds, m)" by fastforce
  have ds: "k \<in> set ds \<longleftrightarrow> 1 < length (filter (\<lambda>x. key x = k) xs)" and m: "m k = (case filter (\<lambda>x. key x = k) xs of [x] \<Rightarrow> Some x | _ \<Rightarrow> None)" for k
    using snoc [of k] st by simp_all
  show ?case
  proof (cases "filter (\<lambda>y. key y = key x) xs" rule: remdups_adj.cases)
    case 1
    then show ?thesis using ds m by (auto simp: index_unique_snoc st index_step_def dom_def)
  next
    case (2 a)
    then show ?thesis using ds m by (auto simp: index_unique_snoc st index_step_def dom_def split: list.splits)
  next
    case (3 a b us)
    then show ?thesis using ds m by (auto simp: index_unique_snoc st index_step_def dom_def split: list.splits)
  qed
qed

lemma index_unique_dups: "fst (index_unique key xs) = [] \<longleftrightarrow> distinct (map key xs)"
proof -
  have "distinct (map key xs) \<longleftrightarrow> (\<forall>k. length (filter (\<lambda>x. key x = k) xs) \<le> 1)"
  proof (induction xs)
    case (Cons x xs)
    show ?case
    proof
      assume d: "distinct (map key (x # xs))"
      then have "key x \<notin> key ` set xs" by simp
      then have "filter (\<lambda>y. key y = key x) xs = []" unfolding filter_empty_conv by (metis image_eqI)
      with d Cons show "\<forall>k. length (filter (\<lambda>y. key y = k) (x # xs)) \<le> 1" by auto
    next
      assume f: "\<forall>k. length (filter (\<lambda>y. key y = k) (x # xs)) \<le> 1"
      then have "length (filter (\<lambda>y. key y = k) xs) \<le> 1" for k by (metis Suc_leD filter.simps(2) length_Cons)
      moreover from f have "filter (\<lambda>y. key y = key x) xs = []" by (auto dest: spec [of _ "key x"])
      then have "key x \<notin> key ` set xs" by (auto simp: filter_empty_conv)
      ultimately show "distinct (map key (x # xs))" using Cons by simp
    qed
  qed simp
  moreover have "fst (index_unique key xs) = [] \<longleftrightarrow> (\<forall>k. k \<notin> set (fst (index_unique key xs)))"
    by (metis list.set_intros(1) neq_Nil_conv empty_iff empty_set)
  ultimately show ?thesis using index_unique_holds [of _ key xs] by (simp add: not_less)
qed

lemma index_unique_found: "distinct (map key xs) \<Longrightarrow> snd (index_unique key xs) k = Some x \<longleftrightarrow> x \<in> set xs \<and> key x = k"
proof -
  assume d: "distinct (map key xs)"
  have "filter (\<lambda>x. key x = k) xs = [x] \<longleftrightarrow> x \<in> set xs \<and> key x = k" for x
    using d by (induction xs) (auto simp: filter_empty_conv image_iff)
  moreover have "(case ys of [x] \<Rightarrow> Some x | _ \<Rightarrow> None) = Some x \<longleftrightarrow> ys = [x]" for ys :: "'a list" and x
    by (cases ys rule: remdups_adj.cases) auto
  ultimately show ?thesis using index_unique_holds [of k key xs] by simp
qed

lemma index_unique_none: "distinct (map key xs) \<Longrightarrow> snd (index_unique key xs) k = None \<longleftrightarrow> k \<notin> key ` set xs"
  using index_unique_found [of key xs k] by (cases "snd (index_unique key xs) k") force+

lemma group_insert_groups:
  "distinct (map fst gs) \<Longrightarrow> distinct (map fst (group_insert k x gs)) \<and>
     set (map fst (group_insert k x gs)) = insert k (set (map fst gs)) \<and>
     map_of (group_insert k x gs) j = (if j = k then Some ((case map_of gs k of None \<Rightarrow> [] | Some g \<Rightarrow> g) @ [x]) else map_of gs j)"
  by (induction gs) auto

lemma group_by_groups:
  "distinct (map fst (group_by key xs)) \<and>
   map_of (group_by key xs) k = (if k \<in> key ` set xs then Some (filter (\<lambda>x. key x = k) xs) else None)"
proof (induction xs rule: rev_induct)
  case Nil
  then show ?case by (simp add: group_by_def)
next
  case (snoc x xs)
  have "group_by key (xs @ [x]) = group_insert (key x) x (group_by key xs)" by (simp add: group_by_def)
  moreover have "k \<notin> key ` set xs \<Longrightarrow> filter (\<lambda>x. key x = k) xs = []" by (auto simp: filter_empty_conv)
  ultimately show ?case using snoc group_insert_groups [of "group_by key xs" "key x" x k] by auto
qed

lemma group_member: "g \<in> set (map snd (group_by key xs)) \<Longrightarrow> set g \<subseteq> set xs"
proof -
  assume "g \<in> set (map snd (group_by key xs))"
  then obtain k where "(k, g) \<in> set (group_by key xs)" by auto
  then have "map_of (group_by key xs) k = Some g" using group_by_groups [of key xs k] by (meson map_of_is_SomeI)
  then show ?thesis using group_by_groups [of key xs k] by (auto split: if_splits)
qed

lemma fold_update_all:
  "\<forall>x \<in> set xs. P x \<Longrightarrow> fold (\<lambda>x m. m(key x \<mapsto> P x)) xs m k = (if k \<in> key ` set xs then Some True else m k)"
  by (induction xs arbitrary: m) auto

section \<open>Sorting twice\<close>

lemma js_sort_of_sorted: "sorted_wrt (\<lambda>a b. cmp a b \<le> 0) xs \<Longrightarrow> js_sort cmp xs = xs"
proof (induction xs)
  case (Cons x xs)
  then show ?case by (cases xs) auto
qed simp

lemma comparator_on_field: "comparator cmp \<Longrightarrow> comparator (on_field h cmp)"
  unfolding comparator_def on_field_def by blast

lemma comparator_or_else:
  assumes "comparator f" and "comparator g"
  shows "comparator (or_else f g)"
proof -
  have f: "0 < f x y \<longleftrightarrow> f y x < 0" "f x y \<le> 0 \<Longrightarrow> f y z \<le> 0 \<Longrightarrow> f x z \<le> 0"
    and g: "0 < g x y \<longleftrightarrow> g y x < 0" "g x y \<le> 0 \<Longrightarrow> g y z \<le> 0 \<Longrightarrow> g x z \<le> 0" for x y z
    using assms unfolding comparator_def by blast+
  have zero: "f x y = 0 \<longleftrightarrow> f y x = 0" for x y using f(1) [of x y] f(1) [of y x] by linarith
  show ?thesis
  proof
    show "0 < or_else f g x y \<longleftrightarrow> or_else f g y x < 0" for x y
      using f(1) [of x y] g(1) [of x y] zero [of x y] by (simp add: or_else_def)
    fix x y z assume le: "or_else f g x y \<le> 0" "or_else f g y z \<le> 0"
    then have fle: "f x y \<le> 0" "f y z \<le> 0" by (auto simp: or_else_def split: if_splits)
    show "or_else f g x z \<le> 0"
    proof (cases "f x z = 0")
      case True
      then have "f z x \<le> 0" using zero [of x z] by simp
      with fle f(2) [of y z x] f(2) [of z x y] have "f y x \<le> 0" "f z y \<le> 0" by blast+
      with fle f(1) [of x y] f(1) [of y z] zero [of x y] zero [of y z] have "f x y = 0" "f y z = 0" by (simp_all add: order_less_le)
      with le True g(2) [of x y z] show ?thesis by (simp add: or_else_def)
    next
      case False
      with f(2) [of x y z] fle show ?thesis by (simp add: or_else_def)
    qed
  qed
qed

lemma sort_findings_again: "comparator lc \<Longrightarrow> sort_findings lc (sort_findings lc fs) = sort_findings lc fs"
  unfolding sort_findings_def compare_findings_def
  by (intro js_sort_of_sorted comparator.sort_sorted comparator_or_else comparator_on_field)

lemma set_sort_findings [simp]: "set (sort_findings lc fs) = set fs" "length (sort_findings lc fs) = length fs" "sort_findings lc fs = [] \<longleftrightarrow> fs = []"
  by (simp_all add: sort_findings_def) (metis length_0_conv length_js_sort)

lemma code_units_again: "js_sort code_unit_compare (js_sort code_unit_compare xs) = js_sort code_unit_compare xs"
  by (rule js_sort_of_sorted [OF code_units.sort_sorted])

section \<open>Checks without findings\<close>

lemma v_check_Nil [simp]: "v_check failed f = [] \<longleftrightarrow> \<not> failed"
  by (simp add: v_check_def)

lemma finding_severity [simp]: "vf_severity (finding code severity claimId ids reason) = severity"
  by (simp add: finding_def)

lemma severity_v_check: "f \<in> set (v_check failed g) \<Longrightarrow> f = g"
  by (simp add: v_check_def split: if_splits)

lemma index_bindings_snoc: "index_bindings (bs @ [b]) = binding_step b (index_bindings bs)"
  by (simp add: index_bindings_def)

lemma binding_findings_block: "f \<in> set (snd (snd (index_bindings bs))) \<Longrightarrow> vf_severity f = ''BLOCKING''"
proof (induction bs rule: rev_induct)
  case Nil
  then show ?case by (simp add: index_bindings_def)
next
  case (snoc b bs)
  then show ?case
    by (cases "index_bindings bs") (auto simp: index_bindings_snoc binding_step_def Let_def split: if_splits)
qed

lemma check_findings_block:
  "f \<in> set (validate_claim q c) \<Longrightarrow> vf_severity f = ''BLOCKING''"
  "f \<in> set (validate_evidence_envelope maxAge q e) \<Longrightarrow> vf_severity f = ''BLOCKING''"
  "f \<in> set (validate_evidence_for_claim c e) \<Longrightarrow> vf_severity f = ''BLOCKING''"
  "f \<in> set (missing_kinds c ids accepted) \<Longrightarrow> vf_severity f = ''BLOCKING''"
  by (auto simp: validate_claim_def validate_evidence_envelope_def validate_evidence_for_claim_def missing_kinds_def Let_def
      dest!: severity_v_check)

lemma bound_findings_block: "f \<in> set (fst (check_bound_evidence maxAge q c i)) \<Longrightarrow> vf_severity f = ''BLOCKING''"
  by (auto simp: check_bound_evidence_def Let_def check_findings_block split: option.splits if_splits)

lemma claim_findings_block: "f \<in> set (fst (check_claim maxAge q c)) \<Longrightarrow> vf_severity f = ''BLOCKING''"
proof -
  obtain invalid found fs where "index_bindings (vq_bindings q) = (invalid, found, fs)" by (metis prod_cases3)
  then show "f \<in> set (fst (check_claim maxAge q c)) \<Longrightarrow> vf_severity f = ''BLOCKING''"
    by (auto simp: check_claim_def Let_def check_findings_block bound_findings_block split: option.splits if_splits)
qed

lemma verification_findings_block: "f \<in> set (verification_findings maxAge q) \<Longrightarrow> vf_severity f = ''BLOCKING''"
  by (auto simp: verification_findings_def contradictory_evidence_def unknown_bindings_def
      dest: severity_v_check binding_findings_block claim_findings_block check_findings_block)

lemma verified_without_findings: "vr_verdict (verify_claims lc digest maxAge q) = ''PASS'' \<longleftrightarrow> verification_findings maxAge q = []"
proof -
  have "list_ex (\<lambda>f. vf_severity f = ''BLOCKING'') (sort_findings lc (verification_findings maxAge q)) \<longleftrightarrow> verification_findings maxAge q \<noteq> []"
    using verification_findings_block [of _ maxAge q] by (cases "verification_findings maxAge q") (auto simp: list_ex_iff)
  then show ?thesis by (simp add: verify_claims_def Let_def)
qed

definition tidy_binding :: "v_binding \<Rightarrow> v_binding" where
  "tidy_binding b = b\<lparr>vb_evidenceIds := js_sort code_unit_compare (vb_evidenceIds b)\<rparr>"

lemma index_bindings_clean:
  "(snd (snd (index_bindings bs)) = [] \<longleftrightarrow> distinct (map vb_claimId bs) \<and> (\<forall>b \<in> set bs. \<not> malformed_binding b)) \<and>
   (snd (snd (index_bindings bs)) = [] \<longrightarrow> fst (index_bindings bs) = {} \<and>
     (\<forall>k b. fst (snd (index_bindings bs)) k = Some b \<longleftrightarrow> (\<exists>a \<in> set bs. vb_claimId a = k \<and> b = tidy_binding a)))"
proof (induction bs rule: rev_induct)
  case Nil
  then show ?case by (simp add: index_bindings_def)
next
  case (snoc b bs)
  obtain invalid found fs where st: "index_bindings bs = (invalid, found, fs)" by (metis prod_cases3)
  show ?case
  proof (cases "fs = []")
    case True
    with snoc st have clean: "distinct (map vb_claimId bs)" "\<forall>b \<in> set bs. \<not> malformed_binding b" "invalid = {}"
      "\<And>k b. found k = Some b \<longleftrightarrow> (\<exists>a \<in> set bs. vb_claimId a = k \<and> b = tidy_binding a)" by simp_all
    have known: "vb_claimId b \<in> dom found \<longleftrightarrow> vb_claimId b \<in> vb_claimId ` set bs"
      unfolding dom_def image_iff using clean(4) by (metis (mono_tags, lifting) mem_Collect_eq not_None_eq)
    show ?thesis
    proof (cases "vb_claimId b \<in> vb_claimId ` set bs \<or> malformed_binding b")
      case True
      with known show ?thesis by (auto simp: index_bindings_snoc st binding_step_def Let_def)
    next
      case new: False
      then have "index_bindings (bs @ [b]) = ({}, found(vb_claimId b \<mapsto> tidy_binding b), [])"
        using known clean(3) True by (simp add: index_bindings_snoc st binding_step_def Let_def tidy_binding_def)
      moreover have "(found(vb_claimId b \<mapsto> tidy_binding b)) k = Some d \<longleftrightarrow> (\<exists>a \<in> set (bs @ [b]). vb_claimId a = k \<and> d = tidy_binding a)" for k d
        using new clean(4) [of k d] by (cases "k = vb_claimId b") (auto simp: image_iff)
      ultimately show ?thesis using clean(1,2) new by auto
    qed
  next
    case False
    with snoc st have "\<not> (distinct (map vb_claimId bs) \<and> (\<forall>b \<in> set bs. \<not> malformed_binding b))" by simp
    with False show ?thesis by (auto simp: index_bindings_snoc st binding_step_def Let_def)
  qed
qed

lemma no_contradiction:
  assumes "\<forall>e \<in> set es. validate_evidence_envelope maxAge q e = []"
  shows "contradictory_evidence es = ([], [])"
proof -
  have "ve_status e = ''PASS''" if "e \<in> set es" "ve_status e \<in> set evidence_statuses" for e
    using assms that by (auto simp: validate_evidence_envelope_def Let_def)
  then have pass: "ve_status e = ''PASS''" if "e \<in> set (filter scoped_evidence es)" for e
    using that by (auto simp: scoped_evidence_def)
  have "\<not> 1 < length (js_unique (map ve_status g))" if g: "g \<in> set (map snd (group_by scope_key (filter scoped_evidence es)))" for g
  proof -
    have "ve_status e = ''PASS''" if "e \<in> set g" for e using group_member [OF g] pass [of e] that by blast
    then show ?thesis unfolding several_unique by simp
  qed
  then have "conflicting_groups es = []" unfolding conflicting_groups_def filter_empty_conv by blast
  then show ?thesis by (simp add: contradictory_evidence_def)
qed

lemma evidence_validity_clean:
  assumes "distinct (map ve_id (vq_evidence q))" and "\<forall>e \<in> set (vq_evidence q). validate_evidence_envelope maxAge q e = []"
    and "e \<in> set (vq_evidence q) \<and> ve_id e = i"
  shows "evidence_validity maxAge q i = Some True"
proof -
  have "\<forall>e \<in> set (vq_evidence q). validate_evidence_envelope maxAge q e = [] \<and>
      ve_id e \<notin> set (fst (index_unique ve_id (vq_evidence q))) \<and> ve_id e \<notin> set (fst (contradictory_evidence (vq_evidence q)))"
    using assms no_contradiction [of "vq_evidence q" maxAge q] index_unique_dups [of ve_id "vq_evidence q"] by simp
  from fold_update_all [OF this, of ve_id Map.empty i] assms(3) show ?thesis
    by (auto simp: evidence_validity_def)
qed

text \<open>What a claim needs from a piece of evidence bound to it.\<close>

definition supports :: "v_claim \<Rightarrow> v_evidence \<Rightarrow> bool" where
  "supports c e \<longleftrightarrow> ve_taskId e = vc_taskId c \<and> ve_missionId e = vc_missionId c \<and> ve_kind e \<in> set evidence_kinds \<and>
     ve_kind e \<in> set (vc_requiredEvidenceKinds c) \<and> \<not> instant_after (canonical_instant (vc_requiredAfter c)) (canonical_instant (ve_observedAt e))"

lemma validate_for_claim_Nil: "validate_evidence_for_claim c e = [] \<longleftrightarrow> supports c e"
  by (auto simp: validate_evidence_for_claim_def supports_def)

lemma check_claim_clean:
  assumes evidence: "distinct (map ve_id (vq_evidence q))" "\<forall>e \<in> set (vq_evidence q). validate_evidence_envelope maxAge q e = []"
    and bindings: "snd (snd (index_bindings (vq_bindings q))) = []"
  shows "fst (check_claim maxAge q c) = [] \<longleftrightarrow> validate_claim q c = [] \<and>
    (\<exists>b \<in> set (vq_bindings q). vb_claimId b = vc_id c \<and>
      (\<forall>i \<in> set (vb_evidenceIds b). \<exists>e \<in> set (vq_evidence q). ve_id e = i \<and> supports c e) \<and>
      (\<forall>k \<in> set (vc_requiredEvidenceKinds c). \<exists>e \<in> set (vq_evidence q). ve_id e \<in> set (vb_evidenceIds b) \<and> ve_kind e = k \<and> supports c e))"
proof -
  obtain invalid found fs where st: "index_bindings (vq_bindings q) = (invalid, found, fs)" by (metis prod_cases3)
  have b: "distinct (map vb_claimId (vq_bindings q))" "\<forall>b \<in> set (vq_bindings q). \<not> malformed_binding b"
    "\<And>k b. found k = Some b \<longleftrightarrow> (\<exists>a \<in> set (vq_bindings q). vb_claimId a = k \<and> b = tidy_binding a)"
    using index_bindings_clean [of "vq_bindings q"] bindings st by simp_all
  have lookup: "snd (index_unique ve_id (vq_evidence q)) i = Some e \<longleftrightarrow> e \<in> set (vq_evidence q) \<and> ve_id e = i" for i e
    by (rule index_unique_found [OF evidence(1)])
  have valid: "evidence_validity maxAge q i = Some True" if "snd (index_unique ve_id (vq_evidence q)) i = Some e" for i e
    using evidence_validity_clean [OF evidence] that lookup [of i e] by blast
  have one: "check_bound_evidence maxAge q c i = (case snd (index_unique ve_id (vq_evidence q)) i of
      None \<Rightarrow> ([blocking ''evidence_missing'' (text_or_none (vc_id c)) [i] ''Binding references evidence that does not exist or is duplicated.''], None)
    | Some e \<Rightarrow> (validate_evidence_for_claim c e, if supports c e then Some (ve_kind e) else None))" for i
    using valid [of i] by (auto simp: check_bound_evidence_def Let_def validate_for_claim_Nil split: option.split)
  have fst_one: "fst (check_bound_evidence maxAge q c i) = [] \<longleftrightarrow> (\<exists>e \<in> set (vq_evidence q). ve_id e = i \<and> supports c e)"
    and snd_one: "snd (check_bound_evidence maxAge q c i) = Some k \<longleftrightarrow>
      (\<exists>e \<in> set (vq_evidence q). ve_id e = i \<and> supports c e \<and> ve_kind e = k)" for i k
  proof -
    have "(fst (check_bound_evidence maxAge q c i) = [] \<longleftrightarrow> (\<exists>e \<in> set (vq_evidence q). ve_id e = i \<and> supports c e)) \<and>
      (snd (check_bound_evidence maxAge q c i) = Some k \<longleftrightarrow> (\<exists>e \<in> set (vq_evidence q). ve_id e = i \<and> supports c e \<and> ve_kind e = k))"
    proof (cases "snd (index_unique ve_id (vq_evidence q)) i")
      case None
      with lookup [of i] show ?thesis by (auto simp: one)
    next
      case (Some a)
      then have "e \<in> set (vq_evidence q) \<and> ve_id e = i \<longleftrightarrow> e = a" for e using lookup [of i e] by auto
      then have "(\<exists>e \<in> set (vq_evidence q). ve_id e = i \<and> P e) \<longleftrightarrow> P a" for P by metis
      with Some show ?thesis by (simp add: one validate_for_claim_Nil)
    qed
    then show "fst (check_bound_evidence maxAge q c i) = [] \<longleftrightarrow> (\<exists>e \<in> set (vq_evidence q). ve_id e = i \<and> supports c e)"
      "snd (check_bound_evidence maxAge q c i) = Some k \<longleftrightarrow> (\<exists>e \<in> set (vq_evidence q). ve_id e = i \<and> supports c e \<and> ve_kind e = k)" by blast+
  qed
  have per: "fst (check_claim maxAge q c) = [] \<longleftrightarrow> validate_claim q c = [] \<and>
      (\<forall>i \<in> set (vb_evidenceIds b). fst (check_bound_evidence maxAge q c i) = []) \<and>
      (\<forall>k \<in> set (vc_requiredEvidenceKinds c). \<exists>i \<in> set (vb_evidenceIds b). snd (check_bound_evidence maxAge q c i) = Some k)"
    if "found (vc_id c) = Some b" "vb_evidenceIds b \<noteq> []" for b
    using that by (auto simp: check_claim_def st Let_def missing_kinds_def filter_empty_conv image_iff eq_commute [of "Some _"])
  show ?thesis
  proof (cases "found (vc_id c)")
    case None
    then have "\<not> (\<exists>a \<in> set (vq_bindings q). vb_claimId a = vc_id c)" using b(3) by (metis option.distinct(1))
    with None show ?thesis by (auto simp: check_claim_def st Let_def)
  next
    case (Some b')
    then obtain a where a: "a \<in> set (vq_bindings q)" "vb_claimId a = vc_id c" "b' = tidy_binding a" using b(3) by blast
    then have "vb_evidenceIds b' \<noteq> []" "set (vb_evidenceIds b') = set (vb_evidenceIds a)"
      using b(2) by (auto simp: tidy_binding_def malformed_binding_def) (metis length_0_conv length_js_sort)
    note ids = this
    have "a' = a" if "a' \<in> set (vq_bindings q)" "vb_claimId a' = vc_id c" for a'
      using b(1) a that by (metis distinct_map inj_onD)
    with a have pick: "(\<exists>b \<in> set (vq_bindings q). vb_claimId b = vc_id c \<and> P b) \<longleftrightarrow> P a" for P by metis
    show ?thesis unfolding pick per [OF Some ids(1)] ids(2) fst_one snd_one by blast
  qed
qed

lemma satisfied_clean:
  assumes "distinct (map ve_id (vq_evidence q))" and "\<forall>e \<in> set (vq_evidence q). validate_evidence_envelope maxAge q e = []"
    and "snd (snd (index_bindings (vq_bindings q))) = []" and "distinct (map vc_id (vq_claims q))" and "fst (check_claim maxAge q c) = []"
  shows "snd (check_claim maxAge q c)"
proof -
  obtain invalid found fs where st: "index_bindings (vq_bindings q) = (invalid, found, fs)" by (metis prod_cases3)
  then have "invalid = {}" using index_bindings_clean [of "vq_bindings q"] assms(3) by simp
  moreover have "snd (check_bound_evidence maxAge q c i) \<noteq> None" if "fst (check_bound_evidence maxAge q c i) = []" for i
  proof (cases "snd (index_unique ve_id (vq_evidence q)) i")
    case None
    with that show ?thesis by (simp add: check_bound_evidence_def)
  next
    case (Some e)
    then have "evidence_validity maxAge q i = Some True"
      using evidence_validity_clean [OF assms(1,2)] index_unique_found [OF assms(1)] by blast
    with that Some show ?thesis by (simp add: check_bound_evidence_def Let_def)
  qed
  moreover have "fst (index_unique vc_id (vq_claims q)) = []" using assms(4) by (simp add: index_unique_dups)
  ultimately show ?thesis
    using assms(5) by (auto simp: check_claim_def st Let_def split: option.splits if_splits) (metis option.distinct(1))
qed

end
