(* ===== verification/VerificationProperties.thy ===== *)
theory VerificationProperties
  imports VerificationFacts
begin

text \<open>
  The properties of the verification gate: which requests the engine passes, what the gate answers with the
  built-in reviewer, and what no reviewer can make it do.
\<close>

section \<open>Requests in order\<close>

definition evidence_in_order :: "int \<Rightarrow> string \<Rightarrow> int \<Rightarrow> v_evidence \<Rightarrow> bool" where
  "evidence_in_order maxAge m t e \<longleftrightarrow> \<not> malformed_evidence e \<and> ve_missionId e = m \<and> ve_status e = ''PASS'' \<and>
     (\<exists>observed. canonical_instant (ve_observedAt e) = Some observed \<and> observed \<le> t \<and> t - observed \<le> maxAge)"

definition claim_in_order :: "string \<Rightarrow> int \<Rightarrow> v_claim \<Rightarrow> bool" where
  "claim_in_order m t c \<longleftrightarrow> \<not> malformed_claim c \<and> vc_missionId c = m \<and>
     (\<exists>after. canonical_instant (vc_requiredAfter c) = Some after \<and> after \<le> t)"

text \<open>All bound evidence exists and supports the claim, and every required kind is there.\<close>

definition covered :: "v_request \<Rightarrow> v_claim \<Rightarrow> v_binding \<Rightarrow> bool" where
  "covered q c b \<longleftrightarrow>
     (\<forall>i \<in> set (vb_evidenceIds b). \<exists>e \<in> set (vq_evidence q). ve_id e = i \<and> supports c e) \<and>
     (\<forall>k \<in> set (vc_requiredEvidenceKinds c). \<exists>e \<in> set (vq_evidence q). ve_id e \<in> set (vb_evidenceIds b) \<and> ve_kind e = k \<and> supports c e)"

definition request_in_order :: "int \<Rightarrow> v_request \<Rightarrow> bool" where
  "request_in_order maxAge q \<longleftrightarrow>
     bounded_text (vq_missionId q) 128 \<and> vq_claims q \<noteq> [] \<and>
     distinct (map vc_id (vq_claims q)) \<and> distinct (map ve_id (vq_evidence q)) \<and> distinct (map vb_claimId (vq_bindings q)) \<and>
     vb_claimId ` set (vq_bindings q) = vc_id ` set (vq_claims q) \<and> (\<forall>b \<in> set (vq_bindings q). \<not> malformed_binding b) \<and>
     (\<exists>t. canonical_instant (vq_evaluatedAt q) = Some t \<and>
       (\<forall>e \<in> set (vq_evidence q). evidence_in_order maxAge (vq_missionId q) t e) \<and>
       (\<forall>c \<in> set (vq_claims q). claim_in_order (vq_missionId q) t c)) \<and>
     (\<forall>c \<in> set (vq_claims q). \<forall>b \<in> set (vq_bindings q). vb_claimId b = vc_id c \<longrightarrow> covered q c b)"

lemma envelope_clean:
  "canonical_instant (vq_evaluatedAt q) = Some t \<Longrightarrow>
     validate_evidence_envelope maxAge q e = [] \<longleftrightarrow> evidence_in_order maxAge (vq_missionId q) t e"
  by (cases "canonical_instant (ve_observedAt e)")
    (auto simp: validate_evidence_envelope_def evidence_in_order_def malformed_evidence_def instant_after_def stale_at_def Let_def)

lemma claim_clean:
  "canonical_instant (vq_evaluatedAt q) = Some t \<Longrightarrow> validate_claim q c = [] \<longleftrightarrow> claim_in_order (vq_missionId q) t c"
  by (cases "canonical_instant (vc_requiredAfter c)")
    (auto simp: validate_claim_def claim_in_order_def malformed_claim_def instant_after_def)

lemma verified_iff_in_order:
  "vr_verdict (verify_claims lc digest maxAge q) = ''PASS'' \<longleftrightarrow> request_in_order maxAge q"
proof (cases "bounded_text (vq_missionId q) 128 \<and> (\<exists>t. canonical_instant (vq_evaluatedAt q) = Some t) \<and>
    distinct (map vc_id (vq_claims q)) \<and> distinct (map ve_id (vq_evidence q)) \<and>
    (\<forall>e \<in> set (vq_evidence q). validate_evidence_envelope maxAge q e = []) \<and> snd (snd (index_bindings (vq_bindings q))) = []")
  case False
  moreover have "snd (snd (index_bindings (vq_bindings q))) = []" if "request_in_order maxAge q"
    using that index_bindings_clean [of "vq_bindings q"] by (simp add: request_in_order_def)
  moreover have "validate_evidence_envelope maxAge q e = []" if "request_in_order maxAge q" "e \<in> set (vq_evidence q)" for e
    using that envelope_clean by (auto simp: request_in_order_def)
  ultimately show ?thesis
    unfolding verified_without_findings by (auto simp: verification_findings_def index_unique_dups request_in_order_def)
next
  case True
  then obtain t where t: "canonical_instant (vq_evaluatedAt q) = Some t" by blast
  have bindings: "distinct (map vb_claimId (vq_bindings q))" "\<forall>b \<in> set (vq_bindings q). \<not> malformed_binding b"
    using True index_bindings_clean [of "vq_bindings q"] by blast+
  have claims: "fst (check_claim maxAge q c) = [] \<longleftrightarrow> claim_in_order (vq_missionId q) t c \<and>
      (\<exists>b \<in> set (vq_bindings q). vb_claimId b = vc_id c \<and> covered q c b)" for c
    using check_claim_clean [of q maxAge c] True by (simp add: claim_clean [OF t] covered_def)
  have "unknown_bindings q = [] \<longleftrightarrow> vb_claimId ` set (vq_bindings q) \<subseteq> vc_id ` set (vq_claims q)"
    using True index_unique_none [of vc_id "vq_claims q"] by (auto simp: unknown_bindings_def filter_empty_conv)
  then have "verification_findings maxAge q = [] \<longleftrightarrow> vq_claims q \<noteq> [] \<and> vb_claimId ` set (vq_bindings q) \<subseteq> vc_id ` set (vq_claims q) \<and>
      (\<forall>c \<in> set (vq_claims q). claim_in_order (vq_missionId q) t c \<and> (\<exists>b \<in> set (vq_bindings q). vb_claimId b = vc_id c \<and> covered q c b))"
    using True t claims no_contradiction [of "vq_evidence q" maxAge q] by (auto simp: verification_findings_def index_unique_dups)
  moreover have "b = b'" if "b \<in> set (vq_bindings q)" "b' \<in> set (vq_bindings q)" "vb_claimId b = vb_claimId b'" for b b'
    using bindings(1) that by (metis distinct_map inj_onD)
  then have "(\<exists>b \<in> set (vq_bindings q). vb_claimId b = vc_id c \<and> covered q c b) \<longleftrightarrow>
      vc_id c \<in> vb_claimId ` set (vq_bindings q) \<and> (\<forall>b \<in> set (vq_bindings q). vb_claimId b = vc_id c \<longrightarrow> covered q c b)" for c
    by (auto simp: image_iff) metis+
  ultimately show ?thesis
    using True t bindings envelope_clean [OF t] unfolding verified_without_findings request_in_order_def by auto
qed

text \<open>C20. The engine passes a request exactly when mission and time are well-formed, claims, evidence and bindings are
  unique and well-formed, every piece of evidence passed within its age and belongs to the mission, bindings
  and claims correspond one to one, and all the evidence bound to a claim supports it and covers its kinds.\<close>

theorem verification_passes_exactly:
  "vr_verdict (verify_claims lc digest maxAge q) = ''PASS'' \<longleftrightarrow> request_in_order maxAge q"
  by (rule verified_iff_in_order)

section \<open>The built-in reviewer on requests in order\<close>

text \<open>The one finding the reviewer has on evidence of a passing request: that it is not independent.\<close>

definition provenance_finding :: "v_request \<Rightarrow> v_evidence \<Rightarrow> v_finding" where
  "provenance_finding q e =
     (if ve_producerClass e = ''external''
      then finding ''evidence_weak_provenance'' ''WARNING'' (primary_claim q e) [ve_id e]
        ''External evidence lacks an independent deterministic tool attestation.''
      else finding ''evidence_self_authored'' ''WARNING'' (primary_claim q e) [ve_id e]
        ''Evidence is self-authored by planning/runtime code rather than an independent source.'')"

lemma claim_ids_of_evidence:
  "set (case map_of (claims_by_evidence q) i of None \<Rightarrow> [] | Some ids \<Rightarrow> ids) = vb_claimId ` {b \<in> set (vq_bindings q). i \<in> set (vb_evidenceIds b)}"
proof -
  let ?pairs = "concat (map (\<lambda>b. map (\<lambda>i. (i, vb_claimId b)) (vb_evidenceIds b)) (vq_bindings q))"
  have "map_of (claims_by_evidence q) i = map_option (map snd) (map_of (group_by fst ?pairs) i)"
    using map_of_map [of "map snd" "group_by fst ?pairs"] by (simp add: claims_by_evidence_def map_prod_def case_prod_beta')
  then show ?thesis using group_by_groups [of fst ?pairs i] by (auto simp: image_iff split: if_splits)
qed

lemma bound_claim:
  assumes ok: "request_in_order maxAge q" and "(i, ids) \<in> set (claims_by_evidence q)" and "k \<in> set ids"
  shows "\<exists>c e. c \<in> set (vq_claims q) \<and> vc_id c = k \<and> e \<in> set (vq_evidence q) \<and> ve_id e = i \<and> supports c e \<and> claim_by_id q k = Some c"
proof -
  have "distinct (map fst (claims_by_evidence q))"
    using conjunct1 [OF group_by_groups [of fst "concat (map (\<lambda>b. map (\<lambda>i. (i, vb_claimId b)) (vb_evidenceIds b)) (vq_bindings q))"]]
    by (simp add: claims_by_evidence_def map_prod_def case_prod_beta' comp_def)
  with assms(2) have "map_of (claims_by_evidence q) i = Some ids" by (metis map_of_is_SomeI)
  with assms(3) claim_ids_of_evidence [of q i] obtain b where b: "b \<in> set (vq_bindings q)" "i \<in> set (vb_evidenceIds b)" "vb_claimId b = k" by auto
  with ok obtain c where c: "c \<in> set (vq_claims q)" "vc_id c = k" by (fastforce simp: request_in_order_def)
  with ok b have "covered q c b" by (simp add: request_in_order_def)
  with b(2) obtain e where e: "e \<in> set (vq_evidence q)" "ve_id e = i" "supports c e" by (auto simp: covered_def)
  have "claim_by_id q k = Some c"
  proof (cases "claim_by_id q k")
    case None
    with c show ?thesis by (auto simp: claim_by_id_def find_None_iff)
  next
    case (Some d)
    then have "d \<in> set (vq_claims q)" "vc_id d = k" by (auto simp: claim_by_id_def find_Some_iff) (metis nth_mem set_rev length_rev)
    with Some c ok show ?thesis by (metis distinct_map inj_onD request_in_order_def)
  qed
  with c e show ?thesis by blast
qed

lemma nothing_reused: "request_in_order maxAge q \<Longrightarrow> reused_evidence q = []"
proof -
  assume ok: "request_in_order maxAge q"
  have "\<not> 1 < length (tasks_of_claims q (unique_sorted ids))" if mem: "(i, ids) \<in> set (claims_by_evidence q)" for i ids
  proof -
    have "t = ve_taskId e" if "t \<in> set (tasks_of_claims q (unique_sorted ids))" "e \<in> set (vq_evidence q)" "ve_id e = i" for t e
    proof -
      from that(1) obtain k c where k: "k \<in> set ids" "claim_by_id q k = Some c" "t = vc_taskId c"
        by (auto simp: tasks_of_claims_def unique_sorted_def split: option.splits) (metis)
      from bound_claim [OF ok mem k(1)] obtain c' e' where "claim_by_id q k = Some c'" "e' \<in> set (vq_evidence q)" "ve_id e' = i" "supports c' e'" by blast
      moreover from this that ok have "e' = e" by (metis distinct_map inj_onD request_in_order_def)
      ultimately show ?thesis using k by (simp add: supports_def)
    qed
    moreover have "\<exists>e. e \<in> set (vq_evidence q) \<and> ve_id e = i" if "k \<in> set ids" for k using bound_claim [OF ok mem that] by blast
    moreover have "ids = [] \<Longrightarrow> tasks_of_claims q (unique_sorted ids) = []" by (simp add: tasks_of_claims_def unique_sorted_def js_unique_def)
    ultimately show ?thesis
      using several_unique [of "tasks_of_claims q (unique_sorted ids)"]
      by (metis js_unique_distinct distinct_js_unique tasks_of_claims_def list.set_intros(1) neq_Nil_conv less_zeroE list.size(3))
  qed
  then show ?thesis by (auto simp: reused_evidence_def Let_def)
qed

lemma no_review_conflict: "request_in_order maxAge q \<Longrightarrow> review_conflicts q = []"
proof -
  assume ok: "request_in_order maxAge q"
  have "\<not> 1 < length (js_unique (map ve_status g))" if g: "g \<in> set (map snd (group_by scope_key (vq_evidence q)))" for g
  proof -
    have "ve_status e = ''PASS''" if "e \<in> set g" for e
      using group_member [OF g] that ok by (auto simp: request_in_order_def evidence_in_order_def)
    then show ?thesis unfolding several_unique by simp
  qed
  then show ?thesis by (auto simp: review_conflicts_def filter_empty_conv)
qed

lemma claims_of_evidence:
  assumes "request_in_order maxAge q" and "k \<in> set (bound_claims q e)" and "e \<in> set (vq_evidence q)"
  shows "\<exists>c \<in> set (vq_claims q). vc_id c = k \<and> claim_by_id q k = Some c \<and> supports c e"
proof -
  from assms(2) obtain ids where ids: "map_of (claims_by_evidence q) (ve_id e) = Some ids" "k \<in> set ids"
    by (auto simp: bound_claims_def unique_sorted_def split: option.splits) (metis)
  from bound_claim [OF assms(1) map_of_SomeD [OF ids(1)] ids(2)] obtain c e' where
    "c \<in> set (vq_claims q)" "vc_id c = k" "e' \<in> set (vq_evidence q)" "ve_id e' = ve_id e" "supports c e'" "claim_by_id q k = Some c" by blast
  moreover from this assms have "e' = e" by (metis distinct_map inj_onD request_in_order_def)
  ultimately show ?thesis by blast
qed

lemma review_of_evidence:
  assumes ok: "request_in_order maxAge q" and e: "e \<in> set (vq_evidence q)"
  shows "review_evidence maxAge q e = (if ve_producerClass e = ''independent_tool'' then [] else [provenance_finding q e])"
proof -
  from ok obtain t where t: "canonical_instant (vq_evaluatedAt q) = Some t" "evidence_in_order maxAge (vq_missionId q) t e"
    using e by (auto simp: request_in_order_def)
  have "(case claim_by_id q i of None \<Rightarrow> [] | Some c \<Rightarrow> v_check (instant_after (canonical_instant (vc_requiredAfter c)) (canonical_instant (ve_observedAt e))) (g i c)) = []"
    if "i \<in> set (bound_claims q e)" for i g
    using claims_of_evidence [OF ok that e] by (auto simp: supports_def)
  then show ?thesis
    using t by (auto simp: review_evidence_def Let_def provenance_finding_def evidence_in_order_def malformed_evidence_def producer_classes_def)
qed

lemma review_in_order:
  assumes "request_in_order maxAge q"
  shows "review_findings maxAge q = map (provenance_finding q) (filter (\<lambda>e. ve_producerClass e \<noteq> ''independent_tool'') (vq_evidence q))"
proof -
  have "concat (map (review_evidence maxAge q) es) = map (provenance_finding q) (filter (\<lambda>e. ve_producerClass e \<noteq> ''independent_tool'') es)"
    if "set es \<subseteq> set (vq_evidence q)" for es
    using that by (induction es) (auto simp: review_of_evidence [OF assms])
  then show ?thesis using assms by (simp add: review_findings_def nothing_reused no_review_conflict)
qed

lemma provenance_fields:
  "vf_severity (provenance_finding q e) = ''WARNING''" "vf_claimId (provenance_finding q e) = primary_claim q e"
  "vf_evidenceIds (provenance_finding q e) = [ve_id e]" "vf_code (provenance_finding q e) \<in> {''evidence_weak_provenance'', ''evidence_self_authored''}"
  by (simp_all add: provenance_finding_def finding_def)

lemma js_sort_Nil [simp]: "js_sort cmp xs = [] \<longleftrightarrow> xs = []"
  by (metis length_0_conv length_js_sort)

lemma bound_claims_Nil: "bound_claims q e = [] \<longleftrightarrow> (\<forall>b \<in> set (vq_bindings q). ve_id e \<notin> set (vb_evidenceIds b))"
proof -
  have "bound_claims q e = [] \<longleftrightarrow> set (bound_claims q e) = {}" by simp
  also have "\<dots> \<longleftrightarrow> (\<forall>b \<in> set (vq_bindings q). ve_id e \<notin> set (vb_evidenceIds b))"
    using claim_ids_of_evidence [of q "ve_id e"] by (auto simp: bound_claims_def unique_sorted_def)
  finally show ?thesis .
qed

lemma primary_claim_known:
  assumes "request_in_order maxAge q" and "e \<in> set (vq_evidence q)" and "primary_claim q e = Some c"
  shows "c \<in> vc_id ` set (vq_claims q) \<and> bounded_text c 128"
proof -
  from assms(3) have "c \<in> set (bound_claims q e)" by (auto simp: primary_claim_def split: list.splits)
  from claims_of_evidence [OF assms(1) this assms(2)] obtain k where k: "k \<in> set (vq_claims q)" "vc_id k = c" by blast
  with assms(1) have "\<not> malformed_claim k" by (auto simp: request_in_order_def claim_in_order_def)
  with k show ?thesis by (auto simp: malformed_claim_def)
qed

section \<open>The gate\<close>

lemma repair_claims:
  assumes ok: "request_in_order maxAge q" and fs: "set fs = set (map (provenance_finding q) es)" "set es \<subseteq> set (vq_evidence q)"
  shows "set (rr_claimIds (build_repair_request fs)) \<subseteq> {c. c \<in> vc_id ` set (vq_claims q) \<and> bounded_text c 128}" (is "?known")
    and "rr_claimIds (build_repair_request fs) = [] \<longleftrightarrow> (\<forall>e \<in> set es. primary_claim q e = None)" (is ?none)
proof -
  let ?ids = "concat (map (\<lambda>f. case vf_claimId f of None \<Rightarrow> [] | Some c \<Rightarrow> [c]) fs)"
  have "c \<in> set ?ids \<longleftrightarrow> (\<exists>e \<in> set es. primary_claim q e = Some c)" for c
  proof -
    have "c \<in> set ?ids \<longleftrightarrow> (\<exists>f \<in> set fs. vf_claimId f = Some c)" by (auto split: option.splits) (metis)
    also have "\<dots> \<longleftrightarrow> (\<exists>e \<in> set es. primary_claim q e = Some c)" unfolding fs(1) by (simp add: provenance_fields)
    finally show ?thesis .
  qed
  note ids = this
  show ?known
  proof
    fix c assume "c \<in> set (rr_claimIds (build_repair_request fs))"
    then have "c \<in> set ?ids" by (auto simp: build_repair_request_def unique_sorted_def dest!: in_set_takeD)
    then obtain e where "e \<in> set es" "primary_claim q e = Some c" using ids by blast
    with primary_claim_known [OF ok] fs(2) show "c \<in> {c. c \<in> vc_id ` set (vq_claims q) \<and> bounded_text c 128}" by blast
  qed
  have empty: "xs = [] \<longleftrightarrow> (\<forall>c. c \<notin> set xs)" for xs :: "string list" by (cases xs) auto
  have "rr_claimIds (build_repair_request fs) = [] \<longleftrightarrow> ?ids = []"
    by (simp add: build_repair_request_def unique_sorted_def max_repair_items_def js_unique_def)
  also have "\<dots> \<longleftrightarrow> (\<forall>e \<in> set es. primary_claim q e = None)"
    unfolding empty ids by (metis not_None_eq option.distinct(1))
  finally show ?none .
qed

lemma unique_sorted_prefix:
  "distinct (take n (unique_sorted xs))" "js_sort code_unit_compare (take n (unique_sorted xs)) = take n (unique_sorted xs)"
proof -
  have "distinct (unique_sorted xs)"
    using mset_eq_imp_distinct_iff [of "unique_sorted xs" "js_unique xs"] by (simp add: unique_sorted_def)
  then show "distinct (take n (unique_sorted xs))" by simp
  show "js_sort code_unit_compare (take n (unique_sorted xs)) = take n (unique_sorted xs)"
    by (intro js_sort_of_sorted sorted_wrt_take) (simp add: unique_sorted_def code_units.sort_sorted)
qed

lemma repair_reasons:
  "set fs = set (map (provenance_finding q) es) \<Longrightarrow> fs \<noteq> [] \<Longrightarrow>
     rr_reasonCodes (build_repair_request fs) \<noteq> [] \<and> set (rr_reasonCodes (build_repair_request fs)) \<subseteq> set finding_codes"
proof -
  assume fs: "set fs = set (map (provenance_finding q) es)" "fs \<noteq> []"
  have "vf_code f \<in> set finding_codes" if "f \<in> set fs" for f
    using that provenance_fields(4) unfolding fs by (auto simp: finding_codes_def)
  then have "set (rr_reasonCodes (build_repair_request fs)) \<subseteq> set finding_codes"
    by (auto simp: build_repair_request_def unique_sorted_def dest!: in_set_takeD)
  with fs(2) show ?thesis by (simp add: build_repair_request_def unique_sorted_def max_repair_items_def js_unique_def)
qed

lemma normalize_built_in:
  assumes ok: "request_in_order maxAge q" and fs: "set fs = set (map (provenance_finding q) es)" "set es \<subseteq> set (vq_evidence q)" "fs \<noteq> []"
  shows "normalize_repair_request q (Some (build_repair_request fs)) =
    (if \<forall>e \<in> set es. primary_claim q e = None then Inl ''Reviewer repair request is malformed or unbounded.''
     else Inr (Some (build_repair_request fs)))"
proof -
  let ?p = "build_repair_request fs"
  have "bounded_text (rr_instruction ?p) 500" by (simp add: build_repair_request_def) code_simp
  moreover have "length (rr_claimIds ?p) \<le> max_repair_items" "length (rr_reasonCodes ?p) \<le> max_repair_items"
    "distinct (rr_claimIds ?p)" "distinct (rr_reasonCodes ?p)"
    "js_sort code_unit_compare (rr_claimIds ?p) = rr_claimIds ?p" "js_sort code_unit_compare (rr_reasonCodes ?p) = rr_reasonCodes ?p"
    using unique_sorted_prefix by (simp_all add: build_repair_request_def)
  ultimately show ?thesis
    using repair_claims [OF ok fs(1,2)] repair_reasons [OF fs(1,3)]
    by (auto simp: normalize_repair_request_def ensure_def list_all_iff subset_iff)
qed

lemma review_hash_free [simp]: "review_base (v\<lparr>rv_resultHash := h\<rparr>) = review_base v"
  by (simp add: review_base_def)

lemma signed_fields [simp]:
  "rv_missionId (signed_review digest v) = rv_missionId v" "rv_findings (signed_review digest v) = rv_findings v"
  "rv_verdict (signed_review digest v) = rv_verdict v" "rv_repairRequest (signed_review digest v) = rv_repairRequest v"
  "rv_verificationResultHash (signed_review digest v) = rv_verificationResultHash v"
  "rv_resultHash (signed_review digest v) = verification_hash digest (review_base v)" "review_base (signed_review digest v) = review_base v"
  by (simp_all add: signed_review_def)

lemma provenance_valid:
  assumes "request_in_order maxAge q" and "e \<in> set (vq_evidence q)"
  shows "valid_finding (provenance_finding q e)"
proof -
  have "vf_code (provenance_finding q e) \<in> set finding_codes" using provenance_fields(4) [of q e] by (auto simp: finding_codes_def)
  moreover have "bounded_text (ve_id e) 128" using assms by (auto simp: request_in_order_def evidence_in_order_def malformed_evidence_def)
  moreover have "bounded_text (vf_reason (provenance_finding q e)) 500"
  proof -
    have "bounded_text ''External evidence lacks an independent deterministic tool attestation.'' 500"
      "bounded_text ''Evidence is self-authored by planning/runtime code rather than an independent source.'' 500" by code_simp+
    then show ?thesis by (simp add: provenance_finding_def finding_def)
  qed
  ultimately show ?thesis
    using primary_claim_known [OF assms]
    by (auto simp: valid_finding_def provenance_fields max_evidence_per_binding_def split: option.split)
qed

lemma outcome_by_review:
  assumes "verify_request lc digest maxAge reviewer q = Inr g"
  obtains v where "vg_review g = v" and "vg_outcome g = gate_outcome (vg_verification g) v" and "vg_verification g = verify_claims lc digest maxAge q"
    and "length (vq_evidence q) \<le> max_verification_items"
    and "(\<exists>a. reviewer q (verify_claims lc digest maxAge q) = Some a \<and> normalize_review lc digest q (verify_claims lc digest maxAge q) a = Inr v) \<or>
      (\<forall>a. reviewer q (verify_claims lc digest maxAge q) = Some a \<longrightarrow> (\<exists>e. normalize_review lc digest q (verify_claims lc digest maxAge q) a = Inl e)) \<and>
      v = invalid_review digest (vq_missionId q) (vr_resultHash (verify_claims lc digest maxAge q))"
  using assms that
  by (auto simp: verify_request_def Let_def and_then_Inr check_request_collections_def ensure_Inr split: option.splits sum.splits)

lemma gate_outcome_cases:
  assumes lc: "comparator lc" and hex: "\<And>v. sha256_pattern (digest v)"
    and gate: "verify_request lc digest maxAge (built_in_review lc digest maxAge) q = Inr g"
  shows "vg_outcome g =
    (if \<not> request_in_order maxAge q then ''BLOCK''
     else if \<forall>e \<in> set (vq_evidence q). ve_producerClass e = ''independent_tool'' then ''PASS''
     else if \<exists>e \<in> set (vq_evidence q). ve_producerClass e \<noteq> ''independent_tool'' \<and> (\<exists>b \<in> set (vq_bindings q). ve_id e \<in> set (vb_evidenceIds b))
     then ''REPAIR_REQUIRED'' else ''BLOCK'')"
proof (cases "request_in_order maxAge q")
  case False
  then have "vr_verdict (verify_claims lc digest maxAge q) \<noteq> ''PASS''" using verified_iff_in_order by blast
  then have "vr_verdict (verify_claims lc digest maxAge q) = ''FAIL''" by (simp add: verify_claims_def Let_def split: if_splits)
  with False show ?thesis using outcome_by_review [OF gate] by (metis gate_outcome_def)
next
  case ok: True
  define es where "es = filter (\<lambda>e. ve_producerClass e \<noteq> ''independent_tool'') (vq_evidence q)"
  define fs where "fs = sort_findings lc (review_findings maxAge q)"
  define r where "r = verify_claims lc digest maxAge q"
  have pass: "vr_verdict r = ''PASS''" using ok verified_iff_in_order r_def by blast
  have fs: "set fs = set (map (provenance_finding q) es)" "fs = [] \<longleftrightarrow> es = []" "set es \<subseteq> set (vq_evidence q)" "sort_findings lc fs = fs"
    "length fs \<le> length (vq_evidence q)"
    by (simp_all add: fs_def es_def review_in_order [OF ok] sort_findings_again [OF lc])
  have sev: "list_ex (\<lambda>f. vf_severity f = ''BLOCKING'') fs = False" "list_ex (\<lambda>f. vf_severity f = ''WARNING'') fs = (es \<noteq> [])"
    unfolding list_ex_iff fs(1) by (cases es; auto simp: provenance_fields)+
  let ?verdict = "if es = [] then ''ACCEPT'' else ''REPAIR_REQUIRED''"
  let ?repair = "if es = [] then None else Some (build_repair_request fs)"
  let ?v = "signed_review digest \<lparr>rv_missionId = vq_missionId q, rv_verificationResultHash = vr_resultHash r, rv_verdict = ?verdict,
    rv_findings = fs, rv_repairRequest = ?repair, rv_resultHash = []\<rparr>"
  have answer: "built_in_review lc digest maxAge q r = Some ?v"
    using pass sev by (simp add: built_in_review_def fs_def [symmetric] Let_def)
  from outcome_by_review [OF gate] obtain v where v: "vg_outcome g = gate_outcome r v" "length (vq_evidence q) \<le> max_verification_items"
    "normalize_review lc digest q r ?v = Inr v \<or>
     (\<exists>e. normalize_review lc digest q r ?v = Inl e) \<and> v = invalid_review digest (vq_missionId q) (vr_resultHash r)"
    unfolding r_def [symmetric] using answer by (metis option.inject)
  have common: "normalize_review lc digest q r ?v = and_then (normalize_repair_request q ?repair) (\<lambda>repair.
      let u = ?v\<lparr>rv_findings := fs, rv_repairRequest := repair\<rparr> in
      and_then (ensure (\<not> inconsistent_review u) ''Reviewer verdict and findings are inconsistent.'') (\<lambda>_.
      and_then (ensure (sha256_pattern (rv_resultHash ?v) \<and> rv_resultHash ?v = verification_hash digest (review_base u)) ''Reviewer result hash is invalid.'') (\<lambda>_. Inr u)))"
  proof -
    have "list_all valid_finding fs"
      unfolding list_all_iff fs(1) using provenance_valid [OF ok] fs(3) by auto
    then show ?thesis using fs(4,5) v(2) by (simp add: normalize_review_def)
  qed
  have same: "?v\<lparr>rv_findings := fs, rv_repairRequest := ?repair\<rparr> = ?v" by (simp add: signed_review_def)
  have "\<not> inconsistent_review ?v" using sev fs(2) by (simp add: inconsistent_review_def)
  then have accept: "normalize_review lc digest q r ?v = Inr ?v" if "normalize_repair_request q ?repair = Inr ?repair"
    unfolding common that and_then.simps Let_def same using hex by (simp add: verification_hash_def)
  show ?thesis
  proof (cases "es = []")
    case True
    then have "normalize_review lc digest q r ?v = Inr ?v" by (intro accept) (simp add: normalize_repair_request_def)
    with v ok True pass show ?thesis by (auto simp: gate_outcome_def es_def filter_empty_conv)
  next
    case False
    have primary: "primary_claim q e = None \<longleftrightarrow> (\<forall>b \<in> set (vq_bindings q). ve_id e \<notin> set (vb_evidenceIds b))" for e
      using bound_claims_Nil [of q e] by (cases "bound_claims q e") (simp_all add: primary_claim_def)
    show ?thesis
    proof (cases "\<forall>e \<in> set es. primary_claim q e = None")
      case none: True
      then have "\<exists>e. normalize_review lc digest q r ?v = Inl e"
        unfolding common using normalize_built_in [OF ok fs(1,3)] False fs(2) by simp
      with v have "vg_outcome g = ''BLOCK''" by (auto simp: gate_outcome_def invalid_review_def)
      with ok False none primary show ?thesis by (auto simp: es_def filter_empty_conv)
    next
      case some: False
      then have "normalize_review lc digest q r ?v = Inr ?v"
        using normalize_built_in [OF ok fs(1,3)] False fs(2) by (intro accept) simp
      with v pass False have "vg_outcome g = ''REPAIR_REQUIRED''" by (auto simp: gate_outcome_def)
      with ok False some primary show ?thesis by (auto simp: es_def filter_empty_conv)
    qed
  qed
qed

text \<open>C21. With the built-in reviewer the gate passes exactly the requests in order whose evidence all comes from
  independent tools; it asks for repair when some other evidence is bound to a claim; it blocks otherwise, also
  when a request in order only carries such evidence unbound, as the reviewer then asks for a repair of no claim.\<close>

theorem gate_outcomes:
  assumes "comparator lc" and "\<And>v. sha256_pattern (digest v)"
    and "verify_request lc digest maxAge (built_in_review lc digest maxAge) q = Inr g"
  shows "vg_outcome g =
    (if \<not> request_in_order maxAge q then ''BLOCK''
     else if \<forall>e \<in> set (vq_evidence q). ve_producerClass e = ''independent_tool'' then ''PASS''
     else if \<exists>e \<in> set (vq_evidence q). ve_producerClass e \<noteq> ''independent_tool'' \<and> (\<exists>b \<in> set (vq_bindings q). ve_id e \<in> set (vb_evidenceIds b))
     then ''REPAIR_REQUIRED'' else ''BLOCK'')"
  using assms by (rule gate_outcome_cases)

text \<open>C22. Whatever the reviewer, the gate only passes a request in order whose reviewer accepted it without findings, in a review
  signed over its contents and bound to the hash of the verification, and then every claim is satisfied.\<close>

theorem no_reviewer_opens_the_gate:
  assumes "verify_request lc digest maxAge reviewer q = Inr g" and "vg_outcome g = ''PASS''"
  shows "request_in_order maxAge q \<and> vr_satisfiedClaimIds (vg_verification g) = js_sort code_unit_compare (map vc_id (vq_claims q)) \<and>
    (\<exists>v. reviewer q (vg_verification g) = Some v \<and> rv_verdict v = ''ACCEPT'' \<and> rv_findings v = [] \<and> rv_repairRequest v = None \<and>
       rv_verificationResultHash v = vr_resultHash (vg_verification g) \<and> rv_resultHash v = verification_hash digest (review_base v))"
proof -
  let ?r = "verify_claims lc digest maxAge q"
  from outcome_by_review [OF assms(1)] obtain v where v: "vg_outcome g = gate_outcome ?r v" "vg_verification g = ?r"
    "(\<exists>a. reviewer q ?r = Some a \<and> normalize_review lc digest q ?r a = Inr v) \<or> v = invalid_review digest (vq_missionId q) (vr_resultHash ?r)"
    by metis
  have pass: "vr_verdict ?r = ''PASS''" using assms(2) v(1) by (auto simp: gate_outcome_def verify_claims_def Let_def split: if_splits)
  then have ok: "request_in_order maxAge q" using verified_iff_in_order by blast
  have "vr_satisfiedClaimIds ?r = js_sort code_unit_compare (map vc_id (vq_claims q))"
  proof -
    have none: "verification_findings maxAge q = []" using pass verified_without_findings by blast
    have ok': "distinct (map ve_id (vq_evidence q))" "distinct (map vc_id (vq_claims q))" using ok by (simp_all add: request_in_order_def)
    have "snd (check_claim maxAge q c)" if "c \<in> set (vq_claims q)" for c
      by (rule satisfied_clean [OF ok'(1) _ _ ok'(2)]) (use none that in \<open>simp_all add: verification_findings_def\<close>)
    then have "filter (snd \<circ> check_claim maxAge q) (vq_claims q) = vq_claims q" by (simp add: filter_id_conv)
    then show ?thesis using ok'(2) by (simp add: verify_claims_def Let_def satisfied_claims_def js_unique_distinct)
  qed
  note satisfied = this
  have "v \<noteq> invalid_review digest (vq_missionId q) (vr_resultHash ?r)"
    using assms(2) v(1) by (auto simp: gate_outcome_def invalid_review_def)
  with v(3) obtain a where a: "reviewer q ?r = Some a" "normalize_review lc digest q ?r a = Inr v" by blast
  then obtain repair where parts: "v = a\<lparr>rv_findings := sort_findings lc (rv_findings a), rv_repairRequest := repair\<rparr>"
      "normalize_repair_request q (rv_repairRequest a) = Inr repair" "rv_verificationResultHash a = vr_resultHash ?r"
      "rv_resultHash a = verification_hash digest (review_base v)" "\<not> inconsistent_review v"
      "rv_verdict a \<in> {''ACCEPT'', ''BLOCK'', ''REPAIR_REQUIRED''}"
    by (auto simp: normalize_review_def Let_def and_then_Inr ensure_Inr)
  then have verdict: "rv_verdict v = ''ACCEPT''" using assms(2) v(1) by (auto simp: gate_outcome_def split: if_splits)
  with parts(5) have empty: "rv_findings v = []" "rv_repairRequest v = None" by (auto simp: inconsistent_review_def)
  then have "rv_findings a = []" "rv_repairRequest a = None"
    using parts(1,2) by (auto simp: normalize_repair_request_def and_then_Inr split: option.splits)
  then have "v = a" using parts(1) empty by (cases a) auto
  with a(1) verdict empty ok satisfied parts(3,4) v(2) show ?thesis by auto
qed

section \<open>A concrete request\<close>

definition constant_digest :: "json \<Rightarrow> string" where
  "constant_digest v = replicate 64 CHR ''a''"

definition sample_evidence :: "string \<Rightarrow> string \<Rightarrow> v_evidence" where
  "sample_evidence i class = \<lparr>ve_id = i, ve_missionId = ''m'', ve_taskId = ''t'', ve_kind = ''test'', ve_subject = i, ve_producerId = ''p'',
     ve_producerClass = class, ve_observedAt = ''0000-01-01T00:00:00.000Z'', ve_contentHash = replicate 64 CHR ''0'', ve_status = ''PASS''\<rparr>"

definition gate_request :: "v_evidence list \<Rightarrow> v_request" where
  "gate_request es = \<lparr>vq_missionId = ''m'', vq_evaluatedAt = ''0000-01-01T00:00:00.000Z'',
     vq_claims = [\<lparr>vc_id = ''c'', vc_missionId = ''m'', vc_taskId = ''t'', vc_definitionOfDone = ''d'', vc_requiredEvidenceKinds = [''test''],
       vc_requiredAfter = ''0000-01-01T00:00:00.000Z''\<rparr>],
     vq_evidence = sample_evidence ''e'' ''independent_tool'' # es, vq_bindings = [\<lparr>vb_claimId = ''c'', vb_evidenceIds = [''e'']\<rparr>]\<rparr>"

lemma constant_hex: "sha256_pattern (constant_digest v)"
proof -
  have "sha256_pattern (replicate 64 CHR ''a'')" by code_simp
  then show ?thesis by (simp add: constant_digest_def)
qed

lemma sample_instant: "canonical_instant ''0000-01-01T00:00:00.000Z'' = Some (-62167219200000)"
  by code_simp

lemma sample_in_order: "request_in_order 5 (gate_request [])"
proof -
  have "\<not> malformed_evidence (sample_evidence ''e'' ''independent_tool'')"
    "list_all (\<lambda>c. \<not> malformed_claim c) (vq_claims (gate_request []))" "list_all (\<lambda>b. \<not> malformed_binding b) (vq_bindings (gate_request []))"
    "bounded_text ''m'' 128" by code_simp+
  then show ?thesis
    by (auto simp: request_in_order_def gate_request_def evidence_in_order_def claim_in_order_def covered_def supports_def
        sample_evidence_def sample_instant instant_after_def evidence_kinds_def)
qed

lemma sample_gate: "\<exists>g. verify_request code_unit_compare constant_digest 5 (built_in_review code_unit_compare constant_digest 5) (gate_request es) = Inr g"
  if "length es \<le> 1"
  using that by (simp add: verify_request_def check_request_collections_def gate_request_def max_verification_items_def max_evidence_per_binding_def Let_def)

lemma gate_outcomes_witness:
  "\<exists>g. verify_request code_unit_compare constant_digest 5 (built_in_review code_unit_compare constant_digest 5) (gate_request []) = Inr g \<and> vg_outcome g = ''PASS''"
proof -
  from sample_gate [of "[]"] obtain g where g: "verify_request code_unit_compare constant_digest 5 (built_in_review code_unit_compare constant_digest 5) (gate_request []) = Inr g" by auto
  from gate_outcomes [OF code_units.comparator_axioms constant_hex g] sample_in_order g
  show ?thesis by (simp add: gate_request_def sample_evidence_def)
qed

lemma no_reviewer_opens_the_gate_witness: "\<exists>v. built_in_review code_unit_compare constant_digest 5 (gate_request [])
    (verify_claims code_unit_compare constant_digest 5 (gate_request [])) = Some v \<and> rv_findings v = []"
proof -
  from sample_gate [of "[]"] obtain g where g: "verify_request code_unit_compare constant_digest 5 (built_in_review code_unit_compare constant_digest 5) (gate_request []) = Inr g" by auto
  have "vg_outcome g = ''PASS''"
    using gate_outcome_cases [OF code_units.comparator_axioms constant_hex g] sample_in_order
    by (simp add: gate_request_def sample_evidence_def)
  from no_reviewer_opens_the_gate [OF g this] have "\<exists>v. built_in_review code_unit_compare constant_digest 5 (gate_request []) (vg_verification g) = Some v \<and> rv_findings v = []" by blast
  moreover have "vg_verification g = verify_claims code_unit_compare constant_digest 5 (gate_request [])"
    by (rule outcome_by_review [OF g])
  ultimately show ?thesis by simp
qed

end
