(* ===== verification/ClientProtocol.thy ===== *)
theory ClientProtocol
  imports MissionCodec DurableJobs
begin

text \<open>
  The client protocol (\<open>src/client/protocol.ts\<close>, \<open>types.ts\<close>): the decoders of requests, grants, lifecycle
  events, projections and responses over JSON values, in the order of their checks, and the values the
  gateway sends. \<open>dp\<close> is \<open>Date.parse\<close> (\<open>None\<close> is \<open>NaN\<close>).
\<close>

section \<open>Errors and types\<close>

datatype client_error_code = Malformed | UnsupportedVersion | Denied | StaleVersion | CommandConflict | ResyncRequired

type_synonym client_error = "client_error_code \<times> string"
type_synonym 'a protocol = "(client_error, 'a) Prelude.result"

definition malformed :: "string \<Rightarrow> 'a protocol" where
  "malformed message = Inl (Malformed, message)"

datatype client_command = PauseMission | ResumeMission | CancelMission

primrec command_text :: "client_command \<Rightarrow> string" where
  "command_text PauseMission = ''mission.pause''"
| "command_text ResumeMission = ''mission.resume''"
| "command_text CancelMission = ''mission.cancel''"

definition client_commands :: "client_command list" where
  "client_commands = [PauseMission, ResumeMission, CancelMission]"

record client_grant =
  cg_id :: string
  cg_sessionId :: string
  cg_missionId :: string
  cg_canRead :: bool
  cg_commands :: "client_command list"
  cg_expiresAt :: string

record client_task =
  ct_id :: string
  ct_title :: string
  ct_dependsOn :: "string list"
  ct_priority :: int
  ct_status :: task_status

datatype verification_status = VerificationUnavailable | VerificationPending | VerificationVerified | VerificationBlocked

primrec verification_text :: "verification_status \<Rightarrow> string" where
  "verification_text VerificationUnavailable = ''UNAVAILABLE''"
| "verification_text VerificationPending = ''PENDING''"
| "verification_text VerificationVerified = ''VERIFIED''"
| "verification_text VerificationBlocked = ''BLOCKED''"

definition verification_states :: "verification_status list" where
  "verification_states = [VerificationUnavailable, VerificationPending, VerificationVerified, VerificationBlocked]"

record verification_summary =
  vs_status :: verification_status
  vs_evidenceRefs :: "string list"

record client_projection =
  pj_missionId :: string
  pj_version :: int
  pj_objective :: string
  pj_focus :: focus_class
  pj_state :: mission_state
  pj_resumeState :: "mission_state option"
  pj_tasks :: "client_task list"
  pj_budgetLimits :: budget_counters
  pj_budgetUsage :: budget_counters
  pj_checkpointVersion :: "int option"
  pj_jobs :: "int list"
  pj_verification :: verification_summary

record client_event =
  ce_cursor :: int
  ce_missionId :: string
  ce_jobId :: string
  ce_type :: job_event_type
  ce_status :: job_status
  ce_generation :: int
  ce_occurredAt :: string
  ce_reasonCode :: "string option"
  ce_eventHash :: string

record state_request =
  sq_requestId :: string
  sq_sessionId :: string
  sq_missionId :: string
  sq_capabilityId :: string
  sq_requestedAt :: string
  sq_afterCursor :: int
  sq_limit :: int

record state_response =
  sr_minor :: int
  sr_requestId :: string
  sr_sessionId :: string
  sr_missionId :: string
  sr_emittedAt :: string
  sr_fromCursor :: int
  sr_nextCursor :: int
  sr_hasMore :: bool
  sr_projection :: client_projection
  sr_events :: "client_event list"

record command_request =
  cq_requestId :: string
  cq_sessionId :: string
  cq_missionId :: string
  cq_capabilityId :: string
  cq_issuedAt :: string
  cq_expectedVersion :: int
  cq_idempotencyKey :: string
  cq_command :: client_command

datatype command_outcome = Applied | Replayed

record command_response =
  cr_requestId :: string
  cr_sessionId :: string
  cr_missionId :: string
  cr_emittedAt :: string
  cr_command :: client_command
  cr_outcome :: command_outcome
  cr_projection :: client_projection

section \<open>Reading values\<close>

fun client_object :: "json option \<Rightarrow> string \<Rightarrow> (string \<times> json) list protocol" where
  "client_object (Some (JObj props)) label = Inr props"
| "client_object _ label = malformed (label @ '' must be an object.'')"

fun client_text :: "json option \<Rightarrow> string \<Rightarrow> string protocol" where
  "client_text (Some (JStr t)) label = Inr t"
| "client_text _ label = malformed (label @ '' must be text.'')"

fun client_array :: "json option \<Rightarrow> nat \<Rightarrow> string \<Rightarrow> json list protocol" where
  "client_array (Some (JArr xs)) maximum message = (if maximum < length xs then malformed message else Inr xs)"
| "client_array _ maximum message = malformed message"

fun client_boolean :: "json option \<Rightarrow> string \<Rightarrow> bool protocol" where
  "client_boolean (Some (JBool b)) message = Inr b"
| "client_boolean _ message = malformed message"

definition client_keys :: "(string \<times> json) list \<Rightarrow> string list \<Rightarrow> string \<Rightarrow> unit protocol" where
  "client_keys props keys label =
     (if length (js_keys props) \<noteq> length keys then malformed (label @ '' has an unexpected field count.'')
      else and_then (for_each (\<lambda>k. if k \<notin> set keys then malformed (label @ '' contains unknown field '' @ k @ ''.'') else Inr ()) (js_keys props)) (\<lambda>_.
           for_each (\<lambda>k. if \<not> js_in k props then malformed (label @ '' is missing field '' @ k @ ''.'') else Inr ()) keys))"

definition bounded_client_text :: "json option \<Rightarrow> string \<Rightarrow> nat \<Rightarrow> string protocol" where
  "bounded_client_text v label maximum =
     and_then (client_text v label) (\<lambda>t.
     if blank t \<or> maximum < length t \<or> CHR 0x00 \<in> set t then malformed (label @ '' is empty or exceeds its bound.'') else Inr t)"

definition client_identifier :: "json option \<Rightarrow> string \<Rightarrow> string protocol" where
  "client_identifier v label = bounded_client_text v label 200"

definition canonical_time :: "(string \<Rightarrow> int option) \<Rightarrow> string \<Rightarrow> bool" where
  "canonical_time dp t \<longleftrightarrow> (case dp t of None \<Rightarrow> False | Some ms \<Rightarrow> iso_text ms = t)"

definition client_timestamp :: "(string \<Rightarrow> int option) \<Rightarrow> json option \<Rightarrow> string \<Rightarrow> string protocol" where
  "client_timestamp dp v label =
     and_then (client_text v label) (\<lambda>t.
     if canonical_time dp t then Inr t else malformed (label @ '' must be a canonical UTC timestamp.''))"

fun client_integer :: "json option \<Rightarrow> string \<Rightarrow> int \<Rightarrow> int \<Rightarrow> int protocol" where
  "client_integer (Some (JNum q)) label minimum maximum =
     (if \<not> num_is_safe_integer q \<or> fst (quotient_of q) < minimum \<or> maximum < fst (quotient_of q)
      then malformed (label @ '' must be a bounded safe integer.'') else Inr (fst (quotient_of q)))"
| "client_integer _ label minimum maximum = malformed (label @ '' must be a bounded safe integer.'')"

definition client_sha256 :: "json option \<Rightarrow> string \<Rightarrow> string protocol" where
  "client_sha256 v label =
     and_then (client_text v label) (\<lambda>t.
     if sha256_pattern t then Inr t else malformed (label @ '' must be a lowercase SHA-256 hash.''))"

text \<open>A text that names an element of an enumeration.\<close>

definition client_named :: "('a \<Rightarrow> string) \<Rightarrow> 'a list \<Rightarrow> json option \<Rightarrow> string \<Rightarrow> string \<Rightarrow> 'a protocol" where
  "client_named name xs v label message =
     and_then (client_text v label) (\<lambda>t. case named name xs t of None \<Rightarrow> malformed message | Some x \<Rightarrow> Inr x)"

definition or_null :: "json option \<Rightarrow> (json option \<Rightarrow> 'a protocol) \<Rightarrow> 'a option protocol" where
  "or_null v f = (if v = Some JNull then Inr None else and_then (f v) (\<lambda>x. Inr (Some x)))"

definition protocol_version :: "json option \<Rightarrow> int protocol" where
  "protocol_version v =
     and_then (client_object v ''protocol version'') (\<lambda>props.
     and_then (client_keys props [''major'', ''minor''] ''protocol version'') (\<lambda>_.
     and_then (client_integer (own_property props ''major'') ''protocol major'' 0 10000) (\<lambda>major.
     and_then (client_integer (own_property props ''minor'') ''protocol minor'' 0 10000) (\<lambda>minor.
     if major \<noteq> 1 \<or> 0 < minor
     then Inl (UnsupportedVersion, ''Unsupported client protocol '' @ nat_text (nat major) @ ''.'' @ nat_text (nat minor) @ ''.'')
     else Inr minor))))"

definition client_counters :: "json option \<Rightarrow> string \<Rightarrow> budget_counters protocol" where
  "client_counters v label =
     and_then (client_object v label) (\<lambda>props.
     and_then (client_keys props [''attempts'', ''costMicros'', ''inputTokens'', ''outputTokens'', ''toolCalls''] label) (\<lambda>_.
     and_then (client_integer (own_property props ''attempts'') (label @ ''.attempts'') 0 max_safe_integer) (\<lambda>a.
     and_then (client_integer (own_property props ''costMicros'') (label @ ''.costMicros'') 0 max_safe_integer) (\<lambda>c.
     and_then (client_integer (own_property props ''inputTokens'') (label @ ''.inputTokens'') 0 max_safe_integer) (\<lambda>i.
     and_then (client_integer (own_property props ''outputTokens'') (label @ ''.outputTokens'') 0 max_safe_integer) (\<lambda>out.
     and_then (client_integer (own_property props ''toolCalls'') (label @ ''.toolCalls'') 0 max_safe_integer) (\<lambda>t.
     Inr \<lparr>inputTokens = i, outputTokens = out, costMicros = c, toolCalls = t, attempts = a\<rparr>)))))))"

definition job_statuses :: "job_status list" where
  "job_statuses = [JobPending, JobRunning, JobRetryWait, JobCancelling, JobCancelled, JobSucceeded, JobBlocked]"

definition job_event_types :: "job_event_type list" where
  "job_event_types = [Enqueued, Claimed, Reclaimed, Heartbeat, RetryScheduled, Succeeded, Blocked, Cancelling, Cancelled]"

text \<open>The counts, in the order of \<open>job_statuses\<close>.\<close>

definition client_job_counts :: "(string \<times> json) list \<Rightarrow> int list protocol" where
  "client_job_counts props =
     and_then (client_keys props (map status_text job_statuses) ''job counts'') (\<lambda>_.
     traverse (\<lambda>st. client_integer (own_property props (status_text st)) (''job count '' @ status_text st) 0 max_safe_integer) job_statuses)"

definition client_verification :: "json option \<Rightarrow> verification_summary protocol" where
  "client_verification v =
     and_then (client_object v ''verification summary'') (\<lambda>props.
     and_then (client_keys props [''evidenceRefs'', ''status''] ''verification summary'') (\<lambda>_.
     and_then (client_named verification_text verification_states (own_property props ''status'') ''verification status''
       ''verification status is unsupported.'') (\<lambda>status.
     and_then (client_array (own_property props ''evidenceRefs'') 256 ''verification evidence refs are malformed.'') (\<lambda>xs.
     and_then (traverse (\<lambda>x. bounded_client_text (Some x) ''evidence ref'' 500) xs) (\<lambda>refs.
     and_then (if \<not> distinct refs then malformed ''verification evidence refs contain duplicates.'' else Inr ()) (\<lambda>_.
     Inr \<lparr>vs_status = status, vs_evidenceRefs = refs\<rparr>))))))"

section \<open>Requests and grants\<close>

definition decode_state_request :: "(string \<Rightarrow> int option) \<Rightarrow> json \<Rightarrow> state_request protocol" where
  "decode_state_request dp v =
     and_then (client_object (Some v) ''state request'') (\<lambda>props.
     and_then (client_keys props [''afterCursor'', ''capabilityId'', ''limit'', ''missionId'', ''protocol'', ''requestId'', ''requestedAt'', ''sessionId'']
       ''state request'') (\<lambda>_.
     and_then (client_integer (own_property props ''afterCursor'') ''afterCursor'' 0 max_safe_integer) (\<lambda>after.
     and_then (client_identifier (own_property props ''capabilityId'') ''capabilityId'') (\<lambda>capability.
     and_then (client_integer (own_property props ''limit'') ''limit'' 1 99) (\<lambda>limit.
     and_then (client_identifier (own_property props ''missionId'') ''missionId'') (\<lambda>m.
     and_then (protocol_version (own_property props ''protocol'')) (\<lambda>_.
     and_then (client_identifier (own_property props ''requestId'') ''requestId'') (\<lambda>r.
     and_then (client_timestamp dp (own_property props ''requestedAt'') ''requestedAt'') (\<lambda>t.
     and_then (client_identifier (own_property props ''sessionId'') ''sessionId'') (\<lambda>session.
     Inr \<lparr>sq_requestId = r, sq_sessionId = session, sq_missionId = m, sq_capabilityId = capability, sq_requestedAt = t,
       sq_afterCursor = after, sq_limit = limit\<rparr>))))))))))"

definition decode_command_request :: "(string \<Rightarrow> int option) \<Rightarrow> json \<Rightarrow> command_request protocol" where
  "decode_command_request dp v =
     and_then (client_object (Some v) ''command request'') (\<lambda>props.
     and_then (client_keys props [''capabilityId'', ''command'', ''expectedVersion'', ''idempotencyKey'', ''issuedAt'', ''missionId'', ''protocol'',
       ''requestId'', ''sessionId''] ''command request'') (\<lambda>_.
     and_then (client_named command_text client_commands (own_property props ''command'') ''command'' ''command is unsupported.'') (\<lambda>command.
     and_then (client_identifier (own_property props ''capabilityId'') ''capabilityId'') (\<lambda>capability.
     and_then (client_integer (own_property props ''expectedVersion'') ''expectedVersion'' 1 max_safe_integer) (\<lambda>expected.
     and_then (bounded_client_text (own_property props ''idempotencyKey'') ''idempotencyKey'' 180) (\<lambda>key.
     and_then (client_timestamp dp (own_property props ''issuedAt'') ''issuedAt'') (\<lambda>t.
     and_then (client_identifier (own_property props ''missionId'') ''missionId'') (\<lambda>m.
     and_then (protocol_version (own_property props ''protocol'')) (\<lambda>_.
     and_then (client_identifier (own_property props ''requestId'') ''requestId'') (\<lambda>r.
     and_then (client_identifier (own_property props ''sessionId'') ''sessionId'') (\<lambda>session.
     Inr \<lparr>cq_requestId = r, cq_sessionId = session, cq_missionId = m, cq_capabilityId = capability, cq_issuedAt = t,
       cq_expectedVersion = expected, cq_idempotencyKey = key, cq_command = command\<rparr>)))))))))))"

definition normalize_capability_grant :: "(string \<Rightarrow> int option) \<Rightarrow> json \<Rightarrow> client_grant protocol" where
  "normalize_capability_grant dp v =
     and_then (client_object (Some v) ''capability grant'') (\<lambda>props.
     and_then (client_keys props [''canRead'', ''commands'', ''expiresAt'', ''id'', ''missionId'', ''sessionId''] ''capability grant'') (\<lambda>_.
     and_then (client_boolean (own_property props ''canRead'') ''capability canRead must be boolean.'') (\<lambda>canRead.
     and_then (client_array (own_property props ''commands'') (length client_commands) ''capability commands are malformed.'') (\<lambda>xs.
     and_then (traverse (\<lambda>x. client_named command_text client_commands (Some x) ''capability command'' ''capability command is unsupported.'') xs) (\<lambda>commands.
     and_then (if \<not> distinct commands then malformed ''capability commands contain duplicates.'' else Inr ()) (\<lambda>_.
     and_then (client_timestamp dp (own_property props ''expiresAt'') ''capability expiresAt'') (\<lambda>t.
     and_then (client_identifier (own_property props ''id'') ''capability id'') (\<lambda>i.
     and_then (client_identifier (own_property props ''missionId'') ''capability missionId'') (\<lambda>m.
     and_then (client_identifier (own_property props ''sessionId'') ''capability sessionId'') (\<lambda>session.
     Inr \<lparr>cg_id = i, cg_sessionId = session, cg_missionId = m, cg_canRead = canRead,
       cg_commands = js_sort (\<lambda>a b. code_unit_compare (command_text a) (command_text b)) commands, cg_expiresAt = t\<rparr>))))))))))"

section \<open>Lifecycle events\<close>

definition normalize_lifecycle_event :: "(string \<Rightarrow> int option) \<Rightarrow> json \<Rightarrow> client_event protocol" where
  "normalize_lifecycle_event dp v =
     and_then (client_object (Some v) ''lifecycle event'') (\<lambda>props.
     and_then (client_keys props [''cursor'', ''eventHash'', ''generation'', ''jobId'', ''missionId'', ''occurredAt'', ''reasonCode'', ''status'', ''type'']
       ''lifecycle event'') (\<lambda>_.
     and_then (client_text (own_property props ''type'') ''lifecycle type'') (\<lambda>type.
     and_then (client_text (own_property props ''status'') ''lifecycle status'') (\<lambda>status.
     (case named event_type_text job_event_types type of
        None \<Rightarrow> malformed ''lifecycle type is unsupported.''
      | Some ty \<Rightarrow>
     (case named status_text job_statuses status of
        None \<Rightarrow> malformed ''lifecycle status is unsupported.''
      | Some st \<Rightarrow>
     and_then (client_integer (own_property props ''cursor'') ''lifecycle cursor'' 1 max_safe_integer) (\<lambda>c.
     and_then (client_sha256 (own_property props ''eventHash'') ''lifecycle eventHash'') (\<lambda>h.
     and_then (client_integer (own_property props ''generation'') ''lifecycle generation'' 0 max_safe_integer) (\<lambda>g.
     and_then (client_identifier (own_property props ''jobId'') ''lifecycle jobId'') (\<lambda>j.
     and_then (client_identifier (own_property props ''missionId'') ''lifecycle missionId'') (\<lambda>m.
     and_then (client_timestamp dp (own_property props ''occurredAt'') ''lifecycle occurredAt'') (\<lambda>t.
     and_then (or_null (own_property props ''reasonCode'') (\<lambda>x. bounded_client_text x ''lifecycle reasonCode'' 200)) (\<lambda>r.
     Inr \<lparr>ce_cursor = c, ce_missionId = m, ce_jobId = j, ce_type = ty, ce_status = st, ce_generation = g, ce_occurredAt = t,
       ce_reasonCode = r, ce_eventHash = h\<rparr>)))))))))))))"

end
