(* ===== verification/ClientResponses.thy ===== *)
theory ClientResponses
  imports ClientProtocol
begin

text \<open>
  Projections and state responses of the client protocol (\<open>src/client/protocol.ts\<close>), and the reducer that
  follows a mission from them (\<open>src/client/reducer.ts\<close>). The hashes a client remembers are a list from
  cursors to hashes, in rising order, as \<open>Object.fromEntries\<close> of the sorted entries enumerates them.
\<close>

section \<open>Projections\<close>

definition decode_projection_task :: "json \<Rightarrow> client_task protocol" where
  "decode_projection_task v =
     and_then (client_object (Some v) ''projection task'') (\<lambda>props.
     and_then (client_keys props [''dependsOn'', ''id'', ''priority'', ''status'', ''title''] ''projection task'') (\<lambda>_.
     and_then (client_array (own_property props ''dependsOn'') 1024 ''projection task dependencies are malformed.'') (\<lambda>xs.
     and_then (client_named task_status_text task_statuses (own_property props ''status'') ''projection task status''
       ''projection task status is unsupported.'') (\<lambda>status.
     and_then (traverse (\<lambda>x. client_identifier (Some x) ''dependency id'') xs) (\<lambda>deps.
     and_then (client_identifier (own_property props ''id'') ''projection task id'') (\<lambda>i.
     and_then (client_integer (own_property props ''priority'') ''projection task priority'' 0 max_safe_integer) (\<lambda>p.
     and_then (bounded_client_text (own_property props ''title'') ''projection task title'' 4096) (\<lambda>t.
     Inr \<lparr>ct_id = i, ct_title = t, ct_dependsOn = deps, ct_priority = p, ct_status = status\<rparr>))))))))"

definition decode_resume_state :: "json option \<Rightarrow> mission_state option protocol" where
  "decode_resume_state v =
     (case v of
        Some JNull \<Rightarrow> Inr None
      | Some (JStr t) \<Rightarrow> (case named state_text mission_states t of
            None \<Rightarrow> malformed ''projection resumeState is unsupported.'' | Some s \<Rightarrow> Inr (Some s))
      | _ \<Rightarrow> malformed ''projection resumeState is unsupported.'')"

definition decode_projection :: "json option \<Rightarrow> client_projection protocol" where
  "decode_projection v =
     and_then (client_object v ''mission projection'') (\<lambda>props.
     and_then (client_keys props [''budgetLimits'', ''budgetUsage'', ''checkpointVersion'', ''focus'', ''jobs'', ''missionId'', ''objective'',
       ''resumeState'', ''state'', ''tasks'', ''verification'', ''version''] ''mission projection'') (\<lambda>_.
     and_then (client_named state_text mission_states (own_property props ''state'') ''projection state'' ''projection state is unsupported.'') (\<lambda>state.
     and_then (client_named focus_text focus_classes (own_property props ''focus'') ''projection focus'' ''projection focus is unsupported.'') (\<lambda>f.
     and_then (client_array (own_property props ''tasks'') 1024 ''projection tasks are malformed.'') (\<lambda>xs.
     and_then (traverse decode_projection_task xs) (\<lambda>ts.
     and_then (decode_resume_state (own_property props ''resumeState'')) (\<lambda>resume.
     and_then (client_counters (own_property props ''budgetLimits'') ''projection budget limits'') (\<lambda>limits.
     and_then (client_counters (own_property props ''budgetUsage'') ''projection budget usage'') (\<lambda>usage.
     and_then (or_null (own_property props ''checkpointVersion'') (\<lambda>x. client_integer x ''projection checkpoint version'' 1 max_safe_integer)) (\<lambda>checkpoint.
     and_then (client_object (own_property props ''jobs'') ''projection jobs'') (\<lambda>jobs.
     and_then (client_job_counts jobs) (\<lambda>jobs.
     and_then (client_identifier (own_property props ''missionId'') ''projection missionId'') (\<lambda>m.
     and_then (bounded_client_text (own_property props ''objective'') ''projection objective'' 20000) (\<lambda>obj.
     and_then (client_verification (own_property props ''verification'')) (\<lambda>verification.
     and_then (client_integer (own_property props ''version'') ''projection version'' 1 max_safe_integer) (\<lambda>v.
     Inr \<lparr>pj_missionId = m, pj_version = v, pj_objective = obj, pj_focus = f, pj_state = state, pj_resumeState = resume, pj_tasks = ts,
       pj_budgetLimits = limits, pj_budgetUsage = usage, pj_checkpointVersion = checkpoint, pj_jobs = jobs, pj_verification = verification\<rparr>))))))))))))))))"

text \<open>\<open>buildClientProjection\<close>: what comes from outside the mission is checked as JSON, the snapshot by its types.\<close>

definition build_task :: "mission_snapshot \<Rightarrow> mission_task \<Rightarrow> client_task protocol" where
  "build_task s t =
     (case js_get (taskStatuses s) (task_id t) of
        Own st \<Rightarrow>
          and_then (client_identifier (Some (JStr (task_id t))) ''task id'') (\<lambda>i.
          and_then (client_integer (Some (JNum (of_int (mission_task.priority t)))) ''task priority'' 0 max_safe_integer) (\<lambda>p.
          and_then (bounded_client_text (Some (JStr (task_title t))) ''task title'' 4096) (\<lambda>title.
          Inr \<lparr>ct_id = i, ct_title = title, ct_dependsOn = mission_task.dependsOn t, ct_priority = p, ct_status = st\<rparr>)))
      | _ \<Rightarrow> malformed ''mission task status is invalid.'')"

definition build_client_projection :: "mission_snapshot \<Rightarrow> (string \<times> json) list \<Rightarrow> json \<Rightarrow> int option \<Rightarrow> client_projection protocol" where
  "build_client_projection s jobFields verification checkpoint =
     and_then (client_job_counts jobFields) (\<lambda>counts.
     and_then (client_verification (Some verification)) (\<lambda>summary.
     and_then (traverse (build_task s) (tasks s)) (\<lambda>ts.
     and_then (client_counters (Some (counters_value (budgetLimits s))) ''budget limits'') (\<lambda>limits.
     and_then (client_counters (Some (counters_value (budgetUsage s))) ''budget usage'') (\<lambda>usage.
     and_then (case checkpoint of None \<Rightarrow> Inr None
       | Some v \<Rightarrow> and_then (client_integer (Some (JNum (of_int v))) ''checkpoint version'' 1 max_safe_integer) (\<lambda>v. Inr (Some v))) (\<lambda>checkpoint.
     and_then (client_identifier (Some (JStr (snap_id s))) ''mission id'') (\<lambda>m.
     and_then (bounded_client_text (Some (JStr (objective s))) ''mission objective'' 20000) (\<lambda>obj.
     and_then (client_integer (Some (JNum (of_int (version s)))) ''mission version'' 1 max_safe_integer) (\<lambda>v.
     Inr \<lparr>pj_missionId = m, pj_version = v, pj_objective = obj, pj_focus = focus s, pj_state = mstate s, pj_resumeState = resumeState s, pj_tasks = ts,
       pj_budgetLimits = limits, pj_budgetUsage = usage, pj_checkpointVersion = checkpoint, pj_jobs = counts, pj_verification = summary\<rparr>)))))))))"

section \<open>Responses\<close>

text \<open>The loop over the events: scope and rising cursors.\<close>

fun check_event_order :: "string \<Rightarrow> int \<Rightarrow> client_event list \<Rightarrow> unit protocol" where
  "check_event_order m previous [] = Inr ()"
| "check_event_order m previous (e # es) =
     (if ce_missionId e \<noteq> m \<or> ce_cursor e \<le> previous then malformed ''state response lifecycle ordering/scope is invalid.''
      else check_event_order m (ce_cursor e) es)"

definition last_cursor :: "int \<Rightarrow> client_event list \<Rightarrow> int" where
  "last_cursor from es = (if es = [] then from else ce_cursor (last es))"

definition decode_state_response :: "(string \<Rightarrow> int option) \<Rightarrow> json \<Rightarrow> state_response protocol" where
  "decode_state_response dp v =
     and_then (client_object (Some v) ''state response'') (\<lambda>props.
     and_then (client_keys props [''emittedAt'', ''events'', ''fromCursor'', ''hasMore'', ''missionId'', ''nextCursor'', ''projection'', ''protocol'',
       ''requestId'', ''sessionId''] ''state response'') (\<lambda>_.
     and_then (client_boolean (own_property props ''hasMore'') ''state response hasMore must be boolean.'') (\<lambda>hasMore.
     and_then (client_array (own_property props ''events'') 99 ''state response events are malformed.'') (\<lambda>xs.
     and_then (client_identifier (own_property props ''missionId'') ''response missionId'') (\<lambda>m.
     and_then (client_integer (own_property props ''fromCursor'') ''fromCursor'' 0 max_safe_integer) (\<lambda>from.
     and_then (traverse (normalize_lifecycle_event dp) xs) (\<lambda>events.
     and_then (check_event_order m from events) (\<lambda>_.
     and_then (client_integer (own_property props ''nextCursor'') ''nextCursor'' 0 max_safe_integer) (\<lambda>next.
     and_then (if next \<noteq> last_cursor from events then malformed ''state response nextCursor does not match its event page.'' else Inr ()) (\<lambda>_.
     and_then (decode_projection (own_property props ''projection'')) (\<lambda>projection.
     and_then (if pj_missionId projection \<noteq> m then malformed ''projection mission scope is inconsistent.'' else Inr ()) (\<lambda>_.
     and_then (client_timestamp dp (own_property props ''emittedAt'') ''emittedAt'') (\<lambda>t.
     and_then (protocol_version (own_property props ''protocol'')) (\<lambda>minor.
     and_then (client_identifier (own_property props ''requestId'') ''response requestId'') (\<lambda>r.
     and_then (client_identifier (own_property props ''sessionId'') ''response sessionId'') (\<lambda>session.
     Inr \<lparr>sr_minor = minor, sr_requestId = r, sr_sessionId = session, sr_missionId = m, sr_emittedAt = t, sr_fromCursor = from, sr_nextCursor = next,
       sr_hasMore = hasMore, sr_projection = projection, sr_events = events\<rparr>))))))))))))))))"

section \<open>The values sent\<close>

definition null_or :: "('a \<Rightarrow> json) \<Rightarrow> 'a option \<Rightarrow> json" where
  "null_or f x = (case x of None \<Rightarrow> JNull | Some y \<Rightarrow> f y)"

abbreviation client_int :: "int \<Rightarrow> json" where
  "client_int n \<equiv> JNum (of_int n)"

definition client_task_value :: "client_task \<Rightarrow> json" where
  "client_task_value t = JObj [(''dependsOn'', JArr (map JStr (ct_dependsOn t))), (''id'', JStr (ct_id t)), (''priority'', client_int (ct_priority t)),
     (''status'', JStr (task_status_text (ct_status t))), (''title'', JStr (ct_title t))]"

definition verification_value :: "verification_summary \<Rightarrow> json" where
  "verification_value s = JObj [(''evidenceRefs'', JArr (map JStr (vs_evidenceRefs s))), (''status'', JStr (verification_text (vs_status s)))]"

definition projection_value :: "client_projection \<Rightarrow> json" where
  "projection_value p = JObj
     [(''budgetLimits'', counters_value (pj_budgetLimits p)), (''budgetUsage'', counters_value (pj_budgetUsage p)),
      (''checkpointVersion'', null_or client_int (pj_checkpointVersion p)), (''focus'', JStr (focus_text (pj_focus p))),
      (''jobs'', JObj (zip (map status_text job_statuses) (map client_int (pj_jobs p)))), (''missionId'', JStr (pj_missionId p)),
      (''objective'', JStr (pj_objective p)), (''resumeState'', null_or (\<lambda>s. JStr (state_text s)) (pj_resumeState p)),
      (''state'', JStr (state_text (pj_state p))), (''tasks'', JArr (map client_task_value (pj_tasks p))),
      (''verification'', verification_value (pj_verification p)), (''version'', client_int (pj_version p))]"

definition client_event_value :: "client_event \<Rightarrow> json" where
  "client_event_value e = JObj
     [(''cursor'', client_int (ce_cursor e)), (''eventHash'', JStr (ce_eventHash e)), (''generation'', client_int (ce_generation e)),
      (''jobId'', JStr (ce_jobId e)), (''missionId'', JStr (ce_missionId e)), (''occurredAt'', JStr (ce_occurredAt e)),
      (''reasonCode'', null_or JStr (ce_reasonCode e)), (''status'', JStr (status_text (ce_status e))), (''type'', JStr (event_type_text (ce_type e)))]"

definition state_response_value :: "state_response \<Rightarrow> json" where
  "state_response_value r = JObj
     [(''emittedAt'', JStr (sr_emittedAt r)), (''events'', JArr (map client_event_value (sr_events r))), (''fromCursor'', client_int (sr_fromCursor r)),
      (''hasMore'', JBool (sr_hasMore r)), (''missionId'', JStr (sr_missionId r)), (''nextCursor'', client_int (sr_nextCursor r)),
      (''projection'', projection_value (sr_projection r)), (''protocol'', JObj [(''major'', JNum 1), (''minor'', client_int (sr_minor r))]),
      (''requestId'', JStr (sr_requestId r)), (''sessionId'', JStr (sr_sessionId r))]"

section \<open>The reducer\<close>

record reducer_state =
  rd_missionId :: string
  rd_sessionId :: string
  rd_cursor :: int
  rd_projection :: client_projection
  rd_recentEventHashes :: "(int \<times> string) list"

definition max_tracked_hashes :: nat where
  "max_tracked_hashes = 512"

text \<open>\<open>Map.set\<close> on the entries, then the largest cursors, in rising order.\<close>

definition set_entry :: "int \<Rightarrow> string \<Rightarrow> (int \<times> string) list \<Rightarrow> (int \<times> string) list" where
  "set_entry c h entries = (if c \<in> fst ` set entries then map (\<lambda>e. if fst e = c then (c, h) else e) entries else entries @ [(c, h)])"

definition bounded_hashes :: "(int \<times> string) list \<Rightarrow> client_event list \<Rightarrow> (int \<times> string) list" where
  "bounded_hashes existing events =
     (let known = filter (\<lambda>e. safe_integer (fst e) \<and> 0 \<le> fst e) existing;
          entries = fold (\<lambda>e. set_entry (ce_cursor e) (ce_eventHash e)) events known in
      js_sort (\<lambda>a b. fst a - fst b) (take max_tracked_hashes (js_sort (\<lambda>a b. fst b - fst a) entries)))"

definition resync :: "string \<Rightarrow> 'a protocol" where
  "resync message = Inl (ResyncRequired, message)"

text \<open>The check of a page from before the cursor.\<close>

definition check_replayed :: "reducer_state \<Rightarrow> client_event \<Rightarrow> unit protocol" where
  "check_replayed s e =
     (if rd_cursor s < ce_cursor e then resync ''Replayed page overlaps unseen events.''
      else if map_of (rd_recentEventHashes s) (ce_cursor e) \<noteq> Some (ce_eventHash e)
      then resync ''Replayed lifecycle event is unknown or changed.'' else Inr ())"

definition reduce_response :: "reducer_state option \<Rightarrow> state_response \<Rightarrow> reducer_state protocol" where
  "reduce_response current r =
     (case current of
        None \<Rightarrow> Inr \<lparr>rd_missionId = sr_missionId r, rd_sessionId = sr_sessionId r, rd_cursor = sr_nextCursor r,
          rd_projection = sr_projection r, rd_recentEventHashes = bounded_hashes [] (sr_events r)\<rparr>
      | Some s \<Rightarrow>
          if rd_missionId s \<noteq> sr_missionId r \<or> rd_sessionId s \<noteq> sr_sessionId r then resync ''Client response crossed mission/session scope.''
          else if pj_version (sr_projection r) < pj_version (rd_projection s) then resync ''Client projection version moved backwards.''
          else if rd_cursor s < sr_fromCursor r then resync ''Client cursor continuity was lost.''
          else if sr_fromCursor r < rd_cursor s
          then and_then (for_each (check_replayed s) (sr_events r)) (\<lambda>_. Inr (s\<lparr>rd_projection := sr_projection r\<rparr>))
          else Inr (s\<lparr>rd_cursor := sr_nextCursor r, rd_projection := sr_projection r,
            rd_recentEventHashes := bounded_hashes (rd_recentEventHashes s) (sr_events r)\<rparr>))"

definition reduce_client_state :: "(string \<Rightarrow> int option) \<Rightarrow> reducer_state option \<Rightarrow> json \<Rightarrow> reducer_state protocol" where
  "reduce_client_state dp current v = and_then (decode_state_response dp v) (reduce_response current)"

end
