(* ===== verification/ClientControl.thy ===== *)
theory ClientControl
  imports ClientResponses MissionRuntime
begin

text \<open>
  The gateway (\<open>src/client/control.ts\<close>): capability grants, mission commands over any event store, and the
  state pages. The sources of activity and verification are functions of the mission, \<open>None\<close> where
  their promise rejects; \<open>conflict\<close> tells whether an error of the store is an \<open>EventStoreConflictError\<close>, and then
  whether its message speaks of idempotency.
\<close>

datatype 'e gateway_error = ClientFailure client_error | StoreFailure 'e | MissionFailure mission_error | SourceFailure

definition lift_client :: "'a protocol \<Rightarrow> ('e gateway_error, 'a) Prelude.result" where
  "lift_client r = (case r of Inl e \<Rightarrow> Inl (ClientFailure e) | Inr x \<Rightarrow> Inr x)"

definition client_failure :: "client_error_code \<Rightarrow> string \<Rightarrow> ('e gateway_error, 'a) Prelude.result" where
  "client_failure c message = Inl (ClientFailure (c, message))"

lemma lift_client_Inr [result_simps]: "lift_client r = Inr x \<longleftrightarrow> r = Inr x"
  by (cases r) (simp_all add: lift_client_def)

section \<open>Capabilities\<close>

text \<open>\<open>InMemoryClientCapabilityPolicy\<close>: its constructor and \<open>resolve\<close>.\<close>

fun add_grants :: "(string \<Rightarrow> int option) \<Rightarrow> client_grant list \<Rightarrow> json list \<Rightarrow> client_grant list protocol" where
  "add_grants dp grants [] = Inr grants"
| "add_grants dp grants (v # vs) =
     and_then (normalize_capability_grant dp v) (\<lambda>g.
     if cg_id g \<in> cg_id ` set grants then malformed (''Duplicate client capability '' @ cg_id g @ ''.'')
     else add_grants dp (grants @ [g]) vs)"

definition resolve_grant :: "client_grant list \<Rightarrow> string \<Rightarrow> client_grant option" where
  "resolve_grant grants i = find (\<lambda>g. cg_id g = i) grants"

text \<open>\<open>Date.parse(a) <= Date.parse(b)\<close>, false when one is \<open>NaN\<close>.\<close>

definition not_after :: "(string \<Rightarrow> int option) \<Rightarrow> string \<Rightarrow> string \<Rightarrow> bool" where
  "not_after dp a b = (case (dp a, dp b) of (Some x, Some y) \<Rightarrow> x \<le> y | _ \<Rightarrow> False)"

definition authorize_client :: "(string \<Rightarrow> int option) \<Rightarrow> (string \<Rightarrow> client_grant option) \<Rightarrow> string \<Rightarrow> string \<Rightarrow> string \<Rightarrow> client_command option \<Rightarrow> string
    \<Rightarrow> unit protocol" where
  "authorize_client dp resolve capability session m command now =
     (case resolve capability of
        None \<Rightarrow> Inl (Denied, ''Client capability is missing, foreign, or expired.'')
      | Some g \<Rightarrow>
          if cg_sessionId g \<noteq> session \<or> cg_missionId g \<noteq> m \<or> not_after dp (cg_expiresAt g) now
          then Inl (Denied, ''Client capability is missing, foreign, or expired.'')
          else (case command of
              None \<Rightarrow> if \<not> cg_canRead g then Inl (Denied, ''Client read capability is denied.'') else Inr ()
            | Some k \<Rightarrow> if k \<notin> set (cg_commands g) then Inl (Denied, ''Client command is outside its capability grant.'') else Inr ()))"

definition max_clock_skew :: int where
  "max_clock_skew = 300000"

definition assert_request_time :: "(string \<Rightarrow> int option) \<Rightarrow> string \<Rightarrow> string \<Rightarrow> unit protocol" where
  "assert_request_time dp v now =
     (case (dp v, dp now) of
        (Some a, Some b) \<Rightarrow> if max_clock_skew < \<bar>a - b\<bar> then Inl (Denied, ''Client request timestamp exceeds the allowed skew.'') else Inr ()
      | _ \<Rightarrow> Inr ())"

definition runtime_now :: "(string \<Rightarrow> int option) \<Rightarrow> string \<Rightarrow> string protocol" where
  "runtime_now dp now = (if canonical_time dp now then Inr now else malformed ''Runtime clock must return canonical UTC time.'')"

section \<open>Commands\<close>

definition command_targets :: "client_command \<Rightarrow> mission_snapshot \<Rightarrow> mission_state list protocol" where
  "command_targets c s =
     (case c of
        PauseMission \<Rightarrow> Inr [PAUSING, PAUSED]
      | CancelMission \<Rightarrow> Inr [CANCELLING, CANCELLED]
      | ResumeMission \<Rightarrow>
          (case resumeState s of
             Some r \<Rightarrow> if mstate s \<noteq> PAUSED then Inl (CommandConflict, ''Mission cannot resume without a captured pause state.'') else Inr [RESUMING, r]
           | None \<Rightarrow> Inl (CommandConflict, ''Mission cannot resume without a captured pause state.'')))"

definition scoped_key :: "command_request \<Rightarrow> string" where
  "scoped_key q = ''client:'' @ cq_sessionId q @ '':'' @ cq_idempotencyKey q"

text \<open>The loop over the targets: each transition is prepared on the events so far and their projection.\<close>

fun command_items :: "command_request \<Rightarrow> mission_state list \<Rightarrow> mission_event stored_event list \<Rightarrow> mission_snapshot
    \<Rightarrow> ('e gateway_error, mission_event append_item list) Prelude.result" where
  "command_items q [] working s = Inr []"
| "command_items q (t # ts) working s =
     (case transition_event s t of
        Inl e \<Rightarrow> client_failure CommandConflict ''Command is not valid for the mission state.''
      | Inr d \<Rightarrow>
          (let n = int (length working) + 1;
               working' = working @ [\<lparr>stored_event.missionId = cq_missionId q, sequence = n, aggregateVersion = n, idempotencyKey = scoped_key q,
                 occurredAt = cq_issuedAt q, event_data = d\<rparr>] in
           case project_mission working' of
             Inl e \<Rightarrow> Inl (MissionFailure e)
           | Inr s' \<Rightarrow> and_then (command_items q ts working' s') (\<lambda>items. Inr (item_at (cq_issuedAt q) d # items))))"

definition prepare_client_command :: "command_request \<Rightarrow> mission_event stored_event list
    \<Rightarrow> ('e gateway_error, mission_event append_item list) Prelude.result" where
  "prepare_client_command q events =
     (if int (length events) < cq_expectedVersion q \<or> cq_expectedVersion q < 1
      then client_failure StaleVersion ''Command mission version is unavailable.''
      else (let before = take (nat (cq_expectedVersion q)) events in
       case project_mission before of
         Inl e \<Rightarrow> client_failure CommandConflict ''Command cannot project its expected mission state.''
       | Inr s \<Rightarrow>
           if snap_id s \<noteq> cq_missionId q \<or> version s \<noteq> cq_expectedVersion q
           then client_failure StaleVersion ''Command mission version does not match.''
           else and_then (lift_client (command_targets (cq_command q) s)) (\<lambda>targets. command_items q targets before s)))"

definition store_refusal :: "('e \<Rightarrow> bool option) \<Rightarrow> 'e \<Rightarrow> 'e gateway_error" where
  "store_refusal conflict e =
     (case conflict e of
        None \<Rightarrow> StoreFailure e
      | Some idempotent \<Rightarrow> ClientFailure (if idempotent then CommandConflict else StaleVersion, ''Command conflicts with canonical mission state.''))"

definition load_snapshot :: "('e, 's) loader \<Rightarrow> 's \<Rightarrow> string \<Rightarrow> ('e gateway_error, mission_snapshot) Prelude.result" where
  "load_snapshot store_load s m =
     (case store_load s m of
        Inl e \<Rightarrow> Inl (StoreFailure e)
      | Inr events \<Rightarrow> (case project_mission events of Inl e \<Rightarrow> Inl (MissionFailure e) | Inr snap \<Rightarrow> Inr snap))"

definition execute_client_command :: "('e, 's) loader \<Rightarrow> ('e, 's) appender \<Rightarrow> ('e \<Rightarrow> bool option) \<Rightarrow> 's \<Rightarrow> command_request
    \<Rightarrow> ('e gateway_error, command_outcome \<times> mission_snapshot) Prelude.result \<times> 's" where
  "execute_client_command store_load store_append conflict s q =
     (case store_load s (cq_missionId q) of
        Inl e \<Rightarrow> (Inl (StoreFailure e), s)
      | Inr events \<Rightarrow>
          (case prepare_client_command q events of
             Inl e \<Rightarrow> (Inl e, s)
           | Inr items \<Rightarrow>
               (case store_append s (cq_missionId q) (cq_expectedVersion q) (scoped_key q) items of
                  Inl e \<Rightarrow> (Inl (store_refusal conflict e), s)
                | Inr (_, s') \<Rightarrow>
                    (and_then (load_snapshot store_load s' (cq_missionId q)) (\<lambda>snap.
                       Inr (if scoped_key q \<in> idempotencyKey ` set events then Replayed else Applied, snap)), s'))))"

section \<open>The gateway\<close>

record client_sources =
  src_jobCounts :: "string \<Rightarrow> (string \<times> json) list option"
  src_verification :: "string \<Rightarrow> json option"
  src_jobEvents :: "string \<Rightarrow> int \<Rightarrow> int \<Rightarrow> json list option"
  src_checkpoint :: "string \<Rightarrow> int option option"

definition from_source :: "'a option \<Rightarrow> ('e gateway_error, 'a) Prelude.result" where
  "from_source x = (case x of None \<Rightarrow> Inl SourceFailure | Some y \<Rightarrow> Inr y)"

definition gateway_state :: "(string \<Rightarrow> int option) \<Rightarrow> ('e, 's) loader \<Rightarrow> (string \<Rightarrow> client_grant option) \<Rightarrow> client_sources \<Rightarrow> string \<Rightarrow> 's \<Rightarrow> json
    \<Rightarrow> ('e gateway_error, state_response) Prelude.result" where
  "gateway_state dp store_load resolve sources clock s v =
     and_then (lift_client (decode_state_request dp v)) (\<lambda>q.
     and_then (lift_client (runtime_now dp clock)) (\<lambda>now.
     and_then (lift_client (authorize_client dp resolve (sq_capabilityId q) (sq_sessionId q) (sq_missionId q) None now)) (\<lambda>_.
     and_then (lift_client (assert_request_time dp (sq_requestedAt q) now)) (\<lambda>_.
     and_then (load_snapshot store_load s (sq_missionId q)) (\<lambda>snap.
     and_then (from_source (src_jobCounts sources (sq_missionId q))) (\<lambda>counts.
     and_then (from_source (src_verification sources (sq_missionId q))) (\<lambda>verification.
     and_then (from_source (src_jobEvents sources (sq_missionId q) (sq_afterCursor q) (sq_limit q + 1))) (\<lambda>raw.
     and_then (from_source (src_checkpoint sources (sq_missionId q))) (\<lambda>checkpoint.
     and_then (lift_client (traverse (normalize_lifecycle_event dp) raw)) (\<lambda>events.
     if list_ex (\<lambda>e. ce_missionId e \<noteq> sq_missionId q) events then client_failure ResyncRequired ''Activity source crossed mission scope.''
     else (let page = take (nat (sq_limit q)) events in
     and_then (lift_client (build_client_projection snap counts verification checkpoint)) (\<lambda>projection.
     lift_client (decode_state_response dp (state_response_value
       \<lparr>sr_minor = 0, sr_requestId = sq_requestId q, sr_sessionId = sq_sessionId q, sr_missionId = sq_missionId q, sr_emittedAt = now,
        sr_fromCursor = sq_afterCursor q, sr_nextCursor = last_cursor (sq_afterCursor q) page,
        sr_hasMore = sq_limit q < int (length events), sr_projection = projection, sr_events = page\<rparr>))))))))))))))"

definition admit_command :: "(string \<Rightarrow> int option) \<Rightarrow> (string \<Rightarrow> client_grant option) \<Rightarrow> string \<Rightarrow> json \<Rightarrow> command_request protocol" where
  "admit_command dp resolve clock v =
     and_then (decode_command_request dp v) (\<lambda>q.
     and_then (runtime_now dp clock) (\<lambda>now.
     and_then (authorize_client dp resolve (cq_capabilityId q) (cq_sessionId q) (cq_missionId q) (Some (cq_command q)) now) (\<lambda>_.
     and_then (assert_request_time dp (cq_issuedAt q) now) (\<lambda>_. Inr q))))"

definition gateway_command :: "(string \<Rightarrow> int option) \<Rightarrow> ('e, 's) loader \<Rightarrow> ('e, 's) appender \<Rightarrow> ('e \<Rightarrow> bool option) \<Rightarrow> (string \<Rightarrow> client_grant option)
    \<Rightarrow> client_sources \<Rightarrow> string \<Rightarrow> 's \<Rightarrow> json \<Rightarrow> ('e gateway_error, command_response) Prelude.result \<times> 's" where
  "gateway_command dp store_load store_append conflict resolve sources clock s v =
     (case admit_command dp resolve clock v of
        Inl e \<Rightarrow> (Inl (ClientFailure e), s)
      | Inr q \<Rightarrow>
          (case execute_client_command store_load store_append conflict s q of
             (Inl e, s') \<Rightarrow> (Inl e, s')
           | (Inr (outcome, snap), s') \<Rightarrow>
               (and_then (from_source (src_jobCounts sources (cq_missionId q))) (\<lambda>counts.
                and_then (from_source (src_verification sources (cq_missionId q))) (\<lambda>verification.
                and_then (from_source (src_checkpoint sources (cq_missionId q))) (\<lambda>checkpoint.
                and_then (lift_client (build_client_projection snap counts verification checkpoint)) (\<lambda>projection.
                Inr \<lparr>cr_requestId = cq_requestId q, cr_sessionId = cq_sessionId q, cr_missionId = cq_missionId q, cr_emittedAt = clock,
                  cr_command = cq_command q, cr_outcome = outcome, cr_projection = projection\<rparr>)))), s')))"

text \<open>The errors of the in-memory store.\<close>

definition memory_conflict :: "store_error \<Rightarrow> bool option" where
  "memory_conflict e = (case e of KeyReusedForOtherBatch \<Rightarrow> Some True | VersionConflict v n \<Rightarrow> Some False | _ \<Rightarrow> None)"

end
