(* ===== verification/ReducerFacts.thy ===== *)
theory ReducerFacts
  imports ClientControl
begin

text \<open>
  The pages a client accepts and the state it reduces them to: what the decoder guarantees of a page, the
  invariant of the reducer, and the hashes it remembers as the newest of all it has seen.
\<close>

section \<open>Decoded pages\<close>

lemma malformed_Inr [result_simps]: "malformed m = Inr x \<longleftrightarrow> False"
  by (simp add: malformed_def)

lemma resync_Inr [result_simps]: "resync m = Inr x \<longleftrightarrow> False"
  by (simp add: resync_def)

lemma named_Inr [result_simps]: "case_option (malformed m) f x = Inr r \<longleftrightarrow> (\<exists>y. x = Some y \<and> f y = Inr r)"
  by (cases x) (simp_all add: malformed_def)

lemma client_integer_Inr [result_simps]:
  "client_integer v label lo hi = Inr n \<longleftrightarrow> (\<exists>q. v = Some (JNum q) \<and> num_is_safe_integer q \<and> n = fst (quotient_of q) \<and> lo \<le> n \<and> n \<le> hi)"
  by (cases "(v, label, lo, hi)" rule: client_integer.cases) (auto simp: malformed_def)

lemma refused_Inr [result_simps]: "(if c then malformed m else Inr y) = Inr x \<longleftrightarrow> \<not> c \<and> x = y"
  by (auto simp: malformed_def)

lemma integer_lower: "client_integer v label lo hi = Inr n \<Longrightarrow> lo \<le> n"
  by (auto simp: client_integer_Inr)

lemma safe_of_integer: "client_integer v label lo hi = Inr n \<Longrightarrow> safe_integer n"
  by (auto simp: client_integer_Inr num_is_safe_integer_def)

definition page_ok :: "state_response \<Rightarrow> bool" where
  "page_ok r \<longleftrightarrow> check_event_order (sr_missionId r) (sr_fromCursor r) (sr_events r) = Inr () \<and> 0 \<le> sr_fromCursor r \<and>
     sr_nextCursor r = last_cursor (sr_fromCursor r) (sr_events r) \<and> (\<forall>e \<in> set (sr_events r). safe_integer (ce_cursor e)) \<and>
     pj_missionId (sr_projection r) = sr_missionId r \<and> length (sr_events r) \<le> 99"

lemma event_cursor_safe: "normalize_lifecycle_event dp v = Inr e \<Longrightarrow> safe_integer (ce_cursor e)"
  by (auto simp: normalize_lifecycle_event_def and_then_Inr named_Inr dest: safe_of_integer)

lemma client_array_Inr [result_simps]: "client_array v n message = Inr xs \<longleftrightarrow> v = Some (JArr xs) \<and> length xs \<le> n"
  by (cases "(v, n, message)" rule: client_array.cases) (auto simp: malformed_def)

lemma decoded_events:
  assumes "traverse (normalize_lifecycle_event dp) xs = Inr es"
  shows "length es = length xs" "\<forall>e \<in> set es. safe_integer (ce_cursor e)"
proof -
  have events: "list_all2 (\<lambda>x y. normalize_lifecycle_event dp x = Inr y) xs es" using assms by (simp add: traverse_Inr)
  then show "length es = length xs" by (simp add: list_all2_lengthD)
  show "\<forall>e \<in> set es. safe_integer (ce_cursor e)"
    using events by (induction rule: list_all2_induct) (simp_all add: event_cursor_safe)
qed

lemma decoded_page_ok: "decode_state_response dp v = Inr r \<Longrightarrow> page_ok r"
  apply (clarsimp simp: decode_state_response_def and_then_Inr refused_Inr page_ok_def simp del: client_object.simps)
  using decoded_events integer_lower client_array_Inr
  apply simp
  done

lemma ordered_events:
  "check_event_order m previous es = Inr () \<Longrightarrow> sorted_wrt (<) (previous # map ce_cursor es) \<and> (\<forall>e \<in> set es. ce_missionId e = m)"
proof (induction es arbitrary: previous)
  case (Cons e es)
  then show ?case by (fastforce simp: malformed_Inr split: if_splits)
qed simp

section \<open>The newest hashes\<close>

definition newest :: "'a list \<Rightarrow> 'a list" where
  "newest xs = drop (length xs - max_tracked_hashes) xs"

definition event_entry :: "client_event \<Rightarrow> int \<times> string" where
  "event_entry e = (ce_cursor e, ce_eventHash e)"

lemma js_insert_last: "\<forall>y \<in> set ys. 0 < cmp x y \<Longrightarrow> js_insert cmp x ys = ys @ [x]"
  by (induction ys) auto

lemma falling_sort: "sorted_wrt (<) (map fst (xs :: (int \<times> 'a) list)) \<Longrightarrow> js_sort (\<lambda>a b. fst b - fst a) xs = rev xs"
proof (induction xs)
  case (Cons x xs)
  then have "\<forall>y \<in> set (rev xs). 0 < fst y - fst x" by auto
  then have "js_insert (\<lambda>a b. fst b - fst a) x (rev xs) = rev xs @ [x]" by (rule js_insert_last)
  then show ?case using Cons by simp
qed simp

lemma reverse_sort: "sorted_wrt (<) (map fst (xs :: (int \<times> 'a) list)) \<Longrightarrow> js_sort (\<lambda>a b. fst a - fst b) (rev xs) = xs"
proof (induction xs rule: rev_induct)
  case (snoc x xs)
  then have "\<forall>y \<in> set xs. 0 < fst x - fst y" by (auto simp: sorted_wrt_append)
  then have "js_insert (\<lambda>a b. fst a - fst b) x xs = xs @ [x]" by (rule js_insert_last)
  then show ?case using snoc by (simp add: sorted_wrt_append)
qed simp

lemma add_entries:
  assumes "sorted_wrt (<) (map fst known @ map ce_cursor es)"
  shows "fold (\<lambda>e. set_entry (ce_cursor e) (ce_eventHash e)) es known = known @ map event_entry es"
  using assms
proof (induction es arbitrary: known)
  case (Cons e es)
  then have "ce_cursor e \<notin> fst ` set known" by (fastforce simp: sorted_wrt_append)
  then have "set_entry (ce_cursor e) (ce_eventHash e) known = known @ [event_entry e]" by (simp add: set_entry_def event_entry_def)
  moreover have "sorted_wrt (<) (map fst (known @ [event_entry e]) @ map ce_cursor es)" using Cons.prems by (simp add: event_entry_def)
  ultimately show ?case using Cons.IH [of "known @ [event_entry e]"] by simp
qed simp

lemma take_rev_newest: "take max_tracked_hashes (rev xs) = rev (newest xs)"
  by (simp add: newest_def take_rev)

lemma bounded_hashes_newest:
  assumes rising: "sorted_wrt (<) (map fst known @ map ce_cursor es)" and safe: "\<forall>e \<in> set known. safe_integer (fst e) \<and> 0 \<le> fst e"
  shows "bounded_hashes known es = newest (known @ map event_entry es)"
proof -
  let ?all = "known @ map event_entry es"
  have known: "filter (\<lambda>e. safe_integer (fst e) \<and> 0 \<le> fst e) known = known" using safe by (simp add: filter_id_conv)
  have all: "sorted_wrt (<) (map fst ?all)" using rising by (simp add: event_entry_def comp_def)
  have "sorted_wrt (<) (map fst (newest ?all))"
    using all by (simp only: newest_def drop_map [symmetric] sorted_wrt_drop)
  then have "js_sort (\<lambda>a b. fst b - fst a) ?all = rev ?all" "js_sort (\<lambda>a b. fst a - fst b) (rev (newest ?all)) = newest ?all"
    using falling_sort [OF all] reverse_sort by auto
  then show ?thesis by (simp only: bounded_hashes_def Let_def known add_entries [OF rising] take_rev_newest)
qed

lemma newest_append: "newest (newest xs @ ys) = newest (xs @ ys)"
proof -
  have "length (newest xs) = min (length xs) max_tracked_hashes" by (simp add: newest_def)
  then show ?thesis by (cases "length xs \<le> max_tracked_hashes") (simp_all add: newest_def add.commute)
qed

lemma set_newest: "set (newest xs) \<subseteq> set xs"
  by (auto simp: newest_def dest: in_set_dropD)

lemma length_newest [simp]: "length (newest xs) \<le> max_tracked_hashes"
  by (simp add: newest_def)

section \<open>The invariant of the reducer\<close>

definition reducer_ok :: "reducer_state \<Rightarrow> bool" where
  "reducer_ok s \<longleftrightarrow> 0 \<le> rd_cursor s \<and> sorted_wrt (<) (map fst (rd_recentEventHashes s)) \<and>
     (\<forall>e \<in> set (rd_recentEventHashes s). safe_integer (fst e) \<and> 0 \<le> fst e \<and> fst e \<le> rd_cursor s) \<and>
     length (rd_recentEventHashes s) \<le> max_tracked_hashes \<and> pj_missionId (rd_projection s) = rd_missionId s"

lemma page_cursors:
  assumes "page_ok r"
  shows "sorted_wrt (<) (sr_fromCursor r # map ce_cursor (sr_events r))" "sr_fromCursor r \<le> sr_nextCursor r"
    "\<forall>e \<in> set (sr_events r). sr_fromCursor r < ce_cursor e \<and> ce_cursor e \<le> sr_nextCursor r \<and> safe_integer (ce_cursor e)"
proof -
  show rising: "sorted_wrt (<) (sr_fromCursor r # map ce_cursor (sr_events r))"
    using assms ordered_events unfolding page_ok_def by blast
  have "\<forall>e \<in> set es. ce_cursor e \<le> ce_cursor (last es)" if "sorted_wrt (<) (map ce_cursor es)" for es :: "client_event list"
    using that by (induction es rule: rev_induct) (fastforce simp: sorted_wrt_append)+
  then have "\<forall>e \<in> set (sr_events r). ce_cursor e \<le> sr_nextCursor r"
    using rising assms by (auto simp: page_ok_def last_cursor_def)
  then show "\<forall>e \<in> set (sr_events r). sr_fromCursor r < ce_cursor e \<and> ce_cursor e \<le> sr_nextCursor r \<and> safe_integer (ce_cursor e)"
    using rising assms by (auto simp: page_ok_def)
  then show "sr_fromCursor r \<le> sr_nextCursor r"
    using assms by (cases "sr_events r") (auto simp: page_ok_def last_cursor_def)
qed

text \<open>A page that starts at the cursor extends the hashes.\<close>

lemma extended_hashes:
  assumes ok: "page_ok r" and c: "sr_fromCursor r = c" and known: "sorted_wrt (<) (map fst known)"
    "\<forall>e \<in> set known. safe_integer (fst e) \<and> 0 \<le> fst e \<and> fst e \<le> c"
  shows "bounded_hashes known (sr_events r) = newest (known @ map event_entry (sr_events r))"
    "sorted_wrt (<) (map fst (newest (known @ map event_entry (sr_events r))))"
    "\<forall>e \<in> set (newest (known @ map event_entry (sr_events r))). safe_integer (fst e) \<and> 0 \<le> fst e \<and> fst e \<le> sr_nextCursor r"
proof -
  note cursors = page_cursors [OF ok]
  have rising: "sorted_wrt (<) (map fst known @ map ce_cursor (sr_events r))"
    using cursors known c by (force simp: sorted_wrt_append)
  then show "bounded_hashes known (sr_events r) = newest (known @ map event_entry (sr_events r))"
    using known(2) by (intro bounded_hashes_newest) auto
  have "sorted_wrt (<) (map fst (known @ map event_entry (sr_events r)))" using rising by (simp add: event_entry_def comp_def)
  then show "sorted_wrt (<) (map fst (newest (known @ map event_entry (sr_events r))))"
    by (simp only: newest_def drop_map [symmetric] sorted_wrt_drop)
  have "\<forall>e \<in> set (known @ map event_entry (sr_events r)). safe_integer (fst e) \<and> 0 \<le> fst e \<and> fst e \<le> sr_nextCursor r"
    using known(2) cursors c ok by (force simp: event_entry_def page_ok_def)
  then show "\<forall>e \<in> set (newest (known @ map event_entry (sr_events r))). safe_integer (fst e) \<and> 0 \<le> fst e \<and> fst e \<le> sr_nextCursor r"
    by (meson set_newest subsetD)
qed

lemma first_page_ok: "page_ok r \<Longrightarrow> reduce_response None r = Inr s \<Longrightarrow> reducer_ok s"
proof -
  assume ok: "page_ok r" and s: "reduce_response None r = Inr s"
  have "0 \<le> sr_nextCursor r" using ok page_cursors(2) [OF ok] by (simp add: page_ok_def)
  moreover have "bounded_hashes [] (sr_events r) = newest (map event_entry (sr_events r))"
    "sorted_wrt (<) (map fst (newest (map event_entry (sr_events r))))"
    "\<forall>e \<in> set (newest (map event_entry (sr_events r))). safe_integer (fst e) \<and> 0 \<le> fst e \<and> fst e \<le> sr_nextCursor r"
  proof -
    have "sorted_wrt (<) (map fst [])" "\<forall>e \<in> set []. safe_integer (fst e) \<and> 0 \<le> fst e \<and> fst e \<le> sr_fromCursor r" by simp_all
    note extended_hashes [OF ok HOL.refl this, unfolded append_Nil]
    then show "bounded_hashes [] (sr_events r) = newest (map event_entry (sr_events r))"
      "sorted_wrt (<) (map fst (newest (map event_entry (sr_events r))))"
      "\<forall>e \<in> set (newest (map event_entry (sr_events r))). safe_integer (fst e) \<and> 0 \<le> fst e \<and> fst e \<le> sr_nextCursor r"
      by blast+
  qed
  moreover have "pj_missionId (sr_projection r) = sr_missionId r" using ok by (simp add: page_ok_def)
  moreover have "s = \<lparr>rd_missionId = sr_missionId r, rd_sessionId = sr_sessionId r, rd_cursor = sr_nextCursor r,
          rd_projection = sr_projection r, rd_recentEventHashes = bounded_hashes [] (sr_events r)\<rparr>"
    using s by (simp add: reduce_response_def)
  ultimately show "reducer_ok s" unfolding reducer_ok_def by (intro conjI) simp_all
qed

text \<open>What an accepted page does to a followed state.\<close>

lemma accepted_page:
  assumes "page_ok r" "reducer_ok s" "reduce_response (Some s) r = Inr s'"
  shows "rd_missionId s = sr_missionId r \<and> rd_sessionId s = sr_sessionId r \<and> pj_version (rd_projection s) \<le> pj_version (sr_projection r) \<and>
     rd_missionId s' = rd_missionId s \<and> rd_sessionId s' = rd_sessionId s \<and> rd_projection s' = sr_projection r"
    "if sr_fromCursor r = rd_cursor s
     then rd_cursor s' = sr_nextCursor r \<and> rd_recentEventHashes s' = newest (rd_recentEventHashes s @ map event_entry (sr_events r))
     else sr_fromCursor r < rd_cursor s \<and> rd_cursor s' = rd_cursor s \<and> rd_recentEventHashes s' = rd_recentEventHashes s \<and>
       set (map event_entry (sr_events r)) \<subseteq> set (rd_recentEventHashes s)"
    "reducer_ok s' \<and> rd_cursor s \<le> rd_cursor s'"
proof -
  have replayed: "set (map event_entry es) \<subseteq> set (rd_recentEventHashes s)" if "for_each (check_replayed s) es = Inr ()" for es
    using that by (induction es) (auto simp: check_replayed_def resync_Inr event_entry_def and_then_Inr dest: map_of_SomeD split: if_splits)
  show first: "rd_missionId s = sr_missionId r \<and> rd_sessionId s = sr_sessionId r \<and> pj_version (rd_projection s) \<le> pj_version (sr_projection r) \<and>
     rd_missionId s' = rd_missionId s \<and> rd_sessionId s' = rd_sessionId s \<and> rd_projection s' = sr_projection r"
    using assms(3) by (auto simp: reduce_response_def resync_Inr and_then_Inr split: if_splits)
  have new: "bounded_hashes (rd_recentEventHashes s) (sr_events r) = newest (rd_recentEventHashes s @ map event_entry (sr_events r))"
    if "sr_fromCursor r = rd_cursor s"
    using assms(2) extended_hashes(1) [OF assms(1) that] by (simp add: reducer_ok_def)
  show second: "if sr_fromCursor r = rd_cursor s
     then rd_cursor s' = sr_nextCursor r \<and> rd_recentEventHashes s' = newest (rd_recentEventHashes s @ map event_entry (sr_events r))
     else sr_fromCursor r < rd_cursor s \<and> rd_cursor s' = rd_cursor s \<and> rd_recentEventHashes s' = rd_recentEventHashes s \<and>
       set (map event_entry (sr_events r)) \<subseteq> set (rd_recentEventHashes s)"
    using assms(3) new replayed by (auto simp: reduce_response_def resync_Inr and_then_Inr split: if_splits)
  show "reducer_ok s' \<and> rd_cursor s \<le> rd_cursor s'"
  proof (cases "sr_fromCursor r = rd_cursor s")
    case True
    then have "rd_cursor s \<le> sr_nextCursor r" using page_cursors(2) [OF assms(1)] by simp
    moreover have "sorted_wrt (<) (map fst (rd_recentEventHashes s'))"
      "\<forall>e \<in> set (rd_recentEventHashes s'). safe_integer (fst e) \<and> 0 \<le> fst e \<and> fst e \<le> sr_nextCursor r"
    proof -
      have hashes: "rd_recentEventHashes s' = newest (rd_recentEventHashes s @ map event_entry (sr_events r))" using second True by simp
      have "sorted_wrt (<) (map fst (rd_recentEventHashes s))"
        "\<forall>e \<in> set (rd_recentEventHashes s). safe_integer (fst e) \<and> 0 \<le> fst e \<and> fst e \<le> rd_cursor s"
        using assms(2) by (simp_all add: reducer_ok_def)
      note extended_hashes(2,3) [OF assms(1) True this]
      then show "sorted_wrt (<) (map fst (rd_recentEventHashes s'))"
        "\<forall>e \<in> set (rd_recentEventHashes s'). safe_integer (fst e) \<and> 0 \<le> fst e \<and> fst e \<le> sr_nextCursor r"
        unfolding hashes by blast+
    qed
    moreover have "rd_cursor s' = sr_nextCursor r" "length (rd_recentEventHashes s') \<le> max_tracked_hashes"
      "pj_missionId (rd_projection s') = rd_missionId s'"
      using True first second assms(1,2) by (simp_all add: page_ok_def)
    moreover have "0 \<le> rd_cursor s" using assms(2) by (simp add: reducer_ok_def)
    ultimately show ?thesis by (simp add: reducer_ok_def)
  next
    case False
    then show ?thesis using first second assms(1,2) unfolding reducer_ok_def page_ok_def by auto
  qed
qed

text \<open>Pages read one after another from the cursor, replays between them left out.\<close>

fun new_events :: "int \<Rightarrow> state_response list \<Rightarrow> client_event list" where
  "new_events c [] = []"
| "new_events c (r # rs) = (if sr_fromCursor r = c then sr_events r @ new_events (sr_nextCursor r) rs else new_events c rs)"

primrec reduce_pages :: "reducer_state \<Rightarrow> state_response list \<Rightarrow> reducer_state protocol" where
  "reduce_pages s [] = Inr s"
| "reduce_pages s (r # rs) = and_then (reduce_response (Some s) r) (\<lambda>s'. reduce_pages s' rs)"

lemma pages_reduce_to_log:
  assumes "reduce_pages s rs = Inr s'" "reducer_ok s" "\<forall>r \<in> set rs. page_ok r"
  shows "rd_cursor s' = last_cursor (rd_cursor s) (new_events (rd_cursor s) rs) \<and>
     rd_recentEventHashes s' = newest (rd_recentEventHashes s @ map event_entry (new_events (rd_cursor s) rs))"
  using assms
proof (induction rs arbitrary: s)
  case Nil
  then show ?case by (simp add: last_cursor_def reducer_ok_def newest_def)
next
  case (Cons r rs)
  then obtain t where t: "reduce_response (Some s) r = Inr t" and rest: "reduce_pages t rs = Inr s'" by (auto simp: and_then_Inr)
  have r: "page_ok r" using Cons.prems by simp
  note step = accepted_page [OF r Cons.prems(2) t]
  have ih: "rd_cursor s' = last_cursor (rd_cursor t) (new_events (rd_cursor t) rs)"
    "rd_recentEventHashes s' = newest (rd_recentEventHashes t @ map event_entry (new_events (rd_cursor t) rs))"
    using Cons.IH [OF rest] step(3) Cons.prems by auto
  show ?case
  proof (cases "sr_fromCursor r = rd_cursor s")
    case True
    then have next': "rd_cursor t = last_cursor (rd_cursor s) (sr_events r)" "rd_cursor t = sr_nextCursor r"
      "rd_recentEventHashes t = newest (rd_recentEventHashes s @ map event_entry (sr_events r))"
      using step(2) r by (auto simp: page_ok_def)
    then show ?thesis using ih True by (simp add: newest_append last_cursor_def)
  next
    case False
    then show ?thesis using ih step(2) by simp
  qed
qed

end
