(* ===== verification/ClientFacts.thy ===== *)
theory ClientFacts
  imports ReducerFacts
begin

text \<open>
  Round trips of the client protocol: what each decoder accepts, and that it returns what was sent
  (\<open>src/client/protocol.ts\<close>). A predicate per type tells which values pass.
\<close>

section \<open>Leaves\<close>

lemma client_text_Inr [result_simps]: "client_text v label = Inr t \<longleftrightarrow> v = Some (JStr t)"
  by (cases "(v, label)" rule: client_text.cases) (auto simp: malformed_def)

lemma client_object_Inr [result_simps]: "client_object v label = Inr props \<longleftrightarrow> v = Some (JObj props)"
  by (cases "(v, label)" rule: client_object.cases) (auto simp: malformed_def)

lemma client_boolean_Inr [result_simps]: "client_boolean v message = Inr b \<longleftrightarrow> v = Some (JBool b)"
  by (cases "(v, message)" rule: client_boolean.cases) (auto simp: malformed_def)

lemma bounded_client_text_Inr [result_simps]: "bounded_client_text v label n = Inr t \<longleftrightarrow> v = Some (JStr t) \<and> identifier_ok t n"
  by (auto simp: bounded_client_text_def result_simps identifier_ok_def malformed_def)

lemma client_timestamp_Inr [result_simps]: "client_timestamp dp v label = Inr t \<longleftrightarrow> v = Some (JStr t) \<and> canonical_time dp t"
  by (auto simp: client_timestamp_def result_simps malformed_def)

lemma client_sha256_Inr [result_simps]: "client_sha256 v label = Inr t \<longleftrightarrow> v = Some (JStr t) \<and> sha256_pattern t"
  by (auto simp: client_sha256_def result_simps malformed_def)

lemma client_integer_number [simp]:
  "client_integer (Some (JNum (of_int n))) label lo hi = Inr k \<longleftrightarrow> k = n \<and> safe_integer n \<and> lo \<le> n \<and> n \<le> hi"
  by (auto simp: malformed_def)

lemma client_named_text [simp]: "client_named name xs (Some (JStr t)) label message = Inr x \<longleftrightarrow> named name xs t = Some x"
  by (auto simp: client_named_def malformed_def split: option.splits)

lemma or_null_null_or [simp]: "or_null (Some JNull) f = Inr None"
  by (simp add: or_null_def)

lemma client_keys_Inr:
  assumes "distinct (map fst props)" "distinct keys"
  shows "client_keys props keys label = Inr u \<longleftrightarrow> set (map fst props) = set keys"
proof -
  have "client_keys props keys label = Inr u \<longleftrightarrow> exact_keys props keys label = Inr u"
    using assms by (auto simp: client_keys_def exact_keys_def js_keys_def and_then_Inr for_each_Inr malformed_def distinct_remdups_id
      split: if_splits)
  then show ?thesis using exact_keys_Inr [OF assms] by simp
qed

lemma named_event_type [simp]: "named event_type_text job_event_types (event_type_text t) = Some t"
  by (cases t) (simp_all add: named_def job_event_types_def)

lemma named_job_status [simp]: "named status_text job_statuses (status_text st) = Some st"
  by (cases st) (simp_all add: named_def job_statuses_def)

lemma named_verification [simp]: "named verification_text verification_states (verification_text st) = Some st"
  by (cases st) (simp_all add: named_def verification_states_def)

section \<open>Decoding what was sent, step by step\<close>

lemma and_then_first: "r = r' \<Longrightarrow> and_then r f = and_then r' f"
  by simp

text \<open>A step that returns \<open>x\<close> or fails.\<close>

lemma exact_step: "(\<And>z. r = Inr z \<longleftrightarrow> P \<and> z = x) \<Longrightarrow> and_then r f = Inr y \<longleftrightarrow> P \<and> f x = Inr y"
  by (auto simp: and_then_Inr)

lemma and_then_assoc: "and_then (and_then r f) g = and_then r (\<lambda>x. and_then (f x) g)"
  by (cases r) simp_all

lemma exact_texts: "traverse (\<lambda>x. bounded_client_text (Some x) label n) (map JStr ts) = Inr us \<longleftrightarrow>
    (\<forall>t \<in> set ts. identifier_ok t n) \<and> us = ts"
  by (induction ts arbitrary: us) (auto simp: and_then_Inr bounded_client_text_Inr)

lemma exact_traverse: "(\<And>x y. f (g x) = Inr y \<longleftrightarrow> P x \<and> y = x) \<Longrightarrow> traverse f (map g xs) = Inr ys \<longleftrightarrow> (\<forall>x \<in> set xs. P x) \<and> ys = xs"
  by (induction xs arbitrary: ys) (auto simp: and_then_Inr)

lemma exact_identifiers: "traverse (\<lambda>x. client_identifier (Some x) label) (map JStr ts) = Inr us \<longleftrightarrow> (\<forall>t \<in> set ts. identifier_ok t 200) \<and> us = ts"
  unfolding client_identifier_def by (rule exact_texts)

lemma exact_integer: "client_integer (Some (client_int n)) label lo hi = Inr z \<longleftrightarrow> (safe_integer n \<and> lo \<le> n \<and> n \<le> hi) \<and> z = n"
  by (auto simp: malformed_def)

lemma exact_text: "bounded_client_text (Some (JStr t)) label n = Inr z \<longleftrightarrow> identifier_ok t n \<and> z = t"
  by (auto simp: bounded_client_text_Inr)

lemma exact_identifier: "client_identifier (Some (JStr t)) label = Inr z \<longleftrightarrow> identifier_ok t 200 \<and> z = t"
  unfolding client_identifier_def by (rule exact_text)

lemma exact_array: "client_array (Some (JArr xs)) n message = Inr z \<longleftrightarrow> length xs \<le> n \<and> z = xs"
  by (auto simp: client_array_Inr simp del: client_array.simps)

lemma exact_named: "client_named name xs (Some (JStr t)) label message = Inr z \<longleftrightarrow> named name xs t = Some z"
  by (auto simp: client_named_def malformed_def split: option.splits)

lemma exact_timestamp: "client_timestamp dp (Some (JStr t)) label = Inr z \<longleftrightarrow> canonical_time dp t \<and> z = t"
  by (auto simp: client_timestamp_Inr)

lemma exact_sha256: "client_sha256 (Some (JStr t)) label = Inr z \<longleftrightarrow> sha256_pattern t \<and> z = t"
  by (auto simp: client_sha256_Inr)

lemma exact_null_text: "or_null (Some (null_or JStr r)) (\<lambda>x. bounded_client_text x label n) = Inr z \<longleftrightarrow> (\<forall>t. r = Some t \<longrightarrow> identifier_ok t n) \<and> z = r"
  by (cases r) (auto simp: or_null_def null_or_def and_then_Inr bounded_client_text_Inr)

lemma exact_null_integer: "or_null (Some (null_or client_int r)) (\<lambda>x. client_integer x label lo hi) = Inr z \<longleftrightarrow>
    (\<forall>n. r = Some n \<longrightarrow> safe_integer n \<and> lo \<le> n \<and> n \<le> hi) \<and> z = r"
  by (cases r) (auto simp: or_null_def null_or_def and_then_Inr exact_integer simp del: client_integer.simps)

lemma exact_resume: "decode_resume_state (Some (null_or (\<lambda>s. JStr (state_text s)) r)) = Inr z \<longleftrightarrow> True \<and> z = r"
  by (cases r) (auto simp: decode_resume_state_def null_or_def)

lemma exact_refused: "(if c then malformed m else Inr ()) = Inr z \<longleftrightarrow> \<not> c \<and> z = ()"
  by (auto simp: malformed_def)

lemma exact_version: "protocol_version (Some (JObj [(''major'', JNum 1), (''minor'', client_int n)])) = Inr z \<longleftrightarrow> n = 0 \<and> z = 0"
proof -
  have "protocol_version (Some (JObj [(''major'', JNum 1), (''minor'', JNum 0)])) = Inr 0" by code_simp
  moreover have "n = 0 \<and> z = 0" if "protocol_version (Some (JObj [(''major'', JNum 1), (''minor'', client_int n)])) = Inr z"
    using that by (auto simp: protocol_version_def and_then_Inr own_property_def exact_integer simp del: client_integer.simps split: if_splits)
  ultimately show ?thesis by auto
qed

declare client_integer.simps [simp del] client_array.simps [simp del]

lemmas exact_steps = exact_step [OF exact_texts] exact_step [OF exact_identifiers] exact_step [OF exact_integer] exact_step [OF exact_text]
  exact_step [OF exact_identifier] exact_step [OF exact_array] exact_step [OF exact_timestamp] exact_step [OF exact_sha256]
  exact_step [OF exact_null_text] exact_step [OF exact_null_integer] exact_step [OF exact_resume] exact_step [OF exact_refused]
  exact_step [OF exact_version]

lemma client_keys_back: "distinct (map fst props) \<Longrightarrow> map fst props = keys \<Longrightarrow> client_keys props keys label = Inr ()"
  by (simp add: client_keys_Inr)

lemma client_named_back: "named name xs t = Some x \<Longrightarrow> client_named name xs (Some (JStr t)) label message = Inr x"
  by (simp add: client_named_def)

lemma lookup_first: "own_property ((k, v) # props) k = Some v"
  by (simp add: own_property_def)

lemma lookup_later: "k \<noteq> k' \<Longrightarrow> own_property ((k', v) # props) k = own_property props k"
  by (simp add: own_property_def)

lemmas decode_steps = exact_steps client_keys_back client_named_back lookup_first lookup_later

lemma decoded_texts: "traverse (\<lambda>x. bounded_client_text (Some x) label n) xs = Inr us \<longleftrightarrow>
    xs = map JStr us \<and> (\<forall>t \<in> set us. identifier_ok t n)"
  by (induction xs arbitrary: us) (auto simp: and_then_Inr bounded_client_text_Inr)

lemma bounded_safe: "0 \<le> n \<Longrightarrow> n \<le> max_safe_integer \<Longrightarrow> safe_integer n" "1 \<le> n \<Longrightarrow> n \<le> max_safe_integer \<Longrightarrow> safe_integer n"
  by (simp_all add: safe_integer_def)

section \<open>Events\<close>

definition client_event_ok :: "(string \<Rightarrow> int option) \<Rightarrow> client_event \<Rightarrow> bool" where
  "client_event_ok dp e \<longleftrightarrow> 1 \<le> ce_cursor e \<and> ce_cursor e \<le> max_safe_integer \<and> sha256_pattern (ce_eventHash e) \<and>
     0 \<le> ce_generation e \<and> ce_generation e \<le> max_safe_integer \<and> identifier_ok (ce_jobId e) 200 \<and> identifier_ok (ce_missionId e) 200 \<and>
     canonical_time dp (ce_occurredAt e) \<and> (\<forall>r. ce_reasonCode e = Some r \<longrightarrow> identifier_ok r 200)"

lemma integer_bounds: "client_integer v label lo hi = Inr n \<Longrightarrow> lo \<le> n \<and> n \<le> hi"
  by (auto simp: client_integer_Inr)

lemma decoded_event_ok: "normalize_lifecycle_event dp v = Inr e \<Longrightarrow> client_event_ok dp e"
  by (auto simp: normalize_lifecycle_event_def and_then_Inr named_Inr client_sha256_Inr client_timestamp_Inr client_identifier_def
      bounded_client_text_Inr or_null_def client_event_ok_def dest!: integer_bounds split: if_splits)

lemma client_event_back: "normalize_lifecycle_event dp (client_event_value e) = Inr e' \<longleftrightarrow> client_event_ok dp e \<and> e' = e"
  by (cases e) (simp add: normalize_lifecycle_event_def client_event_value_def decode_steps client_event_ok_def
    cong: and_then_first, auto simp: bounded_safe)

section \<open>Projections\<close>

definition view_task_ok :: "client_task \<Rightarrow> bool" where
  "view_task_ok t \<longleftrightarrow> identifier_ok (ct_id t) 200 \<and> identifier_ok (ct_title t) 4096 \<and> length (ct_dependsOn t) \<le> 1024 \<and>
     (\<forall>d \<in> set (ct_dependsOn t). identifier_ok d 200) \<and> 0 \<le> ct_priority t \<and> ct_priority t \<le> max_safe_integer"

lemma decoded_task_ok: "decode_projection_task v = Inr t \<Longrightarrow> view_task_ok t"
  by (auto simp: decode_projection_task_def and_then_Inr client_array_Inr client_identifier_def decoded_texts
      bounded_client_text_Inr view_task_ok_def dest!: integer_bounds)

lemma decode_task_view: "decode_projection_task (client_task_value t) = Inr t' \<longleftrightarrow> view_task_ok t \<and> t' = t"
  by (cases t) (simp add: decode_projection_task_def client_task_value_def decode_steps view_task_ok_def
    cong: and_then_first, auto simp: bounded_safe)

lemma exact_counters: "client_counters (Some (counters_value c)) label = Inr d \<longleftrightarrow> counters_ok c \<and> d = c"
proof -
  have keys: "client_keys [(''inputTokens'', a), (''outputTokens'', b), (''costMicros'', c), (''toolCalls'', d), (''attempts'', e)]
      [''attempts'', ''costMicros'', ''inputTokens'', ''outputTokens'', ''toolCalls''] label = Inr ()" for a b c d e
    by (simp add: client_keys_def js_keys_def js_in_def)
  show ?thesis
    by (cases c) (simp add: client_counters_def counters_value_def decode_steps keys counters_ok_def
      cong: and_then_first, auto simp: bounded_safe)
qed

lemma decoded_counters_ok: "client_counters v label = Inr c \<Longrightarrow> counters_ok c"
  by (auto simp: client_counters_def and_then_Inr counters_ok_def dest!: integer_bounds)

definition summary_ok :: "verification_summary \<Rightarrow> bool" where
  "summary_ok s \<longleftrightarrow> length (vs_evidenceRefs s) \<le> 256 \<and> (\<forall>r \<in> set (vs_evidenceRefs s). identifier_ok r 500) \<and> distinct (vs_evidenceRefs s)"

lemma decoded_summary_ok: "client_verification v = Inr s \<Longrightarrow> summary_ok s"
  by (auto simp: client_verification_def and_then_Inr client_array_Inr decoded_texts refused_Inr summary_ok_def)

lemma exact_verification: "client_verification (Some (verification_value s)) = Inr s' \<longleftrightarrow> summary_ok s \<and> s' = s"
  by (cases s) (simp add: client_verification_def verification_value_def decode_steps summary_ok_def cong: and_then_first, auto)

definition counts_ok :: "int list \<Rightarrow> bool" where
  "counts_ok ns \<longleftrightarrow> length ns = length job_statuses \<and> (\<forall>n \<in> set ns. 0 \<le> n \<and> n \<le> max_safe_integer)"

lemma decoded_counts_ok: "client_job_counts props = Inr ns \<Longrightarrow> counts_ok ns"
  by (auto simp: client_job_counts_def and_then_Inr job_statuses_def counts_ok_def dest!: integer_bounds)

lemma exact_counts: "length ns = length job_statuses \<Longrightarrow>
    client_job_counts (zip (map status_text job_statuses) (map client_int ns)) = Inr ms \<longleftrightarrow> counts_ok ns \<and> ms = ns"
proof -
  assume "length ns = length job_statuses"
  then obtain a b c d e f g where ns: "ns = [a, b, c, d, e, f, g]"
    by (auto simp: job_statuses_def length_Suc_conv numeral_eq_Suc)
  show ?thesis
    by (simp add: ns client_job_counts_def job_statuses_def decode_steps and_then_assoc counts_ok_def cong: and_then_first)
      (auto simp: bounded_safe)
qed

definition projection_ok :: "client_projection \<Rightarrow> bool" where
  "projection_ok p \<longleftrightarrow> length (pj_tasks p) \<le> 1024 \<and> (\<forall>t \<in> set (pj_tasks p). view_task_ok t) \<and> counters_ok (pj_budgetLimits p) \<and>
     counters_ok (pj_budgetUsage p) \<and> (\<forall>v. pj_checkpointVersion p = Some v \<longrightarrow> 1 \<le> v \<and> v \<le> max_safe_integer) \<and> counts_ok (pj_jobs p) \<and>
     identifier_ok (pj_missionId p) 200 \<and> identifier_ok (pj_objective p) 20000 \<and> summary_ok (pj_verification p) \<and>
     1 \<le> pj_version p \<and> pj_version p \<le> max_safe_integer"

lemma traverse_length: "traverse f xs = Inr ys \<Longrightarrow> length ys = length xs"
  by (induction xs arbitrary: ys) (auto simp: and_then_Inr)

lemma traverse_all: "traverse f xs = Inr ys \<Longrightarrow> (\<And>x y. f x = Inr y \<Longrightarrow> P y) \<Longrightarrow> \<forall>y \<in> set ys. P y"
  by (induction xs arbitrary: ys) (auto simp: and_then_Inr)

lemma decoded_optional_integer: "or_null v (\<lambda>x. client_integer x label lo hi) = Inr y \<Longrightarrow> \<forall>n. y = Some n \<longrightarrow> lo \<le> n \<and> n \<le> hi"
  by (auto simp: or_null_def and_then_Inr dest: integer_bounds split: if_splits)

lemma decoded_tasks_ok: "traverse decode_projection_task xs = Inr ts \<Longrightarrow> length ts = length xs \<and> (\<forall>t \<in> set ts. view_task_ok t)"
  using decoded_task_ok by (simp add: traverse_length traverse_all)

lemma decoded_projection_ok: "decode_projection v = Inr p \<Longrightarrow> projection_ok p"
  by (clarsimp simp: decode_projection_def and_then_Inr client_array_Inr client_identifier_def bounded_client_text_Inr projection_ok_def
      decoded_counters_ok decoded_counts_ok decoded_summary_ok simp del: client_object.simps)
    (auto dest!: integer_bounds decoded_optional_integer decoded_tasks_ok)

lemma decode_projection_value:
  "length (pj_jobs p) = length job_statuses \<Longrightarrow> decode_projection (Some (projection_value p)) = Inr p' \<longleftrightarrow> projection_ok p \<and> p' = p"
proof -
  assume "length (pj_jobs p) = length job_statuses"
  note steps = decode_steps exact_step [OF exact_counts [OF this]] exact_step [OF exact_counters] exact_step [OF exact_verification]
    exact_step [OF exact_traverse [where f = decode_projection_task and g = client_task_value, OF decode_task_view]]
  show ?thesis
    by (simp add: decode_projection_def projection_value_def steps projection_ok_def cong: and_then_first)
      (auto simp: bounded_safe)
qed

section \<open>Responses\<close>

definition response_ok :: "(string \<Rightarrow> int option) \<Rightarrow> state_response \<Rightarrow> bool" where
  "response_ok dp r \<longleftrightarrow> page_ok r \<and> (\<forall>e \<in> set (sr_events r). client_event_ok dp e) \<and> projection_ok (sr_projection r) \<and>
     identifier_ok (sr_missionId r) 200 \<and> identifier_ok (sr_requestId r) 200 \<and> identifier_ok (sr_sessionId r) 200 \<and>
     canonical_time dp (sr_emittedAt r) \<and> sr_minor r = 0 \<and> sr_fromCursor r \<le> max_safe_integer \<and>
     0 \<le> sr_nextCursor r \<and> sr_nextCursor r \<le> max_safe_integer"

lemma decoded_minor: "protocol_version v = Inr n \<Longrightarrow> n = 0"
  by (auto simp: protocol_version_def and_then_Inr dest: integer_bounds split: if_splits)

lemma decoded_events_ok: "traverse (normalize_lifecycle_event dp) xs = Inr es \<Longrightarrow> \<forall>e \<in> set es. client_event_ok dp e"
  by (erule traverse_all) (rule decoded_event_ok)

lemma decoded_response_ok: "decode_state_response dp v = Inr r \<Longrightarrow> response_ok dp r"
  unfolding response_ok_def
  by (rule conjI, erule decoded_page_ok)
    (clarsimp simp: decode_state_response_def and_then_Inr client_identifier_def bounded_client_text_Inr client_timestamp_Inr
      decoded_projection_ok decoded_minor decoded_events_ok simp del: client_object.simps, auto dest!: integer_bounds simp: refused_Inr)

lemma decode_response_value:
  assumes "length (pj_jobs (sr_projection r)) = length job_statuses"
  shows "decode_state_response dp (state_response_value r) = Inr r' \<longleftrightarrow> response_ok dp r \<and> r' = r"
proof -
  have order: "check_event_order m c es = Inr z \<longleftrightarrow> check_event_order m c es = Inr () \<and> z = ()" for m c es z by simp
  have events: "\<forall>e \<in> set es. client_event_ok dp e \<longrightarrow> safe_integer (ce_cursor e)" for es by (auto simp: client_event_ok_def bounded_safe)
  note steps = decode_steps exact_step [OF order] exact_step [OF exact_traverse [where f = "normalize_lifecycle_event dp" and g = client_event_value, OF client_event_back]]
    exact_step [OF decode_projection_value [OF assms]]
  show ?thesis
    by (simp add: decode_state_response_def state_response_value_def steps response_ok_def page_ok_def
      cong: and_then_first) (auto simp: bounded_safe events)
qed

lemma state_response_again: "decode_state_response dp v = Inr r \<Longrightarrow> decode_state_response dp (state_response_value r) = Inr r"
proof -
  assume "decode_state_response dp v = Inr r"
  then have ok: "response_ok dp r" by (rule decoded_response_ok)
  then have "length (pj_jobs (sr_projection r)) = length job_statuses" by (simp add: response_ok_def projection_ok_def counts_ok_def)
  with ok show ?thesis by (simp add: decode_response_value)
qed

end
