(* ===== verification/CommandFacts.thy ===== *)
theory CommandFacts
  imports ClientFacts
begin

text \<open>
  Client commands over an event store: each command is two transitions, prepared on the stream up to the
  version the client expects; what they lead to, and what a repeated request does
  (\<open>EventStoreMissionCommandAuthority\<close> in \<open>src/client/control.ts\<close>).
\<close>

section \<open>The two transitions\<close>

definition state_moved :: "mission_snapshot \<Rightarrow> mission_state \<Rightarrow> int \<Rightarrow> mission_snapshot" where
  "state_moved s t v = s\<lparr>resumeState := next_resume_state s t, mstate := t, version := v\<rparr>"

definition transition_at :: "command_request \<Rightarrow> int \<Rightarrow> mission_state \<Rightarrow> mission_state \<Rightarrow> mission_event stored_event" where
  "transition_at q v a b = \<lparr>stored_event.missionId = cq_missionId q, sequence = v + 1, aggregateVersion = v + 1, idempotencyKey = scoped_key q,
     occurredAt = cq_issuedAt q, event_data = MissionTransitioned a b\<rparr>"

lemma project_transition:
  assumes "project_mission evs = Inr s" "stored_event.missionId (hd evs) = cq_missionId q"
  shows "project_mission (evs @ [transition_at q (int (length evs)) (mstate s) t]) =
     and_then (assert_transition s t) (\<lambda>_. Inr (state_moved s t (int (length evs) + 1)))"
proof -
  have "evs \<noteq> []" using assms(1) by auto
  then show ?thesis using assms by (cases "assert_transition s t") (simp_all add: project_mission_append transition_at_def state_moved_def)
qed

definition command_allowed :: "client_command \<Rightarrow> mission_snapshot \<Rightarrow> bool" where
  "command_allowed c s \<longleftrightarrow> (case c of
     PauseMission \<Rightarrow> mstate s \<in> set interruptible_states
   | ResumeMission \<Rightarrow> mstate s = PAUSED
   | CancelMission \<Rightarrow> mstate s \<in> set interruptible_states \<union> {PAUSING, PAUSED})"

definition command_states :: "client_command \<Rightarrow> mission_snapshot \<Rightarrow> mission_state \<times> mission_state" where
  "command_states c s = (case c of
     PauseMission \<Rightarrow> (PAUSING, PAUSED)
   | ResumeMission \<Rightarrow> (RESUMING, case resumeState s of None \<Rightarrow> RESUMING | Some r \<Rightarrow> r)
   | CancelMission \<Rightarrow> (CANCELLING, CANCELLED))"

definition commanded :: "client_command \<Rightarrow> mission_snapshot \<Rightarrow> int \<Rightarrow> mission_snapshot" where
  "commanded c s v = (case command_states c s of (a, b) \<Rightarrow> state_moved (state_moved s a (v + 1)) b (v + 2))"

lemma command_steps:
  assumes "snapshot_wf s" "command_states c s = (a, b)"
  shows "(command_targets c s = Inr [a, b] \<and> assert_transition s a = Inr () \<and> assert_transition (state_moved s a v) b = Inr ()) \<longleftrightarrow>
     command_allowed c s"
  using assms
  by (cases c; cases "mstate s"; cases "resumeState s")
    (auto simp: command_states_def command_targets_def command_allowed_def assert_transition_Inr may_transition_def state_moved_def
      interruptible_states_def next_resume_state_def snapshot_wf_def resume_wf_def)

lemma targets_shape: "command_targets c s = Inr ts \<Longrightarrow> ts = [fst (command_states c s), snd (command_states c s)]"
  by (auto simp: command_targets_def command_states_def split: client_command.splits option.splits if_splits)

lemma targets_refused: "command_targets c s = Inl e \<Longrightarrow> \<exists>message. e = (CommandConflict, message)"
  by (auto simp: command_targets_def split: client_command.splits option.splits if_splits)

definition command_batch :: "command_request \<Rightarrow> mission_snapshot \<Rightarrow> mission_event append_item list" where
  "command_batch q s = (case command_states (cq_command q) s of
     (a, b) \<Rightarrow> [item_at (cq_issuedAt q) (MissionTransitioned (mstate s) a), item_at (cq_issuedAt q) (MissionTransitioned a b)])"

lemma command_items_pair:
  assumes p: "project_mission evs = Inr s" and m: "stored_event.missionId (hd evs) = cq_missionId q"
  shows "command_items q [a, b] evs s =
     (if assert_transition s a = Inr () \<and> assert_transition (state_moved s a (int (length evs) + 1)) b = Inr ()
      then Inr [item_at (cq_issuedAt q) (MissionTransitioned (mstate s) a), item_at (cq_issuedAt q) (MissionTransitioned a b)]
      else client_failure CommandConflict ''Command is not valid for the mission state.'')"
proof (cases "assert_transition s a")
  case (Inl e)
  then show ?thesis by (simp add: transition_event_def)
next
  case (Inr u)
  let ?s = "state_moved s a (int (length evs) + 1)" and ?evs = "evs @ [transition_at q (int (length evs)) (mstate s) a]"
  have p': "project_mission ?evs = Inr ?s" using project_transition [OF p m, of a] Inr by simp
  have "evs \<noteq> []" using p by auto
  then have "stored_event.missionId (hd ?evs) = cq_missionId q" using m by simp
  note second = project_transition [OF p' this, of b]
  have "mstate ?s = a" by (simp add: state_moved_def)
  then show ?thesis
    using Inr p' second by (cases "assert_transition ?s b") (simp_all add: transition_event_def transition_at_def Let_def client_failure_def)
qed

lemma projected_identity: "project_mission evs = Inr s \<Longrightarrow> snap_id s = stored_event.missionId (hd evs)"
proof (induction rule: project_mission_induct)
  case (created e i s)
  then show ?case by (auto simp: initial_snapshot_def and_then_Inr)
next
  case (event evs s e s')
  then show ?case using apply_event_frame(2) by (cases evs) auto
qed

lemma prepared_command:
  assumes p: "project_mission (take (nat (cq_expectedVersion q)) evs) = Inr s" and m: "contiguous_from (cq_missionId q) 0 evs"
    and n: "1 \<le> cq_expectedVersion q" "cq_expectedVersion q \<le> int (length evs)"
  shows "if command_allowed (cq_command q) s then (prepare_client_command q evs :: ('e gateway_error, mission_event append_item list) Prelude.result) = Inr (command_batch q s)
    else \<exists>message. (prepare_client_command q evs :: ('e gateway_error, mission_event append_item list) Prelude.result) = client_failure CommandConflict message"
proof -
  let ?before = "take (nat (cq_expectedVersion q)) evs"
  obtain a b where ab: "command_states (cq_command q) s = (a, b)" by fastforce
  have ne: "?before \<noteq> []" using p by auto
  have "contiguous_from (cq_missionId q) 0 ?before"
    using m append_take_drop_id [of "nat (cq_expectedVersion q)" evs] contiguous_append by metis
  then have hd: "stored_event.missionId (hd ?before) = cq_missionId q" using ne by (rule contiguous_hd)
  have v: "version s = cq_expectedVersion q" "int (length ?before) = cq_expectedVersion q" using projected_version [OF p] n by simp_all
  have "snap_id s = cq_missionId q" using projected_identity [OF p] hd by simp
  then have command: "(prepare_client_command q evs :: ('e gateway_error, mission_event append_item list) Prelude.result) =
      and_then (lift_client (command_targets (cq_command q) s)) (\<lambda>targets. command_items q targets ?before s)"
    using n v p by (simp add: prepare_client_command_def Let_def)
  show ?thesis
    unfolding command
    using command_items_pair [OF p hd, of a b] command_steps [OF projected_wf [OF p] ab, of "int (length ?before) + 1"]
      targets_shape [of "cq_command q" s] targets_refused [of "cq_command q" s] ab
    by (cases "command_targets (cq_command q) s") (auto simp: lift_client_def client_failure_def command_batch_def)
qed

section \<open>Over an event store\<close>

lemma prepare_Inr:
  assumes "(prepare_client_command q evs :: ('e gateway_error, mission_event append_item list) Prelude.result) = Inr items" "contiguous_from (cq_missionId q) 0 evs"
  shows "\<exists>old. project_mission (take (nat (cq_expectedVersion q)) evs) = Inr old \<and> command_allowed (cq_command q) old \<and> items = command_batch q old \<and>
     1 \<le> cq_expectedVersion q \<and> cq_expectedVersion q \<le> int (length evs)"
proof -
  have n: "1 \<le> cq_expectedVersion q" "cq_expectedVersion q \<le> int (length evs)"
    using assms(1) by (auto simp: prepare_client_command_def client_failure_def split: if_splits)
  moreover obtain old where old: "project_mission (take (nat (cq_expectedVersion q)) evs) = Inr old"
    using assms(1) by (auto simp: prepare_client_command_def client_failure_def Let_def split: if_splits sum.splits)
  moreover have "if command_allowed (cq_command q) old
      then (prepare_client_command q evs :: ('e gateway_error, mission_event append_item list) Prelude.result) = Inr (command_batch q old)
      else \<exists>message. (prepare_client_command q evs :: ('e gateway_error, mission_event append_item list) Prelude.result) =
        client_failure CommandConflict message"
    by (rule prepared_command [OF old assms(2) n])
  ultimately show ?thesis using assms(1) by (auto simp: client_failure_def split: if_splits)
qed

text \<open>The batch on the stream it was prepared for.\<close>

lemma batch_events:
  "number_events (cq_missionId q) (scoped_key q) v (command_batch q s) =
     [transition_at q v (mstate s) (fst (command_states (cq_command q) s)),
      transition_at q (v + 1) (fst (command_states (cq_command q) s)) (snd (command_states (cq_command q) s))]"
  by (simp add: command_batch_def transition_at_def split: prod.splits)

lemma commanded_stream:
  assumes p: "project_mission evs = Inr s" and m: "stored_event.missionId (hd evs) = cq_missionId q" and allowed: "command_allowed (cq_command q) s"
  shows "project_mission (evs @ number_events (cq_missionId q) (scoped_key q) (int (length evs)) (command_batch q s)) =
     Inr (commanded (cq_command q) s (int (length evs)))"
proof -
  obtain a b where ab: "command_states (cq_command q) s = (a, b)" by fastforce
  note steps = command_steps [OF projected_wf [OF p] ab, of "int (length evs) + 1"]
  let ?s = "state_moved s a (int (length evs) + 1)" and ?evs = "evs @ [transition_at q (int (length evs)) (mstate s) a]"
  have p': "project_mission ?evs = Inr ?s" using project_transition [OF p m, of a] steps allowed by simp
  have "evs \<noteq> []" using p by auto
  then have "stored_event.missionId (hd ?evs) = cq_missionId q" using m by simp
  note second = project_transition [OF p' this, of b]
  have "mstate ?s = a" by (simp add: state_moved_def)
  then show ?thesis using second steps allowed by (simp add: batch_events ab commanded_def add.commute)
qed

lemma executed:
  fixes store_load :: "('e, 's) loader"
  assumes "execute_client_command store_load store_append conflict s q = (Inr (outcome, snap), s')" "store_load s (cq_missionId q) = Inr evs"
  shows "\<exists>items appended. (prepare_client_command q evs :: ('e gateway_error, mission_event append_item list) Prelude.result) = Inr items \<and>
     store_append s (cq_missionId q) (cq_expectedVersion q) (scoped_key q) items = Inr (appended, s') \<and>
     load_snapshot store_load s' (cq_missionId q) = Inr snap \<and>
     outcome = (if scoped_key q \<in> idempotencyKey ` set evs then Replayed else Applied)"
  using assms by (auto simp: execute_client_command_def and_then_Inr split: sum.splits prod.splits)

context mission_event_store
begin

lemma command_effect:
  assumes inv: "inv s" and loaded: "load s (cq_missionId q) = Inr evs"
    and run: "execute_client_command load append conflict s q = (Inr (outcome, snap), s')"
  shows "\<exists>old. project_mission (take (nat (cq_expectedVersion q)) evs) = Inr old \<and> command_allowed (cq_command q) old \<and>
     (load s' (cq_missionId q) = Inr evs \<or>
      int (length evs) = cq_expectedVersion q \<and> snap = commanded (cq_command q) old (cq_expectedVersion q) \<and>
      load s' (cq_missionId q) = Inr (evs @ number_events (cq_missionId q) (scoped_key q) (cq_expectedVersion q) (command_batch q old)))"
    "inv s'" "\<And>m'. m' \<noteq> cq_missionId q \<Longrightarrow> load s' m' = load s m'"
    "\<exists>evs'. load s' (cq_missionId q) = Inr evs' \<and> project_mission evs' = Inr snap"
proof -
  let ?m = "cq_missionId q" and ?v = "cq_expectedVersion q"
  from executed [OF run loaded] obtain items appended where
    items: "(prepare_client_command q evs :: ('e gateway_error, mission_event append_item list) Prelude.result) = Inr items"
    and app: "append s ?m ?v (scoped_key q) items = Inr (appended, s')" and snap: "load_snapshot load s' ?m = Inr snap" by blast
  have contiguous: "contiguous_from ?m 0 evs" using load_contiguous [OF inv loaded] .
  from prepare_Inr [OF items this] obtain old where old: "project_mission (take (nat ?v) evs) = Inr old"
    "command_allowed (cq_command q) old" "items = command_batch q old" by blast
  show "\<exists>evs'. load s' ?m = Inr evs' \<and> project_mission evs' = Inr snap"
    using snap by (auto simp: load_snapshot_def split: sum.splits)
  moreover have "project_mission (evs @ number_events ?m (scoped_key q) ?v items) = Inr (commanded (cq_command q) old ?v)" if "int (length evs) = ?v"
  proof -
    have same: "project_mission evs = Inr old" using old(1) that by simp
    then have "evs \<noteq> []" by auto
    then have "stored_event.missionId (hd evs) = ?m" using contiguous by (intro contiguous_hd)
    from commanded_stream [OF same this old(2)] show ?thesis by (simp add: that old(3))
  qed
  ultimately have "load s' ?m = Inr evs \<or> int (length evs) = ?v \<and> snap = commanded (cq_command q) old ?v \<and>
      load s' ?m = Inr (evs @ number_events ?m (scoped_key q) ?v items)"
    using append_stream [OF inv app] loaded by auto
  then show "\<exists>old. project_mission (take (nat ?v) evs) = Inr old \<and> command_allowed (cq_command q) old \<and>
     (load s' ?m = Inr evs \<or> int (length evs) = ?v \<and> snap = commanded (cq_command q) old ?v \<and>
      load s' ?m = Inr (evs @ number_events ?m (scoped_key q) ?v (command_batch q old)))"
    using old by blast
  show "inv s'" using inv app by (rule append_inv)
  show "load s' m' = load s m'" if "m' \<noteq> ?m" for m' using append_frame [OF inv app that] .
qed

lemma command_replays:
  assumes "inv s" and "load s (cq_missionId q) = Inr evs"
    and items: "(prepare_client_command q evs :: ('e gateway_error, mission_event append_item list) Prelude.result) = Inr items"
    and t: "inv t" "load t (cq_missionId q) = Inr evs'" and evs': "evs' = evs @ new"
    and again: "append t (cq_missionId q) (cq_expectedVersion q) (scoped_key q) items = Inr (appended, t)"
    and snap: "project_mission evs' = Inr snap"
  shows "execute_client_command load append conflict t q =
    (Inr (if scoped_key q \<in> idempotencyKey ` set evs' then Replayed else Applied, snap), t)"
proof -
  from prepare_Inr [OF items load_contiguous [OF assms(1,2)]] obtain old where
    old: "project_mission (take (nat (cq_expectedVersion q)) evs) = Inr old" "command_allowed (cq_command q) old" "items = command_batch q old"
    "1 \<le> cq_expectedVersion q" "cq_expectedVersion q \<le> int (length evs)" by blast
  then have "project_mission (take (nat (cq_expectedVersion q)) evs') = Inr old" "cq_expectedVersion q \<le> int (length evs')" using evs' by simp_all
  then have "(prepare_client_command q evs' :: ('e gateway_error, mission_event append_item list) Prelude.result) = Inr items"
    using prepared_command [of q evs' old] load_contiguous [OF t] old by simp
  then show ?thesis using t again snap by (simp add: execute_client_command_def load_snapshot_def)
qed

end

end
