(* ===== verification/GatewayFacts.thy ===== *)
theory GatewayFacts
  imports CommandFacts
begin

text \<open>
  Facts of the gateway (\<open>ClientProtocolGateway\<close> in \<open>src/client/control.ts\<close>): what it demands of a
  capability, what a state response says of the mission, and commands over the in-memory event store.
\<close>

section \<open>Capabilities\<close>

lemma lift_client_Inl: "lift_client r = Inl e \<longleftrightarrow> (\<exists>c. r = Inl c \<and> e = ClientFailure c)"
  by (cases r) (auto simp: lift_client_def)

lemma client_failure_Inr [result_simps]: "client_failure c m = Inr x \<longleftrightarrow> False"
  by (simp add: client_failure_def)

lemma resolve_grant_Some: "resolve_grant grants i = Some g \<Longrightarrow> g \<in> set grants \<and> cg_id g = i"
  by (auto simp: resolve_grant_def find_Some_iff)

lemma normalized_grant: "normalize_capability_grant dp v = Inr g \<Longrightarrow> canonical_time dp (cg_expiresAt g) \<and> distinct (cg_commands g)"
proof -
  assume "normalize_capability_grant dp v = Inr g"
  then obtain ks where "cg_commands g = js_sort (\<lambda>a b. code_unit_compare (command_text a) (command_text b)) ks" "distinct ks"
    "canonical_time dp (cg_expiresAt g)"
    by (clarsimp simp: normalize_capability_grant_def and_then_Inr client_timestamp_Inr refused_Inr simp del: client_object.simps)
  then show ?thesis by (metis distinct_count_atmost_1 mset_js_sort mset_eq_imp_distinct_iff)
qed

lemma added_grants: "add_grants dp gs vs = Inr grants \<Longrightarrow>
    (\<forall>g \<in> set gs. canonical_time dp (cg_expiresAt g)) \<and> distinct (map cg_id gs) \<Longrightarrow>
    (\<forall>g \<in> set grants. canonical_time dp (cg_expiresAt g)) \<and> distinct (map cg_id grants)"
proof (induction vs arbitrary: gs)
  case (Cons v vs)
  then obtain g where g: "normalize_capability_grant dp v = Inr g" "cg_id g \<notin> cg_id ` set gs" "add_grants dp (gs @ [g]) vs = Inr grants"
    by (auto simp: and_then_Inr malformed_Inr split: if_splits)
  then show ?case using Cons.IH [OF g(3)] Cons.prems(2) normalized_grant [OF g(1)] by simp
qed simp

lemma authorized:
  assumes "authorize_client dp resolve capability session m command now = Inr ()"
  shows "\<exists>g. resolve capability = Some g \<and> cg_sessionId g = session \<and> cg_missionId g = m \<and> \<not> not_after dp (cg_expiresAt g) now \<and>
    (case command of None \<Rightarrow> cg_canRead g | Some k \<Rightarrow> k \<in> set (cg_commands g))"
  using assms by (auto simp: authorize_client_def split: option.splits if_splits)

lemma canonical_parses: "canonical_time dp t \<Longrightarrow> \<exists>x. dp t = Some x"
  by (auto simp: canonical_time_def split: option.splits)

lemma runtime_now_Inr: "runtime_now dp clock = Inr now \<longleftrightarrow> now = clock \<and> canonical_time dp clock"
  by (auto simp: runtime_now_def malformed_def)

lemma decoded_command_time: "decode_command_request dp v = Inr q \<Longrightarrow> canonical_time dp (cq_issuedAt q)"
  by (clarsimp simp: decode_command_request_def and_then_Inr client_timestamp_Inr simp del: client_object.simps)

lemma admitted_command:
  assumes "admit_command dp (resolve_grant grants) clock v = Inr q" "\<forall>g \<in> set grants. canonical_time dp (cg_expiresAt g)"
  shows "decode_command_request dp v = Inr q \<and> (\<exists>g issued now expiry. g \<in> set grants \<and> cg_id g = cq_capabilityId q \<and>
     cg_sessionId g = cq_sessionId q \<and> cg_missionId g = cq_missionId q \<and> cq_command q \<in> set (cg_commands g) \<and>
     dp clock = Some now \<and> dp (cg_expiresAt g) = Some expiry \<and> now < expiry \<and>
     dp (cq_issuedAt q) = Some issued \<and> \<bar>issued - now\<bar> \<le> max_clock_skew)"
proof -
  from assms(1) have q: "decode_command_request dp v = Inr q" and now: "canonical_time dp clock"
    and auth: "authorize_client dp (resolve_grant grants) (cq_capabilityId q) (cq_sessionId q) (cq_missionId q) (Some (cq_command q)) clock = Inr ()"
    and skew: "assert_request_time dp (cq_issuedAt q) clock = Inr ()"
    by (auto simp: admit_command_def and_then_Inr runtime_now_Inr)
  from authorized [OF auth] obtain g where g: "g \<in> set grants" "cg_id g = cq_capabilityId q" "cg_sessionId g = cq_sessionId q"
    "cg_missionId g = cq_missionId q" "\<not> not_after dp (cg_expiresAt g) clock" "cq_command q \<in> set (cg_commands g)"
    using resolve_grant_Some by fastforce
  obtain n x i where times: "dp clock = Some n" "dp (cg_expiresAt g) = Some x" "dp (cq_issuedAt q) = Some i"
    using canonical_parses now decoded_command_time [OF q] assms(2) g(1) by metis
  then have "n < x" "\<bar>i - n\<bar> \<le> max_clock_skew"
    using g(5) skew by (auto simp: not_after_def assert_request_time_def split: if_splits)
  with q g times show ?thesis by blast
qed

section \<open>State\<close>

text \<open>A projection that shows every field of a snapshot, task by task, and what the sources say of its activity.\<close>

definition shows_task :: "mission_snapshot \<Rightarrow> mission_task \<Rightarrow> client_task \<Rightarrow> bool" where
  "shows_task snap t c \<longleftrightarrow> ct_id c = task_id t \<and> ct_title c = task_title t \<and> ct_dependsOn c = mission_task.dependsOn t \<and>
     ct_priority c = mission_task.priority t \<and> taskStatuses snap (task_id t) = Some (ct_status c)"

definition shows_mission :: "mission_snapshot \<Rightarrow> client_projection \<Rightarrow> bool" where
  "shows_mission snap p \<longleftrightarrow> pj_missionId p = snap_id snap \<and> pj_version p = version snap \<and> pj_objective p = objective snap \<and>
     pj_focus p = focus snap \<and> pj_state p = mstate snap \<and> pj_resumeState p = resumeState snap \<and>
     list_all2 (shows_task snap) (tasks snap) (pj_tasks p) \<and> pj_budgetLimits p = budgetLimits snap \<and> pj_budgetUsage p = budgetUsage snap"

definition shows_activity :: "(string \<times> json) list \<Rightarrow> json \<Rightarrow> int option \<Rightarrow> client_projection \<Rightarrow> bool" where
  "shows_activity counts verification checkpoint p \<longleftrightarrow>
     list_all2 (\<lambda>k n. own_property counts (status_text k) = Some (JNum (of_int n))) job_statuses (pj_jobs p) \<and>
     (\<exists>props. verification = JObj props \<and> own_property props ''status'' = Some (JStr (verification_text (vs_status (pj_verification p)))) \<and>
        own_property props ''evidenceRefs'' = Some (JArr (map JStr (vs_evidenceRefs (pj_verification p))))) \<and>
     pj_checkpointVersion p = checkpoint"

lemma client_integer_value: "client_integer v label lo hi = Inr n \<Longrightarrow> v = Some (JNum (of_int n))"
proof -
  assume "client_integer v label lo hi = Inr n"
  then obtain q where q: "v = Some (JNum q)" "snd (quotient_of q) = 1" "n = fst (quotient_of q)"
    by (auto simp: client_integer_Inr num_is_safe_integer_def num_is_integer_def)
  then have "quotient_of q = (n, 1)" by (simp add: prod_eq_iff)
  then show ?thesis using quotient_of_div [of q n 1] q(1) by simp
qed

lemma built_tasks: "traverse (build_task snap) ts = Inr cs \<Longrightarrow> list_all2 (shows_task snap) ts cs"
  unfolding traverse_Inr
  by (erule list_all2_mono)
    (auto simp: build_task_def and_then_Inr client_identifier_def bounded_client_text_Inr malformed_def shows_task_def js_get_Own
      dest!: client_integer_value split: js_property.splits)

lemma client_named_value: "client_named name xs v label message = Inr x \<Longrightarrow> v = Some (JStr (name x))"
  by (cases "(v, label)" rule: client_text.cases)
    (auto simp: client_named_def client_text.simps named_def malformed_def find_Some_iff split: option.splits)

lemma built_verification:
  assumes "client_verification (Some v) = Inr w"
  shows "\<exists>props. v = JObj props \<and> own_property props ''status'' = Some (JStr (verification_text (vs_status w))) \<and>
    own_property props ''evidenceRefs'' = Some (JArr (map JStr (vs_evidenceRefs w)))"
proof (cases v)
  case (JObj props)
  with assms show ?thesis
    by (auto simp: client_verification_def and_then_Inr decoded_texts client_array_Inr dest!: client_named_value)
qed (use assms in \<open>simp_all add: client_verification_def malformed_def\<close>)

lemma built_projection:
  assumes "build_client_projection snap counts verification checkpoint = Inr p"
  shows "shows_mission snap p \<and> shows_activity counts verification checkpoint p \<and> length (pj_jobs p) = length job_statuses"
proof -
  have same: "client_integer (Some (client_int n)) label lo hi = Inr z \<Longrightarrow> z = n" for n label lo hi z by (simp add: exact_integer)
  from assms obtain summary ts where parts: "client_job_counts counts = Inr (pj_jobs p)" "client_verification (Some verification) = Inr (pj_verification p)"
    "traverse (build_task snap) (tasks snap) = Inr (pj_tasks p)"
    by (auto simp: build_client_projection_def and_then_Inr)
  have "list_all2 (\<lambda>k n. own_property counts (status_text k) = Some (JNum (of_int n))) job_statuses (pj_jobs p)"
    using parts(1) unfolding client_job_counts_def and_then_Inr traverse_Inr by (auto elim!: list_all2_mono dest: client_integer_value)
  moreover have "pj_checkpointVersion p = checkpoint"
    using assms by (auto simp: build_client_projection_def and_then_Inr dest!: same split: option.splits)
  moreover have "shows_mission snap p" unfolding shows_mission_def
    using assms built_tasks [OF parts(3)]
    by (auto simp: build_client_projection_def and_then_Inr client_identifier_def bounded_client_text_Inr exact_counters dest!: same)
  ultimately show ?thesis
    using built_verification [OF parts(2)] decoded_counts_ok [OF parts(1)] by (auto simp: shows_activity_def counts_ok_def)
qed

lemma state_page:
  fixes store_load :: "('e, 's) loader"
  assumes "gateway_state dp store_load resolve sources clock s v = Inr r" "decode_state_request dp v = Inr q"
  shows "\<exists>snap raw events counts verification checkpoint. load_snapshot store_load s (sq_missionId q) = (Inr snap :: ('e gateway_error, mission_snapshot) Prelude.result) \<and>
     src_jobEvents sources (sq_missionId q) (sq_afterCursor q) (sq_limit q + 1) = Some raw \<and>
     traverse (normalize_lifecycle_event dp) raw = Inr events \<and> response_ok dp r \<and>
     sr_missionId r = sq_missionId q \<and> sr_sessionId r = sq_sessionId q \<and> sr_requestId r = sq_requestId q \<and> sr_fromCursor r = sq_afterCursor q \<and>
     sr_events r = take (nat (sq_limit q)) events \<and> (sr_hasMore r \<longleftrightarrow> sq_limit q < int (length events)) \<and>
     shows_mission snap (sr_projection r) \<and> shows_activity counts verification checkpoint (sr_projection r) \<and>
     src_jobCounts sources (sq_missionId q) = Some counts \<and> src_verification sources (sq_missionId q) = Some verification \<and>
     src_checkpoint sources (sq_missionId q) = Some checkpoint \<and>
     authorize_client dp resolve (sq_capabilityId q) (sq_sessionId q) (sq_missionId q) None clock = Inr ()"
proof -
  from assms obtain snap counts verification raw checkpoint events p where
    parts: "load_snapshot store_load s (sq_missionId q) = (Inr snap :: ('e gateway_error, mission_snapshot) Prelude.result)"
      "src_jobEvents sources (sq_missionId q) (sq_afterCursor q) (sq_limit q + 1) = Some raw"
      "traverse (normalize_lifecycle_event dp) raw = Inr events"
      "authorize_client dp resolve (sq_capabilityId q) (sq_sessionId q) (sq_missionId q) None clock = Inr ()"
      "build_client_projection snap counts verification checkpoint = Inr p" "src_jobCounts sources (sq_missionId q) = Some counts"
      "src_verification sources (sq_missionId q) = Some verification" "src_checkpoint sources (sq_missionId q) = Some checkpoint" and
    r: "decode_state_response dp (state_response_value
       \<lparr>sr_minor = 0, sr_requestId = sq_requestId q, sr_sessionId = sq_sessionId q, sr_missionId = sq_missionId q, sr_emittedAt = clock,
        sr_fromCursor = sq_afterCursor q, sr_nextCursor = last_cursor (sq_afterCursor q) (take (nat (sq_limit q)) events),
        sr_hasMore = sq_limit q < int (length events), sr_projection = p, sr_events = take (nat (sq_limit q)) events\<rparr>) = Inr r"
    by (auto simp: gateway_state_def and_then_Inr lift_client_Inr runtime_now_Inr from_source_def Let_def client_failure_Inr
        split: option.splits if_splits)
  have "length (pj_jobs p) = length job_statuses" using built_projection [OF parts(5)] by simp
  then show ?thesis using r parts built_projection [OF parts(5)] by (subst (asm) decode_response_value) auto
qed

text \<open>The page of a client's own cursor.\<close>

lemma own_page_reduces:
  assumes "response_ok dp r" "rd_missionId st = sr_missionId r" "rd_sessionId st = sr_sessionId r" "rd_cursor st = sr_fromCursor r"
    "pj_version (rd_projection st) \<le> pj_version (sr_projection r)"
  shows "reduce_client_state dp (Some st) (state_response_value r) = Inr (st\<lparr>rd_cursor := sr_nextCursor r, rd_projection := sr_projection r,
    rd_recentEventHashes := bounded_hashes (rd_recentEventHashes st) (sr_events r)\<rparr>)"
proof -
  have "length (pj_jobs (sr_projection r)) = length job_statuses" using assms(1) by (simp add: response_ok_def projection_ok_def counts_ok_def)
  then have "decode_state_response dp (state_response_value r) = Inr r" using assms(1) by (simp add: decode_response_value)
  then show ?thesis using assms by (simp add: reduce_client_state_def reduce_response_def)
qed

end
