(* ===== verification/ClientProperties.thy ===== *)
theory ClientProperties
  imports GatewayFacts MissionProperties
begin

text \<open>
  The properties of the client protocol: what a client knows of a mission from the pages it accepted, that
  the gateway's pages are the ones it accepts, and what a command does to the mission.
\<close>

section \<open>A concrete client\<close>

definition tomorrow :: string where
  "tomorrow = ''2026-01-02T00:00:00.000Z''"

definition client_clock :: "string \<Rightarrow> int option" where
  "client_clock t = (if t = sample_now then Some 1767225600000 else if t = tomorrow then Some 1767312000000 else None)"

lemma client_times [simp]: "client_clock sample_now = Some 1767225600000" "client_clock tomorrow = Some 1767312000000"
  "canonical_time client_clock sample_now" "canonical_time client_clock tomorrow"
  by code_simp+

definition client_input :: mission_create_input where
  "client_input = \<lparr>create_id = ''m'', create_objective = ''o'', create_focus = Standard, create_tasks = [], create_budgetLimits = sample_limits\<rparr>"

definition client_stream :: "mission_event stored_event list" where
  "client_stream = number_events ''m'' ''key'' 0 [item_at sample_now (MissionCreated client_input)]"

definition client_snapshot :: mission_snapshot where
  "client_snapshot = (case project_mission client_stream of Inr s \<Rightarrow> s | Inl _ \<Rightarrow> undefined)"

definition client_store :: "(mission_event, unit) memory_store" where
  "client_store = \<lparr>streams = [''m'' \<mapsto> client_stream], idempotency = Map.empty\<rparr>"

lemma client_projects: "project_mission client_stream = Inr client_snapshot"
proof -
  have "case project_mission client_stream of Inr s \<Rightarrow> True | Inl _ \<Rightarrow> False" by code_simp
  then show ?thesis by (simp add: client_snapshot_def split: sum.splits)
qed

lemma client_snapshot_simps [simp]: "mstate client_snapshot = CREATED" "version client_snapshot = 1" "snap_id client_snapshot = ''m''"
  "objective client_snapshot = ''o''" "tasks client_snapshot = []" "budgetLimits client_snapshot = sample_limits"
  "budgetUsage client_snapshot = zero_counters" "resumeState client_snapshot = None" "focus client_snapshot = Standard"
proof -
  have "case project_mission client_stream of Inr s \<Rightarrow> mstate s = CREATED \<and> version s = 1 \<and> snap_id s = ''m'' \<and> objective s = ''o'' \<and> tasks s = [] \<and>
      budgetLimits s = sample_limits \<and> budgetUsage s = zero_counters \<and> resumeState s = None \<and> focus s = Standard | Inl _ \<Rightarrow> False" by code_simp
  then show "mstate client_snapshot = CREATED" "version client_snapshot = 1" "snap_id client_snapshot = ''m''"
    "objective client_snapshot = ''o''" "tasks client_snapshot = []" "budgetLimits client_snapshot = sample_limits"
    "budgetUsage client_snapshot = zero_counters" "resumeState client_snapshot = None" "focus client_snapshot = Standard"
    by (simp_all add: client_projects)
qed

lemma client_loaded: "load_events client_store ''m'' = Inr client_stream"
  by (simp add: load_events_def assert_identifier_def client_store_def current_stream_def blank_def js_space_def)

lemma client_store_inv: "memory_inv client_store"
  by (simp add: memory_inv_def client_store_def current_stream_def client_stream_def)

definition protocol_value :: json where
  "protocol_value = JObj [(''major'', JNum 1), (''minor'', client_int 0)]"

definition grant_value :: json where
  "grant_value = JObj [(''canRead'', JBool True), (''commands'', JArr [JStr ''mission.pause'']), (''expiresAt'', JStr tomorrow),
     (''id'', JStr ''cap''), (''missionId'', JStr ''m''), (''sessionId'', JStr ''s'')]"

definition client_grants :: "client_grant list" where
  "client_grants = [\<lparr>cg_id = ''cap'', cg_sessionId = ''s'', cg_missionId = ''m'', cg_canRead = True, cg_commands = [PauseMission], cg_expiresAt = tomorrow\<rparr>]"

lemma short_names [simp]: "identifier_ok ''cap'' n \<longleftrightarrow> 3 \<le> n" "identifier_ok ''m'' n \<longleftrightarrow> 1 \<le> n" "identifier_ok ''s'' n \<longleftrightarrow> 1 \<le> n"
  "identifier_ok ''r'' n \<longleftrightarrow> 1 \<le> n" "identifier_ok ''k'' n \<longleftrightarrow> 1 \<le> n" "identifier_ok ''j'' n \<longleftrightarrow> 1 \<le> n" "identifier_ok ''o'' n \<longleftrightarrow> 1 \<le> n"
  by (auto simp: identifier_ok_def blank_def js_space_def)

lemma client_granted: "add_grants client_clock [] [grant_value] = Inr client_grants"
proof -
  have pause: "client_named command_text client_commands (Some (JStr ''mission.pause'')) label message = Inr PauseMission" for label message
    by (simp add: client_named_def named_def client_commands_def)
  have three: "length client_commands = 3" by (simp add: client_commands_def)
  have "normalize_capability_grant client_clock grant_value = Inr (hd client_grants)"
    by (simp add: normalize_capability_grant_def grant_value_def client_grants_def decode_steps and_then_assoc pause three cong: and_then_first)
  then show ?thesis by (simp add: client_grants_def)
qed

definition page_request :: "int \<Rightarrow> json" where
  "page_request c = JObj [(''afterCursor'', client_int c), (''capabilityId'', JStr ''cap''), (''limit'', client_int 2), (''missionId'', JStr ''m''),
     (''protocol'', protocol_value), (''requestId'', JStr ''r''), (''requestedAt'', JStr sample_now), (''sessionId'', JStr ''s'')]"

definition pause_value :: json where
  "pause_value = JObj [(''capabilityId'', JStr ''cap''), (''command'', JStr ''mission.pause''), (''expectedVersion'', client_int 1), (''idempotencyKey'', JStr ''k''),
     (''issuedAt'', JStr sample_now), (''missionId'', JStr ''m''), (''protocol'', protocol_value), (''requestId'', JStr ''r''), (''sessionId'', JStr ''s'')]"

definition pause_request :: command_request where
  "pause_request = \<lparr>cq_requestId = ''r'', cq_sessionId = ''s'', cq_missionId = ''m'', cq_capabilityId = ''cap'', cq_issuedAt = sample_now,
     cq_expectedVersion = 1, cq_idempotencyKey = ''k'', cq_command = PauseMission\<rparr>"

lemma pause_decoded: "decode_command_request client_clock pause_value = Inr pause_request"
  by (simp add: decode_command_request_def pause_value_def pause_request_def protocol_value_def decode_steps client_commands_def named_def
    safe_integer_def max_safe_integer_def
    del: of_int_numeral of_int_1 of_int_0 cong: and_then_first)

lemma page_decoded: "safe_integer c \<Longrightarrow> 0 \<le> c \<Longrightarrow> decode_state_request client_clock (page_request c) = Inr
    \<lparr>sq_requestId = ''r'', sq_sessionId = ''s'', sq_missionId = ''m'', sq_capabilityId = ''cap'', sq_requestedAt = sample_now, sq_afterCursor = c, sq_limit = 2\<rparr>"
  by (simp add: decode_state_request_def page_request_def protocol_value_def decode_steps safe_integer_def max_safe_integer_def
    del: of_int_numeral of_int_1 of_int_0 cong: and_then_first)

definition client_hash :: string where
  "client_hash = replicate 64 CHR ''a''"

definition page_event :: "int \<Rightarrow> client_event" where
  "page_event c = \<lparr>ce_cursor = c, ce_missionId = ''m'', ce_jobId = ''j'', ce_type = Enqueued, ce_status = JobPending, ce_generation = 0,
     ce_occurredAt = sample_now, ce_reasonCode = None, ce_eventHash = client_hash\<rparr>"

definition page_projection :: client_projection where
  "page_projection = \<lparr>pj_missionId = ''m'', pj_version = 1, pj_objective = ''o'', pj_focus = Standard, pj_state = CREATED, pj_resumeState = None,
     pj_tasks = [], pj_budgetLimits = sample_limits, pj_budgetUsage = zero_counters, pj_checkpointVersion = None, pj_jobs = replicate 7 0,
     pj_verification = \<lparr>vs_status = VerificationUnavailable, vs_evidenceRefs = []\<rparr>\<rparr>"

definition page :: "int \<Rightarrow> bool \<Rightarrow> int list \<Rightarrow> state_response" where
  "page c more_pages cs = \<lparr>sr_minor = 0, sr_requestId = ''r'', sr_sessionId = ''s'', sr_missionId = ''m'', sr_emittedAt = sample_now, sr_fromCursor = c,
     sr_nextCursor = last_cursor c (map page_event cs), sr_hasMore = more_pages, sr_projection = page_projection, sr_events = map page_event cs\<rparr>"

lemma page_projection_ok: "projection_ok page_projection"
  by (simp add: projection_ok_def page_projection_def counters_ok_def sample_limits_def zero_counters_def counts_ok_def summary_ok_def
    job_statuses_def max_safe_integer_def)

lemma page_events_ok: "\<forall>c \<in> set cs. 1 \<le> c \<and> c \<le> 1000 \<Longrightarrow> \<forall>e \<in> set (map page_event cs). client_event_ok client_clock e \<and> safe_integer (ce_cursor e)"
proof -
  have "sha256_pattern client_hash" by (simp add: client_hash_def sha256_pattern_def hex_char_def digit_char_def list_all_iff)
  then show "\<forall>c \<in> set cs. 1 \<le> c \<and> c \<le> 1000 \<Longrightarrow> \<forall>e \<in> set (map page_event cs). client_event_ok client_clock e \<and> safe_integer (ce_cursor e)"
    by (auto simp: client_event_ok_def page_event_def max_safe_integer_def safe_integer_def)
qed

lemma page_sent:
  assumes "check_event_order ''m'' c (map page_event cs) = Inr ()" "0 \<le> c" "c \<le> 1000" "\<forall>c \<in> set cs. 1 \<le> c \<and> c \<le> 1000" "length cs \<le> 99"
  shows "decode_state_response client_clock (state_response_value (page c b cs)) = Inr (page c b cs)"
proof -
  have "last_cursor c (map page_event cs) \<le> 1000 \<and> 0 \<le> last_cursor c (map page_event cs)"
    using assms(2-4) by (cases cs rule: rev_cases) (auto simp: last_cursor_def page_event_def)
  then have "response_ok client_clock (page c b cs)"
    using assms page_projection_ok page_events_ok [OF assms(4)]
    by (simp add: response_ok_def page_ok_def page_def page_projection_def max_safe_integer_def)
  moreover have "length (pj_jobs (sr_projection (page c b cs))) = length job_statuses" by (simp add: page_def page_projection_def job_statuses_def)
  ultimately show ?thesis by (simp add: decode_response_value)
qed

section \<open>The state a client follows\<close>

inductive followed :: "(string \<Rightarrow> int option) \<Rightarrow> reducer_state \<Rightarrow> bool" for dp where
  first: "reduce_client_state dp None v = Inr s \<Longrightarrow> followed dp s"
| later: "followed dp s \<Longrightarrow> reduce_client_state dp (Some s) v = Inr s' \<Longrightarrow> followed dp s'"

lemma reduced_value: "reduce_client_state dp c v = Inr s \<longleftrightarrow> (\<exists>r. decode_state_response dp v = Inr r \<and> reduce_response c r = Inr s)"
  by (simp add: reduce_client_state_def and_then_Inr)

lemma followed_ok: "followed dp s \<Longrightarrow> reducer_ok s"
proof (induction rule: followed.induct)
  case (first v s)
  then show ?case by (auto simp: reduced_value intro: first_page_ok decoded_page_ok)
next
  case (later s v s')
  then show ?case using accepted_page(3) [OF decoded_page_ok] by (auto simp: reduced_value)
qed

text \<open>C25. What a client follows never goes back: from the first page on, every response it accepts keeps the mission and
  the session and moves neither the cursor nor the version of the mission backwards; the hashes it
  remembers are at most 512, of rising cursors up to its own, and a response that starts before the
  cursor is only accepted when it knows all its events by hash, and then changes the projection alone.\<close>

theorem client_never_goes_back:
  assumes "followed dp s" and "reduce_client_state dp (Some s) v = Inr s'"
  shows "rd_missionId s' = rd_missionId s \<and> rd_sessionId s' = rd_sessionId s \<and> rd_cursor s \<le> rd_cursor s' \<and>
    pj_version (rd_projection s) \<le> pj_version (rd_projection s') \<and> pj_missionId (rd_projection s') = rd_missionId s' \<and>
    sorted_wrt (<) (map fst (rd_recentEventHashes s') @ [rd_cursor s' + 1]) \<and> length (rd_recentEventHashes s') \<le> 512 \<and>
    (\<exists>r. decode_state_response dp v = Inr r \<and>
      (sr_fromCursor r < rd_cursor s \<longrightarrow> s' = s\<lparr>rd_projection := sr_projection r\<rparr> \<and>
         (\<forall>e \<in> set (sr_events r). (ce_cursor e, ce_eventHash e) \<in> set (rd_recentEventHashes s))))"
proof -
  from assms(2) obtain r where r: "decode_state_response dp v = Inr r" and s': "reduce_response (Some s) r = Inr s'" by (auto simp: reduced_value)
  note step = accepted_page [OF decoded_page_ok [OF r] followed_ok [OF assms(1)] s']
  have "reducer_ok s'" using step(3) by simp
  then have "sorted_wrt (<) (map fst (rd_recentEventHashes s') @ [rd_cursor s' + 1])" "length (rd_recentEventHashes s') \<le> 512"
    "pj_missionId (rd_projection s') = rd_missionId s'"
    by (auto simp: reducer_ok_def sorted_wrt_append max_tracked_hashes_def)
  moreover have "s' = s\<lparr>rd_projection := sr_projection r\<rparr> \<and> (\<forall>e \<in> set (sr_events r). (ce_cursor e, ce_eventHash e) \<in> set (rd_recentEventHashes s))"
    if "sr_fromCursor r < rd_cursor s"
    using step(1,2) that by (auto simp: event_entry_def)
  ultimately show ?thesis using step r by simp
qed

text \<open>Every response of a session, reduced one after another.\<close>

primrec follow :: "(string \<Rightarrow> int option) \<Rightarrow> reducer_state \<Rightarrow> json list \<Rightarrow> reducer_state protocol" where
  "follow dp s [] = Inr s"
| "follow dp s (v # vs) = and_then (reduce_client_state dp (Some s) v) (\<lambda>s'. follow dp s' vs)"

lemma follow_pages: "follow dp s vs = Inr s' \<Longrightarrow> \<exists>rs. traverse (decode_state_response dp) vs = Inr rs \<and> reduce_pages s rs = Inr s'"
  by (induction vs arbitrary: s) (fastforce simp: and_then_Inr reduced_value)+

lemma decoded_pages: "traverse (decode_state_response dp) vs = Inr rs \<Longrightarrow> \<forall>r \<in> set rs. page_ok r"
  by (erule traverse_all) (rule decoded_page_ok)

lemma follow_is_the_log:
  assumes "followed dp s" "follow dp s vs = Inr s'"
  shows "\<exists>rs. traverse (decode_state_response dp) vs = Inr rs \<and> rd_cursor s' = last_cursor (rd_cursor s) (new_events (rd_cursor s) rs) \<and>
     rd_recentEventHashes s' = newest (rd_recentEventHashes s @ map event_entry (new_events (rd_cursor s) rs))"
proof -
  from follow_pages [OF assms(2)] obtain rs where rs: "traverse (decode_state_response dp) vs = Inr rs" "reduce_pages s rs = Inr s'" by blast
  from pages_reduce_to_log [OF rs(2) followed_ok [OF assms(1)] decoded_pages [OF rs(1)]] rs(1) show ?thesis by blast
qed

text \<open>C24. Paging does not show: however a session's events are cut into responses, and whatever responses are repeated
  in between, the cursor and the remembered hashes are those of one list, the hashes known at the start
  followed by the new events, of which the newest 512 are kept.\<close>

theorem client_state_is_the_log:
  assumes "followed dp s" and "follow dp s vs = Inr s'" and "traverse (decode_state_response dp) vs = Inr rs"
    and "new_events (rd_cursor s) rs = es"
  shows "rd_cursor s' = last_cursor (rd_cursor s) es \<and>
    rd_recentEventHashes s' = newest (rd_recentEventHashes s @ map (\<lambda>e. (ce_cursor e, ce_eventHash e)) es)"
  using follow_is_the_log [OF assms(1,2)] assms(3,4) by (simp add: event_entry_def cong: map_cong)

definition first_state :: reducer_state where
  "first_state = \<lparr>rd_missionId = ''m'', rd_sessionId = ''s'', rd_cursor = 2, rd_projection = page_projection,
     rd_recentEventHashes = [(1, client_hash), (2, client_hash)]\<rparr>"

definition last_state :: reducer_state where
  "last_state = first_state\<lparr>rd_cursor := 4, rd_recentEventHashes := [(1, client_hash), (2, client_hash), (3, client_hash), (4, client_hash)]\<rparr>"

definition later_values :: "json list" where
  "later_values = [state_response_value (page 2 True [3]), state_response_value (page 0 True [1, 2]), state_response_value (page 3 False [4])]"

lemma sent_pages: "decode_state_response client_clock (state_response_value (page 0 True [1, 2])) = Inr (page 0 True [1, 2])"
  "decode_state_response client_clock (state_response_value (page 2 True [3])) = Inr (page 2 True [3])"
  "decode_state_response client_clock (state_response_value (page 3 False [4])) = Inr (page 3 False [4])"
  by (rule page_sent; simp add: page_event_def)+

lemma first_followed: "followed client_clock first_state"
proof (rule followed.first)
  show "reduce_client_state client_clock None (state_response_value (page 0 True [1, 2])) = Inr first_state"
    by (simp add: reduce_client_state_def sent_pages) (simp add: reduce_response_def first_state_def page_def last_cursor_def page_event_def
      bounded_hashes_def set_entry_def max_tracked_hashes_def)
qed

lemma later_followed: "follow client_clock first_state later_values = Inr last_state"
  by (simp add: later_values_def reduce_client_state_def sent_pages) (simp add: reduce_response_def first_state_def last_state_def page_def last_cursor_def
    page_event_def page_projection_def bounded_hashes_def set_entry_def max_tracked_hashes_def check_replayed_def safe_integer_def max_safe_integer_def)

lemma client_state_is_the_log_witness: "rd_cursor last_state = 4 \<and> map fst (rd_recentEventHashes last_state) = map fst (newest [(1 :: int, client_hash), (2, client_hash), (3, client_hash), (4, client_hash)])"
proof -
  have decoded: "traverse (decode_state_response client_clock) later_values = Inr [page 2 True [3], page 0 True [1, 2], page 3 False [4]]"
    by (simp add: later_values_def sent_pages)
  have new: "new_events (rd_cursor first_state) [page 2 True [3], page 0 True [1, 2], page 3 False [4]] = map page_event [3, 4]"
    by (simp add: first_state_def page_def last_cursor_def page_event_def)
  from client_state_is_the_log [OF first_followed later_followed decoded new] show ?thesis
    by (simp add: first_state_def page_event_def last_cursor_def)
qed

lemma client_never_goes_back_witness:
  "\<exists>s. reduce_client_state client_clock (Some first_state) (state_response_value (page 2 True [3])) = Inr s \<and> rd_cursor first_state \<le> rd_cursor s \<and>
     length (rd_recentEventHashes s) \<le> 512"
proof -
  obtain s where "reduce_client_state client_clock (Some first_state) (state_response_value (page 2 True [3])) = Inr s"
    using later_followed by (auto simp: later_values_def and_then_Inr)
  from client_never_goes_back [OF first_followed this] this show ?thesis by blast
qed

section \<open>The gateway's pages\<close>

lemma gateway_page_followed:
  assumes "gateway_state dp store_load resolve sources clock s v = Inr r" and "decode_state_request dp v = Inr q"
    and "store_load s (sq_missionId q) = Inr evs" and "followed dp st" and "rd_sessionId st = sq_sessionId q" and "rd_missionId st = sq_missionId q"
    and "rd_cursor st = sq_afterCursor q" and "pj_version (rd_projection st) \<le> int (length evs)"
  shows "\<exists>st' snap counts verification checkpoint raw events. reduce_client_state dp (Some st) (state_response_value r) = Inr st' \<and>
    project_mission evs = Inr snap \<and> version snap = int (length evs) \<and> shows_mission snap (rd_projection st') \<and>
    src_jobCounts sources (sq_missionId q) = Some counts \<and> src_verification sources (sq_missionId q) = Some verification \<and>
    src_checkpoint sources (sq_missionId q) = Some checkpoint \<and> shows_activity counts verification checkpoint (rd_projection st') \<and>
    src_jobEvents sources (sq_missionId q) (rd_cursor st) (sq_limit q + 1) = Some raw \<and> traverse (normalize_lifecycle_event dp) raw = Inr events \<and>
    sr_events r = take (nat (sq_limit q)) events \<and> (sr_hasMore r \<longleftrightarrow> sq_limit q < int (length events)) \<and>
    rd_cursor st' = last_cursor (rd_cursor st) (sr_events r) \<and> (sr_events r \<noteq> [] \<longrightarrow> rd_cursor st < rd_cursor st') \<and>
    int (length (sr_events r)) \<le> sq_limit q \<and> (\<forall>e \<in> set (sr_events r). ce_missionId e = sq_missionId q)"
proof -
  from state_page [OF assms(1,2)] obtain snap raw events counts verification checkpoint where page: "response_ok dp r" "sr_missionId r = sq_missionId q"
    "sr_sessionId r = sq_sessionId q" "sr_fromCursor r = sq_afterCursor q" "sr_events r = take (nat (sq_limit q)) events"
    "sr_hasMore r \<longleftrightarrow> sq_limit q < int (length events)" "src_jobEvents sources (sq_missionId q) (sq_afterCursor q) (sq_limit q + 1) = Some raw"
    "traverse (normalize_lifecycle_event dp) raw = Inr events" and
    shown: "shows_mission snap (sr_projection r)" "shows_activity counts verification checkpoint (sr_projection r)"
      "src_jobCounts sources (sq_missionId q) = Some counts" "src_verification sources (sq_missionId q) = Some verification"
      "src_checkpoint sources (sq_missionId q) = Some checkpoint" and
    snap: "(load_snapshot store_load s (sq_missionId q) :: ('a gateway_error, mission_snapshot) Prelude.result) = Inr snap" by blast
  have projected: "project_mission evs = Inr snap" using snap assms(3) by (simp add: load_snapshot_def split: sum.splits)
  then have version: "version snap = int (length evs)" by (rule projected_version)
  have ok: "page_ok r" using page(1) by (simp add: response_ok_def)
  note cursors = page_cursors [OF ok]
  have last: "sr_nextCursor r = last_cursor (rd_cursor st) (sr_events r)" using ok page(4) assms(7) by (simp add: page_ok_def)
  have moves: "sr_events r \<noteq> [] \<Longrightarrow> rd_cursor st < sr_nextCursor r"
    using cursors(3) page(4) assms(7) by (cases "sr_events r") auto
  have scoped: "\<forall>e \<in> set (sr_events r). ce_missionId e = sq_missionId q"
    using ok ordered_events page(2) by (auto simp: page_ok_def)
  have "1 \<le> sq_limit q" using assms(2)
    by (clarsimp simp: decode_state_request_def and_then_Inr simp del: client_object.simps) (auto dest: integer_bounds)
  then have few: "int (length (sr_events r)) \<le> sq_limit q" using page(5) by simp
  have "pj_version (sr_projection r) = int (length evs)" using shown(1) version by (simp add: shows_mission_def)
  then obtain st' where st': "reduce_client_state dp (Some st) (state_response_value r) = Inr st'" "rd_cursor st' = sr_nextCursor r"
    "rd_projection st' = sr_projection r"
    using own_page_reduces [OF page(1), of st] page(2-4) assms(5-8) by simp
  show ?thesis
    by (rule exI [of _ st'], rule exI [of _ snap], rule exI [of _ counts], rule exI [of _ verification], rule exI [of _ checkpoint],
        rule exI [of _ raw], rule exI [of _ events])
      (use projected version shown last moves scoped few page(5-8) assms(7) st' in simp)
qed

text \<open>C23. A client that polls never gets stuck: a page the gateway returns for the cursor of a client's own state is
  accepted by that client, provided the stream of the mission is not shorter than the version the client knows, as it
  is after any appends. The projection the client then has shows every field of the mission as its stream projects now, each
  task with its status and dependencies, and the counts, verification and checkpoint of the activity sources; the
  events are the first of those the source has after the cursor, and the cursor has moved on whenever there are any.\<close>

theorem gateway_pages_are_accepted:
  assumes "gateway_state dp store_load resolve sources clock s v = Inr r" and "decode_state_request dp v = Inr q"
    and "store_load s (sq_missionId q) = Inr evs" and "followed dp st" and "rd_sessionId st = sq_sessionId q" and "rd_missionId st = sq_missionId q"
    and "rd_cursor st = sq_afterCursor q" and "pj_version (rd_projection st) \<le> int (length evs)"
  shows "\<exists>st' snap counts verification checkpoint raw events. reduce_client_state dp (Some st) (state_response_value r) = Inr st' \<and>
    project_mission evs = Inr snap \<and> version snap = int (length evs) \<and> shows_mission snap (rd_projection st') \<and>
    src_jobCounts sources (sq_missionId q) = Some counts \<and> src_verification sources (sq_missionId q) = Some verification \<and>
    src_checkpoint sources (sq_missionId q) = Some checkpoint \<and> shows_activity counts verification checkpoint (rd_projection st') \<and>
    src_jobEvents sources (sq_missionId q) (rd_cursor st) (sq_limit q + 1) = Some raw \<and> traverse (normalize_lifecycle_event dp) raw = Inr events \<and>
    sr_events r = take (nat (sq_limit q)) events \<and> (sr_hasMore r \<longleftrightarrow> sq_limit q < int (length events)) \<and>
    rd_cursor st' = last_cursor (rd_cursor st) (sr_events r) \<and> (sr_events r \<noteq> [] \<longrightarrow> rd_cursor st < rd_cursor st') \<and>
    int (length (sr_events r)) \<le> sq_limit q \<and> (\<forall>e \<in> set (sr_events r). ce_missionId e = sq_missionId q)"
  using assms by (rule gateway_page_followed)

definition client_activity :: client_sources where
  "client_activity = \<lparr>src_jobCounts = (\<lambda>_. Some (zip (map status_text job_statuses) (map client_int (replicate 7 0)))),
     src_verification = (\<lambda>_. Some (verification_value \<lparr>vs_status = VerificationUnavailable, vs_evidenceRefs = []\<rparr>)),
     src_jobEvents = (\<lambda>_ _ _. Some (map client_event_value [page_event 3, page_event 4])), src_checkpoint = (\<lambda>_. Some None)\<rparr>"

lemma client_projection_built:
  "build_client_projection client_snapshot (zip (map status_text job_statuses) (map client_int (replicate 7 0)))
     (verification_value \<lparr>vs_status = VerificationUnavailable, vs_evidenceRefs = []\<rparr>) None = Inr page_projection"
proof -
  have counts: "client_job_counts (zip (map status_text job_statuses) (map client_int (replicate 7 0))) = Inr (replicate 7 0)"
    by (subst exact_counts) (simp_all add: job_statuses_def counts_ok_def max_safe_integer_def)
  have verified: "client_verification (Some (verification_value \<lparr>vs_status = VerificationUnavailable, vs_evidenceRefs = []\<rparr>)) =
      Inr \<lparr>vs_status = VerificationUnavailable, vs_evidenceRefs = []\<rparr>" by (simp add: exact_verification summary_ok_def)
  have budgets: "client_counters (Some (counters_value sample_limits)) label = Inr sample_limits"
    "client_counters (Some (counters_value zero_counters)) label = Inr zero_counters" for label
    by (simp_all add: exact_counters counters_ok_def sample_limits_def zero_counters_def max_safe_integer_def)
  have one: "client_integer (Some (client_int 1)) label 1 max_safe_integer = Inr 1" for label
    by (subst exact_integer) (simp add: safe_integer_def max_safe_integer_def)
  show ?thesis
    unfolding build_client_projection_def counts verified
    by (simp add: budgets one [simplified] decode_steps page_projection_def cong: and_then_first)
qed

lemma client_page: "gateway_state client_clock load_events (resolve_grant client_grants) client_activity sample_now client_store (page_request 2) =
    Inr (page 2 False [3, 4])"
proof -
  have q: "decode_state_request client_clock (page_request 2) = Inr
      \<lparr>sq_requestId = ''r'', sq_sessionId = ''s'', sq_missionId = ''m'', sq_capabilityId = ''cap'', sq_requestedAt = sample_now, sq_afterCursor = 2, sq_limit = 2\<rparr>"
    by (rule page_decoded) (simp_all add: safe_integer_def max_safe_integer_def)
  have authorized: "authorize_client client_clock (resolve_grant client_grants) ''cap'' ''s'' ''m'' None sample_now = Inr ()"
    by (simp add: authorize_client_def resolve_grant_def client_grants_def not_after_def)
  have events: "normalize_lifecycle_event client_clock (client_event_value (page_event 3)) = Inr (page_event 3)"
    "normalize_lifecycle_event client_clock (client_event_value (page_event 4)) = Inr (page_event 4)"
    using page_events_ok [of "[3, 4]"] by (simp_all add: client_event_back)
  have fields [simp]: "ce_missionId (page_event c) = ''m''" "ce_cursor (page_event c) = c" for c by (simp_all add: page_event_def)
  have sent: "decode_state_response client_clock (state_response_value (page 2 False [3, 4])) = Inr (page 2 False [3, 4])"
    by (rule page_sent) simp_all
  have lifted: "lift_client (Inr x) = Inr x" for x :: 'x by (simp add: lift_client_def)
  have activity: "src_jobCounts client_activity m = Some (zip (map status_text job_statuses) (map client_int (replicate 7 0)))"
    "src_verification client_activity m = Some (verification_value \<lparr>vs_status = VerificationUnavailable, vs_evidenceRefs = []\<rparr>)"
    "src_jobEvents client_activity m c n = Some [client_event_value (page_event 3), client_event_value (page_event 4)]"
    "src_checkpoint client_activity m = Some None" for m c n by (simp_all add: client_activity_def)
  show ?thesis
    using sent by (simp add: gateway_state_def q runtime_now_def assert_request_time_def max_clock_skew_def authorized load_snapshot_def client_loaded
      client_projects activity from_source_def events client_projection_built lifted page_def last_cursor_def Let_def
      del: map_replicate zip_replicate2 cong: and_then_first)
qed

lemma gateway_pages_are_accepted_witness:
  "\<exists>st'. reduce_client_state client_clock (Some first_state) (state_response_value (page 2 False [3, 4])) = Inr st' \<and> rd_cursor st' = 4 \<and>
     pj_state (rd_projection st') = CREATED"
proof -
  have q: "decode_state_request client_clock (page_request 2) = Inr
      \<lparr>sq_requestId = ''r'', sq_sessionId = ''s'', sq_missionId = ''m'', sq_capabilityId = ''cap'', sq_requestedAt = sample_now, sq_afterCursor = 2, sq_limit = 2\<rparr>"
    by (rule page_decoded) (simp_all add: safe_integer_def max_safe_integer_def)
  from gateway_pages_are_accepted [OF client_page q _ first_followed] client_loaded client_projects
  show ?thesis by (fastforce simp: shows_mission_def first_state_def page_projection_def client_stream_def page_def page_event_def last_cursor_def)
qed

section \<open>Commands\<close>

lemma scoped_key_named: "\<not> blank (scoped_key q)"
  by (simp add: scoped_key_def blank_def js_space_def)

lemma client_command_runs:
  fixes s :: "(mission_event, 'f) memory_store"
  assumes inv: "memory_inv s" and loaded: "load_events s (cq_missionId q) = Inr evs" and p: "project_mission evs = Inr old"
    and v: "cq_expectedVersion q = int (length evs)" and new: "idempotency s (idempotency_scope (cq_missionId q) (scoped_key q)) = None"
    and key: "scoped_key q \<notin> idempotencyKey ` set evs" and dp: "canonical_time dp (cq_issuedAt q)" and safe: "int (length evs) \<le> max_safe_integer"
  shows "if command_allowed (cq_command q) old
    then \<exists>s'. execute_client_command load_events (append_events dp fp) memory_conflict s q =
          (Inr (Applied, commanded (cq_command q) old (cq_expectedVersion q)), s') \<and>
        load_events s' (cq_missionId q) = Inr (evs @ number_events (cq_missionId q) (scoped_key q) (cq_expectedVersion q) (command_batch q old)) \<and>
        (\<forall>m. m \<noteq> cq_missionId q \<longrightarrow> load_events s' m = load_events s m)
    else \<exists>message. execute_client_command load_events (append_events dp fp) memory_conflict s q =
          (Inl (ClientFailure (CommandConflict, message)), s)"
proof -
  let ?m = "cq_missionId q"
  have contiguous: "contiguous_from ?m 0 evs" using memory.load_contiguous [OF inv loaded] .
  have ne: "evs \<noteq> []" using p by auto
  have "1 \<le> cq_expectedVersion q" "cq_expectedVersion q \<le> int (length evs)" using ne v by (simp_all add: Suc_le_eq)
  moreover have "project_mission (take (nat (cq_expectedVersion q)) evs) = Inr old" using p v by simp
  ultimately have prepared: "if command_allowed (cq_command q) old
    then (prepare_client_command q evs :: (store_error gateway_error, mission_event append_item list) Prelude.result) = Inr (command_batch q old)
    else \<exists>message. (prepare_client_command q evs :: (store_error gateway_error, mission_event append_item list) Prelude.result) =
      client_failure CommandConflict message"
    by (intro prepared_command [OF _ contiguous])
  show ?thesis
  proof (cases "command_allowed (cq_command q) old")
    case False
    then show ?thesis using prepared loaded by (auto simp: execute_client_command_def client_failure_def)
  next
    case True
    have named: "\<not> blank ?m" "current_stream s ?m = evs" using loaded by (auto simp: load_events_Inr)
    have "\<not> blank (cq_issuedAt q)"
    proof
      assume "blank (cq_issuedAt q)"
      moreover from dp obtain x where "iso_text x = cq_issuedAt q" by (auto simp: canonical_time_def split: option.splits)
      moreover have "CHR ''T'' \<in> set (iso_text x)" for x by (simp add: iso_text_def)
      ultimately have "js_space CHR ''T''" by (metis blank_def list_all_iff)
      then show False by (simp add: js_space_def)
    qed
    then have items: "for_each (check_item dp) (command_batch q old) = Inr ()" "command_batch q old \<noteq> []"
      using canonical_parses [OF dp] by (auto simp: command_batch_def check_item_def item_at_def split: prod.splits)
    let ?new = "number_events ?m (scoped_key q) (cq_expectedVersion q) (command_batch q old)"
    obtain s' where app: "append_events dp fp s ?m (cq_expectedVersion q) (scoped_key q) (command_batch q old) = Inr (?new, s')"
      using named items new v safe scoped_key_named
      by (simp add: append_events_def assert_identifier_def Let_def safe_integer_def)
    from append_events_Inr(5) [OF app] new have s': "current_stream s' m = (if m = ?m then evs @ ?new else current_stream s m)" for m
      using named(2) by auto
    have "stored_event.missionId (hd evs) = ?m" using contiguous ne by (intro contiguous_hd)
    from commanded_stream [OF p this True] have "project_mission (evs @ ?new) = Inr (commanded (cq_command q) old (cq_expectedVersion q))"
      using v by simp
    then have "execute_client_command load_events (append_events dp fp) memory_conflict s q =
        (Inr (Applied, commanded (cq_command q) old (cq_expectedVersion q)), s')"
      using prepared True loaded app key named s' by (simp add: execute_client_command_def load_snapshot_def load_events_def assert_identifier_def)
    then show ?thesis using True named s' by (intro if_P [THEN iffD2] exI [of _ s']) (simp_all add: load_events_def assert_identifier_def)
  qed
qed

text \<open>C27. A command on the current version does all or nothing: a pause of a running mission, a resume of a paused one
  and a cancellation of either append two transitions and leave the mission \<open>PAUSED\<close> with the state it was in
  captured, in that captured state, or \<open>CANCELLED\<close>; other missions keep their streams. In every other
  state the command is refused as a conflict and the store is as before.\<close>

theorem client_command_effect:
  fixes s :: "(mission_event, 'f) memory_store"
  assumes "memory_inv s" and "load_events s (cq_missionId q) = Inr evs" and "project_mission evs = Inr old"
    and "cq_expectedVersion q = int (length evs)" and "idempotency s (idempotency_scope (cq_missionId q) (scoped_key q)) = None"
    and "scoped_key q \<notin> idempotencyKey ` set evs" and "canonical_time dp (cq_issuedAt q)" and "int (length evs) \<le> max_safe_integer"
  shows "if command_allowed (cq_command q) old
    then \<exists>s' new. execute_client_command load_events (append_events dp fp) memory_conflict s q = (Inr (Applied, new), s') \<and>
        load_events s' (cq_missionId q) = Inr (evs @ number_events (cq_missionId q) (scoped_key q) (cq_expectedVersion q) (command_batch q old)) \<and>
        (\<forall>m. m \<noteq> cq_missionId q \<longrightarrow> load_events s' m = load_events s m) \<and> version new = version old + 2 \<and>
        (case cq_command q of PauseMission \<Rightarrow> mstate new = PAUSED \<and> resumeState new = Some (mstate old)
           | ResumeMission \<Rightarrow> Some (mstate new) = resumeState old \<and> resumeState new = None
           | CancelMission \<Rightarrow> mstate new = CANCELLED \<and> resumeState new = None)
    else \<exists>message. execute_client_command load_events (append_events dp fp) memory_conflict s q = (Inl (ClientFailure (CommandConflict, message)), s)"
proof -
  have "version old = cq_expectedVersion q" using projected_version [OF assms(3)] assms(4) by simp
  moreover have "\<exists>r \<in> set interruptible_states. resumeState old = Some r" if "mstate old = PAUSED"
    using projected_wf [OF assms(3)] that by (auto simp: snapshot_wf_def resume_wf_def split: option.splits)
  ultimately have "command_allowed (cq_command q) old \<Longrightarrow>
      version (commanded (cq_command q) old (cq_expectedVersion q)) = version old + 2 \<and>
      (case cq_command q of
         PauseMission \<Rightarrow> mstate (commanded (cq_command q) old (cq_expectedVersion q)) = PAUSED \<and>
           resumeState (commanded (cq_command q) old (cq_expectedVersion q)) = Some (mstate old)
       | ResumeMission \<Rightarrow> Some (mstate (commanded (cq_command q) old (cq_expectedVersion q))) = resumeState old \<and>
           resumeState (commanded (cq_command q) old (cq_expectedVersion q)) = None
       | CancelMission \<Rightarrow> mstate (commanded (cq_command q) old (cq_expectedVersion q)) = CANCELLED \<and>
           resumeState (commanded (cq_command q) old (cq_expectedVersion q)) = None)"
    by (cases "cq_command q") (auto simp: command_allowed_def commanded_def command_states_def state_moved_def next_resume_state_def interruptible_states_def)
  with client_command_runs [OF assms, of fp] show ?thesis by (auto split: if_splits)
qed

lemma pause_allowed: "command_allowed (cq_command pause_request) client_snapshot"
  by (simp add: command_allowed_def pause_request_def interruptible_states_def)

lemma client_stream_keys: "idempotencyKey ` set client_stream = {''key''}" "length client_stream = 1"
  by (simp_all add: client_stream_def)

lemma client_command_effect_witness:
  "\<exists>new s'. execute_client_command load_events (append_events client_clock (\<lambda>_. ())) memory_conflict client_store pause_request = (Inr (Applied, new), s') \<and>
     mstate new = PAUSED \<and> resumeState new = Some CREATED"
proof -
  have "cq_missionId pause_request = ''m''" "cq_expectedVersion pause_request = int (length client_stream)"
    "scoped_key pause_request \<notin> idempotencyKey ` set client_stream" "canonical_time client_clock (cq_issuedAt pause_request)"
    "int (length client_stream) \<le> max_safe_integer" "idempotency client_store (idempotency_scope m k) = None" for m k
    by (simp_all add: pause_request_def client_stream_keys scoped_key_def max_safe_integer_def client_store_def)
  note facts = this
  from client_command_effect [OF client_store_inv _ client_projects, of pause_request client_clock "\<lambda>_. ()"] facts client_loaded pause_allowed
  show ?thesis by (auto simp: pause_request_def)
qed

text \<open>Streams only grow along a history, and the store's invariant is kept.\<close>

lemma history_grows:
  assumes "(append_step dp fp)\<^sup>*\<^sup>* s t" "memory_inv s" "load_events s m = Inr evs"
  shows "memory_inv t \<and> (\<exists>new. load_events t m = Inr (evs @ new))"
  using assms
proof (induction rule: rtranclp_induct)
  case base
  then show ?case by (metis append_Nil2)
next
  case (step t u)
  then obtain new m' v key items appended where t: "memory_inv t" "load_events t m = Inr (evs @ new)" and
    app: "append_events dp fp t m' v key items = Inr (appended, u)" by (auto elim: append_step.cases)
  obtain new' where "load_events u m = Inr ((evs @ new) @ new')" using memory.append_prefix [OF t(1) app t(2)] by blast
  then show ?case using memory.append_inv [OF t(1) app] by auto
qed

text \<open>C28. An accepted command can be repeated at any time: whatever was appended to the store since, the same request
  succeeds again, changes nothing and reports the mission as it is now, as a replay once the events
  of the command are in its stream.\<close>

theorem accepted_command_stays_accepted:
  fixes s :: "(mission_event, 'f) memory_store"
  assumes "memory_inv s" and "load_events s (cq_missionId q) = Inr evs"
    and "execute_client_command load_events (append_events dp fp) memory_conflict s q = (Inr (outcome, snap), s1)"
    and "(append_step dp fp)\<^sup>*\<^sup>* s1 s2" and "load_events s2 (cq_missionId q) = Inr evs2" and "project_mission evs2 = Inr snap2"
  shows "execute_client_command load_events (append_events dp fp) memory_conflict s2 q =
    (Inr (if scoped_key q \<in> idempotencyKey ` set evs2 then Replayed else Applied, snap2), s2) \<and>
    (load_events s1 (cq_missionId q) \<noteq> load_events s (cq_missionId q) \<longrightarrow> scoped_key q \<in> idempotencyKey ` set evs2)"
proof -
  from executed [OF assms(3,2)] obtain items appended where
    items: "(prepare_client_command q evs :: (store_error gateway_error, mission_event append_item list) Prelude.result) = Inr items"
    and app: "append_events dp fp s (cq_missionId q) (cq_expectedVersion q) (scoped_key q) items = Inr (appended, s1)" by blast
  have s1: "memory_inv s1" using memory.append_inv [OF assms(1) app] .
  obtain later where later: "load_events s1 (cq_missionId q) = Inr (evs @ later)" using memory.append_prefix [OF assms(1) app assms(2)] by blast
  from history_grows [OF assms(4) s1 later] obtain new where s2: "memory_inv s2" and evs2: "evs2 = evs @ later @ new" using assms(5) by auto
  have again: "append_events dp fp s2 (cq_missionId q) (cq_expectedVersion q) (scoped_key q) items = Inr (appended, s2)"
  proof -
    from append_events_recorded [OF app] obtain r where r: "idempotency s1 (idempotency_scope (cq_missionId q) (scoped_key q)) = Some r"
      "rec_fingerprint r = fp items" "rec_events r = appended" by auto
    then have "idempotency s2 (idempotency_scope (cq_missionId q) (scoped_key q)) = Some r" using append_history_records [OF assms(4)] by blast
    with r append_events_checks [OF app] show ?thesis by (auto simp: append_events_def)
  qed
  have "scoped_key q \<in> idempotencyKey ` set evs2" if "load_events s1 (cq_missionId q) \<noteq> load_events s (cq_missionId q)"
    using memory.append_stream [OF assms(1) app] that assms(2) later evs2 prepare_Inr [OF items memory.load_contiguous [OF assms(1,2)]]
    by (auto simp: batch_events transition_at_def)
  moreover have "execute_client_command load_events (append_events dp fp) memory_conflict s2 q =
    (Inr (if scoped_key q \<in> idempotencyKey ` set evs2 then Replayed else Applied, snap2), s2)"
    using memory_missions.command_replays [OF assms(1,2) items s2 assms(5) _ again assms(6)] evs2 by simp
  ultimately show ?thesis by blast
qed

lemma paused_store:
  "\<exists>s'. execute_client_command load_events (append_events client_clock (\<lambda>_. ())) memory_conflict client_store pause_request =
      (Inr (Applied, commanded PauseMission client_snapshot 1), s') \<and> s' \<noteq> client_store \<and>
    (\<exists>evs. load_events s' ''m'' = Inr evs \<and> load_events client_store ''m'' \<noteq> Inr evs \<and> project_mission evs = Inr (commanded PauseMission client_snapshot 1))"
proof -
  let ?run = "execute_client_command load_events (append_events client_clock (\<lambda>_. ())) memory_conflict client_store pause_request"
    and ?evs = "client_stream @ number_events ''m'' (scoped_key pause_request) 1 (command_batch pause_request client_snapshot)"
  have fields: "cq_missionId pause_request = ''m''" "cq_expectedVersion pause_request = 1" "cq_command pause_request = PauseMission"
    "cq_issuedAt pause_request = sample_now" by (simp_all add: pause_request_def)
  have key: "scoped_key pause_request \<notin> idempotencyKey ` set client_stream" by (simp add: pause_request_def client_stream_keys scoped_key_def)
  have none: "idempotency client_store i = None" for i by (simp add: client_store_def)
  have loaded: "load_events client_store (cq_missionId pause_request) = Inr client_stream" using client_loaded fields by simp
  have "cq_expectedVersion pause_request = int (length client_stream)" "canonical_time client_clock (cq_issuedAt pause_request)"
    "int (length client_stream) \<le> max_safe_integer" by (simp_all add: fields client_stream_keys max_safe_integer_def)
  from client_command_runs [OF client_store_inv loaded client_projects this(1) none key this(2,3), of "\<lambda>_. ()"] pause_allowed obtain s' where
    run: "?run = (Inr (Applied, commanded PauseMission client_snapshot 1), s')" and stream: "load_events s' ''m'' = Inr ?evs"
    by (auto simp: fields)
  have "stored_event.missionId (hd client_stream) = cq_missionId pause_request" by (simp add: client_stream_def fields)
  from commanded_stream [OF client_projects this pause_allowed]
  have "project_mission ?evs = Inr (commanded PauseMission client_snapshot 1)" by (simp add: fields client_stream_keys)
  moreover have "number_events ''m'' (scoped_key pause_request) 1 (command_batch pause_request client_snapshot) \<noteq> []"
    by (simp add: command_batch_def split: prod.splits)
  ultimately show ?thesis using run stream client_loaded by (intro exI [of _ s'] conjI exI [of _ ?evs]) auto
qed

lemma accepted_command_stays_accepted_witness:
  "\<exists>new s'. execute_client_command load_events (append_events client_clock (\<lambda>_. ())) memory_conflict s' pause_request = (Inr (Replayed, new), s')"
proof -
  have same: "cq_missionId pause_request = ''m''" by (simp add: pause_request_def)
  from paused_store obtain s' evs where s': "execute_client_command load_events (append_events client_clock (\<lambda>_. ())) memory_conflict client_store
      pause_request = (Inr (Applied, commanded PauseMission client_snapshot 1), s')"
    and evs: "load_events s' (cq_missionId pause_request) = Inr evs" "load_events client_store (cq_missionId pause_request) \<noteq> Inr evs"
      "project_mission evs = Inr (commanded PauseMission client_snapshot 1)" by (auto simp: same)
  have loaded: "load_events client_store (cq_missionId pause_request) = Inr client_stream" using client_loaded same by simp
  note again = accepted_command_stays_accepted [OF client_store_inv loaded s' rtranclp.rtrancl_refl evs(1,3)]
  have "load_events s' (cq_missionId pause_request) \<noteq> load_events client_store (cq_missionId pause_request)" using evs(1,2) by metis
  from mp [OF conjunct2 [OF again] this] conjunct1 [OF again] show ?thesis by (simp only: if_True) blast
qed

text \<open>C26. Only a granted command changes a mission: when a request to the gateway changed the store, whatever it
  answered, it was a command that one of the configured grants lists for exactly its session and mission, issued
  within five minutes of the runtime's clock and before the grant expired; and no other mission changed.\<close>

theorem changes_need_a_grant:
  fixes s :: "(mission_event, 'f) memory_store"
  assumes "add_grants dp [] vs = Inr grants" and "memory_inv s"
    and "gateway_command dp load_events (append_events dp fp) memory_conflict (resolve_grant grants) sources clock s v = (answer, s')"
    and "s' \<noteq> s"
  shows "\<exists>q g issued now expiry. decode_command_request dp v = Inr q \<and> g \<in> set grants \<and> cg_id g = cq_capabilityId q \<and>
    cg_sessionId g = cq_sessionId q \<and> cg_missionId g = cq_missionId q \<and> cq_command q \<in> set (cg_commands g) \<and>
    dp clock = Some now \<and> dp (cg_expiresAt g) = Some expiry \<and> now < expiry \<and> dp (cq_issuedAt q) = Some issued \<and> \<bar>issued - now\<bar> \<le> 300000 \<and>
    (\<forall>m. m \<noteq> cg_missionId g \<longrightarrow> load_events s' m = load_events s m)"
proof -
  have grants: "\<forall>g \<in> set grants. canonical_time dp (cg_expiresAt g)" using added_grants [OF assms(1)] by simp
  from assms(3,4) obtain q where q: "admit_command dp (resolve_grant grants) clock v = Inr q" and
    run: "snd (execute_client_command load_events (append_events dp fp) memory_conflict s q) = s'"
    by (auto simp: gateway_command_def split: sum.splits prod.splits)
  have frame: "load_events s' m = load_events s m" if "m \<noteq> cq_missionId q" for m
  proof (cases "s' = s")
    case False
    with run obtain items appended where "append_events dp fp s (cq_missionId q) (cq_expectedVersion q) (scoped_key q) items = Inr (appended, s')"
      by (auto simp: execute_client_command_def split: sum.splits prod.splits)
    from memory.append_frame [OF assms(2) this that] show ?thesis .
  qed simp
  from admitted_command [OF q grants, unfolded max_clock_skew_def] obtain g issued now expiry where
    g: "decode_command_request dp v = Inr q" "g \<in> set grants" "cg_id g = cq_capabilityId q" "cg_sessionId g = cq_sessionId q"
      "cg_missionId g = cq_missionId q" "cq_command q \<in> set (cg_commands g)" "dp clock = Some now" "dp (cg_expiresAt g) = Some expiry"
      "now < expiry" "dp (cq_issuedAt q) = Some issued" "\<bar>issued - now\<bar> \<le> 300000" by blast
  moreover have "\<forall>m. m \<noteq> cg_missionId g \<longrightarrow> load_events s' m = load_events s m" using frame g(5) by simp
  ultimately show ?thesis by blast
qed

lemma changes_need_a_grant_witness:
  "\<exists>s'. snd (gateway_command client_clock load_events (append_events client_clock (\<lambda>_. ())) memory_conflict (resolve_grant client_grants)
      client_activity sample_now client_store pause_value) = s' \<and> s' \<noteq> client_store \<and>
    (\<exists>g \<in> set client_grants. PauseMission \<in> set (cg_commands g) \<and> load_events s' ''n'' = load_events client_store ''n'')"
proof -
  have authorized: "authorize_client client_clock (resolve_grant client_grants) ''cap'' ''s'' ''m'' (Some PauseMission) sample_now = Inr ()"
    by (simp add: authorize_client_def resolve_grant_def client_grants_def not_after_def)
  have admitted: "admit_command client_clock (resolve_grant client_grants) sample_now pause_value = Inr pause_request"
    by (simp add: admit_command_def pause_decoded runtime_now_def authorized assert_request_time_def max_clock_skew_def)
      (simp add: pause_request_def authorized max_clock_skew_def)
  obtain s' where run: "execute_client_command load_events (append_events client_clock (\<lambda>_. ())) memory_conflict client_store pause_request =
      (Inr (Applied, commanded PauseMission client_snapshot 1), s')" and changed: "s' \<noteq> client_store"
    using paused_store by auto
  then obtain answer where answer: "gateway_command client_clock load_events (append_events client_clock (\<lambda>_. ())) memory_conflict (resolve_grant client_grants)
      client_activity sample_now client_store pause_value = (answer, s')"
    by (simp add: gateway_command_def admitted)
  from changes_need_a_grant [OF client_granted client_store_inv this changed] obtain q g where
    g: "decode_command_request client_clock pause_value = Inr q" "g \<in> set client_grants" "cg_missionId g = cq_missionId q"
    "cq_command q \<in> set (cg_commands g)" "\<forall>m. m \<noteq> cg_missionId g \<longrightarrow> load_events s' m = load_events client_store m" by blast
  then have "q = pause_request" using pause_decoded by simp
  then have "PauseMission \<in> set (cg_commands g)" "load_events s' ''n'' = load_events client_store ''n''"
    using g by (simp_all add: pause_request_def)
  then show ?thesis using answer changed g(2) by auto
qed

text \<open>The key of a request does not name its session: a session name with a colon gives the key of another session.\<close>

lemma scoped_keys_collide:
  "scoped_key (q\<lparr>cq_sessionId := ''a:b'', cq_idempotencyKey := ''c''\<rparr>) = scoped_key (q\<lparr>cq_sessionId := ''a'', cq_idempotencyKey := ''b:c''\<rparr>)"
  by (simp add: scoped_key_def)

end
