(* ===== verification/Memory.thy ===== *)
theory Memory
  imports VerificationFacts
begin

text \<open>
  The memory store (\<open>src/memory/types.ts\<close>, \<open>store.ts\<close>): what a mission learnt, written and erased under
  optimistic versions and retrieved by scope, kind and score. Records are an association list in the
  insertion order of the \<open>Map\<close>, since retrieval iterates them. \<open>hash\<close> is SHA-256 of a text, \<open>digest\<close> SHA-256 of the
  JSON text of a canonical value, \<open>lc\<close> is \<open>localeCompare\<close>. Commands have their declared types. A throwing
  operation leaves the store as it was: every throw comes before the first change.
\<close>

section \<open>Types\<close>

datatype memory_kind = Episodic | ProjectMemory | Semantic | UserPreference | Working

primrec kind_text :: "memory_kind \<Rightarrow> string" where
  "kind_text Episodic = ''episodic''"
| "kind_text ProjectMemory = ''project''"
| "kind_text Semantic = ''semantic''"
| "kind_text UserPreference = ''user_preference''"
| "kind_text Working = ''working''"

datatype memory_sensitivity = InternalMemory | PublicMemory | SensitiveMemory

primrec sensitivity_text :: "memory_sensitivity \<Rightarrow> string" where
  "sensitivity_text InternalMemory = ''internal''"
| "sensitivity_text PublicMemory = ''public''"
| "sensitivity_text SensitiveMemory = ''sensitive''"

datatype memory_source = ExplicitUser | ImportSource | ModelSummary | RepositorySource | ToolSource | VerifiedLearning

primrec source_text :: "memory_source \<Rightarrow> string" where
  "source_text ExplicitUser = ''explicit_user''"
| "source_text ImportSource = ''import''"
| "source_text ModelSummary = ''model_summary''"
| "source_text RepositorySource = ''repository''"
| "source_text ToolSource = ''tool''"
| "source_text VerifiedLearning = ''verified_learning''"

record memory_scope =
  scope_userId :: string
  scope_projectId :: string
  scope_missionId :: "string option"

record memory_provenance =
  pv_sourceClass :: memory_source
  pv_reference :: string
  pv_sourceVersion :: string
  pv_observedAt :: string
  pv_contentHash :: string

record memory_input =
  mi_id :: string
  mi_key :: string
  mi_kind :: memory_kind
  mi_scope :: memory_scope
  mi_content :: string
  mi_tags :: "string list"
  mi_sensitivity :: memory_sensitivity
  mi_provenance :: memory_provenance
  mi_expiresAt :: "string option"

record active_memory =
  am_id :: string
  am_scope :: memory_scope
  am_version :: int
  am_updatedAt :: string
  am_recordHash :: string
  am_key :: string
  am_kind :: memory_kind
  am_tags :: "string list"
  am_sensitivity :: memory_sensitivity
  am_content :: string
  am_provenance :: memory_provenance
  am_expiresAt :: "string option"

record tombstone =
  tm_id :: string
  tm_scope :: memory_scope
  tm_version :: int
  tm_updatedAt :: string
  tm_recordHash :: string
  tm_previousContentHash :: string

datatype stored_memory = Active active_memory | Tombstoned tombstone

primrec stored_id :: "stored_memory \<Rightarrow> string" where
  "stored_id (Active r) = am_id r"
| "stored_id (Tombstoned t) = tm_id t"

primrec stored_scope :: "stored_memory \<Rightarrow> memory_scope" where
  "stored_scope (Active r) = am_scope r"
| "stored_scope (Tombstoned t) = tm_scope t"

primrec stored_version :: "stored_memory \<Rightarrow> int" where
  "stored_version (Active r) = am_version r"
| "stored_version (Tombstoned t) = tm_version t"

primrec stored_updatedAt :: "stored_memory \<Rightarrow> string" where
  "stored_updatedAt (Active r) = am_updatedAt r"
| "stored_updatedAt (Tombstoned t) = tm_updatedAt t"

primrec stored_hash :: "stored_memory \<Rightarrow> string" where
  "stored_hash (Active r) = am_recordHash r"
| "stored_hash (Tombstoned t) = tm_recordHash t"

datatype memory_action = WrittenMemory | TombstonedMemory

record memory_revision =
  mv_action :: memory_action
  mv_id :: string
  mv_recordHash :: string
  mv_sourceReference :: string
  mv_updatedAt :: string
  mv_version :: int

record write_command =
  wc_expectedVersion :: int
  wc_idempotencyKey :: string
  wc_record :: memory_input
  wc_updatedAt :: string

record tombstone_command =
  xc_expectedVersion :: int
  xc_id :: string
  xc_idempotencyKey :: string
  xc_scope :: memory_scope
  xc_updatedAt :: string

record write_result =
  wr_record :: stored_memory
  wr_replayed :: bool
  wr_storeRevision :: int

record retrieval_query =
  rq_userId :: string
  rq_projectId :: string
  rq_missionId :: "string option"
  rq_kinds :: "memory_kind list"
  rq_text :: string
  rq_tags :: "string list option"
  rq_limit :: int
  rq_evaluatedAt :: string

record retrieved_memory =
  rm_record :: active_memory
  rm_score :: int

record memory_change =
  mc_id :: string
  mc_scope :: memory_scope
  mc_storeRevision :: int

record memory_replay =
  rp_fingerprint :: string
  rp_result :: write_result

record memory_state =
  mem_records :: "(string \<times> stored_memory) list"
  mem_history :: "string \<rightharpoonup> memory_revision list"
  mem_idempotency :: "string \<rightharpoonup> memory_replay"
  mem_revision :: int

definition empty_memory :: memory_state where
  "empty_memory = \<lparr>mem_records = [], mem_history = Map.empty, mem_idempotency = Map.empty, mem_revision = 0\<rparr>"

datatype memory_error = MemoryTypeError string | MemoryConflict string

type_synonym 'a remembered = "(memory_error, 'a) Prelude.result"

section \<open>Checks\<close>

definition memory_type_error :: "string \<Rightarrow> 'a remembered" where
  "memory_type_error message = Inl (MemoryTypeError message)"

definition memory_text :: "string \<Rightarrow> string \<Rightarrow> nat \<Rightarrow> unit remembered" where
  "memory_text v name maximum =
     (if blank v \<or> maximum < length v then memory_type_error (name @ '' must contain 1-'' @ nat_text maximum @ '' characters.'') else Inr ())"

definition memory_identifier :: "string \<Rightarrow> string \<Rightarrow> unit remembered" where
  "memory_identifier v name =
     and_then (memory_text v name 200) (\<lambda>_.
     if CHR 0x00 \<in> set v then memory_type_error (name @ '' must not contain a null character.'') else Inr ())"

definition memory_version :: "int \<Rightarrow> unit remembered" where
  "memory_version v = (if \<not> safe_integer v \<or> v < 0 then memory_type_error ''expectedVersion must be a non-negative safe integer.'' else Inr ())"

definition memory_timestamp :: "string \<Rightarrow> string \<Rightarrow> int remembered" where
  "memory_timestamp v name =
     (if \<not> timestamp_pattern v then memory_type_error (name @ '' must be a canonical UTC timestamp.'')
      else if iso_text (parse_timestamp v) \<noteq> v then memory_type_error (name @ '' must be a valid canonical UTC timestamp.'')
      else Inr (parse_timestamp v))"

definition validate_scope :: "memory_scope \<Rightarrow> unit remembered" where
  "validate_scope s =
     and_then (memory_identifier (scope_userId s) ''scope.userId'') (\<lambda>_.
     and_then (memory_identifier (scope_projectId s) ''scope.projectId'') (\<lambda>_.
     case scope_missionId s of None \<Rightarrow> Inr () | Some m \<Rightarrow> memory_identifier m ''scope.missionId''))"

text \<open>\<open>trim\<close> and \<open>toLocaleLowerCase("en-US")\<close> on the code units a \<open>char\<close> can hold.\<close>

definition js_trim :: "string \<Rightarrow> string" where
  "js_trim s = rev (dropWhile js_space (rev (dropWhile js_space s)))"

definition lower_unit :: "char \<Rightarrow> char" where
  "lower_unit c = (let n = of_char c :: nat in
     if 65 \<le> n \<and> n \<le> 90 \<or> 192 \<le> n \<and> n \<le> 222 \<and> n \<noteq> 215 then char_of (n + 32) else c)"

definition js_lower :: "string \<Rightarrow> string" where
  "js_lower s = map lower_unit s"

definition normalize_tag :: "string \<Rightarrow> string remembered" where
  "normalize_tag t =
     (let v = js_lower (js_trim t) in
      if v = [] \<or> 64 < length v then memory_type_error ''Each memory tag must contain 1-64 characters.'' else Inr v)"

definition normalize_tags :: "string list \<Rightarrow> string list remembered" where
  "normalize_tags ts =
     (if 32 < length ts then memory_type_error ''Memory tags are limited to 32.''
      else and_then (traverse normalize_tag ts) (\<lambda>vs.
      if \<not> distinct vs then memory_type_error ''Memory tags must be unique after normalization.''
      else Inr (js_sort code_unit_compare vs)))"

definition validate_write_command :: "(string \<Rightarrow> string) \<Rightarrow> write_command \<Rightarrow> unit remembered" where
  "validate_write_command hash c =
     (let r = wc_record c; p = mi_provenance r in
     and_then (memory_version (wc_expectedVersion c)) (\<lambda>_.
     and_then (memory_identifier (wc_idempotencyKey c) ''idempotencyKey'') (\<lambda>_.
     and_then (memory_timestamp (wc_updatedAt c) ''updatedAt'') (\<lambda>updatedAt.
     and_then (memory_identifier (mi_id r) ''record.id'') (\<lambda>_.
     and_then (memory_identifier (mi_key r) ''record.key'') (\<lambda>_.
     and_then (validate_scope (mi_scope r)) (\<lambda>_.
     and_then (if blank (mi_content r) \<or> 65536 < length (mi_content r)
       then memory_type_error ''record.content must contain 1-65536 characters.'' else Inr ()) (\<lambda>_.
     and_then (normalize_tags (mi_tags r)) (\<lambda>_.
     and_then (if mi_kind r = Working \<and> scope_missionId (mi_scope r) = None
       then memory_type_error ''Working memory requires a mission scope.'' else Inr ()) (\<lambda>_.
     and_then (if mi_kind r = UserPreference \<and> pv_sourceClass p \<noteq> ExplicitUser
       then memory_type_error ''User preferences require explicit user provenance.'' else Inr ()) (\<lambda>_.
     and_then (memory_text (pv_reference p) ''record.provenance.reference'' 1000) (\<lambda>_.
     and_then (memory_identifier (pv_sourceVersion p) ''record.provenance.sourceVersion'') (\<lambda>_.
     and_then (memory_timestamp (pv_observedAt p) ''record.provenance.observedAt'') (\<lambda>observedAt.
     and_then (if updatedAt < observedAt
       then memory_type_error ''Memory provenance cannot be observed after the write timestamp.'' else Inr ()) (\<lambda>_.
     and_then (if \<not> sha256_pattern (pv_contentHash p)
       then memory_type_error ''record.provenance.contentHash must be a lowercase SHA-256 digest.'' else Inr ()) (\<lambda>_.
     and_then (if hash (mi_content r) \<noteq> pv_contentHash p
       then memory_type_error ''record.provenance.contentHash does not match record.content.'' else Inr ()) (\<lambda>_.
     case mi_expiresAt r of None \<Rightarrow> Inr () | Some t \<Rightarrow> and_then (memory_timestamp t ''record.expiresAt'') (\<lambda>_. Inr ()))))))))))))))))))"

definition validate_tombstone_command :: "tombstone_command \<Rightarrow> unit remembered" where
  "validate_tombstone_command c =
     and_then (memory_version (xc_expectedVersion c)) (\<lambda>_.
     and_then (if xc_expectedVersion c = 0 then memory_type_error ''A tombstone requires an existing positive version.'' else Inr ()) (\<lambda>_.
     and_then (memory_identifier (xc_id c) ''id'') (\<lambda>_.
     and_then (memory_identifier (xc_idempotencyKey c) ''idempotencyKey'') (\<lambda>_.
     and_then (validate_scope (xc_scope c)) (\<lambda>_.
     and_then (memory_timestamp (xc_updatedAt c) ''updatedAt'') (\<lambda>_. Inr ()))))))"

definition validate_retrieval_query :: "retrieval_query \<Rightarrow> unit remembered" where
  "validate_retrieval_query q =
     and_then (memory_identifier (rq_userId q) ''query.userId'') (\<lambda>_.
     and_then (memory_identifier (rq_projectId q) ''query.projectId'') (\<lambda>_.
     and_then (case rq_missionId q of None \<Rightarrow> Inr () | Some m \<Rightarrow> memory_identifier m ''query.missionId'') (\<lambda>_.
     and_then (if rq_kinds q = [] \<or> \<not> distinct (rq_kinds q) then memory_type_error ''query.kinds must be a non-empty unique list.'' else Inr ()) (\<lambda>_.
     and_then (if Working \<in> set (rq_kinds q) \<and> rq_missionId q = None
       then memory_type_error ''Retrieving working memory requires a mission scope.'' else Inr ()) (\<lambda>_.
     and_then (if \<not> safe_integer (rq_limit q) \<or> rq_limit q < 1 \<or> 100 < rq_limit q
       then memory_type_error ''query.limit must be an integer from 1 to 100.'' else Inr ()) (\<lambda>_.
     and_then (if 65536 < length (rq_text q) then memory_type_error ''query.text is too long.'' else Inr ()) (\<lambda>_.
     and_then (normalize_tags (case rq_tags q of None \<Rightarrow> [] | Some ts \<Rightarrow> ts)) (\<lambda>_.
     and_then (memory_timestamp (rq_evaluatedAt q) ''query.evaluatedAt'') (\<lambda>_. Inr ())))))))))"

end
