(* ===== verification/MemoryStore.thy ===== *)
theory MemoryStore
  imports Memory
begin

text \<open>
  \<open>InMemoryMemoryStore\<close> (\<open>src/memory/store.ts\<close>): hashes, locators, \<open>write\<close>, \<open>tombstone\<close>, \<open>get\<close>, \<open>history\<close> and
  \<open>retrieve\<close>. The change a listener is sent is the second part of a result; a listener cannot affect the
  store's answer, as what it throws is swallowed.
\<close>

section \<open>Values that are hashed\<close>

definition optional_text :: "string \<Rightarrow> string option \<Rightarrow> (string \<times> json) list" where
  "optional_text k v = (case v of None \<Rightarrow> [] | Some t \<Rightarrow> [(k, JStr t)])"

definition scope_value :: "memory_scope \<Rightarrow> json" where
  "scope_value s = JObj (optional_text ''missionId'' (scope_missionId s) @
     [(''projectId'', JStr (scope_projectId s)), (''userId'', JStr (scope_userId s))])"

definition memory_provenance_value :: "memory_provenance \<Rightarrow> json" where
  "memory_provenance_value p = JObj
     [(''contentHash'', JStr (pv_contentHash p)), (''observedAt'', JStr (pv_observedAt p)), (''reference'', JStr (pv_reference p)),
      (''sourceClass'', JStr (source_text (pv_sourceClass p))), (''sourceVersion'', JStr (pv_sourceVersion p))]"

definition memory_input_value :: "memory_input \<Rightarrow> json" where
  "memory_input_value r = JObj
     ([(''id'', JStr (mi_id r)), (''key'', JStr (mi_key r)), (''kind'', JStr (kind_text (mi_kind r))), (''scope'', scope_value (mi_scope r)),
       (''content'', JStr (mi_content r)), (''tags'', JArr (map JStr (mi_tags r))), (''sensitivity'', JStr (sensitivity_text (mi_sensitivity r))),
       (''provenance'', memory_provenance_value (mi_provenance r))] @ optional_text ''expiresAt'' (mi_expiresAt r))"

definition write_command_value :: "write_command \<Rightarrow> json" where
  "write_command_value c = JObj
     [(''expectedVersion'', JNum (of_int (wc_expectedVersion c))), (''idempotencyKey'', JStr (wc_idempotencyKey c)),
      (''record'', memory_input_value (wc_record c)), (''updatedAt'', JStr (wc_updatedAt c))]"

definition tombstone_command_value :: "tombstone_command \<Rightarrow> json" where
  "tombstone_command_value c = JObj
     [(''expectedVersion'', JNum (of_int (xc_expectedVersion c))), (''id'', JStr (xc_id c)), (''idempotencyKey'', JStr (xc_idempotencyKey c)),
      (''scope'', scope_value (xc_scope c)), (''updatedAt'', JStr (xc_updatedAt c))]"

text \<open>\<open>recordWithoutHash\<close>.\<close>

definition active_body :: "active_memory \<Rightarrow> json" where
  "active_body r = JObj
     ([(''content'', JStr (am_content r))] @ optional_text ''expiresAt'' (am_expiresAt r) @
      [(''id'', JStr (am_id r)), (''key'', JStr (am_key r)), (''kind'', JStr (kind_text (am_kind r))),
       (''provenance'', memory_provenance_value (am_provenance r)), (''scope'', scope_value (am_scope r)),
       (''sensitivity'', JStr (sensitivity_text (am_sensitivity r))), (''status'', JStr ''active''), (''tags'', JArr (map JStr (am_tags r))),
       (''updatedAt'', JStr (am_updatedAt r)), (''version'', JNum (of_int (am_version r)))])"

definition tombstone_body :: "tombstone \<Rightarrow> json" where
  "tombstone_body t = JObj
     [(''content'', JNull), (''id'', JStr (tm_id t)), (''previousContentHash'', JStr (tm_previousContentHash t)), (''scope'', scope_value (tm_scope t)),
      (''status'', JStr ''tombstoned''), (''updatedAt'', JStr (tm_updatedAt t)), (''version'', JNum (of_int (tm_version t)))]"

definition memory_hash :: "(json \<Rightarrow> string) \<Rightarrow> json \<Rightarrow> string" where
  "memory_hash digest v = digest (canonicalize v)"

section \<open>Locators\<close>

definition memory_locator :: "string \<Rightarrow> memory_scope \<Rightarrow> string" where
  "memory_locator i s = scope_userId s @ CHR 0x00 # scope_projectId s @ CHR 0x00 #
     (case scope_missionId s of None \<Rightarrow> [] | Some m \<Rightarrow> m) @ CHR 0x00 # i"

definition idempotency_locator :: "string \<Rightarrow> string \<Rightarrow> string" where
  "idempotency_locator locator key = locator @ CHR 0x00 # key"

section \<open>Changes\<close>

text \<open>\<open>Map.set\<close>: a known key keeps its place.\<close>

primrec put_record :: "string \<Rightarrow> stored_memory \<Rightarrow> (string \<times> stored_memory) list \<Rightarrow> (string \<times> stored_memory) list" where
  "put_record k r [] = [(k, r)]"
| "put_record k r (e # es) = (if fst e = k then (k, r) # es else e # put_record k r es)"

definition commit_memory :: "string \<Rightarrow> stored_memory \<Rightarrow> memory_revision \<Rightarrow> memory_state \<Rightarrow> memory_state" where
  "commit_memory locator r revision s =
     s\<lparr>mem_revision := mem_revision s + 1, mem_records := put_record locator r (mem_records s),
       mem_history := (mem_history s)(locator \<mapsto> (case mem_history s locator of None \<Rightarrow> [] | Some rs \<Rightarrow> rs) @ [revision])\<rparr>"

definition find_replay :: "memory_state \<Rightarrow> string \<Rightarrow> string \<Rightarrow> string \<Rightarrow> write_result option remembered" where
  "find_replay s locator key fingerprint =
     (case mem_idempotency s (idempotency_locator locator key) of
        None \<Rightarrow> Inr None
      | Some r \<Rightarrow>
          if rp_fingerprint r \<noteq> fingerprint then Inl (MemoryConflict ''Idempotency key was reused for a different memory command.'')
          else Inr (Some ((rp_result r)\<lparr>wr_replayed := True\<rparr>)))"

definition remember_result :: "string \<Rightarrow> string \<Rightarrow> string \<Rightarrow> write_result \<Rightarrow> memory_state \<Rightarrow> memory_state" where
  "remember_result locator key fingerprint r s =
     s\<lparr>mem_idempotency := (mem_idempotency s)(idempotency_locator locator key \<mapsto> \<lparr>rp_fingerprint = fingerprint, rp_result = r\<rparr>)\<rparr>"

definition forget_results :: "string \<Rightarrow> memory_state \<Rightarrow> memory_state" where
  "forget_results locator s =
     s\<lparr>mem_idempotency := (\<lambda>k. if starts_with k (locator @ [CHR 0x00]) then None else mem_idempotency s k)\<rparr>"

definition change_of :: "write_result \<Rightarrow> memory_change" where
  "change_of r = \<lparr>mc_id = stored_id (wr_record r), mc_scope = stored_scope (wr_record r), mc_storeRevision = wr_storeRevision r\<rparr>"

definition version_conflict :: "int \<Rightarrow> int \<Rightarrow> memory_error" where
  "version_conflict expected current = MemoryConflict (''Optimistic version conflict: expected '' @ nat_text (nat expected) @
     '', current '' @ nat_text (nat current) @ ''.'')"

definition new_active :: "(json \<Rightarrow> string) \<Rightarrow> write_command \<Rightarrow> string list \<Rightarrow> int \<Rightarrow> active_memory" where
  "new_active digest c tags v =
     (let r = wc_record c;
          body = \<lparr>am_id = mi_id r, am_scope = mi_scope r, am_version = v, am_updatedAt = wc_updatedAt c, am_recordHash = [], am_key = mi_key r,
            am_kind = mi_kind r, am_tags = tags, am_sensitivity = mi_sensitivity r, am_content = mi_content r, am_provenance = mi_provenance r,
            am_expiresAt = mi_expiresAt r\<rparr> in
      body\<lparr>am_recordHash := memory_hash digest (active_body body)\<rparr>)"

definition new_tombstone :: "(json \<Rightarrow> string) \<Rightarrow> tombstone_command \<Rightarrow> active_memory \<Rightarrow> tombstone" where
  "new_tombstone digest c r =
     (let body = \<lparr>tm_id = am_id r, tm_scope = am_scope r, tm_version = am_version r + 1, tm_updatedAt = xc_updatedAt c, tm_recordHash = [],
            tm_previousContentHash = pv_contentHash (am_provenance r)\<rparr> in
      body\<lparr>tm_recordHash := memory_hash digest (tombstone_body body)\<rparr>)"

definition revision_of :: "stored_memory \<Rightarrow> memory_action \<Rightarrow> string \<Rightarrow> memory_revision" where
  "revision_of r action reference = \<lparr>mv_action = action, mv_id = stored_id r, mv_recordHash = stored_hash r, mv_sourceReference = reference,
     mv_updatedAt = stored_updatedAt r, mv_version = stored_version r\<rparr>"

text \<open>The guards of \<open>write\<close> on the current record.\<close>

definition check_current :: "stored_memory option \<Rightarrow> write_command \<Rightarrow> unit remembered" where
  "check_current current c =
     (let currentVersion = (case current of None \<Rightarrow> 0 | Some r \<Rightarrow> stored_version r) in
      if currentVersion \<noteq> wc_expectedVersion c then Inl (version_conflict (wc_expectedVersion c) currentVersion)
      else case current of
          None \<Rightarrow> Inr ()
        | Some (Tombstoned t) \<Rightarrow> Inl (MemoryConflict ''Tombstoned memory cannot be restored under the same ID.'')
        | Some (Active r) \<Rightarrow> if parse_timestamp (wc_updatedAt c) < parse_timestamp (am_updatedAt r)
            then Inl (MemoryConflict ''Memory update timestamps must not move backwards.'') else Inr ())"

definition write_memory :: "(string \<Rightarrow> string) \<Rightarrow> (json \<Rightarrow> string) \<Rightarrow> memory_state \<Rightarrow> write_command
    \<Rightarrow> (write_result \<times> memory_change list \<times> memory_state) remembered" where
  "write_memory hash digest s c =
     and_then (validate_write_command hash c) (\<lambda>_.
     let locator = memory_locator (mi_id (wc_record c)) (mi_scope (wc_record c)); fingerprint = memory_hash digest (write_command_value c) in
     and_then (find_replay s locator (wc_idempotencyKey c) fingerprint) (\<lambda>replay.
     case replay of
       Some r \<Rightarrow> Inr (r, [], s)
     | None \<Rightarrow>
         let current = map_of (mem_records s) locator in
         and_then (check_current current c) (\<lambda>_.
         and_then (normalize_tags (mi_tags (wc_record c))) (\<lambda>tags.
         let r = new_active digest c tags ((case current of None \<Rightarrow> 0 | Some m \<Rightarrow> stored_version m) + 1);
             s' = commit_memory locator (Active r) (revision_of (Active r) WrittenMemory (pv_reference (am_provenance r))) s;
             answer = \<lparr>wr_record = Active r, wr_replayed = False, wr_storeRevision = mem_revision s'\<rparr> in
         Inr (answer, [change_of answer], remember_result locator (wc_idempotencyKey c) fingerprint answer s')))))"

definition tombstone_memory :: "(json \<Rightarrow> string) \<Rightarrow> memory_state \<Rightarrow> tombstone_command
    \<Rightarrow> (write_result \<times> memory_change list \<times> memory_state) remembered" where
  "tombstone_memory digest s c =
     and_then (validate_tombstone_command c) (\<lambda>_.
     let locator = memory_locator (xc_id c) (xc_scope c); fingerprint = memory_hash digest (tombstone_command_value c) in
     and_then (find_replay s locator (xc_idempotencyKey c) fingerprint) (\<lambda>replay.
     case replay of
       Some r \<Rightarrow> Inr (r, [], s)
     | None \<Rightarrow>
         (case map_of (mem_records s) locator of
            Some (Active r) \<Rightarrow>
              if am_version r \<noteq> xc_expectedVersion c then Inl (MemoryConflict ''Memory scope or optimistic version did not match.'')
              else if parse_timestamp (xc_updatedAt c) < parse_timestamp (am_updatedAt r)
              then Inl (MemoryConflict ''Memory update timestamps must not move backwards.'')
              else let t = new_tombstone digest c r;
                       s' = commit_memory locator (Tombstoned t) (revision_of (Tombstoned t) TombstonedMemory (pv_reference (am_provenance r))) s;
                       answer = \<lparr>wr_record = Tombstoned t, wr_replayed = False, wr_storeRevision = mem_revision s'\<rparr> in
                   Inr (answer, [change_of answer], remember_result locator (xc_idempotencyKey c) fingerprint answer (forget_results locator s'))
          | _ \<Rightarrow> Inl (MemoryConflict ''Memory scope or optimistic version did not match.''))))"

section \<open>Reading\<close>

definition get_memory :: "memory_state \<Rightarrow> string \<Rightarrow> memory_scope \<Rightarrow> stored_memory option remembered" where
  "get_memory s i sc = and_then (memory_identifier i ''id'') (\<lambda>_. and_then (validate_scope sc) (\<lambda>_. Inr (map_of (mem_records s) (memory_locator i sc))))"

definition memory_history :: "memory_state \<Rightarrow> string \<Rightarrow> memory_scope \<Rightarrow> memory_revision list remembered" where
  "memory_history s i sc = and_then (memory_identifier i ''id'') (\<lambda>_. and_then (validate_scope sc) (\<lambda>_.
     Inr (case mem_history s (memory_locator i sc) of None \<Rightarrow> [] | Some rs \<Rightarrow> rs)))"

text \<open>\<open>/[\p{L}\p{N}_-]+/gu\<close> on the code units a \<open>char\<close> can hold.\<close>

definition word_unit :: "char \<Rightarrow> bool" where
  "word_unit c = (let n = of_char c :: nat in
     48 \<le> n \<and> n \<le> 57 \<or> 65 \<le> n \<and> n \<le> 90 \<or> 97 \<le> n \<and> n \<le> 122 \<or> n \<in> {45, 95, 170, 178, 179, 181, 185, 186, 188, 189, 190} \<or>
     192 \<le> n \<and> n \<noteq> 215 \<and> n \<noteq> 247)"

function word_runs :: "string \<Rightarrow> string list" where
  "word_runs s = (case dropWhile (\<lambda>c. \<not> word_unit c) s of
      [] \<Rightarrow> []
    | c # cs \<Rightarrow> (c # takeWhile word_unit cs) # word_runs (dropWhile word_unit cs))"
  by pat_completeness auto

termination word_runs
proof (relation "measure length")
  fix s c cs
  assume "dropWhile (\<lambda>c. \<not> word_unit c) s = c # cs"
  then have "length cs < length s" by (metis length_dropWhile_le length_Cons Suc_le_eq)
  then show "(dropWhile word_unit cs, s) \<in> measure length" using length_dropWhile_le [of word_unit cs] by simp
qed simp

definition tokenize :: "string \<Rightarrow> string list" where
  "tokenize s = js_unique (word_runs (js_lower s))"

definition score_record :: "active_memory \<Rightarrow> string list \<Rightarrow> string list \<Rightarrow> int" where
  "score_record r wantedTokens wantedTags =
     (let keyTokens = tokenize (am_key r); contentTokens = tokenize (am_content r);
          score = foldl (\<lambda>score tag. if tag \<in> set (am_tags r) then score + 20 else score) 0 wantedTags in
      foldl (\<lambda>score token.
        score + (if token \<in> set (am_tags r) then 8 else 0) + (if token \<in> set keyTokens then 4 else 0) +
          (if token \<in> set contentTokens then 1 else 0)) score wantedTokens)"

text \<open>The filters of the loop, in their order.\<close>

definition match_record :: "retrieval_query \<Rightarrow> int \<Rightarrow> string list \<Rightarrow> string list \<Rightarrow> stored_memory \<Rightarrow> retrieved_memory option" where
  "match_record q evaluatedAt wantedTokens wantedTags m =
     (case m of
        Tombstoned t \<Rightarrow> None
      | Active r \<Rightarrow>
          if scope_userId (am_scope r) \<noteq> rq_userId q \<or> scope_projectId (am_scope r) \<noteq> rq_projectId q then None
          else if am_kind r \<notin> set (rq_kinds q) then None
          else if pv_sourceClass (am_provenance r) = VerifiedLearning \<and> ''m13-learning'' \<notin> set wantedTags then None
          else if am_kind r = Working \<and> scope_missionId (am_scope r) \<noteq> rq_missionId q then None
          else if (case am_expiresAt r of None \<Rightarrow> False | Some t \<Rightarrow> parse_timestamp t \<le> evaluatedAt) then None
          else let score = score_record r wantedTokens wantedTags in
               if (wantedTokens \<noteq> [] \<or> wantedTags \<noteq> []) \<and> score = 0 then None
               else Some \<lparr>rm_record = r, rm_score = score\<rparr>)"

definition compare_matches :: "(string \<Rightarrow> string \<Rightarrow> int) \<Rightarrow> retrieved_memory \<Rightarrow> retrieved_memory \<Rightarrow> int" where
  "compare_matches lc a b =
     (let byScore = rm_score b - rm_score a; byTime = lc (am_updatedAt (rm_record b)) (am_updatedAt (rm_record a)) in
      if byScore \<noteq> 0 then byScore else if byTime \<noteq> 0 then byTime else lc (am_id (rm_record a)) (am_id (rm_record b)))"

definition retrieve_memory :: "(string \<Rightarrow> string \<Rightarrow> int) \<Rightarrow> memory_state \<Rightarrow> retrieval_query \<Rightarrow> retrieved_memory list remembered" where
  "retrieve_memory lc s q =
     and_then (validate_retrieval_query q) (\<lambda>_.
     and_then (normalize_tags (case rq_tags q of None \<Rightarrow> [] | Some ts \<Rightarrow> ts)) (\<lambda>wantedTags.
     let wantedTokens = tokenize (rq_text q);
         matches = List.map_filter (\<lambda>e. match_record q (parse_timestamp (rq_evaluatedAt q)) wantedTokens wantedTags (snd e)) (mem_records s) in
     Inr (take (nat (rq_limit q)) (js_sort (compare_matches lc) matches))))"

end
