(* ===== verification/MemoryFacts.thy ===== *)
theory MemoryFacts
  imports MemoryStore
begin

text \<open>
  Facts of the memory store: locators tell records apart, what each change does to the tables, and the
  invariant of every store that writes and erasures lead to.
\<close>

section \<open>Checks\<close>

lemma memory_type_error_Inr [result_simps]: "memory_type_error m = Inr x \<longleftrightarrow> False"
  by (simp add: memory_type_error_def)

lemma refused_type_Inr [result_simps]: "(if c then memory_type_error m else r) = Inr x \<longleftrightarrow> \<not> c \<and> r = Inr x"
  by (simp add: memory_type_error_def)

definition name_ok :: "string \<Rightarrow> bool" where
  "name_ok v \<longleftrightarrow> \<not> blank v \<and> length v \<le> 200 \<and> CHR 0x00 \<notin> set v"

lemma memory_identifier_Inr [result_simps]: "memory_identifier v name = Inr u \<longleftrightarrow> name_ok v"
  by (auto simp: memory_identifier_def memory_text_def memory_type_error_def name_ok_def)

lemma memory_version_Inr [result_simps]: "memory_version v = Inr u \<longleftrightarrow> safe_integer v \<and> 0 \<le> v"
  by (auto simp: memory_version_def memory_type_error_def)

definition instant_ok :: "string \<Rightarrow> bool" where
  "instant_ok v \<longleftrightarrow> timestamp_pattern v \<and> iso_text (parse_timestamp v) = v"

lemma memory_timestamp_Inr [result_simps]: "memory_timestamp v name = Inr t \<longleftrightarrow> instant_ok v \<and> t = parse_timestamp v"
  by (auto simp: memory_timestamp_def memory_type_error_def instant_ok_def)

definition scope_ok :: "memory_scope \<Rightarrow> bool" where
  "scope_ok s \<longleftrightarrow> name_ok (scope_userId s) \<and> name_ok (scope_projectId s) \<and> (\<forall>m. scope_missionId s = Some m \<longrightarrow> name_ok m)"

lemma validate_scope_Inr [result_simps]: "validate_scope s = Inr u \<longleftrightarrow> scope_ok s"
  by (auto simp: validate_scope_def and_then_Inr memory_identifier_Inr scope_ok_def split: option.splits)

lemma validated_write:
  assumes "validate_write_command hash c = Inr ()"
  shows "name_ok (wc_idempotencyKey c)" "name_ok (mi_id (wc_record c))" "scope_ok (mi_scope (wc_record c))" "instant_ok (wc_updatedAt c)"
    "hash (mi_content (wc_record c)) = pv_contentHash (mi_provenance (wc_record c))"
    "mi_kind (wc_record c) = Working \<longrightarrow> scope_missionId (mi_scope (wc_record c)) \<noteq> None"
    "mi_kind (wc_record c) = UserPreference \<longrightarrow> pv_sourceClass (mi_provenance (wc_record c)) = ExplicitUser"
  using assms by (auto simp: validate_write_command_def Let_def and_then_Inr refused_type_Inr memory_identifier_Inr validate_scope_Inr memory_timestamp_Inr)

lemma validated_tombstone:
  assumes "validate_tombstone_command c = Inr ()"
  shows "name_ok (xc_id c)" "scope_ok (xc_scope c)" "instant_ok (xc_updatedAt c)" "name_ok (xc_idempotencyKey c)"
  using assms by (auto simp: validate_tombstone_command_def and_then_Inr refused_type_Inr memory_identifier_Inr validate_scope_Inr memory_timestamp_Inr)

section \<open>Locators\<close>

lemma marked_eq: "CHR 0x00 \<notin> set x \<Longrightarrow> CHR 0x00 \<notin> set y \<Longrightarrow> x @ CHR 0x00 # a = y @ CHR 0x00 # b \<longleftrightarrow> x = y \<and> a = b"
proof (induction x arbitrary: y)
  case Nil
  then show ?case by (cases y) auto
next
  case (Cons c x)
  then show ?case by (cases y) auto
qed

definition mission_text :: "memory_scope \<Rightarrow> string" where
  "mission_text s = (case scope_missionId s of None \<Rightarrow> [] | Some m \<Rightarrow> m)"

lemma scope_texts:
  assumes "scope_ok s"
  shows "CHR 0x00 \<notin> set (scope_userId s)" "CHR 0x00 \<notin> set (scope_projectId s)" "CHR 0x00 \<notin> set (mission_text s)"
  using assms by (auto simp: scope_ok_def name_ok_def mission_text_def split: option.splits)

lemma scope_eq:
  assumes "scope_ok s" "scope_ok t"
  shows "s = t \<longleftrightarrow> scope_userId s = scope_userId t \<and> scope_projectId s = scope_projectId t \<and> mission_text s = mission_text t"
  using assms by (cases s; cases t) (auto simp: scope_ok_def name_ok_def mission_text_def split: option.splits)

lemma keyed_locator_eq:
  assumes "name_ok i" "name_ok j" "scope_ok s" "scope_ok t"
  shows "idempotency_locator (memory_locator i s) k = idempotency_locator (memory_locator j t) l \<longleftrightarrow> i = j \<and> s = t \<and> k = l"
proof -
  have names: "CHR 0x00 \<notin> set i" "CHR 0x00 \<notin> set j" using assms(1,2) by (simp_all add: name_ok_def)
  have "idempotency_locator (memory_locator i s) k = scope_userId s @ CHR 0x00 # scope_projectId s @ CHR 0x00 # mission_text s @ CHR 0x00 # i @ CHR 0x00 # k"
    for i s k by (simp add: idempotency_locator_def memory_locator_def mission_text_def)
  then show ?thesis
    by (simp add: marked_eq scope_texts [OF assms(3)] scope_texts [OF assms(4)] names scope_eq [OF assms(3,4)]) blast
qed

lemma locator_eq:
  assumes "name_ok i" "name_ok j" "scope_ok s" "scope_ok t"
  shows "memory_locator i s = memory_locator j t \<longleftrightarrow> i = j \<and> s = t"
  using keyed_locator_eq [OF assms, of "[]" "[]"] by (auto simp: idempotency_locator_def)

lemma keyed_prefix:
  assumes "name_ok i" "name_ok j" "scope_ok s" "scope_ok t"
  shows "starts_with (idempotency_locator (memory_locator i s) k) (memory_locator j t @ [CHR 0x00]) \<longleftrightarrow> i = j \<and> s = t"
proof
  assume "starts_with (idempotency_locator (memory_locator i s) k) (memory_locator j t @ [CHR 0x00])"
  then have "\<exists>l. idempotency_locator (memory_locator i s) k = (memory_locator j t @ [CHR 0x00]) @ l"
    unfolding starts_with_def by (metis append_take_drop_id)
  then obtain l where "idempotency_locator (memory_locator i s) k = idempotency_locator (memory_locator j t) l"
    by (auto simp: idempotency_locator_def)
  then show "i = j \<and> s = t" using keyed_locator_eq [OF assms] by simp
qed (simp add: starts_with_def idempotency_locator_def)

section \<open>Changes\<close>

lemma map_of_put [simp]: "map_of (put_record k r es) = (map_of es)(k \<mapsto> r)"
  by (induction es) auto

lemma keys_put: "fst ` set (put_record k r es) = insert k (fst ` set es)"
  by (induction es) auto

lemma distinct_put: "distinct (map fst es) \<Longrightarrow> distinct (map fst (put_record k r es))"
proof (induction es)
  case (Cons e es)
  then show ?case by (simp add: keys_put) metis
qed simp

definition total_versions :: "(string \<times> stored_memory) list \<Rightarrow> int" where
  "total_versions es = sum_list (map (\<lambda>e. stored_version (snd e)) es)"

lemma total_put:
  "distinct (map fst es) \<Longrightarrow> total_versions (put_record k r es) =
     total_versions es - (case map_of es k of None \<Rightarrow> 0 | Some m \<Rightarrow> stored_version m) + stored_version r"
proof (induction es)
  case (Cons e es)
  then show ?case by (auto simp: total_versions_def map_of_eq_None_iff split: option.splits)
qed (simp add: total_versions_def)

text \<open>What an accepted call did.\<close>

definition replay_of :: "memory_state \<Rightarrow> string \<Rightarrow> string \<Rightarrow> string \<Rightarrow> write_result \<Rightarrow> bool" where
  "replay_of s L k fingerprint r \<longleftrightarrow> (\<exists>a. mem_idempotency s (idempotency_locator L k) = Some \<lparr>rp_fingerprint = fingerprint, rp_result = a\<rparr> \<and>
     r = a\<lparr>wr_replayed := True\<rparr>)"

lemma find_replay_cases:
  "find_replay s L k f = Inr x \<longleftrightarrow> (case x of None \<Rightarrow> mem_idempotency s (idempotency_locator L k) = None | Some r \<Rightarrow> replay_of s L k f r)"
proof (cases "mem_idempotency s (idempotency_locator L k)")
  case (Some a)
  obtain g b where "a = \<lparr>rp_fingerprint = g, rp_result = b\<rparr>" by (cases a)
  with Some show ?thesis by (auto simp: find_replay_def replay_of_def split: option.splits)
qed (auto simp: find_replay_def replay_of_def split: option.splits)

section \<open>The invariant\<close>

definition is_tombstone :: "stored_memory \<Rightarrow> bool" where
  "is_tombstone m \<longleftrightarrow> (\<exists>t. m = Tombstoned t)"

definition stored_ok :: "(string \<Rightarrow> string) \<Rightarrow> (json \<Rightarrow> string) \<Rightarrow> string \<Rightarrow> stored_memory \<Rightarrow> bool" where
  "stored_ok hash digest L m \<longleftrightarrow> L = memory_locator (stored_id m) (stored_scope m) \<and> name_ok (stored_id m) \<and> scope_ok (stored_scope m) \<and>
     1 \<le> stored_version m \<and> instant_ok (stored_updatedAt m) \<and>
     (case m of Active r \<Rightarrow> hash (am_content r) = pv_contentHash (am_provenance r) \<and> am_recordHash r = memory_hash digest (active_body r)
      | Tombstoned t \<Rightarrow> tm_recordHash t = memory_hash digest (tombstone_body t))"

definition history_ok :: "stored_memory \<Rightarrow> memory_revision list \<Rightarrow> bool" where
  "history_ok m revs \<longleftrightarrow> revs \<noteq> [] \<and> map mv_version revs = [1..stored_version m] \<and> mv_recordHash (last revs) = stored_hash m \<and>
     mv_updatedAt (last revs) = stored_updatedAt m \<and> sorted (map (\<lambda>v. parse_timestamp (mv_updatedAt v)) revs) \<and>
     (\<forall>v \<in> set revs. mv_id v = stored_id m) \<and> (\<forall>v \<in> set (butlast revs). mv_action v = WrittenMemory) \<and>
     (mv_action (last revs) = TombstonedMemory \<longleftrightarrow> is_tombstone m)"

definition tables_ok :: "(string \<Rightarrow> string) \<Rightarrow> (json \<Rightarrow> string) \<Rightarrow> memory_state \<Rightarrow> bool" where
  "tables_ok hash digest s \<longleftrightarrow> distinct (map fst (mem_records s)) \<and> mem_revision s = total_versions (mem_records s) \<and>
     (\<forall>L m. map_of (mem_records s) L = Some m \<longrightarrow> stored_ok hash digest L m \<and> (\<exists>revs. mem_history s L = Some revs \<and> history_ok m revs)) \<and>
     (\<forall>L. map_of (mem_records s) L = None \<longrightarrow> mem_history s L = None)"

definition replays_ok :: "memory_state \<Rightarrow> bool" where
  "replays_ok s \<longleftrightarrow> (\<forall>i sc k a. name_ok i \<longrightarrow> scope_ok sc \<longrightarrow> mem_idempotency s (idempotency_locator (memory_locator i sc) k) = Some a \<longrightarrow>
     stored_id (wr_record (rp_result a)) = i \<and> stored_scope (wr_record (rp_result a)) = sc \<and>
     (\<exists>m. map_of (mem_records s) (memory_locator i sc) = Some m \<and> (is_tombstone m \<longrightarrow> wr_record (rp_result a) = m)))"

lemma empty_memory_ok: "tables_ok hash digest empty_memory" "replays_ok empty_memory"
  by (simp_all add: tables_ok_def replays_ok_def empty_memory_def total_versions_def)

text \<open>The record that may follow a current one.\<close>

definition follows_record :: "stored_memory option \<Rightarrow> stored_memory \<Rightarrow> bool" where
  "follows_record current m \<longleftrightarrow> (case current of
     None \<Rightarrow> stored_version m = 1 \<and> \<not> is_tombstone m
   | Some old \<Rightarrow> \<not> is_tombstone old \<and> stored_version m = stored_version old + 1 \<and>
       parse_timestamp (stored_updatedAt old) \<le> parse_timestamp (stored_updatedAt m))"

definition action_of :: "stored_memory \<Rightarrow> memory_action" where
  "action_of m = (if is_tombstone m then TombstonedMemory else WrittenMemory)"

lemma sorted_last: "sorted (map f xs) \<Longrightarrow> x \<in> set xs \<Longrightarrow> f x \<le> f (last xs)"
  by (induction xs rule: rev_induct) (auto simp: sorted_append)

lemma memory_history_grows:
  assumes "history_ok old revs" "follows_record (Some old) m" "stored_id m = stored_id old"
  shows "history_ok m (revs @ [revision_of m (action_of m) reference])"
proof -
  from assms have last: "\<not> is_tombstone old" "stored_version m = stored_version old + 1" "stored_id m = stored_id old"
    "parse_timestamp (stored_updatedAt old) \<le> parse_timestamp (stored_updatedAt m)" "revs \<noteq> []" "mv_updatedAt (last revs) = stored_updatedAt old"
    by (auto simp: history_ok_def follows_record_def)
  have "length revs = length [1..stored_version old]" using assms(1) unfolding history_ok_def by (metis length_map)
  then have "1 \<le> stored_version old" using last(5) by (cases "1 \<le> stored_version old") auto
  then have versions: "[1..stored_version m] = [1..stored_version old] @ [stored_version m]" using upto_rec2 [of 1 "stored_version m"] last(2) by simp
  have "\<forall>v \<in> set revs. parse_timestamp (mv_updatedAt v) \<le> parse_timestamp (stored_updatedAt m)"
    using sorted_last [of "\<lambda>v. parse_timestamp (mv_updatedAt v)" revs] assms(1) last(4,6) by (force simp: history_ok_def)
  then have times: "sorted (map (\<lambda>v. parse_timestamp (mv_updatedAt v)) (revs @ [revision_of m (action_of m) reference]))"
    using assms(1) by (simp add: history_ok_def sorted_append revision_of_def)
  have "mv_action (last revs) = WrittenMemory" using assms(1) last(1) by (cases "mv_action (last revs)") (auto simp: history_ok_def)
  moreover obtain us u where revs: "revs = us @ [u]" using last(5) by (cases revs rule: rev_cases) auto
  ultimately have "\<forall>v \<in> set revs. mv_action v = WrittenMemory" using assms(1) by (auto simp: history_ok_def)
  then show ?thesis
    using assms(1) last(3) versions times by (simp add: history_ok_def revision_of_def action_of_def butlast_append)
qed

lemma first_history: "follows_record None m \<Longrightarrow> history_ok m [revision_of m (action_of m) reference]"
  by (simp add: history_ok_def follows_record_def revision_of_def action_of_def)

lemma same_locator:
  assumes "stored_ok hash digest L m" "stored_ok hash digest L n"
  shows "stored_id m = stored_id n" "stored_scope m = stored_scope n"
  using assms locator_eq [of "stored_id m" "stored_id n" "stored_scope m" "stored_scope n"] by (auto simp: stored_ok_def)

lemma commit_tables:
  assumes ok: "tables_ok hash digest s" and m: "stored_ok hash digest L m" and follows: "follows_record (map_of (mem_records s) L) m"
  shows "tables_ok hash digest (commit_memory L m (revision_of m (action_of m) reference) s)"
proof -
  let ?s = "commit_memory L m (revision_of m (action_of m) reference) s"
  have new: "\<exists>revs. mem_history ?s L = Some revs \<and> history_ok m revs"
  proof (cases "map_of (mem_records s) L")
    case None
    then have "mem_history s L = None" using ok by (simp add: tables_ok_def)
    then show ?thesis using first_history follows None by (simp add: commit_memory_def)
  next
    case (Some old)
    then obtain revs where "mem_history s L = Some revs" "history_ok old revs" "stored_ok hash digest L old"
      using ok unfolding tables_ok_def by blast
    then show ?thesis using memory_history_grows [of old revs m] same_locator [OF m] follows Some by (simp add: commit_memory_def)
  qed
  have total: "mem_revision ?s = total_versions (mem_records ?s)"
    using ok follows total_put [of "mem_records s" L m]
    by (cases "map_of (mem_records s) L") (simp_all add: tables_ok_def commit_memory_def follows_record_def del: map_of_eq_Some_iff)
  have distinct: "distinct (map fst (mem_records ?s))" using ok by (simp add: tables_ok_def commit_memory_def distinct_put)
  have others: "map_of (mem_records ?s) = (map_of (mem_records s))(L \<mapsto> m)" "\<And>L'. L' \<noteq> L \<Longrightarrow> mem_history ?s L' = mem_history s L'"
    by (simp_all add: commit_memory_def)
  show ?thesis using ok new m total distinct others by (auto simp: tables_ok_def)
qed

lemma tables_frame [simp]: "tables_ok hash digest (remember_result L k f a s) = tables_ok hash digest s"
  "tables_ok hash digest (forget_results L s) = tables_ok hash digest s"
  by (simp_all add: tables_ok_def remember_result_def forget_results_def)

section \<open>Writes and erasures\<close>

text \<open>An accepted change and its effect on the store.\<close>

definition changed :: "memory_state \<Rightarrow> string \<Rightarrow> string \<Rightarrow> string \<Rightarrow> stored_memory \<Rightarrow> string \<Rightarrow> write_result \<Rightarrow> memory_state \<Rightarrow> bool" where
  "changed s L k f m reference a s' \<longleftrightarrow> mem_idempotency s (idempotency_locator L k) = None \<and> follows_record (map_of (mem_records s) L) m \<and>
     a = \<lparr>wr_record = m, wr_replayed = False, wr_storeRevision = mem_revision s + 1\<rparr> \<and>
     s' = remember_result L k f a ((if is_tombstone m then forget_results L else id)
       (commit_memory L m (revision_of m (action_of m) reference) s))"

lemma commit_revision [simp]: "mem_revision (commit_memory L m v s) = mem_revision s + 1"
  by (simp add: commit_memory_def)

lemma new_active_simps [simp]:
  "am_id (new_active digest c ts v) = mi_id (wc_record c)" "am_scope (new_active digest c ts v) = mi_scope (wc_record c)"
  "am_version (new_active digest c ts v) = v" "am_updatedAt (new_active digest c ts v) = wc_updatedAt c"
  "am_content (new_active digest c ts v) = mi_content (wc_record c)" "am_provenance (new_active digest c ts v) = mi_provenance (wc_record c)"
  "am_kind (new_active digest c ts v) = mi_kind (wc_record c)" "am_tags (new_active digest c ts v) = ts" "am_key (new_active digest c ts v) = mi_key (wc_record c)"
  "am_recordHash (new_active digest c ts v) = memory_hash digest (active_body (new_active digest c ts v))"
  by (simp_all add: new_active_def Let_def active_body_def)

lemma new_tombstone_simps [simp]:
  "tm_id (new_tombstone digest c r) = am_id r" "tm_scope (new_tombstone digest c r) = am_scope r" "tm_version (new_tombstone digest c r) = am_version r + 1"
  "tm_updatedAt (new_tombstone digest c r) = xc_updatedAt c"
  "tm_recordHash (new_tombstone digest c r) = memory_hash digest (tombstone_body (new_tombstone digest c r))"
  by (simp_all add: new_tombstone_def Let_def tombstone_body_def)

lemma check_current_Inr:
  "check_current current c = Inr u \<longleftrightarrow> (case current of None \<Rightarrow> wc_expectedVersion c = 0
     | Some m \<Rightarrow> wc_expectedVersion c = stored_version m \<and> \<not> is_tombstone m \<and> parse_timestamp (stored_updatedAt m) \<le> parse_timestamp (wc_updatedAt c))"
  by (auto simp: check_current_def Let_def is_tombstone_def version_conflict_def not_le split: option.splits stored_memory.splits)

lemma write_cases:
  assumes "write_memory hash digest s c = Inr (a, changes, s')"
  obtains (replayed) "replay_of s (memory_locator (mi_id (wc_record c)) (mi_scope (wc_record c))) (wc_idempotencyKey c)
      (memory_hash digest (write_command_value c)) a" "changes = []" "s' = s"
  | (written) r where "changed s (memory_locator (mi_id (wc_record c)) (mi_scope (wc_record c))) (wc_idempotencyKey c)
      (memory_hash digest (write_command_value c)) (Active r) (pv_reference (am_provenance r)) a s'" "changes = [change_of a]"
      "\<exists>ts. normalize_tags (mi_tags (wc_record c)) = Inr ts \<and> r = new_active digest c ts (wc_expectedVersion c + 1)"
proof -
  let ?L = "memory_locator (mi_id (wc_record c)) (mi_scope (wc_record c))" and ?f = "memory_hash digest (write_command_value c)"
  from assms obtain replay where replay: "find_replay s ?L (wc_idempotencyKey c) ?f = Inr replay" and
    rest: "case replay of Some r \<Rightarrow> a = r \<and> changes = [] \<and> s' = s | None \<Rightarrow> \<exists>ts. check_current (map_of (mem_records s) ?L) c = Inr () \<and>
      normalize_tags (mi_tags (wc_record c)) = Inr ts \<and>
      (let r = new_active digest c ts ((case map_of (mem_records s) ?L of None \<Rightarrow> 0 | Some m \<Rightarrow> stored_version m) + 1);
           t = commit_memory ?L (Active r) (revision_of (Active r) WrittenMemory (pv_reference (am_provenance r))) s;
           answer = \<lparr>wr_record = Active r, wr_replayed = False, wr_storeRevision = mem_revision t\<rparr> in
       a = answer \<and> changes = [change_of answer] \<and> s' = remember_result ?L (wc_idempotencyKey c) ?f answer t)"
    by (auto simp: write_memory_def Let_def and_then_Inr split: option.splits)
  show thesis
  proof (cases replay)
    case (Some r)
    then show thesis using replay rest by (intro replayed) (auto simp: find_replay_cases)
  next
    case None
    then obtain ts where ts: "normalize_tags (mi_tags (wc_record c)) = Inr ts" and current: "check_current (map_of (mem_records s) ?L) c = Inr ()"
      using rest by auto
    have version: "(case map_of (mem_records s) ?L of None \<Rightarrow> 0 | Some m \<Rightarrow> stored_version m) = wc_expectedVersion c"
      using current by (auto simp: check_current_Inr split: option.splits)
    show thesis
      using None replay rest current ts version
      by (intro written [of "new_active digest c ts (wc_expectedVersion c + 1)"])
        (auto simp: changed_def find_replay_cases Let_def follows_record_def check_current_Inr is_tombstone_def action_of_def split: option.splits)
  qed
qed

lemma tombstone_cases:
  assumes "tombstone_memory digest s c = Inr (a, changes, s')"
  obtains (replayed) "replay_of s (memory_locator (xc_id c) (xc_scope c)) (xc_idempotencyKey c) (memory_hash digest (tombstone_command_value c)) a"
      "changes = []" "s' = s"
  | (erased) r where "map_of (mem_records s) (memory_locator (xc_id c) (xc_scope c)) = Some (Active r)" "am_version r = xc_expectedVersion c"
      "changed s (memory_locator (xc_id c) (xc_scope c)) (xc_idempotencyKey c) (memory_hash digest (tombstone_command_value c))
        (Tombstoned (new_tombstone digest c r)) (pv_reference (am_provenance r)) a s'" "changes = [change_of a]"
proof -
  let ?L = "memory_locator (xc_id c) (xc_scope c)" and ?f = "memory_hash digest (tombstone_command_value c)"
  from assms obtain replay where replay: "find_replay s ?L (xc_idempotencyKey c) ?f = Inr replay" and
    rest: "(case replay of Some r \<Rightarrow> Inr (r, [], s) | None \<Rightarrow>
         (case map_of (mem_records s) ?L of
            Some (Active r) \<Rightarrow>
              if am_version r \<noteq> xc_expectedVersion c then Inl (MemoryConflict ''Memory scope or optimistic version did not match.'')
              else if parse_timestamp (xc_updatedAt c) < parse_timestamp (am_updatedAt r)
              then Inl (MemoryConflict ''Memory update timestamps must not move backwards.'')
              else let t = new_tombstone digest c r;
                       s' = commit_memory ?L (Tombstoned t) (revision_of (Tombstoned t) TombstonedMemory (pv_reference (am_provenance r))) s;
                       answer = \<lparr>wr_record = Tombstoned t, wr_replayed = False, wr_storeRevision = mem_revision s'\<rparr> in
                   Inr (answer, [change_of answer], remember_result ?L (xc_idempotencyKey c) ?f answer (forget_results ?L s'))
          | _ \<Rightarrow> Inl (MemoryConflict ''Memory scope or optimistic version did not match.''))) = Inr (a, changes, s')"
    unfolding tombstone_memory_def Let_def and_then_Inr by blast
  show thesis
  proof (cases replay)
    case (Some r)
    then show thesis using replay rest by (intro replayed) (auto simp: find_replay_cases)
  next
    case None
    from rest None obtain r where r: "map_of (mem_records s) ?L = Some (Active r)"
      by (cases "map_of (mem_records s) ?L") (auto split: stored_memory.splits)
    from None replay rest r show thesis
      by (intro erased [of r])
        (auto simp: changed_def find_replay_cases Let_def follows_record_def is_tombstone_def action_of_def not_less split: if_splits)
  qed
qed

lemma written_ok:
  assumes "validate_write_command hash c = Inr ()" "r = new_active digest c ts v" "1 \<le> v"
  shows "stored_ok hash digest (memory_locator (mi_id (wc_record c)) (mi_scope (wc_record c))) (Active r)"
  using validated_write [OF assms(1)] assms(2,3) by (simp add: stored_ok_def)

lemma erased_ok:
  assumes "stored_ok hash digest L (Active r)" "validate_tombstone_command c = Inr ()"
  shows "stored_ok hash digest L (Tombstoned (new_tombstone digest c r))"
  using validated_tombstone [OF assms(2)] assms(1) by (simp add: stored_ok_def)

text \<open>The entry of an idempotency key after a change.\<close>

lemma changed_entries:
  assumes "changed s L j f m reference a s'" and m: "stored_ok hash digest L m" and names: "name_ok i" "scope_ok sc"
  shows "mem_idempotency s' (idempotency_locator (memory_locator i sc) k) =
    (if i = stored_id m \<and> sc = stored_scope m then
       if k = j then Some \<lparr>rp_fingerprint = f, rp_result = a\<rparr>
       else if is_tombstone m then None else mem_idempotency s (idempotency_locator (memory_locator i sc) k)
     else mem_idempotency s (idempotency_locator (memory_locator i sc) k))"
proof -
  have L: "L = memory_locator (stored_id m) (stored_scope m)" "name_ok (stored_id m)" "scope_ok (stored_scope m)" using m by (simp_all add: stored_ok_def)
  have "idempotency_locator (memory_locator i sc) k = idempotency_locator L j \<longleftrightarrow> i = stored_id m \<and> sc = stored_scope m \<and> k = j"
    "starts_with (idempotency_locator (memory_locator i sc) k) (L @ [CHR 0x00]) \<longleftrightarrow> i = stored_id m \<and> sc = stored_scope m"
    using keyed_locator_eq [OF names(1) L(2) names(2) L(3)] keyed_prefix [OF names(1) L(2) names(2) L(3)] L(1) by simp_all
  then show ?thesis using assms(1)
    by (cases "is_tombstone m"; cases "i = stored_id m \<and> sc = stored_scope m")
      (auto simp: changed_def remember_result_def forget_results_def commit_memory_def)
qed

lemma changed_records:
  assumes "changed s L j f m reference a s'"
  shows "map_of (mem_records s') = (map_of (mem_records s))(L \<mapsto> m)"
  using assms by (simp add: changed_def remember_result_def forget_results_def commit_memory_def)

definition memory_ok :: "(string \<Rightarrow> string) \<Rightarrow> (json \<Rightarrow> string) \<Rightarrow> memory_state \<Rightarrow> bool" where
  "memory_ok hash digest s \<longleftrightarrow> tables_ok hash digest s \<and> replays_ok s"

lemma changed_ok:
  assumes ok: "memory_ok hash digest s" and change: "changed s L k f m reference a s'" and m: "stored_ok hash digest L m"
  shows "memory_ok hash digest s'"
proof -
  have "tables_ok hash digest s'"
    using commit_tables [OF _ m, of s reference] ok change by (simp add: memory_ok_def changed_def)
  moreover have "replays_ok s'"
    unfolding replays_ok_def
  proof (intro allI impI)
    fix i sc k' b
    assume names: "name_ok i" "scope_ok sc" and b: "mem_idempotency s' (idempotency_locator (memory_locator i sc) k') = Some b"
    have L: "L = memory_locator (stored_id m) (stored_scope m)" "name_ok (stored_id m)" "scope_ok (stored_scope m)" using m by (simp_all add: stored_ok_def)
    have same: "memory_locator i sc = L \<longleftrightarrow> i = stored_id m \<and> sc = stored_scope m"
      using locator_eq [OF names(1) L(2) names(2) L(3)] L(1) by simp
    have old: "stored_id (wr_record (rp_result b)) = i \<and> stored_scope (wr_record (rp_result b)) = sc \<and>
      (\<exists>m. map_of (mem_records s) (memory_locator i sc) = Some m \<and> (is_tombstone m \<longrightarrow> wr_record (rp_result b) = m))"
      if "mem_idempotency s (idempotency_locator (memory_locator i sc) k') = Some b"
      using ok names that unfolding memory_ok_def replays_ok_def by blast
    have new: "wr_record a = m" using change by (simp add: changed_def)
    show "stored_id (wr_record (rp_result b)) = i \<and> stored_scope (wr_record (rp_result b)) = sc \<and>
      (\<exists>m. map_of (mem_records s') (memory_locator i sc) = Some m \<and> (is_tombstone m \<longrightarrow> wr_record (rp_result b) = m))"
      using b old new same unfolding changed_entries [OF change m names] changed_records [OF change]
      by (auto split: if_splits)
  qed
  ultimately show ?thesis by (simp add: memory_ok_def)
qed

section \<open>Runs\<close>

inductive memory_step :: "(string \<Rightarrow> string) \<Rightarrow> (json \<Rightarrow> string) \<Rightarrow> memory_state \<Rightarrow> memory_state \<Rightarrow> bool" for hash digest where
  write_step: "write_memory hash digest s c = Inr (a, changes, t) \<Longrightarrow> memory_step hash digest s t"
| tombstone_step: "tombstone_memory digest s c = Inr (a, changes, t) \<Longrightarrow> memory_step hash digest s t"

inductive memory_run :: "(string \<Rightarrow> string) \<Rightarrow> (json \<Rightarrow> string) \<Rightarrow> memory_state \<Rightarrow> memory_state \<Rightarrow> bool" for hash digest where
  no_step: "memory_run hash digest s s"
| one_more: "memory_run hash digest s t \<Longrightarrow> memory_step hash digest t u \<Longrightarrow> memory_run hash digest s u"

lemma step_effect:
  assumes ok: "memory_ok hash digest s" and "memory_step hash digest s t"
  obtains "t = s" | L k f m reference a where "changed s L k f m reference a t" "stored_ok hash digest L m"
  using assms(2)
proof cases
  case (write_step c a changes)
  then have valid: "validate_write_command hash c = Inr ()" by (auto simp: write_memory_def and_then_Inr)
  then have "0 \<le> wc_expectedVersion c" by (auto simp: validate_write_command_def Let_def and_then_Inr memory_version_Inr)
  with write_step show ?thesis using written_ok [OF valid] that by (elim write_cases) auto
next
  case (tombstone_step c a changes)
  then have valid: "validate_tombstone_command c = Inr ()" by (auto simp: tombstone_memory_def and_then_Inr)
  from tombstone_step show ?thesis
  proof (cases rule: tombstone_cases)
    case (erased r)
    then have "stored_ok hash digest (memory_locator (xc_id c) (xc_scope c)) (Active r)" using ok unfolding memory_ok_def tables_ok_def by blast
    from erased_ok [OF this valid] erased(3) that show ?thesis by blast
  qed (use that in blast)
qed

lemma step_ok: "memory_step hash digest s t \<Longrightarrow> memory_ok hash digest s \<Longrightarrow> memory_ok hash digest t"
  by (metis step_effect changed_ok)

lemma memory_run_ok: "memory_run hash digest s t \<Longrightarrow> memory_ok hash digest s \<Longrightarrow> memory_ok hash digest t"
  by (induction rule: memory_run.induct) (auto intro: step_ok)

lemma reachable_ok: "memory_run hash digest empty_memory s \<Longrightarrow> memory_ok hash digest s"
  using memory_run_ok empty_memory_ok unfolding memory_ok_def by blast

text \<open>An erased record stays, and an answer is remembered until its record is erased.\<close>

lemma erased_stays:
  assumes "memory_run hash digest s t" "memory_ok hash digest s" "map_of (mem_records s) L = Some (Tombstoned x)"
  shows "map_of (mem_records t) L = Some (Tombstoned x)"
  using assms
proof (induction rule: memory_run.induct)
  case (one_more s t u)
  then have "memory_ok hash digest t" using memory_run_ok by blast
  from this one_more(2) show ?case
  proof (cases rule: step_effect)
    case (2 L' k f m reference a)
    then have "L' \<noteq> L" using one_more by (auto simp: changed_def follows_record_def is_tombstone_def)
    then show ?thesis using changed_records [OF 2(1)] one_more by simp
  qed (use one_more in simp)
qed simp

lemma answer_stays:
  assumes "memory_run hash digest s t" "memory_ok hash digest s" "name_ok i" "scope_ok sc"
    "mem_idempotency s (idempotency_locator (memory_locator i sc) k) = Some b"
  shows "mem_idempotency t (idempotency_locator (memory_locator i sc) k) = Some b \<or>
    (\<exists>x. map_of (mem_records t) (memory_locator i sc) = Some (Tombstoned x))"
  using assms
proof (induction rule: memory_run.induct)
  case (one_more s t u)
  then have ok: "memory_ok hash digest t" using memory_run_ok by blast
  show ?case
  proof (cases "\<exists>x. map_of (mem_records t) (memory_locator i sc) = Some (Tombstoned x)")
    case True
    then show ?thesis using erased_stays [OF memory_run.one_more [OF no_step one_more(2)] ok] by blast
  next
    case False
    with one_more have entry: "mem_idempotency t (idempotency_locator (memory_locator i sc) k) = Some b" by blast
    from ok one_more(2) show ?thesis
    proof (cases rule: step_effect)
      case (2 L j f m reference a)
      have L: "L = memory_locator (stored_id m) (stored_scope m)" using 2(2) by (simp add: stored_ok_def)
      have "k \<noteq> j" if "i = stored_id m" "sc = stored_scope m" using entry that L 2(1) by (auto simp: changed_def)
      moreover have "(\<exists>x. map_of (mem_records u) L = Some (Tombstoned x))" if "is_tombstone m"
        using changed_records [OF 2(1)] that by (auto simp: is_tombstone_def)
      ultimately show ?thesis using changed_entries [OF 2 one_more(5,6), of k] entry L by auto
    qed (use entry in simp)
  qed
qed simp

end
