(* ===== verification/MemoryProperties.thy ===== *)
theory MemoryProperties
  imports MemoryFacts
begin

text \<open>
  The properties of the memory store: erased content does not come back, versions and history agree, a
  repeated call is replayed, and retrieval returns exactly the best records the query may see.
\<close>

section \<open>Records\<close>

lemma current_record:
  assumes ok: "memory_ok hash digest s" and entry: "(L, m) \<in> set (mem_records s)"
  shows "map_of (mem_records s) L = Some m" "stored_ok hash digest L m"
    "get_memory s (stored_id m) (stored_scope m) = Inr (Some m)"
proof -
  show m: "map_of (mem_records s) L = Some m" using ok entry by (simp add: memory_ok_def tables_ok_def)
  then show stored: "stored_ok hash digest L m" using ok unfolding memory_ok_def tables_ok_def by blast
  then show "get_memory s (stored_id m) (stored_scope m) = Inr (Some m)"
    using m by (auto simp: get_memory_def and_then_Inr memory_identifier_Inr validate_scope_Inr stored_ok_def)
qed

lemma get_memory_Inr:
  "get_memory s i sc = Inr x \<longleftrightarrow> name_ok i \<and> scope_ok sc \<and> x = map_of (mem_records s) (memory_locator i sc)"
  by (auto simp: get_memory_def and_then_Inr memory_identifier_Inr validate_scope_Inr)

lemma get_memory_same: "\<not> (name_ok i \<and> scope_ok sc) \<Longrightarrow> get_memory s i sc = get_memory t i sc"
  by (cases "get_memory s i sc"; cases "get_memory t i sc")
    (auto simp: get_memory_def and_then_def memory_identifier_Inr validate_scope_Inr split: sum.splits)

lemma remembered_answer:
  assumes "memory_ok hash digest s" "name_ok i" "scope_ok sc" "map_of (mem_records s) (memory_locator i sc) = Some (Tombstoned t)"
    "replay_of s (memory_locator i sc) k f b"
  shows "wr_record b = Tombstoned t"
proof -
  from assms(5) obtain a where a: "mem_idempotency s (idempotency_locator (memory_locator i sc) k) = Some \<lparr>rp_fingerprint = f, rp_result = a\<rparr>"
    "b = a\<lparr>wr_replayed := True\<rparr>" by (auto simp: replay_of_def)
  with assms(1-4) have "wr_record a = Tombstoned t" unfolding memory_ok_def replays_ok_def by (fastforce simp: is_tombstone_def)
  then show ?thesis using a by simp
qed

section \<open>Retrieval\<close>

text \<open>The records a query may see, and those that have something of what it asks for.\<close>

definition may_see :: "retrieval_query \<Rightarrow> string list \<Rightarrow> active_memory \<Rightarrow> bool" where
  "may_see q tags r \<longleftrightarrow> scope_userId (am_scope r) = rq_userId q \<and> scope_projectId (am_scope r) = rq_projectId q \<and>
     am_kind r \<in> set (rq_kinds q) \<and> (am_kind r = Working \<longrightarrow> scope_missionId (am_scope r) = rq_missionId q) \<and>
     (\<forall>e. am_expiresAt r = Some e \<longrightarrow> parse_timestamp (rq_evaluatedAt q) < parse_timestamp e) \<and>
     (pv_sourceClass (am_provenance r) = VerifiedLearning \<longrightarrow> ''m13-learning'' \<in> set tags)"

definition scored :: "retrieval_query \<Rightarrow> string list \<Rightarrow> active_memory \<Rightarrow> retrieved_memory" where
  "scored q tags r = \<lparr>rm_record = r, rm_score = score_record r (tokenize (rq_text q)) tags\<rparr>"

definition relevant :: "retrieval_query \<Rightarrow> string list \<Rightarrow> active_memory \<Rightarrow> bool" where
  "relevant q tags r \<longleftrightarrow> tokenize (rq_text q) = [] \<and> tags = [] \<or> rm_score (scored q tags r) \<noteq> 0"

definition matches_of :: "memory_state \<Rightarrow> retrieval_query \<Rightarrow> string list \<Rightarrow> retrieved_memory list" where
  "matches_of s q tags = List.map_filter (\<lambda>e. match_record q (parse_timestamp (rq_evaluatedAt q)) (tokenize (rq_text q)) tags (snd e)) (mem_records s)"

lemma match_record_Some:
  "match_record q (parse_timestamp (rq_evaluatedAt q)) (tokenize (rq_text q)) tags m = Some x \<longleftrightarrow>
     (\<exists>r. m = Active r \<and> may_see q tags r \<and> relevant q tags r \<and> x = scored q tags r)"
proof (cases m)
  case (Active r)
  then show ?thesis
    by (cases "am_expiresAt r") (auto simp: match_record_def Let_def may_see_def relevant_def scored_def not_le)
qed (simp add: match_record_def)

lemma retrieve_memory_Inr:
  assumes "retrieve_memory lc s q = Inr rs" and "normalize_tags (case rq_tags q of None \<Rightarrow> [] | Some ts \<Rightarrow> ts) = Inr tags"
  shows "rs = take (nat (rq_limit q)) (js_sort (compare_matches lc) (matches_of s q tags))" "1 \<le> rq_limit q"
  using assms by (auto simp: retrieve_memory_def validate_retrieval_query_def and_then_Inr refused_type_Inr Let_def matches_of_def)

lemma retrieve_tags:
  assumes "retrieve_memory lc s q = Inr rs"
  obtains tags where "normalize_tags (case rq_tags q of None \<Rightarrow> [] | Some ts \<Rightarrow> ts) = Inr tags"
  using assms by (auto simp: retrieve_memory_def and_then_Inr)

lemma set_matches: "set (matches_of s q tags) = {scored q tags r |r. \<exists>L. (L, Active r) \<in> set (mem_records s) \<and> may_see q tags r \<and> relevant q tags r}"
proof -
  have filtered: "set (List.map_filter f es) = {x. \<exists>e \<in> set es. f e = Some x}" for f and es :: "(string \<times> stored_memory) list"
    by (force simp: List.map_filter_def)
  show ?thesis unfolding matches_of_def filtered match_record_Some by (auto simp: Bex_def)
qed

lemma distinct_matches:
  assumes "memory_ok hash digest s"
  shows "distinct (matches_of s q tags)"
proof -
  let ?f = "\<lambda>e. match_record q (parse_timestamp (rq_evaluatedAt q)) (tokenize (rq_text q)) tags (snd e)"
  have distinct: "distinct (mem_records s)" using assms by (simp add: memory_ok_def tables_ok_def distinct_map)
  have "e = e'" if e: "e \<in> set (mem_records s)" "?f e = Some x" and e': "e' \<in> set (mem_records s)" "?f e' = Some x" for e e' x
  proof -
    from e(2) e'(2) obtain r r' where "snd e = Active r" "x = scored q tags r" "snd e' = Active r'" "x = scored q tags r'"
      unfolding match_record_Some by blast
    then have "e = (fst e, Active r)" "e' = (fst e', Active r)" by (auto simp: scored_def prod_eq_iff)
    then have "stored_ok hash digest (fst e) (Active r)" "stored_ok hash digest (fst e') (Active r)"
      using e(1) e'(1) current_record(2) [OF assms] by metis+
    then show ?thesis using \<open>e = (fst e, Active r)\<close> \<open>e' = (fst e', Active r)\<close> by (metis stored_ok_def)
  qed
  then have "inj_on (the \<circ> ?f) (set (filter (\<lambda>e. ?f e \<noteq> None) (mem_records s)))" by (intro inj_onI) fastforce
  then show ?thesis unfolding matches_of_def List.map_filter_def distinct_map using distinct by simp
qed

lemma compare_matches_comparator:
  assumes "comparator lc"
  shows "comparator (compare_matches lc)"
proof -
  have "compare_matches lc = (\<lambda>a b. if rm_score b - rm_score a \<noteq> 0 then rm_score b - rm_score a else
    (if lc (am_updatedAt (rm_record b)) (am_updatedAt (rm_record a)) \<noteq> 0 then lc (am_updatedAt (rm_record b)) (am_updatedAt (rm_record a))
     else lc (am_id (rm_record a)) (am_id (rm_record b))))"
    by (simp add: compare_matches_def Let_def fun_eq_iff)
  then show ?thesis
    using comparator.sign [OF assms] comparator.trans [OF assms]
    by (simp only:) (intro lexicographic; unfold_locales; (linarith | blast))
qed

lemma best_taken:
  assumes "sorted_wrt P ys" "x \<in> set ys" "x \<notin> set (take n ys)"
  shows "length (take n ys) = n \<and> (\<forall>y \<in> set (take n ys). P y x)"
proof -
  from assms(2,3) have x: "x \<in> set (drop n ys)" by (metis Un_iff append_take_drop_id set_append)
  then have "n < length ys" by (cases "length ys \<le> n") auto
  moreover have "sorted_wrt P (take n ys @ drop n ys)" using assms(1) by simp
  ultimately show ?thesis using x unfolding sorted_wrt_append by auto
qed

section \<open>Erasure\<close>

text \<open>C40. Erased content does not come back. After an accepted erasure, however the store is used later, the record
  is its tombstone, no retrieval returns it, and a call on it is refused or answered with the tombstone.\<close>

theorem tombstone_erases:
  assumes "memory_run hash digest empty_memory s" and "tombstone_memory digest s c = Inr (a, [change], t)" and "memory_run hash digest t u"
  shows "(\<exists>x. wr_record a = Tombstoned x \<and> tm_id x = xc_id c \<and> tm_scope x = xc_scope c) \<and>
    get_memory u (xc_id c) (xc_scope c) = Inr (Some (wr_record a)) \<and>
    (\<forall>lc q rs. retrieve_memory lc u q = Inr rs \<longrightarrow> (\<forall>r \<in> set rs. am_id (rm_record r) \<noteq> xc_id c \<or> am_scope (rm_record r) \<noteq> xc_scope c)) \<and>
    (\<forall>w b changes v. mi_id (wc_record w) = xc_id c \<longrightarrow> mi_scope (wc_record w) = xc_scope c \<longrightarrow>
       write_memory hash digest u w = Inr (b, changes, v) \<longrightarrow> wr_record b = wr_record a \<and> changes = [] \<and> v = u) \<and>
    (\<forall>w b changes v. xc_id w = xc_id c \<longrightarrow> xc_scope w = xc_scope c \<longrightarrow>
       tombstone_memory digest u w = Inr (b, changes, v) \<longrightarrow> wr_record b = wr_record a \<and> changes = [] \<and> v = u)"
proof -
  let ?L = "memory_locator (xc_id c) (xc_scope c)"
  have s: "memory_ok hash digest s" by (rule reachable_ok) (rule assms(1))
  then have t: "memory_ok hash digest t" using step_ok tombstone_step [OF assms(2)] by blast
  then have u: "memory_ok hash digest u" using memory_run_ok [OF assms(3)] by blast
  have valid: "name_ok (xc_id c)" "scope_ok (xc_scope c)"
    using assms(2) validated_tombstone [of c] by (auto simp: tombstone_memory_def and_then_Inr)
  from assms(2) obtain r where r: "map_of (mem_records s) ?L = Some (Active r)" and
    a: "wr_record a = Tombstoned (new_tombstone digest c r)" and "map_of (mem_records t) ?L = Some (wr_record a)"
  proof (cases rule: tombstone_cases)
    case (erased r)
    then show thesis using that [of r] changed_records [OF erased(3)] by (simp add: changed_def)
  qed simp
  then have stays: "map_of (mem_records u) ?L = Some (wr_record a)" using erased_stays [OF assms(3) t] by simp
  have "stored_ok hash digest ?L (Active r)" using s r unfolding memory_ok_def tables_ok_def by blast
  then have ids: "am_id r = xc_id c" "am_scope r = xc_scope c"
    using locator_eq [OF valid(1) _ valid(2), of "am_id r" "am_scope r"] by (auto simp: stored_ok_def)
  have "am_id (rm_record x) \<noteq> xc_id c \<or> am_scope (rm_record x) \<noteq> xc_scope c"
    if "retrieve_memory lc u q = Inr rs" and "x \<in> set rs" for lc q rs x
  proof -
    note found = that
    obtain tags where "normalize_tags (case rq_tags q of None \<Rightarrow> [] | Some ts \<Rightarrow> ts) = Inr tags" using retrieve_tags [OF found(1)] by blast
    then have "x \<in> set (matches_of u q tags)" using retrieve_memory_Inr(1) [OF found(1)] found(2) in_set_takeD by fastforce
    then obtain L where entry: "(L, Active (rm_record x)) \<in> set (mem_records u)" by (auto simp: set_matches scored_def)
    show ?thesis using current_record [OF u entry] stays a by (auto simp: stored_ok_def)
  qed
  moreover have "wr_record b = wr_record a \<and> changes = [] \<and> v = u"
    if "mi_id (wc_record w) = xc_id c" "mi_scope (wc_record w) = xc_scope c" "write_memory hash digest u w = Inr (b, changes, v)" for w b changes v
    using that(3)
  proof (cases rule: write_cases)
    case replayed
    then show ?thesis using remembered_answer [OF u valid stays [unfolded a]] that(1,2) a by auto
  next
    case (written r)
    then show ?thesis using stays a that(1,2) by (auto simp: changed_def follows_record_def is_tombstone_def)
  qed
  moreover have "wr_record b = wr_record a \<and> changes = [] \<and> v = u"
    if "xc_id w = xc_id c" "xc_scope w = xc_scope c" "tombstone_memory digest u w = Inr (b, changes, v)" for w b changes v
    using that(3)
  proof (cases rule: tombstone_cases)
    case replayed
    then show ?thesis using remembered_answer [OF u valid stays [unfolded a]] that(1,2) a by auto
  next
    case (erased r)
    then show ?thesis using stays a that(1,2) by simp
  qed
  ultimately show ?thesis using a ids valid stays by (auto simp: get_memory_Inr)
qed

section \<open>Versions and history\<close>

text \<open>
  In every store that can be reached the history of a record lists its versions from 1 on, in the order of time; the last
  entry has the hash and time of the record, and only a tombstone has a final erasure. A record carries its own
  hash, and the content hash of its provenance. The store's revision counts all versions.\<close>

theorem memory_history_is_complete:
  assumes "memory_run hash digest empty_memory s" and "get_memory s i sc = Inr x"
  shows "\<exists>revs. memory_history s i sc = Inr revs \<and> (case x of
      None \<Rightarrow> revs = []
    | Some m \<Rightarrow> stored_id m = i \<and> stored_scope m = sc \<and> revs \<noteq> [] \<and> map mv_version revs = [1..stored_version m] \<and>
        sorted (map (\<lambda>v. parse_timestamp (mv_updatedAt v)) revs) \<and> (\<forall>v \<in> set revs. mv_id v = i) \<and>
        mv_recordHash (last revs) = stored_hash m \<and> mv_updatedAt (last revs) = stored_updatedAt m \<and>
        (\<forall>v \<in> set (butlast revs). mv_action v = WrittenMemory) \<and>
        (case m of
           Active r \<Rightarrow> mv_action (last revs) = WrittenMemory \<and> hash (am_content r) = pv_contentHash (am_provenance r) \<and>
             am_recordHash r = memory_hash digest (active_body r)
         | Tombstoned t \<Rightarrow> mv_action (last revs) = TombstonedMemory \<and> tm_recordHash t = memory_hash digest (tombstone_body t))) \<and>
    mem_revision s = sum_list (map (\<lambda>e. stored_version (snd e)) (mem_records s))"
proof -
  have ok: "memory_ok hash digest s" by (rule reachable_ok) (rule assms(1))
  then have total: "mem_revision s = sum_list (map (\<lambda>e. stored_version (snd e)) (mem_records s))"
    by (simp add: memory_ok_def tables_ok_def total_versions_def)
  from assms(2) have names: "name_ok i" "scope_ok sc" and x: "x = map_of (mem_records s) (memory_locator i sc)" by (simp_all add: get_memory_Inr)
  then have history: "memory_history s i sc = Inr (case mem_history s (memory_locator i sc) of None \<Rightarrow> [] | Some rs \<Rightarrow> rs)"
    by (simp add: memory_history_def and_then_Inr memory_identifier_Inr validate_scope_Inr)
  show ?thesis
  proof (cases x)
    case None
    then have "mem_history s (memory_locator i sc) = None" using ok x unfolding memory_ok_def tables_ok_def by metis
    then show ?thesis using None history total by simp
  next
    case (Some m)
    then obtain revs where revs: "mem_history s (memory_locator i sc) = Some revs" "history_ok m revs" and m: "stored_ok hash digest (memory_locator i sc) m"
      using ok x unfolding memory_ok_def tables_ok_def by metis
    then have "stored_id m = i" "stored_scope m = sc"
      using locator_eq [OF names(1) _ names(2), of "stored_id m" "stored_scope m"] by (auto simp: stored_ok_def)
    moreover have "mv_action (last revs) = WrittenMemory" if "\<not> is_tombstone m"
      using that revs(2) by (cases "mv_action (last revs)") (auto simp: history_ok_def)
    ultimately show ?thesis using revs m Some history total
      by (cases m) (simp_all add: history_ok_def stored_ok_def is_tombstone_def)
  qed
qed

section \<open>Retrieval\<close>

text \<open>
  A retrieval returns the best of what the query may see: current active records of its user and project, of its
  kinds, of its mission where they are working memory, not expired, and learnt ones only on demand; each once and
  with its score, best first, and none that matches is left out unless the limit is reached with no worse ones.\<close>

theorem retrieval_is_exact:
  assumes "memory_run hash digest empty_memory s" and "comparator lc" and "retrieve_memory lc s q = Inr rs"
    and "normalize_tags (case rq_tags q of None \<Rightarrow> [] | Some ts \<Rightarrow> ts) = Inr tags"
  shows "(\<forall>x \<in> set rs. let r = rm_record x in get_memory s (am_id r) (am_scope r) = Inr (Some (Active r)) \<and>
      may_see q tags r \<and> relevant q tags r \<and> x = scored q tags r) \<and>
    (\<forall>r. get_memory s (am_id r) (am_scope r) = Inr (Some (Active r)) \<longrightarrow> may_see q tags r \<longrightarrow> relevant q tags r \<longrightarrow>
      scored q tags r \<in> set rs \<or> int (length rs) = rq_limit q \<and> (\<forall>x \<in> set rs. compare_matches lc x (scored q tags r) \<le> 0)) \<and>
    distinct rs \<and> sorted_wrt (\<lambda>a b. compare_matches lc a b \<le> 0) rs \<and> int (length rs) \<le> rq_limit q"
proof -
  have ok: "memory_ok hash digest s" by (rule reachable_ok) (rule assms(1))
  let ?sorted = "js_sort (compare_matches lc) (matches_of s q tags)"
  note rs = retrieve_memory_Inr [OF assms(3,4)]
  have sorted: "sorted_wrt (\<lambda>a b. compare_matches lc a b \<le> 0) ?sorted"
    by (rule comparator.sort_sorted) (rule compare_matches_comparator [OF assms(2)])
  have sound: "let r = rm_record x in get_memory s (am_id r) (am_scope r) = Inr (Some (Active r)) \<and> may_see q tags r \<and> relevant q tags r \<and>
    x = scored q tags r" if "x \<in> set rs" for x
  proof -
    have "x \<in> set (matches_of s q tags)" using that rs(1) in_set_takeD by fastforce
    then obtain r L where "(L, Active r) \<in> set (mem_records s)" "may_see q tags r" "relevant q tags r" "x = scored q tags r"
      unfolding set_matches by blast
    then show ?thesis using current_record(3) [OF ok] by (fastforce simp: scored_def)
  qed
  have complete: "scored q tags r \<in> set rs \<or> int (length rs) = rq_limit q \<and> (\<forall>x \<in> set rs. compare_matches lc x (scored q tags r) \<le> 0)"
    if "get_memory s (am_id r) (am_scope r) = Inr (Some (Active r))" "may_see q tags r" "relevant q tags r" for r
  proof -
    have "(memory_locator (am_id r) (am_scope r), Active r) \<in> set (mem_records s)" using that(1) unfolding get_memory_Inr by (metis map_of_SomeD)
    then have "scored q tags r \<in> set ?sorted" using that(2,3) by (auto simp: set_matches)
    then show ?thesis using best_taken [OF sorted, of "scored q tags r" "nat (rq_limit q)"] rs by auto
  qed
  have "distinct ?sorted" using distinct_matches [OF ok] by (metis mset_eq_imp_distinct_iff mset_js_sort)
  then have "distinct rs" using rs(1) by simp
  moreover have "sorted_wrt (\<lambda>a b. compare_matches lc a b \<le> 0) rs" using sorted rs(1) by (simp add: sorted_wrt_take)
  moreover have "int (length rs) \<le> rq_limit q" using rs by simp
  ultimately show ?thesis using sound complete by blast
qed

section \<open>Writes\<close>

lemma check_current_refuses:
  assumes "check_current x c \<noteq> Inr ()"
  shows "\<exists>message. check_current x c = Inl (MemoryConflict message)"
proof (cases x)
  case (Some m)
  then show ?thesis using assms by (cases m) (auto simp: check_current_def version_conflict_def Let_def)
qed (use assms in \<open>auto simp: check_current_def version_conflict_def Let_def\<close>)

text \<open>
  A valid write with a new key goes through exactly on an absent record with expected version 0 or on an active one of
  the expected version that is not newer. It stores the content under the next version, tells
  the listeners, counts the revision and leaves every other record alone; any other is a conflict.\<close>

theorem write_effect:
  assumes "memory_run hash digest empty_memory s" and "validate_write_command hash c = Inr ()"
    and "mem_idempotency s (idempotency_locator (memory_locator (mi_id (wc_record c)) (mi_scope (wc_record c))) (wc_idempotencyKey c)) = None"
    and "get_memory s (mi_id (wc_record c)) (mi_scope (wc_record c)) = Inr x"
  shows "if (case x of None \<Rightarrow> wc_expectedVersion c = 0
      | Some m \<Rightarrow> (\<exists>r. m = Active r) \<and> wc_expectedVersion c = stored_version m \<and>
          parse_timestamp (stored_updatedAt m) \<le> parse_timestamp (wc_updatedAt c))
    then \<exists>r t. write_memory hash digest s c = Inr (\<lparr>wr_record = Active r, wr_replayed = False, wr_storeRevision = mem_revision t\<rparr>,
        [\<lparr>mc_id = am_id r, mc_scope = am_scope r, mc_storeRevision = mem_revision t\<rparr>], t) \<and>
      am_id r = mi_id (wc_record c) \<and> am_scope r = mi_scope (wc_record c) \<and> am_content r = mi_content (wc_record c) \<and>
      am_version r = wc_expectedVersion c + 1 \<and> am_updatedAt r = wc_updatedAt c \<and>
      normalize_tags (mi_tags (wc_record c)) = Inr (am_tags r) \<and>
      mem_revision t = mem_revision s + 1 \<and> get_memory t (am_id r) (am_scope r) = Inr (Some (Active r)) \<and>
      (\<forall>i sc. i \<noteq> am_id r \<or> sc \<noteq> am_scope r \<longrightarrow> get_memory t i sc = get_memory s i sc)
    else \<exists>message. write_memory hash digest s c = Inl (MemoryConflict message)"
proof -
  let ?i = "mi_id (wc_record c)" and ?sc = "mi_scope (wc_record c)"
  have names: "name_ok ?i" "scope_ok ?sc" by (rule validated_write [OF assms(2)])+
  from assms(2) obtain ts where ts: "normalize_tags (mi_tags (wc_record c)) = Inr ts"
    by (auto simp: validate_write_command_def Let_def and_then_Inr)
  have x: "x = map_of (mem_records s) (memory_locator ?i ?sc)" using assms(4) by (simp add: get_memory_Inr)
  let ?accepted = "case x of None \<Rightarrow> wc_expectedVersion c = 0
    | Some m \<Rightarrow> (\<exists>r. m = Active r) \<and> wc_expectedVersion c = stored_version m \<and> parse_timestamp (stored_updatedAt m) \<le> parse_timestamp (wc_updatedAt c)"
  show ?thesis
  proof (cases ?accepted)
    case True
    then have "check_current x c = Inr ()" by (auto simp: check_current_Inr is_tombstone_def split: option.splits)
    then obtain a changes t where t: "write_memory hash digest s c = Inr (a, changes, t)"
      using assms(2,3) ts x by (auto simp: write_memory_def Let_def and_then_Inr find_replay_def)
    then obtain r reference where changed: "changed s (memory_locator ?i ?sc) (wc_idempotencyKey c) (memory_hash digest (write_command_value c)) (Active r) reference a t"
      "changes = [change_of a]" "r = new_active digest c ts (wc_expectedVersion c + 1)"
      using assms(3) ts by (cases rule: write_cases) (auto simp: replay_of_def)
    moreover have "get_memory t i sc = get_memory s i sc" if "i \<noteq> ?i \<or> sc \<noteq> ?sc" for i sc
    proof (cases "name_ok i \<and> scope_ok sc")
      case True
      then show ?thesis using locator_eq [OF _ names(1) _ names(2), of i sc] that changed_records [OF changed(1)]
        by (auto simp: get_memory_def)
    next
      case False
      then show ?thesis using get_memory_same by blast
    qed
    moreover have "get_memory t ?i ?sc = Inr (Some (Active r))" using names changed_records [OF changed(1)] by (simp add: get_memory_Inr)
    moreover have "mem_revision t = mem_revision s + 1" using changed(1) by (simp add: changed_def remember_result_def is_tombstone_def)
    ultimately show ?thesis using True t ts
      by (simp add: changed_def change_of_def)
  next
    case False
    then have "check_current x c \<noteq> Inr ()" unfolding check_current_Inr
      by (cases x; cases "the x") (auto simp: is_tombstone_def)
    then obtain message where "check_current x c = Inl (MemoryConflict message)" using check_current_refuses by blast
    then have "write_memory hash digest s c = Inl (MemoryConflict message)"
      using assms(2,3) x by (simp add: write_memory_def Let_def find_replay_def)
    then show ?thesis using False by simp
  qed
qed

text \<open>
  A write can be repeated. After an accepted write and any later use of the store that did not erase the record, the same
  call changes nothing, notifies nobody and returns the first answer as replayed; the key with another
  command is refused.\<close>

theorem repeated_write_is_replayed:
  assumes "memory_run hash digest empty_memory s" and "write_memory hash digest s c = Inr (a, changes, t)" and "memory_run hash digest t u"
    and "get_memory u (mi_id (wc_record c)) (mi_scope (wc_record c)) = Inr (Some (Active r))"
  shows "write_memory hash digest u c = Inr (a\<lparr>wr_replayed := True\<rparr>, [], u) \<and>
    (\<forall>d. validate_write_command hash d = Inr () \<longrightarrow> mi_id (wc_record d) = mi_id (wc_record c) \<longrightarrow> mi_scope (wc_record d) = mi_scope (wc_record c) \<longrightarrow>
       wc_idempotencyKey d = wc_idempotencyKey c \<longrightarrow>
       memory_hash digest (write_command_value d) \<noteq> memory_hash digest (write_command_value c) \<longrightarrow>
       write_memory hash digest u d = Inl (MemoryConflict ''Idempotency key was reused for a different memory command.''))"
proof -
  let ?L = "memory_locator (mi_id (wc_record c)) (mi_scope (wc_record c))" and ?f = "memory_hash digest (write_command_value c)"
  have t: "memory_ok hash digest t" using reachable_ok [OF assms(1)] step_ok write_step [OF assms(2)] by blast
  have valid: "validate_write_command hash c = Inr ()" using assms(2) by (auto simp: write_memory_def and_then_Inr)
  note names = validated_write(2,3) [OF valid]
  from assms(2) obtain b where "mem_idempotency t (idempotency_locator ?L (wc_idempotencyKey c)) = Some \<lparr>rp_fingerprint = ?f, rp_result = b\<rparr>" and
    b: "b\<lparr>wr_replayed := True\<rparr> = a\<lparr>wr_replayed := True\<rparr>"
    by (cases rule: write_cases) (auto simp: replay_of_def changed_def remember_result_def)
  then have "mem_idempotency u (idempotency_locator ?L (wc_idempotencyKey c)) = Some \<lparr>rp_fingerprint = ?f, rp_result = b\<rparr>"
    using answer_stays [OF assms(3) t names] assms(4) by (fastforce simp: get_memory_Inr)
  then show ?thesis using valid b by (simp add: write_memory_def Let_def find_replay_def)
qed

section \<open>One record written, found, repeated and erased\<close>

definition note_hash :: "string \<Rightarrow> string" where
  "note_hash v = replicate 64 CHR ''a''"

definition note_memory :: memory_input where
  "note_memory = \<lparr>mi_id = ''m'', mi_key = ''build'', mi_kind = ProjectMemory, mi_scope = \<lparr>scope_userId = ''u'', scope_projectId = ''p'', scope_missionId = None\<rparr>,
     mi_content = ''run make'', mi_tags = [''ci''], mi_sensitivity = InternalMemory,
     mi_provenance = \<lparr>pv_sourceClass = RepositorySource, pv_reference = ''Makefile'', pv_sourceVersion = ''1'',
       pv_observedAt = ''0000-01-01T00:00:01.000Z'', pv_contentHash = note_hash ''run make''\<rparr>, mi_expiresAt = None\<rparr>"

definition note_write :: write_command where
  "note_write = \<lparr>wc_expectedVersion = 0, wc_idempotencyKey = ''w'', wc_record = note_memory, wc_updatedAt = ''0000-01-01T00:00:02.000Z''\<rparr>"

definition note_erase :: tombstone_command where
  "note_erase = \<lparr>xc_expectedVersion = 1, xc_id = ''m'', xc_idempotencyKey = ''x'', xc_scope = mi_scope note_memory, xc_updatedAt = ''0000-01-01T00:00:03.000Z''\<rparr>"

definition note_query :: retrieval_query where
  "note_query = \<lparr>rq_userId = ''u'', rq_projectId = ''p'', rq_missionId = None, rq_kinds = [ProjectMemory], rq_text = ''How to make?'',
     rq_tags = None, rq_limit = 5, rq_evaluatedAt = ''0000-01-01T00:00:03.000Z''\<rparr>"

lemma note_instants:
  "instant_ok (wc_updatedAt note_write) \<and> instant_ok (pv_observedAt (mi_provenance note_memory)) \<and> instant_ok (xc_updatedAt note_erase) \<and>
   instant_ok (rq_evaluatedAt note_query)"
  "parse_timestamp (pv_observedAt (mi_provenance note_memory)) \<le> parse_timestamp (wc_updatedAt note_write)"
  "parse_timestamp (wc_updatedAt note_write) \<le> parse_timestamp (xc_updatedAt note_erase)"
  by code_simp+

lemma note_names:
  "name_ok (wc_idempotencyKey note_write)" "name_ok (mi_id note_memory)" "name_ok (mi_key note_memory)" "scope_ok (mi_scope note_memory)"
  "name_ok (pv_sourceVersion (mi_provenance note_memory))" "name_ok (xc_id note_erase)" "name_ok (xc_idempotencyKey note_erase)" "scope_ok (xc_scope note_erase)"
  "name_ok (rq_userId note_query)" "name_ok (rq_projectId note_query)"
  by (simp_all add: name_ok_def scope_ok_def note_write_def note_erase_def note_query_def note_memory_def blank_def js_space_def)

lemma note_tags: "normalize_tags (mi_tags note_memory) = Inr [''ci'']"
  by code_simp

lemma note_hash_pattern: "sha256_pattern (note_hash v)"
  by (simp add: note_hash_def sha256_pattern_def hex_char_def list_all_iff)

lemma note_write_valid: "validate_write_command note_hash note_write = Inr ()"
proof -
  have "wc_expectedVersion note_write = 0" "wc_record note_write = note_memory" "mi_kind note_memory = ProjectMemory" "mi_expiresAt note_memory = None"
    "pv_contentHash (mi_provenance note_memory) = note_hash (mi_content note_memory)" "\<not> blank (mi_content note_memory)"
    "length (mi_content note_memory) = 8" "memory_text (pv_reference (mi_provenance note_memory)) name 1000 = Inr ()" for name
    by (simp_all add: note_write_def note_memory_def blank_def js_space_def memory_text_def)
  then show ?thesis using note_instants note_names note_tags note_hash_pattern
    by (simp add: validate_write_command_def Let_def and_then_Inr refused_type_Inr memory_identifier_Inr validate_scope_Inr memory_timestamp_Inr
      memory_version_Inr safe_integer_def max_safe_integer_def)
qed

lemma note_erase_valid: "validate_tombstone_command note_erase = Inr ()"
proof -
  have "xc_expectedVersion note_erase = 1" by (simp add: note_erase_def)
  then show ?thesis using note_instants note_names
    by (simp add: validate_tombstone_command_def and_then_Inr refused_type_Inr memory_identifier_Inr validate_scope_Inr memory_timestamp_Inr
      memory_version_Inr safe_integer_def max_safe_integer_def)
qed

lemma note_query_valid: "validate_retrieval_query note_query = Inr ()" "normalize_tags (case rq_tags note_query of None \<Rightarrow> [] | Some ts \<Rightarrow> ts) = Inr []"
proof -
  have query: "rq_missionId note_query = None" "rq_kinds note_query = [ProjectMemory]" "length (rq_text note_query) = 12" "rq_tags note_query = None"
    "rq_limit note_query = 5" by (simp_all add: note_query_def)
  then show "normalize_tags (case rq_tags note_query of None \<Rightarrow> [] | Some ts \<Rightarrow> ts) = Inr []" by (simp add: normalize_tags_def)
  with query show "validate_retrieval_query note_query = Inr ()" using note_instants note_names
    by (simp add: validate_retrieval_query_def and_then_Inr refused_type_Inr memory_identifier_Inr memory_timestamp_Inr safe_integer_def max_safe_integer_def)
qed

definition note_record :: active_memory where
  "note_record = new_active (\<lambda>v. []) note_write [''ci''] 1"

definition note_answer :: write_result where
  "note_answer = \<lparr>wr_record = Active note_record, wr_replayed = False, wr_storeRevision = 1\<rparr>"

definition note_locator :: string where
  "note_locator = memory_locator ''m'' (mi_scope note_memory)"

definition note_state :: memory_state where
  "note_state = remember_result note_locator ''w'' [] note_answer
     (commit_memory note_locator (Active note_record) (revision_of (Active note_record) WrittenMemory ''Makefile'') empty_memory)"

lemma note_fields [simp]: "mi_id note_memory = ''m''" "wc_record note_write = note_memory" "wc_idempotencyKey note_write = ''w''" "wc_expectedVersion note_write = 0"
  "pv_reference (mi_provenance note_memory) = ''Makefile''" "xc_id note_erase = ''m''" "xc_scope note_erase = mi_scope note_memory"
  "xc_expectedVersion note_erase = 1"
  by (simp_all add: note_write_def note_memory_def note_erase_def)

lemma note_written:
  "write_memory note_hash (\<lambda>v. []) empty_memory note_write = Inr (note_answer, [change_of note_answer], note_state)"
  using note_write_valid note_tags
  by (simp add: write_memory_def Let_def find_replay_def empty_memory_def check_current_def note_state_def note_answer_def note_record_def
    note_locator_def memory_hash_def)

lemma note_run: "memory_run note_hash (\<lambda>v. []) empty_memory note_state"
  using one_more [OF no_step write_step [OF note_written]] .

lemma note_stored: "map_of (mem_records note_state) (memory_locator ''m'' (mi_scope note_memory)) = Some (Active note_record)"
  by (simp add: note_state_def remember_result_def commit_memory_def note_locator_def)

lemma note_get: "get_memory note_state ''m'' (mi_scope note_memory) = Inr (Some (Active note_record))"
  using note_stored note_names by (simp add: get_memory_Inr)

lemma note_erased:
  obtains a change t where "tombstone_memory (\<lambda>v. []) note_state note_erase = Inr (a, [change], t)"
proof -
  have "find_replay note_state (memory_locator ''m'' (mi_scope note_memory)) (xc_idempotencyKey note_erase) (memory_hash (\<lambda>v. []) v) = Inr None" for v
    using keyed_locator_eq [of "''m''" "''m''" "mi_scope note_memory" "mi_scope note_memory"] note_names
    by (simp add: find_replay_def note_state_def remember_result_def commit_memory_def note_locator_def empty_memory_def note_erase_def)
  moreover have "am_version note_record = 1" "am_updatedAt note_record = wc_updatedAt note_write" by (simp_all add: note_record_def)
  ultimately show thesis using that note_erase_valid note_stored note_instants
    by (simp add: tombstone_memory_def Let_def not_less [symmetric])
qed

lemma tombstone_erases_witness:
  "\<exists>(a :: write_result) t. get_memory t ''m'' (mi_scope note_memory) = Inr (Some (wr_record a)) \<and> (\<exists>x. wr_record a = Tombstoned x) \<and> get_memory t ''m'' (mi_scope note_memory) \<noteq>
    get_memory note_state ''m'' (mi_scope note_memory)"
proof -
  obtain a change t where t: "tombstone_memory (\<lambda>v. []) note_state note_erase = Inr (a, [change], t)" by (rule note_erased)
  from tombstone_erases [OF note_run t no_step] obtain x where x: "wr_record a = Tombstoned x" "get_memory t ''m'' (mi_scope note_memory) = Inr (Some (wr_record a))"
    by auto
  then have "get_memory t ''m'' (mi_scope note_memory) \<noteq> get_memory note_state ''m'' (mi_scope note_memory)" using note_get by simp
  with x show ?thesis by blast
qed

lemma memory_history_is_complete_witness:
  "\<exists>revs. memory_history note_state ''m'' (mi_scope note_memory) = Inr revs \<and> map mv_version revs = [1] \<and> mem_revision note_state = 1"
proof -
  have "am_version note_record = 1" "mem_records note_state = [(note_locator, Active note_record)]"
    by (simp_all add: note_record_def note_state_def remember_result_def commit_memory_def empty_memory_def)
  then show ?thesis using memory_history_is_complete [OF note_run note_get] by auto
qed

lemma note_tokens: "tokenize (rq_text note_query) = [''how'', ''to'', ''make'']" "tokenize (mi_content note_memory) = [''run'', ''make'']"
  "tokenize (mi_key note_memory) = [''build'']"
  by code_simp+

lemma note_relevant: "may_see note_query [] note_record \<and> relevant note_query [] note_record"
proof -
  have "am_expiresAt note_record = None" by (simp add: note_record_def new_active_def note_memory_def)
  then have "may_see note_query [] note_record"
    by (simp add: may_see_def note_record_def) (simp add: note_memory_def note_query_def)
  moreover have "score_record note_record [''how'', ''to'', ''make''] [] = 1"
    using note_tokens by (simp add: score_record_def note_record_def)
  ultimately show ?thesis using note_tokens by (simp add: relevant_def scored_def)
qed

lemma note_retrieved:
  obtains rs where "retrieve_memory code_unit_compare note_state note_query = Inr rs"
  using note_query_valid by (simp add: retrieve_memory_def Let_def)

lemma retrieval_is_exact_witness:
  "\<exists>rs. retrieve_memory code_unit_compare note_state note_query = Inr rs \<and> scored note_query [] note_record \<in> set rs"
proof -
  obtain rs where rs: "retrieve_memory code_unit_compare note_state note_query = Inr rs" by (rule note_retrieved)
  have ids: "am_id note_record = ''m''" "am_scope note_record = mi_scope note_memory" by (simp_all add: note_record_def)
  note exact = retrieval_is_exact [OF note_run code_units.comparator_axioms rs note_query_valid(2)]
  have "length rs \<le> 1"
    using rs note_query_valid retrieve_memory_Inr(1) [OF rs note_query_valid(2)]
    by (simp add: matches_of_def note_state_def remember_result_def commit_memory_def empty_memory_def List.map_filter_def)
  moreover have "rq_limit note_query = 5" by (simp add: note_query_def)
  ultimately show ?thesis using exact note_get note_relevant rs ids by auto
qed

lemma write_effect_witness:
  "\<exists>r t. write_memory note_hash (\<lambda>v. []) empty_memory note_write = Inr (\<lparr>wr_record = Active r, wr_replayed = False, wr_storeRevision = 1\<rparr>,
     [\<lparr>mc_id = ''m'', mc_scope = mi_scope note_memory, mc_storeRevision = 1\<rparr>], t) \<and> am_version r = 1 \<and>
     get_memory t ''m'' (mi_scope note_memory) = Inr (Some (Active r))"
proof -
  have "get_memory empty_memory ''m'' (mi_scope note_memory) = Inr None" using note_names by (simp add: get_memory_Inr empty_memory_def)
  moreover have "mem_idempotency empty_memory k = None" "mem_revision empty_memory = 0" for k by (simp_all add: empty_memory_def)
  ultimately show ?thesis using write_effect [OF no_step [of note_hash "\<lambda>v. []"] note_write_valid, of None] by force
qed

lemma repeated_write_is_replayed_witness:
  "write_memory note_hash (\<lambda>v. []) note_state note_write = Inr (note_answer\<lparr>wr_replayed := True\<rparr>, [], note_state)"
  using repeated_write_is_replayed [OF no_step note_written no_step] note_get by simp

end
