(* ===== verification/Spec2Isabelle.thy ===== *)
theory Spec2Isabelle
  imports MissionProperties ToolProperties DurableProperties DurableStoreProperties RunnerProperties ReliabilityProperties CoordinationProperties VerificationProperties ClientProperties MemoryProperties
begin

text \<open>
  Odin's runtime core, translated from the TypeScript under \<open>src/\<close>.

  The program. A mission is a list of guarded events; its state is their projection. The mission runtime
  appends the events to an event store, which is either the in-memory one or the SQLite one. Tasks of a
  mission become jobs of the durable queue, which workers claim under leases; the runner executes a claimed
  job while it keeps the lease alive. Tools run behind a schema check, a capability policy and an audit
  log. The coordinator hands the runnable tasks of a mission to specialists, with leases on what each of
  them may read or write, and reconciles what they propose. Claims about the result are verified against
  evidence and reviewed before the gate opens. Failures are classified and turned into a recovery decision.
  Clients follow a mission by pages of its lifecycle events and command it through the gateway. What a mission
  learnt is kept in the memory store, from which it is retrieved by scope and words, and can be erased.

  Which theory models what.

  \<^item> \<open>Prelude\<close>, \<open>Json\<close>, \<open>IsoTime\<close>, \<open>TimestampText\<close>: what the components share. A throwing operation is a
    sum (\<open>Inl\<close> the error), a property read on a plain object finds inherited names (\<open>js_get\<close>), \<open>sort\<close> is
    the stable \<open>js_sort\<close> of a comparator, \<open>localeCompare\<close> is a parameter \<open>lc\<close> wherever the source calls
    it, JSON values are \<open>json\<close>, and \<open>Date.parse\<close> and \<open>toISOString\<close> are functions on proleptic
    Gregorian dates with the proof that the years 0 to 9999 survive being written and read.
  \<^item> \<open>TaskGraph\<close>, \<open>Mission\<close>, \<open>Checkpoint\<close>, \<open>EventStore\<close>, \<open>MissionRuntime\<close> (\<open>src/mission/\<close>,
    \<open>src/events/store.ts\<close>): \<open>task_graph\<close> checks, \<open>apply_event\<close> and \<open>project\<close>, budgets, failure counts, the
    in-memory store with its idempotency records, and every method of \<open>MissionRuntime\<close> over any store that
    satisfies the locale \<open>mission_event_store\<close>. \<open>MissionInvariants\<close> and \<open>MissionFacts\<close> hold the snapshot
    invariant and the facts about whole histories, \<open>MissionProperties\<close> the properties.
  \<^item> \<open>ToolSchema\<close>, \<open>ToolRegistry\<close>, \<open>ToolPolicy\<close>, \<open>ToolRuntime\<close> (\<open>src/tools/\<close>): schema validation over JSON
    values, manifests, grants with their counts, and one \<open>execute\<close> call with retries, timeouts, replay of
    keyed calls and audit records. \<open>ToolExecution\<close> proves what it guarantees from the interfaces
    \<open>capability_policy\<close> and \<open>audit_log\<close>, which \<open>ToolPolicy\<close> and the in-memory sink satisfy.
  \<^item> \<open>DurableInternal\<close>, \<open>DurableJobs\<close>, \<open>DurableQueue\<close> (\<open>src/durable/store.ts\<close>, \<open>internal.ts\<close>, \<open>types.ts\<close>): the
    job tables as lists of typed rows and every queue operation as one function of the tables, as each is
    one transaction. \<open>DurableMachine\<close> is the abstract state machine of a job, \<open>DurableSteps\<close> and
    \<open>DurableSettle\<close> show that every operation is a sequence of its steps, \<open>DurableProperties\<close> derives
    fencing, final states, cancellation, order and liveness of claims.
  \<^item> \<open>MissionCodec\<close>, \<open>DurableEvents\<close>, \<open>DurableCheckpoints\<close> (\<open>src/durable/mission-codec.ts\<close> and the other half
    of \<open>store.ts\<close>): stored events as JSON texts, appended, decoded and compared; checkpoints. The SQLite
    store interprets the same event store locale as the in-memory one.
  \<^item> \<open>DurableRunner\<close>, \<open>RunnerProperties\<close> (\<open>src/durable/runner.ts\<close>): \<open>runNext\<close> and \<open>drain\<close>; timers and promises are
    the events of a run, in any order.
  \<^item> \<open>Reliability\<close>, \<open>ReliabilityProperties\<close> (\<open>src/reliability/\<close>): classification and recovery decisions.
  \<^item> \<open>Coordination\<close>, \<open>Specialists\<close>, \<open>Coordinator\<close> (\<open>src/coordination/\<close>): claims and their conflicts, profiles,
    proposals and reconciliations, planning and execution. \<open>CoordinationMachine\<close> is the coordinator as a
    step relation over its public operations and the answers of workers, in any interleaving;
    \<open>CoordinationPlanning\<close> and \<open>CoordinationRuns\<close> prove its invariant, \<open>CoordinationProperties\<close> the properties.
  \<^item> \<open>Verification\<close>, \<open>VerificationEngine\<close> (\<open>src/verification/\<close>): claims, evidence and their bindings, the
    findings of a request, the built-in reviewer, and the gate that accepts, repairs or blocks.
    \<open>VerificationFacts\<close> relates the indexes and sorted findings to what they index,
    \<open>VerificationProperties\<close> compares the engine with a direct reading of what a request in order is.
  \<^item> \<open>ClientProtocol\<close>, \<open>ClientResponses\<close>, \<open>ClientControl\<close> (\<open>src/client/\<close>): the decoders of the protocol, the reducer
    a client keeps its state with, and the gateway with its capability grants and mission commands over any
    event store. \<open>ReducerFacts\<close> holds the reducer's invariant, \<open>ClientFacts\<close> decides for each decoder which
    values it returns unchanged, \<open>CommandFacts\<close> proves in the locale \<open>mission_event_store\<close> what a command and its
    repetition do, \<open>GatewayFacts\<close> and \<open>ClientProperties\<close> join the gateway with the client and the store.
  \<^item> \<open>Memory\<close>, \<open>MemoryStore\<close> (\<open>src/memory/types.ts\<close>, \<open>store.ts\<close>): validation, locators, writes and erasures
    under optimistic versions and idempotency keys, history, scored retrieval. \<open>MemoryFacts\<close> proves that
    locators tell records apart and the invariant of every run of the store, \<open>MemoryProperties\<close> that erased
    content stays away, that history is complete, writes are replayed and retrieval is exact.

  Conventions. Where the source checks \<open>Number.isSafeInteger\<close> before it uses a number, the number is an
  \<open>int\<close> and the check is written out; other JSON numbers are rationals. Strings are lists of characters.
  Maps whose order is never observed are functions to options, those that are iterated are lists in
  insertion order. Objects that are frozen or cloned before they are handed out are values.

  Parameters. What is not code of the repository is an argument of the definitions: SHA-256 of a JSON
  value (\<open>digest\<close>, \<open>hash_text\<close>, \<open>fingerprint\<close>), the text of a JSON value and its inverse (the records
  \<open>env\<close>), random tokens, \<open>Date.parse\<close> of arbitrary text in the tool policy (\<open>dp\<close>), \<open>localeCompare\<close>
  (\<open>lc\<close>), the clock, tool handlers, job handlers, workers, reviewers, the evidence authority and the
  activity and verification sources of the gateway. A property that needs more than a function of the right
  type says so: collision freedom is only ever assumed on the finitely many values that a run or a request hashes, and each such property has a concrete run as its instance.

  Termination and bounds. Every function is total; recursion is structural or has a proved measure
  (schema nesting, the wait loop of the topological sort, the words of a text). Runs of any length are the inductive step
  relations, so no fuel is chosen anywhere; \<open>drain\<close> is bounded by its own \<open>maxRuns\<close>.

  Findings. Property lookups on plain objects find inherited names in three places: a failure signature
  named like a member of \<open>Object.prototype\<close> escapes the failure ceiling, a required schema property of such a
  name is satisfied by any input, and a reason code of such a name breaks the classification. SQL compares
  timestamps as texts, which misorders years outside 0 to 9999. Evidence that is bound to no claim can make
  the built-in reviewer ask for a repair that the engine refuses. The gateway joins session and idempotency
  key with a colon, which two sessions can make the same key.

  Not modelled. The SQLite engine, files, processes, HTTP and the DOM: the durable components start from
  typed rows and a transaction either happens or leaves the tables as they were. Sandboxes, providers,
  repository and GitHub tools, the chat product and the web client are mostly such input
  and output. Listeners of the memory store are left out, as what they throw is swallowed. Routing, context compilation, skills, learning and evaluations are policies around the core.
\<close>

end
